(* ===== verification/Prelude.thy ===== *)
theory Prelude
  imports Main
begin

text \<open>
  What the components share: text as Go sees it after a conversion to runes, the two
  character classes of package \<^verbatim>\<open>unicode\<close> the sources use, \<^verbatim>\<open>numeric.Clamp\<close>, the
  rectangles of package \<^verbatim>\<open>component\<close>, the joining of lines, and a contract for
  components driven by events (\<open>event_machine\<close>), with lemma collections.

  Conventions of the whole development. A Go \<^verbatim>\<open>int\<close> that only counts or indexes
  (cursor, offset, number of rows) is an \<open>int\<close> or a \<open>nat\<close> without wrap-around: these
  values are bounded by the size of data in memory. Integers whose width the code relies
  on (frame lengths, query ids, size sums) are words. A value of a third-party function
  (display width of a string, fuzzy ranking, a compiled jq program) is a parameter.
\<close>

named_theorems wf_intros \<open>operations keep the well-formedness invariant of their component\<close>
named_theorems frame_simps \<open>fields an operation leaves alone\<close>

section \<open>Text\<close>

text \<open>A rune is a Unicode code point; a \<^verbatim>\<open>[]rune\<close> (and a string seen as runes) is a list.\<close>

type_synonym rune = nat
type_synonym runes = "rune list"

abbreviation NL :: rune where "NL \<equiv> 10"
abbreviation SP :: rune where "SP \<equiv> 32"

text \<open>\<^verbatim>\<open>unicode.IsControl\<close>: category Cc.\<close>

definition is_control :: "rune \<Rightarrow> bool" where
  "is_control r \<longleftrightarrow> r < 32 \<or> (127 \<le> r \<and> r < 160)"

text \<open>\<^verbatim>\<open>unicode.IsSpace\<close>: the Latin-1 cases and the White_Space property beyond them.\<close>

definition is_space :: "rune \<Rightarrow> bool" where
  "is_space r \<longleftrightarrow> (9 \<le> r \<and> r \<le> 13) \<or> r = 32 \<or> r = 133 \<or> r = 160
     \<or> r = 5760 \<or> (8192 \<le> r \<and> r \<le> 8202) \<or> r = 8232 \<or> r = 8233 \<or> r = 8239
     \<or> r = 8287 \<or> r = 12288"

lemma SP_is_space [simp]: "is_space SP"
  by (simp add: is_space_def)

text \<open>\<^verbatim>\<open>strings.Join(lines, "\n")\<close> and \<^verbatim>\<open>strings.Split(s, "\n")\<close> on runes.\<close>

fun join_lines :: "runes list \<Rightarrow> runes" where
  "join_lines [] = []"
| "join_lines [l] = l"
| "join_lines (l # ls) = l @ NL # join_lines ls"

fun split_lines :: "runes \<Rightarrow> runes list" where
  "split_lines [] = [[]]"
| "split_lines (r # rs) =
     (if r = NL then [] # split_lines rs
      else (case split_lines rs of l # ls \<Rightarrow> (r # l) # ls | [] \<Rightarrow> [[r]]))"

lemma split_lines_neq_Nil [simp]: "split_lines s \<noteq> []"
  by (induction s) (auto split: list.splits)

lemma join_lines_Cons: "ls \<noteq> [] \<Longrightarrow> join_lines (l # ls) = l @ NL # join_lines ls"
  by (cases ls) auto

lemma join_split_lines [simp]: "join_lines (split_lines s) = s"
proof (induction s)
  case (Cons r rs)
  obtain l ls where "split_lines rs = l # ls"
    by (cases "split_lines rs") auto
  with Cons show ?case by (cases ls) (auto simp: join_lines_Cons)
qed simp

lemma split_lines_no_NL: "l \<in> set (split_lines s) \<Longrightarrow> NL \<notin> set l"
  by (induction s arbitrary: l) (auto split: if_splits list.splits)

lemma split_join_lines:
  assumes "ls \<noteq> []" "\<forall>l \<in> set ls. NL \<notin> set l"
  shows "split_lines (join_lines ls) = ls"
proof -
  have app: "split_lines (l @ NL # s) = l # split_lines s" if "NL \<notin> set l" for l s
    using that by (induction l) auto
  have one: "split_lines l = [l]" if "NL \<notin> set l" for l
    using that by (induction l) auto
  show ?thesis
    using assms by (induction ls rule: join_lines.induct) (auto simp: app one)
qed

lemma join_lines_append:
  "xs \<noteq> [] \<Longrightarrow> ys \<noteq> [] \<Longrightarrow> join_lines (xs @ ys) = join_lines xs @ NL # join_lines ys"
  by (induction xs rule: join_lines.induct) (auto simp: join_lines_Cons)

section \<open>Numbers\<close>

text \<open>\<^verbatim>\<open>numeric.Clamp\<close>.\<close>

definition clamp :: "int \<Rightarrow> int \<Rightarrow> int \<Rightarrow> int" where
  "clamp v low high = max (min v high) low"

lemma clamp_bounds: "low \<le> high \<Longrightarrow> low \<le> clamp v low high \<and> clamp v low high \<le> high"
  by (simp add: clamp_def)

lemma clamp_low: "low \<le> clamp v low high"
  by (simp add: clamp_def)

lemma clamp_id: "low \<le> v \<Longrightarrow> v \<le> high \<Longrightarrow> clamp v low high = v"
  by (simp add: clamp_def)

section \<open>Rectangles\<close>

text \<open>\<^verbatim>\<open>component.Rect\<close>: absolute screen cells.\<close>

record rect =
  rect_x :: int
  rect_y :: int
  rect_w :: int
  rect_h :: int

section \<open>Key presses\<close>

text \<open>
  The parts of \<^verbatim>\<open>uv.KeyPressEvent\<close> the widgets read: the key code (the named keys
  they test, or the rune of any other key), the Alt and Ctrl modifier bits and the text.
\<close>

datatype key_code =
    KeyLeft | KeyRight | KeyUp | KeyDown | KeyHome | KeyEnd
  | KeyBackspace | KeyDelete | KeyEnter | KeyRune rune

record key_event =
  k_code :: key_code
  k_alt :: bool
  k_ctrl :: bool
  k_text :: runes

section \<open>Components driven by events\<close>

text \<open>
  Every interactive component is a state with one step per event, and its correctness
  starts with an invariant that each step keeps. The contract is stated once; a component
  interprets it on its own step function and gets the statement about whole runs.
\<close>

locale event_machine =
  fixes inv :: "'s \<Rightarrow> bool"
    and step :: "'e \<Rightarrow> 's \<Rightarrow> 's"
  assumes step_inv: "inv s \<Longrightarrow> inv (step e s)"
begin

lemma run_inv: "inv s \<Longrightarrow> inv (fold step es s)"
  by (induction es arbitrary: s) (auto simp: step_inv)

lemma prefix_inv: "inv s \<Longrightarrow> inv (fold step (take n es) s)"
  by (rule run_inv)

end

section \<open>Lists\<close>

lemma take_drop_nth: "i < length xs \<Longrightarrow> xs = take i xs @ xs ! i # drop (Suc i) xs"
  by (simp add: id_take_nth_drop)

lemma sum_list_take_le: "sum_list (take n (xs :: nat list)) \<le> sum_list xs"
proof -
  have "sum_list (take n xs) + sum_list (drop n xs) = sum_list xs"
    by (metis append_take_drop_id sum_list_append)
  then show ?thesis by simp
qed

lemma concat_map_take_nth:
  assumes "i < length xs" "j < length (f (xs ! i))"
  shows "concat (map f xs) ! (length (concat (map f (take i xs))) + j) = f (xs ! i) ! j"
    and "length (concat (map f (take i xs))) + j < length (concat (map f xs))"
proof -
  have "concat (map f xs) = concat (map f (take i xs)) @ f (xs ! i) @ concat (map f (drop (Suc i) xs))"
    using assms(1) by (subst take_drop_nth [of i xs]) simp_all
  then show "concat (map f xs) ! (length (concat (map f (take i xs))) + j) = f (xs ! i) ! j"
    and "length (concat (map f (take i xs))) + j < length (concat (map f xs))"
    using assms(2) by (simp_all add: nth_append)
qed

end
