(* ===== verification/Editor_Wrap.thy ===== *)
theory Editor_Wrap
  imports Prelude
begin

text \<open>
  The soft wrap of the query editor, \<^verbatim>\<open>internal/ui/components/uieditor/wrap.go\<close>:
  the state of the loop of \<open>wrapLine\<close>, its body, and the whole function. The display
  widths \<^verbatim>\<open>uniseg.StringWidth\<close> (\<open>sw\<close>) and \<^verbatim>\<open>runewidth.RuneWidth\<close>
  (\<open>rw\<close>) are library functions and stay parameters; every lemma holds for all of them.
  The lemmas show that wrapping loses no text: the segments concatenate to the line with
  its white space shown as blanks, and one trailing blank for the cursor.
\<close>

section \<open>The wrap loop\<close>

record wrap_state =
  w_lines :: "runes list"
  w_word :: runes
  w_row :: nat
  w_spaces :: nat

definition wrap_init :: wrap_state where
  "wrap_init = \<lparr>w_lines = [[]], w_word = [], w_row = 0, w_spaces = 0\<rparr>"

definition append_line :: "runes list \<Rightarrow> nat \<Rightarrow> runes \<Rightarrow> runes list" where
  "append_line ls i xs = ls[i := ls ! i @ xs]"

text \<open>One iteration of \<^verbatim>\<open>for _, r := range runes\<close>.\<close>

definition wrap_step :: "(runes \<Rightarrow> nat) \<Rightarrow> (rune \<Rightarrow> nat) \<Rightarrow> int \<Rightarrow> rune \<Rightarrow> wrap_state \<Rightarrow> wrap_state" where
  "wrap_step sw rw width r st =
     (let st1 = (if is_space r then st\<lparr>w_spaces := w_spaces st + 1\<rparr>
                 else st\<lparr>w_word := w_word st @ [r]\<rparr>);
          lines = w_lines st1; word = w_word st1; row = w_row st1; spaces = w_spaces st1
      in if spaces > 0 then
           if int (sw (lines ! row) + sw word + spaces) > width
           then st1\<lparr>w_row := row + 1,
                    w_lines := append_line (lines @ [[]]) (row + 1) (word @ replicate spaces SP),
                    w_spaces := 0, w_word := []\<rparr>
           else st1\<lparr>w_lines := append_line lines row (word @ replicate spaces SP),
                    w_spaces := 0, w_word := []\<rparr>
         else
           let lastCharLen = rw (last word)
           in if int (sw word + lastCharLen) > width then
                if length (lines ! row) > 0
                then st1\<lparr>w_row := row + 1,
                         w_lines := append_line (lines @ [[]]) (row + 1) word, w_word := []\<rparr>
                else st1\<lparr>w_lines := append_line lines row word, w_word := []\<rparr>
              else st1)"

definition wrap_finish :: "(runes \<Rightarrow> nat) \<Rightarrow> int \<Rightarrow> wrap_state \<Rightarrow> runes list" where
  "wrap_finish sw width st =
     (let lines = w_lines st; word = w_word st; row = w_row st; spaces = w_spaces st
      in if int (sw (lines ! row) + sw word + spaces) \<ge> width
         then append_line (lines @ [[]]) (row + 1) (word @ replicate (spaces + 1) SP)
         else append_line lines row (word @ replicate (spaces + 1) SP))"

definition wrapLine :: "(runes \<Rightarrow> nat) \<Rightarrow> (rune \<Rightarrow> nat) \<Rightarrow> runes \<Rightarrow> int \<Rightarrow> runes list" where
  "wrapLine sw rw line width = wrap_finish sw width (fold (wrap_step sw rw width) line wrap_init)"

section \<open>Wrapping keeps the text\<close>

text \<open>How the display shows a rune: white space is a blank.\<close>

definition shown :: "rune \<Rightarrow> rune" where
  "shown r = (if is_space r then SP else r)"

definition wrap_inv :: "wrap_state \<Rightarrow> bool" where
  "wrap_inv st \<longleftrightarrow> length (w_lines st) = w_row st + 1 \<and> w_spaces st = 0
     \<and> (\<forall>r \<in> set (w_word st). \<not> is_space r)"

definition wrap_text :: "wrap_state \<Rightarrow> runes" where
  "wrap_text st = concat (w_lines st) @ w_word st"

lemma concat_append_line_last:
  "length ls = n + 1 \<Longrightarrow> concat (append_line ls n xs) = concat ls @ xs"
  by (cases ls rule: rev_cases) (auto simp: append_line_def nth_append list_update_append)

lemma concat_append_line_new:
  "length ls = n + 1 \<Longrightarrow> concat (append_line (ls @ [[]]) (Suc n) xs) = concat ls @ xs"
  by (auto simp: append_line_def nth_append list_update_append)

lemma length_append_line [simp]: "length (append_line ls i xs) = length ls"
  by (simp add: append_line_def)

lemmas append_line_facts = concat_append_line_last concat_append_line_new

lemma wrap_init_inv: "wrap_inv wrap_init"
  by (simp add: wrap_inv_def wrap_init_def)

lemma wrap_step_inv: "wrap_inv st \<Longrightarrow> wrap_inv (wrap_step sw rw width r st)"
  by (auto simp: wrap_inv_def wrap_step_def Let_def)

lemma wrap_step_text:
  "wrap_inv st \<Longrightarrow> wrap_text (wrap_step sw rw width r st) = wrap_text st @ [shown r]"
  by (auto simp: wrap_inv_def wrap_step_def wrap_text_def shown_def Let_def append_line_facts)

interpretation wrap_loop: event_machine wrap_inv "wrap_step sw rw width" for sw rw width
  by unfold_locales (rule wrap_step_inv)

lemma wrap_fold_text:
  "wrap_inv st \<Longrightarrow>
     wrap_text (fold (wrap_step sw rw width) line st) = wrap_text st @ map shown line"
  by (induction line arbitrary: st) (auto simp: wrap_step_inv wrap_step_text)

lemma concat_wrapLine: "concat (wrapLine sw rw line width) = map shown line @ [SP]"
proof -
  let ?st = "fold (wrap_step sw rw width) line wrap_init"
  have "wrap_inv ?st"
    by (rule wrap_loop.run_inv) (rule wrap_init_inv)
  moreover have "wrap_text ?st = map shown line"
    by (simp add: wrap_fold_text wrap_init_inv) (simp add: wrap_text_def wrap_init_def)
  ultimately show ?thesis
    by (auto simp: wrapLine_def wrap_finish_def wrap_text_def wrap_inv_def Let_def append_line_facts)
qed

lemma wrapLine_neq_Nil [simp]: "wrapLine sw rw line width \<noteq> []"
  using concat_wrapLine [of sw rw line width] by auto

lemma sum_length_wrapLine [simp]:
  "sum_list (map length (wrapLine sw rw line width)) = length line + 1"
  using arg_cong [OF concat_wrapLine, of length] by (simp add: length_concat)

lemma length_wrapLine_pos [simp]: "0 < length (wrapLine sw rw line width)"
  by simp

end
