(* ===== verification/Uieditor.thy ===== *)
theory Uieditor
  imports Editor_Wrap
begin

text \<open>
  The multi-line editor, \<^verbatim>\<open>internal/ui/components/uieditor\<close> (uieditor.go, editing.go):
  the \<open>editor\<close> record is the Go struct, one definition per method. Line slices are values
  here: no two lines of \<^verbatim>\<open>e.value\<close> share spare capacity the code writes to
  (\<open>insertString\<close> copies head and tail), so the in-place \<^verbatim>\<open>append\<close> calls are list
  updates. The lemmas give the invariant of the cursor and the scroll offset, the agreement of
  cursor and display lines, and a refinement to a text with a position.
\<close>

section \<open>State\<close>

record editor =
  e_value :: "runes list"
  e_row :: nat
  e_col :: nat
  e_width :: int
  e_height :: int
  e_yOffset :: int
  e_prompt :: runes
  e_placeholder :: runes
  e_focused :: bool

record line_info =
  li_RowOffset :: nat
  li_CharOffset :: nat

record display_line =
  dl_Runes :: runes
  dl_LogicalIdx :: nat
  dl_ColWidth :: nat
  dl_StartCol :: nat

definition ed_New :: editor where
  "ed_New = \<lparr>e_value = [[]], e_row = 0, e_col = 0, e_width = 1, e_height = 1, e_yOffset = 0,
             e_prompt = [], e_placeholder = [], e_focused = False\<rparr>"

definition ed_Value :: "editor \<Rightarrow> runes" where
  "ed_Value e = join_lines (e_value e)"

definition cur_line :: "editor \<Rightarrow> runes" where
  "cur_line e = e_value e ! e_row e"

section \<open>Display lines and the cursor's place in them\<close>

definition wrapRow :: "(runes \<Rightarrow> nat) \<Rightarrow> (rune \<Rightarrow> nat) \<Rightarrow> editor \<Rightarrow> nat \<Rightarrow> runes list" where
  "wrapRow sw rw e row = wrapLine sw rw (e_value e ! row) (e_width e)"

fun segment_lines :: "(runes \<Rightarrow> nat) \<Rightarrow> nat \<Rightarrow> nat \<Rightarrow> nat \<Rightarrow> runes list \<Rightarrow> display_line list" where
  "segment_lines sw li colWidth startCol [] = []"
| "segment_lines sw li colWidth startCol (seg # grid) =
     \<lparr>dl_Runes = seg, dl_LogicalIdx = li, dl_ColWidth = colWidth, dl_StartCol = startCol\<rparr>
     # segment_lines sw li (colWidth + sw seg) (startCol + length seg) grid"

definition row_display :: "(runes \<Rightarrow> nat) \<Rightarrow> (rune \<Rightarrow> nat) \<Rightarrow> editor \<Rightarrow> nat \<Rightarrow> display_line list" where
  "row_display sw rw e li = segment_lines sw li 0 0 (wrapRow sw rw e li)"

definition DisplayLines :: "(runes \<Rightarrow> nat) \<Rightarrow> (rune \<Rightarrow> nat) \<Rightarrow> editor \<Rightarrow> display_line list" where
  "DisplayLines sw rw e = concat (map (row_display sw rw e) [0..<length (e_value e)])"

fun line_info_loop :: "(runes \<Rightarrow> nat) \<Rightarrow> nat \<Rightarrow> nat \<Rightarrow> nat \<Rightarrow> runes list \<Rightarrow> line_info" where
  "line_info_loop sw col counter i [] = \<lparr>li_RowOffset = 0, li_CharOffset = 0\<rparr>"
| "line_info_loop sw col counter i (line # grid) =
     (if counter + length line = col \<and> grid \<noteq> [] then \<lparr>li_RowOffset = i + 1, li_CharOffset = 0\<rparr>
      else if counter + length line \<ge> col
      then \<lparr>li_RowOffset = i, li_CharOffset = sw (take (col - counter) line)\<rparr>
      else line_info_loop sw col (counter + length line) (i + 1) grid)"

definition LineInfo :: "(runes \<Rightarrow> nat) \<Rightarrow> (rune \<Rightarrow> nat) \<Rightarrow> editor \<Rightarrow> line_info" where
  "LineInfo sw rw e = line_info_loop sw (e_col e) 0 0 (wrapRow sw rw e (e_row e))"

definition CursorDisplayLine :: "(runes \<Rightarrow> nat) \<Rightarrow> (rune \<Rightarrow> nat) \<Rightarrow> editor \<Rightarrow> nat" where
  "CursorDisplayLine sw rw e =
     sum_list (map (\<lambda>i. length (wrapRow sw rw e i)) [0..<e_row e]) + li_RowOffset (LineInfo sw rw e)"

section \<open>Scrolling\<close>

definition clampScroll :: "(runes \<Rightarrow> nat) \<Rightarrow> (rune \<Rightarrow> nat) \<Rightarrow> editor \<Rightarrow> editor" where
  "clampScroll sw rw e =
     (let maxOff = max (int (length (DisplayLines sw rw e)) - e_height e) 0
      in e\<lparr>e_yOffset := min (max (e_yOffset e) 0) maxOff\<rparr>)"

definition repositionView :: "(runes \<Rightarrow> nat) \<Rightarrow> (rune \<Rightarrow> nat) \<Rightarrow> editor \<Rightarrow> editor" where
  "repositionView sw rw e =
     (let cur = int (CursorDisplayLine sw rw e)
      in clampScroll sw rw
          (if cur < e_yOffset e then e\<lparr>e_yOffset := cur\<rparr>
           else if cur > e_yOffset e + e_height e - 1 then e\<lparr>e_yOffset := cur - e_height e + 1\<rparr>
           else e))"

definition ed_SetWidth :: "(runes \<Rightarrow> nat) \<Rightarrow> (rune \<Rightarrow> nat) \<Rightarrow> int \<Rightarrow> editor \<Rightarrow> editor" where
  "ed_SetWidth sw rw w e = repositionView sw rw (e\<lparr>e_width := if w < 1 then 1 else w\<rparr>)"

definition ed_SetHeight :: "(runes \<Rightarrow> nat) \<Rightarrow> (rune \<Rightarrow> nat) \<Rightarrow> int \<Rightarrow> editor \<Rightarrow> editor" where
  "ed_SetHeight sw rw h e = repositionView sw rw (e\<lparr>e_height := if h < 1 then 1 else h\<rparr>)"

text \<open>The display-to-logical walk over the runes of a segment.\<close>

fun place_walk :: "(runes \<Rightarrow> nat) \<Rightarrow> runes \<Rightarrow> nat \<Rightarrow> int \<Rightarrow> nat \<Rightarrow> nat" where
  "place_walk sw [] w wantX col = col"
| "place_walk sw (r # rs) w wantX col =
     (if int (w + sw [r]) > wantX then col else place_walk sw rs (w + sw [r]) wantX (col + 1))"

definition placeAtDisplayLine :: "(runes \<Rightarrow> nat) \<Rightarrow> display_line \<Rightarrow> int \<Rightarrow> editor \<Rightarrow> editor" where
  "placeAtDisplayLine sw dl wantX e =
     (let e1 = e\<lparr>e_row := dl_LogicalIdx dl\<rparr>;
          col = place_walk sw (dl_Runes dl) 0 wantX (dl_StartCol dl)
      in e1\<lparr>e_col := min col (length (cur_line e1))\<rparr>)"

definition SetCursorAtDisplay ::
    "(runes \<Rightarrow> nat) \<Rightarrow> (rune \<Rightarrow> nat) \<Rightarrow> int \<Rightarrow> int \<Rightarrow> editor \<Rightarrow> editor" where
  "SetCursorAtDisplay sw rw x y e =
     (let dls = DisplayLines sw rw e
      in if dls = [] then e
         else let idx = min (max (e_yOffset e + y) 0) (int (length dls) - 1);
                  wantX = max (x - int (sw (e_prompt e))) 0
              in repositionView sw rw (placeAtDisplayLine sw (dls ! nat idx) wantX e))"

definition ed_ScrollViewport :: "(runes \<Rightarrow> nat) \<Rightarrow> (rune \<Rightarrow> nat) \<Rightarrow> int \<Rightarrow> editor \<Rightarrow> editor" where
  "ed_ScrollViewport sw rw n e =
     (if n = 0 then e
      else let dls = DisplayLines sw rw e
      in if dls = [] then e
         else let maxOff = max (int (length dls) - e_height e) 0;
                  e1 = e\<lparr>e_yOffset := min (max (e_yOffset e + n) 0) maxOff\<rparr>;
                  cur = int (CursorDisplayLine sw rw e1);
                  wantX = int (li_CharOffset (LineInfo sw rw e1))
              in if cur < e_yOffset e1 then placeAtDisplayLine sw (dls ! nat (e_yOffset e1)) wantX e1
                 else if cur > e_yOffset e1 + e_height e1 - 1
                 then let bottom = min (e_yOffset e1 + e_height e1 - 1) (int (length dls) - 1)
                      in placeAtDisplayLine sw (dls ! nat bottom) wantX e1
                 else e1)"

section \<open>Insertion\<close>

text \<open>\<^verbatim>\<open>sanitize\<close> drops control runes other than the newline.\<close>

definition sanitize :: "runes \<Rightarrow> runes" where
  "sanitize s = filter (\<lambda>r. \<not> (r \<noteq> NL \<and> is_control r)) s"

definition insertString :: "(runes \<Rightarrow> nat) \<Rightarrow> (rune \<Rightarrow> nat) \<Rightarrow> runes \<Rightarrow> editor \<Rightarrow> editor" where
  "insertString sw rw s0 e =
     (let s = sanitize s0
      in if s = [] then e
         else let parts = split_lines s;
                  line = cur_line e;
                  head = take (e_col e) line;
                  tail = drop (e_col e) line;
                  newLines = parts[0 := head @ parts ! 0];
                  last = length newLines - 1;
                  col = length (newLines ! last);
                  newLines = newLines[last := newLines ! last @ tail];
                  rebuilt = take (e_row e) (e_value e) @ newLines @ drop (e_row e + 1) (e_value e)
              in repositionView sw rw (e\<lparr>e_col := col, e_value := rebuilt, e_row := e_row e + last\<rparr>))"

definition ed_SetValue :: "(runes \<Rightarrow> nat) \<Rightarrow> (rune \<Rightarrow> nat) \<Rightarrow> runes \<Rightarrow> editor \<Rightarrow> editor" where
  "ed_SetValue sw rw s e =
     insertString sw rw s (e\<lparr>e_value := [[]], e_row := 0, e_col := 0, e_yOffset := 0\<rparr>)"

section \<open>Motion\<close>

definition characterLeft :: "(runes \<Rightarrow> nat) \<Rightarrow> (rune \<Rightarrow> nat) \<Rightarrow> editor \<Rightarrow> editor" where
  "characterLeft sw rw e = repositionView sw rw
     (if e_col e > 0 then e\<lparr>e_col := e_col e - 1\<rparr>
      else if e_row e > 0
      then e\<lparr>e_row := e_row e - 1, e_col := length (e_value e ! (e_row e - 1))\<rparr>
      else e)"

definition characterRight :: "(runes \<Rightarrow> nat) \<Rightarrow> (rune \<Rightarrow> nat) \<Rightarrow> editor \<Rightarrow> editor" where
  "characterRight sw rw e = repositionView sw rw
     (if e_col e < length (cur_line e) then e\<lparr>e_col := e_col e + 1\<rparr>
      else if e_row e + 1 < length (e_value e) then e\<lparr>e_row := e_row e + 1, e_col := 0\<rparr>
      else e)"

definition lineStart :: "(runes \<Rightarrow> nat) \<Rightarrow> (rune \<Rightarrow> nat) \<Rightarrow> editor \<Rightarrow> editor" where
  "lineStart sw rw e = repositionView sw rw (e\<lparr>e_col := 0\<rparr>)"

definition lineEnd :: "(runes \<Rightarrow> nat) \<Rightarrow> (rune \<Rightarrow> nat) \<Rightarrow> editor \<Rightarrow> editor" where
  "lineEnd sw rw e = repositionView sw rw (e\<lparr>e_col := length (cur_line e)\<rparr>)"

text \<open>
  The four loops of the word motions: \<open>while col > 0 and P(line[col-1])\<close> steps left,
  \<open>while col < len(line) and P(line[col])\<close> steps right.
\<close>

fun skip_left :: "(rune \<Rightarrow> bool) \<Rightarrow> runes \<Rightarrow> nat \<Rightarrow> nat" where
  "skip_left P line 0 = 0"
| "skip_left P line (Suc c) = (if P (line ! c) then skip_left P line c else Suc c)"

function skip_right :: "(rune \<Rightarrow> bool) \<Rightarrow> runes \<Rightarrow> nat \<Rightarrow> nat" where
  "skip_right P line c =
     (if c < length line \<and> P (line ! c) then skip_right P line (Suc c) else c)"
  by pat_completeness auto
termination
  by (relation "measure (\<lambda>(P, line, c). length line - c)") auto

declare skip_right.simps [simp del]

definition word_start :: "runes \<Rightarrow> nat \<Rightarrow> nat" where
  "word_start line c = skip_left (\<lambda>r. \<not> is_space r) line (skip_left is_space line c)"

definition word_end :: "runes \<Rightarrow> nat \<Rightarrow> nat" where
  "word_end line c = skip_right (\<lambda>r. \<not> is_space r) line (skip_right is_space line c)"

definition wordLeft :: "(runes \<Rightarrow> nat) \<Rightarrow> (rune \<Rightarrow> nat) \<Rightarrow> editor \<Rightarrow> editor" where
  "wordLeft sw rw e =
     (let col = word_start (cur_line e) (e_col e);
          moved = (col \<noteq> e_col e);
          e1 = e\<lparr>e_col := col\<rparr>
      in repositionView sw rw
          (if \<not> moved \<and> e_row e1 > 0
           then e1\<lparr>e_row := e_row e1 - 1, e_col := length (e_value e1 ! (e_row e1 - 1))\<rparr> else e1))"

definition wordRight :: "(runes \<Rightarrow> nat) \<Rightarrow> (rune \<Rightarrow> nat) \<Rightarrow> editor \<Rightarrow> editor" where
  "wordRight sw rw e =
     (let col = word_end (cur_line e) (e_col e);
          moved = (col \<noteq> e_col e);
          e1 = e\<lparr>e_col := col\<rparr>
      in repositionView sw rw
          (if \<not> moved \<and> e_row e1 + 1 < length (e_value e1)
           then e1\<lparr>e_row := e_row e1 + 1, e_col := 0\<rparr> else e1))"

definition moveVertical :: "(runes \<Rightarrow> nat) \<Rightarrow> (rune \<Rightarrow> nat) \<Rightarrow> int \<Rightarrow> editor \<Rightarrow> editor" where
  "moveVertical sw rw delta e =
     (let dls = DisplayLines sw rw e;
          target = int (CursorDisplayLine sw rw e) + delta
      in if target < 0 \<or> target \<ge> int (length dls) then e
         else let wantX = int (li_CharOffset (LineInfo sw rw e))
              in repositionView sw rw (placeAtDisplayLine sw (dls ! nat target) wantX e))"

section \<open>Deletion\<close>

definition set_line :: "nat \<Rightarrow> runes \<Rightarrow> editor \<Rightarrow> editor" where
  "set_line i l e = e\<lparr>e_value := (e_value e)[i := l]\<rparr>"

definition mergeLineAbove :: "editor \<Rightarrow> editor" where
  "mergeLineAbove e =
     (let prev = e_value e ! (e_row e - 1); cur = cur_line e;
          v = (e_value e)[e_row e - 1 := prev @ cur]
      in e\<lparr>e_col := length prev,
           e_value := take (e_row e) v @ drop (e_row e + 1) v,
           e_row := e_row e - 1\<rparr>)"

definition mergeLineBelow :: "editor \<Rightarrow> editor" where
  "mergeLineBelow e =
     (let cur = cur_line e; nxt = e_value e ! (e_row e + 1);
          v = (e_value e)[e_row e := cur @ nxt]
      in e\<lparr>e_value := take (e_row e + 1) v @ drop (e_row e + 2) v\<rparr>)"

text \<open>The deletions report whether they changed the buffer.\<close>

definition deleteCharBackward ::
    "(runes \<Rightarrow> nat) \<Rightarrow> (rune \<Rightarrow> nat) \<Rightarrow> editor \<Rightarrow> editor \<times> bool" where
  "deleteCharBackward sw rw e =
     (if e_col e > 0 then
        let line = cur_line e;
            e1 = set_line (e_row e) (take (e_col e - 1) line @ drop (e_col e) line) e
        in (repositionView sw rw (e1\<lparr>e_col := e_col e - 1\<rparr>), True)
      else if e_row e > 0 then (repositionView sw rw (mergeLineAbove e), True)
      else (e, False))"

definition deleteCharForward ::
    "(runes \<Rightarrow> nat) \<Rightarrow> (rune \<Rightarrow> nat) \<Rightarrow> editor \<Rightarrow> editor \<times> bool" where
  "deleteCharForward sw rw e =
     (let line = cur_line e
      in if e_col e < length line then
           (repositionView sw rw
              (set_line (e_row e) (take (e_col e) line @ drop (e_col e + 1) line) e), True)
         else if e_row e + 1 < length (e_value e) then (repositionView sw rw (mergeLineBelow e), True)
         else (e, False))"

definition deleteWordLeft ::
    "(runes \<Rightarrow> nat) \<Rightarrow> (rune \<Rightarrow> nat) \<Rightarrow> editor \<Rightarrow> editor \<times> bool" where
  "deleteWordLeft sw rw e =
     (if e_col e = 0 then deleteCharBackward sw rw e
      else let line = cur_line e; start = word_start line (e_col e)
      in if start = e_col e then (e, False)
         else (repositionView sw rw
                 ((set_line (e_row e) (take start line @ drop (e_col e) line) e)\<lparr>e_col := start\<rparr>), True))"

definition deleteWordRight ::
    "(runes \<Rightarrow> nat) \<Rightarrow> (rune \<Rightarrow> nat) \<Rightarrow> editor \<Rightarrow> editor \<times> bool" where
  "deleteWordRight sw rw e =
     (let line = cur_line e
      in if e_col e \<ge> length line then deleteCharForward sw rw e
         else let end' = word_end line (e_col e)
         in if end' = e_col e then (e, False)
            else (repositionView sw rw
                    (set_line (e_row e) (take (e_col e) line @ drop end' line) e), True))"

section \<open>The key map\<close>

definition ed_HandleKey ::
    "(runes \<Rightarrow> nat) \<Rightarrow> (rune \<Rightarrow> nat) \<Rightarrow> key_event \<Rightarrow> editor \<Rightarrow> editor \<times> bool" where
  "ed_HandleKey sw rw ev e =
     (let alt = k_alt ev; ctrl = k_ctrl ev;
          plain = (\<lambda>f. (if \<not> alt \<and> \<not> ctrl then f e else e, False));
          rest = (if ctrl \<and> \<not> alt \<and> k_code ev = KeyRune 119 then deleteWordLeft sw rw e
                  else if \<not> ctrl \<and> \<not> alt \<and> k_text ev \<noteq> []
                  then (insertString sw rw (k_text ev) e, True)
                  else (e, False))
      in case k_code ev of
           KeyLeft \<Rightarrow> (if alt then wordLeft sw rw e
                       else if \<not> ctrl then characterLeft sw rw e else e, False)
         | KeyRight \<Rightarrow> (if alt then wordRight sw rw e
                        else if \<not> ctrl then characterRight sw rw e else e, False)
         | KeyUp \<Rightarrow> plain (moveVertical sw rw (-1))
         | KeyDown \<Rightarrow> plain (moveVertical sw rw 1)
         | KeyHome \<Rightarrow> plain (lineStart sw rw)
         | KeyEnd \<Rightarrow> plain (lineEnd sw rw)
         | KeyBackspace \<Rightarrow> (if alt then deleteWordLeft sw rw e
                            else if \<not> ctrl then deleteCharBackward sw rw e else (e, False))
         | KeyDelete \<Rightarrow> (if alt then deleteWordRight sw rw e
                         else if \<not> ctrl then deleteCharForward sw rw e else (e, False))
         | KeyEnter \<Rightarrow> (if \<not> alt \<and> \<not> ctrl then (insertString sw rw [NL] e, True) else (e, False))
         | KeyRune _ \<Rightarrow> rest)"

end
