(* ===== verification/Uieditor_Correct.thy ===== *)
theory Uieditor_Correct
  imports Uieditor
begin

text \<open>
  Correctness of the editor of theory \<open>Uieditor\<close>: the cursor stays inside the buffer
  and the scroll offset inside its range; the cursor's display line is the display line that
  shows it; after an editing key the cursor is inside the viewport; and every edit implements
  an edit of a text with a position (\<open>before\<close>, \<open>after\<close>).
\<close>

section \<open>Frame facts\<close>

lemma wrapRow_yOffset [simp]: "wrapRow sw rw (e\<lparr>e_yOffset := y\<rparr>) = wrapRow sw rw e"
  by (simp add: wrapRow_def fun_eq_iff)

lemma row_display_yOffset [simp]: "row_display sw rw (e\<lparr>e_yOffset := y\<rparr>) = row_display sw rw e"
  by (simp add: row_display_def fun_eq_iff)

lemma DisplayLines_yOffset [simp]: "DisplayLines sw rw (e\<lparr>e_yOffset := y\<rparr>) = DisplayLines sw rw e"
  by (simp add: DisplayLines_def)

lemma LineInfo_yOffset [simp]: "LineInfo sw rw (e\<lparr>e_yOffset := y\<rparr>) = LineInfo sw rw e"
  by (simp add: LineInfo_def)

lemma CursorDisplayLine_yOffset [simp]:
  "CursorDisplayLine sw rw (e\<lparr>e_yOffset := y\<rparr>) = CursorDisplayLine sw rw e"
  by (simp add: CursorDisplayLine_def)

lemma repositionView_eq:
  "\<exists>y. repositionView sw rw e = e\<lparr>e_yOffset := y\<rparr>"
  by (auto simp: repositionView_def clampScroll_def Let_def)

lemma repositionView_frame [frame_simps]:
  "e_value (repositionView sw rw e) = e_value e" "e_row (repositionView sw rw e) = e_row e"
  "e_col (repositionView sw rw e) = e_col e" "e_width (repositionView sw rw e) = e_width e"
  "e_height (repositionView sw rw e) = e_height e"
  "CursorDisplayLine sw rw (repositionView sw rw e) = CursorDisplayLine sw rw e"
  "DisplayLines sw rw (repositionView sw rw e) = DisplayLines sw rw e"
  "cur_line (repositionView sw rw e) = cur_line e"
  using repositionView_eq [of sw rw e] by (auto simp: cur_line_def)

section \<open>The cursor and the display lines\<close>

definition cursor_ok :: "editor \<Rightarrow> bool" where
  "cursor_ok e \<longleftrightarrow> e_row e < length (e_value e) \<and> e_col e \<le> length (cur_line e)
     \<and> 1 \<le> e_width e \<and> 1 \<le> e_height e"

lemma length_segment_lines [simp]: "length (segment_lines sw li cw sc grid) = length grid"
  by (induction grid arbitrary: cw sc) auto

lemma nth_segment_lines:
  "i < length grid \<Longrightarrow> dl_LogicalIdx (segment_lines sw li cw sc grid ! i) = li
     \<and> dl_Runes (segment_lines sw li cw sc grid ! i) = grid ! i
     \<and> dl_StartCol (segment_lines sw li cw sc grid ! i) = sc + sum_list (map length (take i grid))"
  by (induction grid arbitrary: cw sc i) (auto simp: nth_Cons split: nat.splits)

lemma row_display_idx: "dl \<in> set (row_display sw rw e li) \<Longrightarrow> dl_LogicalIdx dl = li"
  by (auto simp: row_display_def in_set_conv_nth nth_segment_lines)

lemma DisplayLines_idx: "dl \<in> set (DisplayLines sw rw e) \<Longrightarrow> dl_LogicalIdx dl < length (e_value e)"
  by (auto simp: DisplayLines_def dest!: row_display_idx)

lemma line_info_loop_spec:
  fixes sw :: "runes \<Rightarrow> nat" and i :: nat
  assumes "counter \<le> col" "col \<le> counter + sum_list (map length grid)" "grid \<noteq> []"
  defines "k \<equiv> li_RowOffset (line_info_loop sw col counter i grid)"
  shows "i \<le> k" "k < i + length grid"
    "counter + sum_list (map length (take (k - i) grid)) \<le> col"
    "col \<le> counter + sum_list (map length (take (Suc (k - i)) grid))"
proof -
  have "i \<le> k \<and> k < i + length grid \<and> counter + sum_list (map length (take (k - i) grid)) \<le> col
      \<and> col \<le> counter + sum_list (map length (take (Suc (k - i)) grid))"
    using assms(1-3) unfolding k_def
  proof (induction grid arbitrary: counter i)
    case (Cons line grid)
    show ?case
    proof (cases "counter + length line \<ge> col")
      case True
      then show ?thesis using Cons.prems by (cases grid) auto
    next
      case False
      then have ne: "grid \<noteq> []" using Cons.prems by auto
      let ?k = "li_RowOffset (line_info_loop sw col (counter + length line) (i + 1) grid)"
      have IH: "i + 1 \<le> ?k \<and> ?k < i + 1 + length grid
          \<and> counter + length line + sum_list (map length (take (?k - (i + 1)) grid)) \<le> col
          \<and> col \<le> counter + length line + sum_list (map length (take (Suc (?k - (i + 1))) grid))"
        using False Cons.prems ne by (intro Cons.IH) auto
      then obtain d where "?k = Suc (i + d)" by (metis Suc_eq_plus1 add_Suc le_Suc_ex)
      with IH False show ?thesis by (simp add: not_le)
    qed
  qed simp
  then show "i \<le> k" "k < i + length grid"
    "counter + sum_list (map length (take (k - i) grid)) \<le> col"
    "col \<le> counter + sum_list (map length (take (Suc (k - i)) grid))"
    by auto
qed

lemma LineInfo_row:
  fixes sw :: "runes \<Rightarrow> nat" and rw :: "rune \<Rightarrow> nat"
  assumes "cursor_ok e"
  defines "k \<equiv> li_RowOffset (LineInfo sw rw e)" and "grid \<equiv> wrapRow sw rw e (e_row e)"
  shows "k < length grid" "sum_list (map length (take k grid)) \<le> e_col e"
    "e_col e \<le> sum_list (map length (take k grid)) + length (grid ! k)"
proof -
  have "e_col e \<le> sum_list (map length grid)" "grid \<noteq> []"
    using assms(1) by (simp_all add: grid_def wrapRow_def cursor_ok_def cur_line_def)
  then have pre: "0 \<le> e_col e" "e_col e \<le> 0 + sum_list (map length grid)" "grid \<noteq> []"
    by auto
  note spec = line_info_loop_spec [where sw = sw and i = 0, OF pre]
  show "k < length grid" "sum_list (map length (take k grid)) \<le> e_col e"
    using spec by (simp_all add: k_def grid_def LineInfo_def)
  then show "e_col e \<le> sum_list (map length (take k grid)) + length (grid ! k)"
    using spec(4) by (simp add: k_def grid_def LineInfo_def take_Suc_conv_app_nth)
qed

lemma length_DisplayLines:
  "length (DisplayLines sw rw e) = sum_list (map (\<lambda>i. length (wrapRow sw rw e i)) [0..<length (e_value e)])"
  by (simp add: DisplayLines_def length_concat row_display_def comp_def)

lemma CursorDisplayLine_shows:
  fixes sw :: "runes \<Rightarrow> nat" and rw :: "rune \<Rightarrow> nat"
  assumes "cursor_ok e"
  defines "k \<equiv> CursorDisplayLine sw rw e"
  shows "k < length (DisplayLines sw rw e)"
    and "dl_LogicalIdx (DisplayLines sw rw e ! k) = e_row e"
    and "dl_StartCol (DisplayLines sw rw e ! k) \<le> e_col e"
    and "e_col e \<le> dl_StartCol (DisplayLines sw rw e ! k) + length (dl_Runes (DisplayLines sw rw e ! k))"
proof -
  let ?xs = "[0..<length (e_value e)]" and ?j = "li_RowOffset (LineInfo sw rw e)"
  have row: "e_row e < length ?xs" "?xs ! e_row e = e_row e"
    using assms(1) by (auto simp: cursor_ok_def)
  have j: "?j < length (row_display sw rw e (?xs ! e_row e))"
    using LineInfo_row(1) [OF assms(1)] row by (simp add: row_display_def)
  have "take (e_row e) ?xs = [0..<e_row e]"
    using row by (simp add: take_upt)
  then have k: "k = length (concat (map (row_display sw rw e) (take (e_row e) ?xs))) + ?j"
    by (simp add: k_def CursorDisplayLine_def length_concat row_display_def comp_def)
  have nth: "DisplayLines sw rw e ! k = row_display sw rw e (e_row e) ! ?j"
    using concat_map_take_nth(1) [where f = "row_display sw rw e", OF row(1) j] row(2) by (simp add: k DisplayLines_def)
  show "k < length (DisplayLines sw rw e)"
    using concat_map_take_nth(2) [where f = "row_display sw rw e", OF row(1) j] by (simp add: k DisplayLines_def)
  show "dl_LogicalIdx (DisplayLines sw rw e ! k) = e_row e"
    and "dl_StartCol (DisplayLines sw rw e ! k) \<le> e_col e"
    and "e_col e \<le> dl_StartCol (DisplayLines sw rw e ! k) + length (dl_Runes (DisplayLines sw rw e ! k))"
    using LineInfo_row [OF assms(1), of sw rw]
    by (simp_all add: nth row_display_def nth_segment_lines)
qed

section \<open>The invariant\<close>

definition no_NL :: "editor \<Rightarrow> bool" where
  "no_NL e \<longleftrightarrow> (\<forall>l \<in> set (e_value e). NL \<notin> set l)"

definition scroll_ok :: "(runes \<Rightarrow> nat) \<Rightarrow> (rune \<Rightarrow> nat) \<Rightarrow> editor \<Rightarrow> bool" where
  "scroll_ok sw rw e \<longleftrightarrow> 0 \<le> e_yOffset e
     \<and> e_yOffset e \<le> max (int (length (DisplayLines sw rw e)) - e_height e) 0"

definition cursor_visible :: "(runes \<Rightarrow> nat) \<Rightarrow> (rune \<Rightarrow> nat) \<Rightarrow> editor \<Rightarrow> bool" where
  "cursor_visible sw rw e \<longleftrightarrow> e_yOffset e \<le> int (CursorDisplayLine sw rw e)
     \<and> int (CursorDisplayLine sw rw e) < e_yOffset e + e_height e"

definition ed_inv :: "(runes \<Rightarrow> nat) \<Rightarrow> (rune \<Rightarrow> nat) \<Rightarrow> editor \<Rightarrow> bool" where
  "ed_inv sw rw e \<longleftrightarrow> cursor_ok e \<and> no_NL e \<and> scroll_ok sw rw e"

definition ed_vis :: "(runes \<Rightarrow> nat) \<Rightarrow> (rune \<Rightarrow> nat) \<Rightarrow> editor \<Rightarrow> bool" where
  "ed_vis sw rw e \<longleftrightarrow> ed_inv sw rw e \<and> cursor_visible sw rw e"

lemma repositionView_yOffset:
  assumes "cursor_ok e"
  shows "scroll_ok sw rw (repositionView sw rw e)" "cursor_visible sw rw (repositionView sw rw e)"
proof -
  have "CursorDisplayLine sw rw e < length (DisplayLines sw rw e)" "1 \<le> e_height e"
    using CursorDisplayLine_shows(1) [OF assms] assms by (auto simp: cursor_ok_def)
  then show "scroll_ok sw rw (repositionView sw rw e)" "cursor_visible sw rw (repositionView sw rw e)"
    by (auto simp: scroll_ok_def cursor_visible_def repositionView_def clampScroll_def Let_def)
qed

lemma repositionView_vis [wf_intros]:
  assumes "cursor_ok e" "no_NL e"
  shows "ed_vis sw rw (repositionView sw rw e)"
proof -
  have "cursor_ok (repositionView sw rw e)" "no_NL (repositionView sw rw e)"
    using assms by (auto simp: cursor_ok_def no_NL_def frame_simps)
  with repositionView_yOffset [OF assms(1)] show ?thesis
    by (simp add: ed_vis_def ed_inv_def)
qed

lemma ed_New_inv: "ed_inv sw rw ed_New"
  by (simp add: ed_inv_def cursor_ok_def no_NL_def scroll_ok_def ed_New_def cur_line_def)


section \<open>Every operation keeps the invariant\<close>

lemma skip_left_le [simp]: "skip_left P line c \<le> c"
  by (induction P line c rule: skip_left.induct) auto

lemma skip_right_ge [simp]: "c \<le> skip_right P line c"
  by (induction P line c rule: skip_right.induct) (subst skip_right.simps, auto)

lemma skip_right_le: "c \<le> length line \<Longrightarrow> skip_right P line c \<le> length line"
  by (induction P line c rule: skip_right.induct) (subst skip_right.simps, auto)

lemma word_start_le: "word_start line c \<le> c"
  unfolding word_start_def by (meson le_trans skip_left_le)

lemma word_end_bounds: "c \<le> length line \<Longrightarrow> c \<le> word_end line c \<and> word_end line c \<le> length line"
  unfolding word_end_def by (meson le_trans skip_right_ge skip_right_le)

lemma placeAtDisplayLine_frame [frame_simps]:
  "e_value (placeAtDisplayLine sw dl x e) = e_value e"
  "e_width (placeAtDisplayLine sw dl x e) = e_width e"
  "e_height (placeAtDisplayLine sw dl x e) = e_height e"
  "e_yOffset (placeAtDisplayLine sw dl x e) = e_yOffset e"
  by (simp_all add: placeAtDisplayLine_def Let_def)

lemma DisplayLines_cong:
  "e_value e' = e_value e \<Longrightarrow> e_width e' = e_width e \<Longrightarrow> DisplayLines sw rw e' = DisplayLines sw rw e"
  by (simp add: DisplayLines_def row_display_def wrapRow_def cong: map_cong)

lemma placeAtDisplayLine_ok:
  assumes "cursor_ok e" "dl \<in> set (DisplayLines sw rw e)"
  shows "cursor_ok (placeAtDisplayLine sw dl x e)"
  using assms DisplayLines_idx [OF assms(2)]
  by (simp add: cursor_ok_def placeAtDisplayLine_def cur_line_def Let_def)

lemma ed_invD: "ed_inv sw rw e \<Longrightarrow> cursor_ok e" "ed_inv sw rw e \<Longrightarrow> no_NL e"
  by (simp_all add: ed_inv_def)

lemma ed_vis_inv: "ed_vis sw rw e \<Longrightarrow> ed_inv sw rw e"
  by (simp add: ed_vis_def)

lemma repositionView_inv: "cursor_ok e \<Longrightarrow> no_NL e \<Longrightarrow> ed_inv sw rw (repositionView sw rw e)"
  by (rule ed_vis_inv) (rule repositionView_vis)

text \<open>The two shapes the buffer can take after an insertion: one line or several.\<close>

definition ins_body :: "runes list \<Rightarrow> editor \<Rightarrow> editor" where
  "ins_body parts e =
     (let head = take (e_col e) (cur_line e); tail = drop (e_col e) (cur_line e);
          k = length parts - 1; new = parts[0 := head @ parts ! 0]
      in e\<lparr>e_col := length (new ! k),
           e_value := take (e_row e) (e_value e) @ new[k := new ! k @ tail]
                        @ drop (e_row e + 1) (e_value e),
           e_row := e_row e + k\<rparr>)"

lemma insertString_eq:
  "insertString sw rw s e =
     (if sanitize s = [] then e else repositionView sw rw (ins_body (split_lines (sanitize s)) e))"
  by (simp add: insertString_def ins_body_def Let_def)

lemma ins_body_single:
  "ins_body [p] e = e\<lparr>e_col := length (take (e_col e) (cur_line e) @ p),
     e_value := take (e_row e) (e_value e)
       @ (take (e_col e) (cur_line e) @ p @ drop (e_col e) (cur_line e)) # drop (e_row e + 1) (e_value e)\<rparr>"
  by (simp add: ins_body_def Let_def)

lemma ins_body_multi:
  "ins_body (p # ms @ [q]) e = e\<lparr>e_col := length q,
     e_value := take (e_row e) (e_value e)
       @ (take (e_col e) (cur_line e) @ p) # ms @ (q @ drop (e_col e) (cur_line e))
       # drop (e_row e + 1) (e_value e),
     e_row := e_row e + length ms + 1\<rparr>"
  by (simp add: ins_body_def Let_def nth_append list_update_append)

lemma parts_cases:
  assumes "parts \<noteq> []"
  obtains (single) p where "parts = [p]" | (multi) p ms q where "parts = p # ms @ [q]"
proof (cases parts)
  case (Cons p ps)
  then show thesis
    by (cases ps rule: rev_cases) (use that in auto)
qed (use assms in simp)

lemma ins_body_ok:
  assumes "cursor_ok e" "parts \<noteq> []"
  shows "cursor_ok (ins_body parts e)"
  using assms(2)
proof (cases rule: parts_cases)
  case single
  with assms show ?thesis
    by (auto simp: ins_body_single cursor_ok_def cur_line_def nth_append min_def)
next
  case multi
  with assms show ?thesis
    by (auto simp: ins_body_multi cursor_ok_def cur_line_def nth_append nth_Cons' min_def)
qed

lemma no_NL_cur_line: "cursor_ok e \<Longrightarrow> no_NL e \<Longrightarrow> NL \<notin> set (cur_line e)"
  by (simp add: no_NL_def cursor_ok_def cur_line_def)

lemma ins_body_no_NL:
  assumes "cursor_ok e" "no_NL e" "parts \<noteq> []" "\<forall>p \<in> set parts. NL \<notin> set p"
  shows "no_NL (ins_body parts e)"
proof -
  have cl: "NL \<notin> set (take n (cur_line e))" "NL \<notin> set (drop n (cur_line e))" for n
    using no_NL_cur_line [OF assms(1,2)] by (meson in_set_takeD in_set_dropD)+
  have vs: "\<And>l n. l \<in> set (take n (e_value e)) \<Longrightarrow> NL \<notin> set l"
    "\<And>l n. l \<in> set (drop n (e_value e)) \<Longrightarrow> NL \<notin> set l"
    using assms(2) by (auto simp: no_NL_def dest: in_set_takeD in_set_dropD)
  from assms(3) show ?thesis
    using assms(4) cl vs
    by (cases rule: parts_cases) (auto simp: ins_body_single ins_body_multi no_NL_def)
qed

lemma insertString_inv [wf_intros]:
  assumes "ed_inv sw rw e"
  shows "ed_inv sw rw (insertString sw rw s e)"
  using assms
  by (auto simp: insertString_eq intro!: repositionView_inv ins_body_ok ins_body_no_NL
      dest: ed_invD split_lines_no_NL)

lemma insertString_vis:
  assumes "ed_vis sw rw e"
  shows "ed_vis sw rw (insertString sw rw s e)"
  using assms ed_vis_inv [OF assms]
  by (auto simp: insertString_eq intro!: repositionView_vis ins_body_ok ins_body_no_NL
      dest: ed_invD split_lines_no_NL)

lemma set_line_ok: "cursor_ok e \<Longrightarrow> c \<le> length l \<Longrightarrow> cursor_ok ((set_line (e_row e) l e)\<lparr>e_col := c\<rparr>)"
  by (simp add: set_line_def cursor_ok_def cur_line_def)

lemma set_line_ok': "cursor_ok e \<Longrightarrow> e_col e \<le> length l \<Longrightarrow> cursor_ok (set_line (e_row e) l e)"
  by (simp add: set_line_def cursor_ok_def cur_line_def)

lemma set_line_no_NL:
  assumes "cursor_ok e" "no_NL e" "set l \<subseteq> set (cur_line e)"
  shows "no_NL (set_line (e_row e) l e)" "no_NL ((set_line (e_row e) l e)\<lparr>e_col := c\<rparr>)"
  using assms no_NL_cur_line [OF assms(1,2)]
  by (auto simp: set_line_def no_NL_def dest!: set_update_subset_insert [THEN subsetD])

lemma set_take_drop_subset: "set (take a l @ drop b l) \<subseteq> set l"
  by (auto dest: in_set_takeD in_set_dropD)

lemma mergeLineAbove_eq:
  assumes "cursor_ok e" "0 < e_row e"
  shows "e_value (mergeLineAbove e) = take (e_row e - 1) (e_value e)
           @ (e_value e ! (e_row e - 1) @ cur_line e) # drop (e_row e + 1) (e_value e)"
proof -
  obtain r where r: "e_row e = Suc r" using assms(2) by (cases "e_row e") auto
  then have "Suc r < length (e_value e)" using assms(1) by (simp add: cursor_ok_def)
  then show ?thesis
    by (simp add: mergeLineAbove_def Let_def r take_Suc_conv_app_nth take_update_swap drop_update_swap list_update_append cursor_ok_def)
qed

lemma mergeLineAbove_ok: "cursor_ok e \<Longrightarrow> 0 < e_row e \<Longrightarrow> cursor_ok (mergeLineAbove e)"
  using mergeLineAbove_eq [of e]
  by (auto simp: cursor_ok_def cur_line_def mergeLineAbove_def Let_def nth_append)

lemma mergeLineAbove_no_NL:
  assumes "cursor_ok e" "no_NL e" "0 < e_row e"
  shows "no_NL (mergeLineAbove e)"
  using assms no_NL_cur_line [OF assms(1,2)]
  by (auto simp: no_NL_def mergeLineAbove_eq cursor_ok_def dest: in_set_takeD in_set_dropD)

lemma mergeLineBelow_eq:
  assumes "cursor_ok e" "e_row e + 1 < length (e_value e)"
  shows "e_value (mergeLineBelow e) = take (e_row e) (e_value e)
           @ (cur_line e @ e_value e ! (e_row e + 1)) # drop (e_row e + 2) (e_value e)"
  using assms
  by (simp add: mergeLineBelow_def Let_def take_Suc_conv_app_nth take_update_swap drop_update_swap list_update_append cursor_ok_def)

lemma mergeLineBelow_ok:
  "cursor_ok e \<Longrightarrow> e_row e + 1 < length (e_value e) \<Longrightarrow> cursor_ok (mergeLineBelow e)"
  using mergeLineBelow_eq [of e]
  by (auto simp: cursor_ok_def cur_line_def mergeLineBelow_def Let_def nth_append)

lemma mergeLineBelow_no_NL:
  assumes "cursor_ok e" "no_NL e" "e_row e + 1 < length (e_value e)"
  shows "no_NL (mergeLineBelow e)"
  using assms no_NL_cur_line [OF assms(1,2)]
  by (auto simp: no_NL_def mergeLineBelow_eq cursor_ok_def dest: in_set_takeD in_set_dropD)


section \<open>The key map keeps the cursor visible\<close>

lemma set_line_vis:
  assumes "ed_inv sw rw e" "set l \<subseteq> set (cur_line e)"
  shows "c \<le> length l \<Longrightarrow> ed_vis sw rw (repositionView sw rw ((set_line (e_row e) l e)\<lparr>e_col := c\<rparr>))"
    and "e_col e \<le> length l \<Longrightarrow> ed_vis sw rw (repositionView sw rw (set_line (e_row e) l e))"
  using assms by (auto intro!: repositionView_vis set_line_ok set_line_ok' set_line_no_NL dest: ed_invD)

lemma merge_vis:
  assumes "ed_inv sw rw e"
  shows "0 < e_row e \<Longrightarrow> ed_vis sw rw (repositionView sw rw (mergeLineAbove e))"
    and "e_row e + 1 < length (e_value e) \<Longrightarrow> ed_vis sw rw (repositionView sw rw (mergeLineBelow e))"
  using assms by (auto intro!: repositionView_vis mergeLineAbove_ok mergeLineAbove_no_NL
      mergeLineBelow_ok mergeLineBelow_no_NL dest: ed_invD)

lemma ed_inv_col: "ed_inv sw rw e \<Longrightarrow> e_col e \<le> length (cur_line e)"
  by (simp add: ed_inv_def cursor_ok_def)

text \<open>A deletion either leaves the editor as it is or ends with the cursor in view.\<close>

lemma deletion_vis:
  assumes "ed_inv sw rw e"
  shows "snd (deleteCharBackward sw rw e) \<Longrightarrow> ed_vis sw rw (fst (deleteCharBackward sw rw e))"
    "snd (deleteCharForward sw rw e) \<Longrightarrow> ed_vis sw rw (fst (deleteCharForward sw rw e))"
    "snd (deleteWordLeft sw rw e) \<Longrightarrow> ed_vis sw rw (fst (deleteWordLeft sw rw e))"
    "snd (deleteWordRight sw rw e) \<Longrightarrow> ed_vis sw rw (fst (deleteWordRight sw rw e))"
proof -
  note col = ed_inv_col [OF assms] word_start_le [of "cur_line e" "e_col e"]
  note vis = set_line_vis [OF assms set_take_drop_subset] merge_vis [OF assms]
  show 1: "ed_vis sw rw (fst (deleteCharBackward sw rw e))" if "snd (deleteCharBackward sw rw e)"
    using that col vis
    by (auto simp: deleteCharBackward_def Let_def simp del: set_append split: if_splits)
  show 2: "ed_vis sw rw (fst (deleteCharForward sw rw e))" if "snd (deleteCharForward sw rw e)"
    using that col vis
    by (auto simp: deleteCharForward_def Let_def simp del: set_append split: if_splits)
  show "ed_vis sw rw (fst (deleteWordLeft sw rw e))" if "snd (deleteWordLeft sw rw e)"
    using that col vis 1
    by (auto simp: deleteWordLeft_def Let_def simp del: set_append split: if_splits)
  show "ed_vis sw rw (fst (deleteWordRight sw rw e))" if "snd (deleteWordRight sw rw e)"
    using that col vis 2
    by (auto simp: deleteWordRight_def Let_def simp del: set_append split: if_splits)
qed

lemma deletion_unchanged:
  "\<not> snd (deleteCharBackward sw rw e) \<Longrightarrow> fst (deleteCharBackward sw rw e) = e"
  "\<not> snd (deleteCharForward sw rw e) \<Longrightarrow> fst (deleteCharForward sw rw e) = e"
  "\<not> snd (deleteWordLeft sw rw e) \<Longrightarrow> fst (deleteWordLeft sw rw e) = e"
  "\<not> snd (deleteWordRight sw rw e) \<Longrightarrow> fst (deleteWordRight sw rw e) = e"
  by (auto simp: deleteCharBackward_def deleteCharForward_def deleteWordLeft_def
      deleteWordRight_def Let_def split: if_splits)

lemma deletions_vis:
  assumes "ed_vis sw rw e"
  shows "ed_vis sw rw (fst (deleteCharBackward sw rw e))" "ed_vis sw rw (fst (deleteCharForward sw rw e))"
    "ed_vis sw rw (fst (deleteWordLeft sw rw e))" "ed_vis sw rw (fst (deleteWordRight sw rw e))"
  using assms deletion_vis [OF ed_vis_inv [OF assms]] deletion_unchanged [of sw rw e] by metis+

lemma move_vis:
  assumes "ed_inv sw rw e"
  shows "c \<le> length (cur_line e) \<Longrightarrow> ed_vis sw rw (repositionView sw rw (e\<lparr>e_col := c\<rparr>))"
    and "r < length (e_value e) \<Longrightarrow> c \<le> length (e_value e ! r) \<Longrightarrow>
      ed_vis sw rw (repositionView sw rw (e\<lparr>e_row := r, e_col := c\<rparr>))"
    and "ed_vis sw rw (repositionView sw rw e)"
  using assms
  by (auto simp: ed_inv_def [of sw rw e] cursor_ok_def no_NL_def cur_line_def
      intro!: repositionView_vis)

lemma motion_vis:
  assumes "ed_inv sw rw e"
  shows "ed_vis sw rw (characterLeft sw rw e)" "ed_vis sw rw (characterRight sw rw e)"
    "ed_vis sw rw (lineStart sw rw e)" "ed_vis sw rw (lineEnd sw rw e)"
    "ed_vis sw rw (wordLeft sw rw e)" "ed_vis sw rw (wordRight sw rw e)"
proof -
  have row: "e_row e - 1 < length (e_value e)"
    using assms by (auto simp: ed_inv_def cursor_ok_def)
  note col = ed_inv_col [OF assms]
  have ws: "word_start (cur_line e) (e_col e) \<le> length (cur_line e)"
    using word_start_le col by (rule order_trans)
  have left: "ed_vis sw rw (repositionView sw rw
      (e\<lparr>e_row := e_row e - 1, e_col := length (e_value e ! (e_row e - 1))\<rparr>))"
    using row by (auto intro: move_vis(2) [OF assms])
  have right: "ed_vis sw rw (repositionView sw rw (e\<lparr>e_row := e_row e + 1, e_col := 0\<rparr>))"
    if "e_row e + 1 < length (e_value e)"
    using that by (auto intro: move_vis(2) [OF assms])
  show "ed_vis sw rw (lineStart sw rw e)" "ed_vis sw rw (lineEnd sw rw e)"
    using col by (auto simp: lineStart_def lineEnd_def intro: move_vis(1) [OF assms])
  show "ed_vis sw rw (characterLeft sw rw e)"
    using col left move_vis(1,3) [OF assms] unfolding characterLeft_def by (simp split: if_splits)
  show "ed_vis sw rw (characterRight sw rw e)"
    using col right move_vis(1,3) [OF assms] unfolding characterRight_def by (simp split: if_splits)
  show "ed_vis sw rw (wordLeft sw rw e)"
    using ws left move_vis(1) [OF assms ws]
    unfolding wordLeft_def Let_def by (simp split: if_splits)
  show "ed_vis sw rw (wordRight sw rw e)"
    using right word_end_bounds [OF col] move_vis(1) [OF assms]
    unfolding wordRight_def Let_def by (simp split: if_splits)
qed

lemma nat_clamp_less: "0 < n \<Longrightarrow> nat (min (max a 0) (int n - 1)) < n"
  by linarith

lemma placeAtDisplayLine_no_NL: "no_NL e \<Longrightarrow> no_NL (placeAtDisplayLine sw dl x e)"
  by (simp add: no_NL_def frame_simps)

lemma moveVertical_vis: "ed_vis sw rw e \<Longrightarrow> ed_vis sw rw (moveVertical sw rw d e)"
  by (auto simp: moveVertical_def Let_def ed_vis_def [of sw rw e] ed_inv_def [of sw rw e]
      intro!: repositionView_vis placeAtDisplayLine_ok [where rw = rw] placeAtDisplayLine_no_NL)

lemma SetCursorAtDisplay_vis:
  assumes "ed_inv sw rw e" "DisplayLines sw rw e \<noteq> []"
  shows "ed_vis sw rw (SetCursorAtDisplay sw rw x y e)"
  using assms nat_clamp_less [of "length (DisplayLines sw rw e)" "e_yOffset e + y"]
  by (auto simp: SetCursorAtDisplay_def Let_def ed_inv_def [of sw rw e]
      intro!: repositionView_vis placeAtDisplayLine_ok [where rw = rw] placeAtDisplayLine_no_NL nth_mem)

lemma resize_vis:
  "ed_inv sw rw e \<Longrightarrow> ed_vis sw rw (ed_SetWidth sw rw w e)"
  "ed_inv sw rw e \<Longrightarrow> ed_vis sw rw (ed_SetHeight sw rw h e)"
  by (auto simp: ed_SetWidth_def ed_SetHeight_def ed_inv_def [of sw rw e] cursor_ok_def no_NL_def
      cur_line_def intro!: repositionView_vis)

lemma ScrollViewport_inv:
  assumes "ed_inv sw rw e"
  shows "ed_inv sw rw (ed_ScrollViewport sw rw n e)"
proof (cases "n = 0 \<or> DisplayLines sw rw e = []")
  case True
  with assms show ?thesis by (auto simp: ed_ScrollViewport_def Let_def)
next
  case False
  let ?dls = "DisplayLines sw rw e"
  let ?y = "min (max (e_yOffset e + n) 0) (max (int (length ?dls) - e_height e) 0)"
  let ?e = "e\<lparr>e_yOffset := ?y\<rparr>"
  have ok: "cursor_ok ?e" "no_NL ?e" "scroll_ok sw rw ?e"
    using assms by (auto simp: ed_inv_def cursor_ok_def no_NL_def scroll_ok_def cur_line_def)
  have h: "1 \<le> e_height e" using assms by (simp add: ed_inv_def cursor_ok_def)
  have len: "0 < int (length ?dls)" using False by simp
  have placed: "ed_inv sw rw (placeAtDisplayLine sw (?dls ! nat i) x ?e)"
    if "0 \<le> i" "i < int (length ?dls)" for i x
  proof -
    have "?dls ! nat i \<in> set (DisplayLines sw rw ?e)" using that by auto
    with ok show ?thesis
      by (auto simp: ed_inv_def scroll_ok_def frame_simps no_NL_def
          DisplayLines_cong [of "placeAtDisplayLine sw (?dls ! nat i) x ?e" e]
          intro!: placeAtDisplayLine_ok [where rw = rw])
  qed
  have y: "0 \<le> ?y" "?y < int (length ?dls)" using h len by linarith+
  have b: "0 \<le> min (?y + e_height e - 1) (int (length ?dls) - 1)"
    "min (?y + e_height e - 1) (int (length ?dls) - 1) < int (length ?dls)"
    using h len y(1) by linarith+
  show ?thesis
    using False ok placed [OF y] placed [OF b]
    by (simp add: ed_ScrollViewport_def Let_def ed_inv_def)
qed

lemma HandleKey_vis: "ed_vis sw rw e \<Longrightarrow> ed_vis sw rw (fst (ed_HandleKey sw rw ev e))"
  by (simp add: ed_HandleKey_def Let_def motion_vis [OF ed_vis_inv] moveVertical_vis insertString_vis
      deletions_vis
      split: key_code.split)


section \<open>Runs of the editor\<close>

datatype editor_event =
    EdKey key_event | EdInsert runes | EdSetValue runes | EdSetWidth int | EdSetHeight int
  | EdClick int int | EdScroll int

fun ed_step :: "(runes \<Rightarrow> nat) \<Rightarrow> (rune \<Rightarrow> nat) \<Rightarrow> editor_event \<Rightarrow> editor \<Rightarrow> editor" where
  "ed_step sw rw (EdKey ev) e = fst (ed_HandleKey sw rw ev e)"
| "ed_step sw rw (EdInsert s) e = insertString sw rw s e"
| "ed_step sw rw (EdSetValue s) e = ed_SetValue sw rw s e"
| "ed_step sw rw (EdSetWidth w) e = ed_SetWidth sw rw w e"
| "ed_step sw rw (EdSetHeight h) e = ed_SetHeight sw rw h e"
| "ed_step sw rw (EdClick x y) e = SetCursorAtDisplay sw rw x y e"
| "ed_step sw rw (EdScroll n) e = ed_ScrollViewport sw rw n e"

definition ed_reset :: "editor \<Rightarrow> editor" where
  "ed_reset e = e\<lparr>e_value := [[]], e_row := 0, e_col := 0, e_yOffset := 0\<rparr>"

lemma ed_reset_inv: "ed_inv sw rw e \<Longrightarrow> ed_inv sw rw (ed_reset e)"
  by (simp add: ed_inv_def cursor_ok_def no_NL_def scroll_ok_def cur_line_def ed_reset_def)

lemma ed_SetValue_eq: "ed_SetValue sw rw s e = insertString sw rw s (ed_reset e)"
  by (simp add: ed_SetValue_def ed_reset_def)

lemma deletion_inv:
  assumes "ed_inv sw rw e"
  shows "ed_inv sw rw (fst (deleteCharBackward sw rw e))" "ed_inv sw rw (fst (deleteCharForward sw rw e))"
    "ed_inv sw rw (fst (deleteWordLeft sw rw e))" "ed_inv sw rw (fst (deleteWordRight sw rw e))"
  using assms deletion_vis [OF assms, THEN ed_vis_inv] deletion_unchanged [of sw rw e] by metis+

lemma moveVertical_inv: "ed_inv sw rw e \<Longrightarrow> ed_inv sw rw (moveVertical sw rw d e)"
  by (auto simp: moveVertical_def Let_def ed_inv_def [of sw rw e]
      intro!: repositionView_inv placeAtDisplayLine_ok [where rw = rw] placeAtDisplayLine_no_NL)

lemma HandleKey_inv: "ed_inv sw rw e \<Longrightarrow> ed_inv sw rw (fst (ed_HandleKey sw rw ev e))"
  by (simp add: ed_HandleKey_def Let_def motion_vis [THEN ed_vis_inv] moveVertical_inv
      insertString_inv deletion_inv split: key_code.split)

lemma SetCursorAtDisplay_inv:
  assumes "ed_inv sw rw e"
  shows "ed_inv sw rw (SetCursorAtDisplay sw rw x y e)"
proof (cases "DisplayLines sw rw e = []")
  case True
  with assms show ?thesis by (simp add: SetCursorAtDisplay_def)
next
  case False
  with assms show ?thesis by (blast intro: ed_vis_inv SetCursorAtDisplay_vis)
qed

lemma ed_step_inv: "ed_inv sw rw e \<Longrightarrow> ed_inv sw rw (ed_step sw rw ev e)"
  by (cases ev) (auto simp: ed_SetValue_eq intro: HandleKey_inv insertString_inv ed_reset_inv
      resize_vis [THEN ed_vis_inv] SetCursorAtDisplay_inv ScrollViewport_inv)

interpretation editor: event_machine "ed_inv sw rw" "ed_step sw rw" for sw rw
  by unfold_locales (rule ed_step_inv)

section \<open>The editor as a text with a position\<close>

text \<open>The buffer seen as the text before and the text after the cursor.\<close>

definition before :: "editor \<Rightarrow> runes" where
  "before e = join_lines (take (e_row e) (e_value e) @ [take (e_col e) (cur_line e)])"

definition after :: "editor \<Rightarrow> runes" where
  "after e = join_lines (drop (e_col e) (cur_line e) # drop (e_row e + 1) (e_value e))"

lemma join_lines_seam: "join_lines (xs @ [a]) @ join_lines (b # ys) = join_lines (xs @ (a @ b) # ys)"
proof (induction xs)
  case Nil
  show ?case by (cases ys) auto
next
  case (Cons x xs)
  then show ?case by (simp add: join_lines_Cons)
qed

lemma join_lines_snoc: "join_lines (xs @ [a @ b]) = join_lines (xs @ [a]) @ b"
  using join_lines_seam [of xs a b "[]"] by simp

lemma join_lines_front: "join_lines ((a @ b) # ys) = a @ join_lines (b # ys)"
  using join_lines_seam [of "[]" a b ys] by simp

lemma before_line_start:
  assumes "cursor_ok e" "e_col e = 0" "0 < e_row e"
  shows "before e = join_lines (take (e_row e) (e_value e)) @ [NL]"
proof -
  have "take (e_row e) (e_value e) \<noteq> []" using assms by (auto simp: cursor_ok_def)
  then show ?thesis using assms(2) by (simp add: before_def join_lines_append)
qed

lemma before_after:
  assumes "cursor_ok e"
  shows "before e @ after e = ed_Value e"
proof -
  have "take (e_row e) (e_value e) @ cur_line e # drop (e_row e + 1) (e_value e) = e_value e"
    using assms by (simp add: cursor_ok_def cur_line_def id_take_nth_drop [symmetric])
  then show ?thesis
    by (simp add: before_def after_def ed_Value_def join_lines_seam)
qed

lemma before_after_repositionView [simp]:
  "before (repositionView sw rw e) = before e" "after (repositionView sw rw e) = after e"
  "ed_Value (repositionView sw rw e) = ed_Value e"
  by (simp_all add: before_def after_def ed_Value_def frame_simps)

lemma ins_body_refines:
  assumes "cursor_ok e" "parts \<noteq> []"
  shows "before (ins_body parts e) = before e @ join_lines parts"
    and "after (ins_body parts e) = after e"
proof -
  let ?a = "take (e_col e) (cur_line e)" and ?up = "take (e_row e) (e_value e)"
  have row: "length ?up = e_row e" and col: "length ?a = e_col e"
    using assms by (simp_all add: cursor_ok_def)
  have "before (ins_body parts e) = before e @ join_lines parts \<and> after (ins_body parts e) = after e"
    using assms(2)
  proof (cases rule: parts_cases)
    case (single p)
    then show ?thesis
      using row col by (simp add: ins_body_single before_def after_def cur_line_def nth_append
          join_lines_snoc [symmetric])
  next
    case (multi p ms q)
    have "join_lines (?up @ [?a]) @ join_lines (p # ms @ [q]) = join_lines (?up @ (?a @ p) # ms @ [q])"
      by (rule join_lines_seam)
    then show ?thesis
      using row by (simp add: multi ins_body_multi before_def after_def cur_line_def nth_append)
  qed
  then show "before (ins_body parts e) = before e @ join_lines parts"
    and "after (ins_body parts e) = after e" by auto
qed

lemma insert_refines:
  assumes "cursor_ok e"
  shows "before (insertString sw rw s e) = before e @ sanitize s"
    and "after (insertString sw rw s e) = after e"
  by (simp_all add: insertString_eq ins_body_refines [OF assms])

lemma before_Nil_iff: "before e = [] \<longleftrightarrow> (e_row e = 0 \<or> e_value e = []) \<and> take (e_col e) (cur_line e) = []"
  by (cases "e_row e"; cases "e_value e") (auto simp: before_def join_lines_Cons)

lemma after_Nil_iff:
  "after e = [] \<longleftrightarrow> drop (e_col e) (cur_line e) = [] \<and> length (e_value e) \<le> e_row e + 1"
  by (cases "drop (e_row e + 1) (e_value e)") (auto simp: after_def)

lemma set_line_zipper:
  assumes "cursor_ok e"
  shows "before ((set_line (e_row e) l e)\<lparr>e_col := c\<rparr>) = join_lines (take (e_row e) (e_value e) @ [take c l])"
    and "after ((set_line (e_row e) l e)\<lparr>e_col := c\<rparr>) = join_lines (drop c l # drop (e_row e + 1) (e_value e))"
    and "before (set_line (e_row e) l e) = join_lines (take (e_row e) (e_value e) @ [take (e_col e) l])"
    and "after (set_line (e_row e) l e) = join_lines (drop (e_col e) l # drop (e_row e + 1) (e_value e))"
  using assms by (simp_all add: before_def after_def set_line_def cur_line_def cursor_ok_def)

lemma before_col:
  assumes "cursor_ok e" "c \<le> e_col e"
  shows "before e = join_lines (take (e_row e) (e_value e) @ [take c (cur_line e)])
           @ take (e_col e - c) (drop c (cur_line e))"
proof -
  have "take (e_col e) (cur_line e) = take c (cur_line e) @ take (e_col e - c) (drop c (cur_line e))"
    using assms(2) take_add [of c "e_col e - c" "cur_line e"] by simp
  then show ?thesis by (simp only: before_def join_lines_snoc)
qed

lemma deleteCharBackward_refines:
  assumes "cursor_ok e"
  shows "snd (deleteCharBackward sw rw e) \<longleftrightarrow> before e \<noteq> []"
    and "before (fst (deleteCharBackward sw rw e)) = butlast (before e)"
    and "after (fst (deleteCharBackward sw rw e)) = after e"
proof -
  have row: "e_row e < length (e_value e)" and col: "e_col e \<le> length (cur_line e)"
    using assms by (auto simp: cursor_ok_def)
  show "snd (deleteCharBackward sw rw e) \<longleftrightarrow> before e \<noteq> []"
    using row col by (auto simp: deleteCharBackward_def before_Nil_iff Let_def)
  have "before (fst (deleteCharBackward sw rw e)) = butlast (before e)
      \<and> after (fst (deleteCharBackward sw rw e)) = after e"
  proof (cases "e_col e > 0")
    case True
    then have "before e = join_lines (take (e_row e) (e_value e) @ [take (e_col e - 1) (cur_line e)])
        @ [cur_line e ! (e_col e - 1)]"
      using before_col [OF assms, of "e_col e - 1"] col by (simp add: take_Suc_conv_app_nth)
    with True col show ?thesis
      by (simp add: deleteCharBackward_def Let_def set_line_zipper [OF assms] after_def [of e])
  next
    case False
    show ?thesis
    proof (cases "e_row e > 0")
      case True
      then obtain r where r: "e_row e = Suc r" by (cases "e_row e") auto
      have "after (mergeLineAbove e) = after e"
        and "before (mergeLineAbove e) = join_lines (take (e_row e) (e_value e))"
        using False row mergeLineAbove_eq [OF assms True]
        by (simp_all add: before_def after_def cur_line_def mergeLineAbove_def Let_def nth_append r
            take_Suc_conv_app_nth)
      moreover have "before e = join_lines (take (e_row e) (e_value e)) @ [NL]"
        using False True by (simp add: before_line_start [OF assms])
      ultimately show ?thesis
        using False True by (simp add: deleteCharBackward_def)
    next
      case r0: False
      with False show ?thesis by (simp add: deleteCharBackward_def before_def)
    qed
  qed
  then show "before (fst (deleteCharBackward sw rw e)) = butlast (before e)"
    and "after (fst (deleteCharBackward sw rw e)) = after e" by auto
qed

lemma deleteCharForward_refines:
  assumes "cursor_ok e"
  shows "snd (deleteCharForward sw rw e) \<longleftrightarrow> after e \<noteq> []"
    and "before (fst (deleteCharForward sw rw e)) = before e"
    and "after (fst (deleteCharForward sw rw e)) = tl (after e)"
proof -
  have row: "e_row e < length (e_value e)" and col: "e_col e \<le> length (cur_line e)"
    using assms by (auto simp: cursor_ok_def)
  show "snd (deleteCharForward sw rw e) \<longleftrightarrow> after e \<noteq> []"
    using row col by (auto simp: deleteCharForward_def after_Nil_iff Let_def)
  have "before (fst (deleteCharForward sw rw e)) = before e
      \<and> after (fst (deleteCharForward sw rw e)) = tl (after e)"
  proof (cases "e_col e < length (cur_line e)")
    case True
    then have "after e = cur_line e ! e_col e
        # join_lines (drop (e_col e + 1) (cur_line e) # drop (e_row e + 1) (e_value e))"
      using join_lines_front [of "[cur_line e ! e_col e]"]
      by (simp add: after_def Cons_nth_drop_Suc [symmetric])
    with True show ?thesis
      by (simp add: deleteCharForward_def Let_def set_line_zipper [OF assms] before_def [of e])
  next
    case False
    show ?thesis
    proof (cases "e_row e + 1 < length (e_value e)")
      case True
      then have dr: "drop (e_row e + 1) (e_value e)
          = e_value e ! (e_row e + 1) # drop (e_row e + 2) (e_value e)"
        by (simp add: Cons_nth_drop_Suc [symmetric])
      have "before (mergeLineBelow e) = before e"
        and "after (mergeLineBelow e) = join_lines (drop (e_row e + 1) (e_value e))"
        using False col row mergeLineBelow_eq [OF assms True] dr
        by (simp_all add: before_def after_def cur_line_def mergeLineBelow_def Let_def nth_append)
      moreover have "after e = NL # join_lines (drop (e_row e + 1) (e_value e))"
        using False dr by (simp add: after_def)
      ultimately show ?thesis
        using False True by (simp add: deleteCharForward_def)
    next
      case last: False
      then have "after e = []" using False by (simp add: after_Nil_iff)
      with False last show ?thesis by (simp add: deleteCharForward_def)
    qed
  qed
  then show "before (fst (deleteCharForward sw rw e)) = before e"
    and "after (fst (deleteCharForward sw rw e)) = tl (after e)" by auto
qed

text \<open>The two horizontal motions move one rune between the two halves.\<close>

lemma before_left:
  assumes "cursor_ok e"
  shows "before (characterLeft sw rw e) = butlast (before e)" "ed_Value (characterLeft sw rw e) = ed_Value e"
proof -
  have row: "e_row e < length (e_value e)" and col: "e_col e \<le> length (cur_line e)"
    using assms by (auto simp: cursor_ok_def)
  show "ed_Value (characterLeft sw rw e) = ed_Value e"
    by (simp add: characterLeft_def ed_Value_def frame_simps)
  show "before (characterLeft sw rw e) = butlast (before e)"
  proof (cases "e_col e > 0")
    case True
    then have "before e = join_lines (take (e_row e) (e_value e) @ [take (e_col e - 1) (cur_line e)])
        @ [cur_line e ! (e_col e - 1)]"
      using before_col [OF assms, of "e_col e - 1"] col by (simp add: take_Suc_conv_app_nth)
    with True show ?thesis by (simp add: characterLeft_def before_def cur_line_def frame_simps)
  next
    case False
    show ?thesis
    proof (cases "e_row e")
      case (Suc r)
      then have "before e = join_lines (take (e_row e) (e_value e)) @ [NL]"
        using False by (simp add: before_line_start [OF assms])
      moreover have "take (e_row e) (e_value e) = take r (e_value e) @ [e_value e ! r]"
        using row Suc by (simp add: take_Suc_conv_app_nth)
      ultimately show ?thesis
        using False Suc by (simp add: characterLeft_def) (simp add: before_def cur_line_def)
    qed (use False in \<open>simp add: characterLeft_def before_def frame_simps\<close>)
  qed
qed

lemma after_right:
  assumes "cursor_ok e"
  shows "after (characterRight sw rw e) = tl (after e)" "ed_Value (characterRight sw rw e) = ed_Value e"
proof -
  show "ed_Value (characterRight sw rw e) = ed_Value e"
    by (simp add: characterRight_def ed_Value_def frame_simps)
  show "after (characterRight sw rw e) = tl (after e)"
  proof (cases "e_col e < length (cur_line e)")
    case True
    then show ?thesis
      using join_lines_front [of "[cur_line e ! e_col e]"]
      by (simp add: characterRight_def after_def cur_line_def frame_simps Cons_nth_drop_Suc [symmetric])
  next
    case False
    show ?thesis
    proof (cases "e_row e + 1 < length (e_value e)")
      case True
      then have "after e = NL # join_lines (e_value e ! (e_row e + 1) # drop (e_row e + 2) (e_value e))"
        using False by (simp add: after_def Cons_nth_drop_Suc [symmetric])
      with False True show ?thesis
        by (simp add: characterRight_def) (simp add: after_def cur_line_def)
    next
      case last: False
      then have "after e = []" using False by (simp add: after_Nil_iff)
      with False last show ?thesis by (simp add: characterRight_def)
    qed
  qed
qed


lemma append_eq_butlast: "xs @ ys = zs \<Longrightarrow> xs = butlast us \<Longrightarrow> us @ vs = zs \<Longrightarrow> us \<noteq> [] \<Longrightarrow> ys = last us # vs"
  by (cases us rule: rev_cases) auto

lemma cursor_ok_left: "cursor_ok e \<Longrightarrow> cursor_ok (characterLeft sw rw e)"
  by (auto simp: characterLeft_def cursor_ok_def cur_line_def frame_simps)

lemma left_refines:
  assumes "cursor_ok e" "before e \<noteq> []"
  shows "before (characterLeft sw rw e) = butlast (before e)"
    and "after (characterLeft sw rw e) = last (before e) # after e"
  using append_eq_butlast [OF before_after [OF cursor_ok_left [OF assms(1), of sw rw]]
      before_left(1) [OF assms(1)], of "after e"]
    before_left [OF assms(1), of sw rw] before_after [OF assms(1)] assms(2)
  by auto

section \<open>Properties\<close>

text \<open>
  C34: Whatever sequence of keys, pastes, resizes, clicks and scrolls the editor receives, its
  cursor stays on an existing line and within it, no stored line contains a newline, and the
  scroll offset stays in the range the display allows.
\<close>

theorem editor_run_invariant:
  "ed_inv sw rw (fold (ed_step sw rw) evs ed_New)"
  by (rule editor.run_inv) (rule ed_New_inv)

text \<open>
  C35: Insertion is insertion: the sanitised text lands between the text before and the text
  after the cursor, the cursor ends right behind it, and the whole buffer is the concatenation.
\<close>

theorem insert_is_insertion:
  assumes "cursor_ok e"
  shows "before (insertString sw rw s e) = before e @ sanitize s
     \<and> after (insertString sw rw s e) = after e
     \<and> before e @ after e = ed_Value e"
  using assms by (simp add: insert_refines before_after)

theorem insert_is_insertion_witness:
  "before (insertString length (\<lambda>_. 1) [97, 7, 10, 98] ed_New) = [97, 10, 98]"
  using insert_is_insertion [of ed_New length "\<lambda>_. 1" "[97, 7, 10, 98]"]
  by (simp add: ed_New_def cursor_ok_def cur_line_def before_def sanitize_def is_control_def)

text \<open>
  Backspace and Delete remove exactly the rune before, respectively after, the cursor (a
  newline joins two lines), report a change exactly when there is such a rune, and the left
  motion moves one rune across the cursor without touching the text.
\<close>

theorem char_edits_refine:
  assumes "cursor_ok e"
  shows "snd (deleteCharBackward sw rw e) = (before e \<noteq> [])
     \<and> before (fst (deleteCharBackward sw rw e)) = butlast (before e)
     \<and> after (fst (deleteCharBackward sw rw e)) = after e
     \<and> snd (deleteCharForward sw rw e) = (after e \<noteq> [])
     \<and> before (fst (deleteCharForward sw rw e)) = before e
     \<and> after (fst (deleteCharForward sw rw e)) = tl (after e)
     \<and> before (characterLeft sw rw e) = butlast (before e)
     \<and> after (characterRight sw rw e) = tl (after e)
     \<and> ed_Value (characterLeft sw rw e) = ed_Value e
     \<and> ed_Value (characterRight sw rw e) = ed_Value e"
  using assms
  by (simp add: deleteCharBackward_refines deleteCharForward_refines before_left after_right)

theorem char_edits_refine_witness:
  "before (fst (deleteCharBackward length (\<lambda>_. 1)
     (ed_New\<lparr>e_value := [[97], [98]], e_row := 1\<rparr>))) = [97]"
  using char_edits_refine [of "ed_New\<lparr>e_value := [[97], [98]], e_row := 1\<rparr>" length "\<lambda>_. 1"]
  by (simp add: ed_New_def cursor_ok_def cur_line_def before_def)

text \<open>
  The wrap loses no text: the display segments of a line concatenate to the line, white
  space shown as blanks, and one trailing blank for the cursor, at every width.
\<close>

theorem wrap_keeps_text:
  "concat (wrapLine sw rw line width) = map shown line @ [SP]
     \<and> sum_list (map length (wrapLine sw rw line width)) = length line + 1"
  by (simp add: concat_wrapLine)

text \<open>
  Render and cursor agree: the display line the cursor computes for itself exists, belongs
  to the cursor's logical line, and its columns contain the cursor's column.
\<close>

theorem cursor_on_its_display_line:
  assumes "cursor_ok e"
  shows "CursorDisplayLine sw rw e < length (DisplayLines sw rw e)
     \<and> (let dl = DisplayLines sw rw e ! CursorDisplayLine sw rw e
        in dl_LogicalIdx dl = e_row e \<and> dl_StartCol dl \<le> e_col e
           \<and> e_col e \<le> dl_StartCol dl + length (dl_Runes dl))"
  using CursorDisplayLine_shows [OF assms] by (simp add: Let_def)

theorem cursor_on_its_display_line_witness:
  "CursorDisplayLine length (\<lambda>_. 1) (ed_New\<lparr>e_value := [[97], [98, 99]], e_row := 1, e_col := 2\<rparr>)
     < length (DisplayLines length (\<lambda>_. 1) (ed_New\<lparr>e_value := [[97], [98, 99]], e_row := 1, e_col := 2\<rparr>))"
  using cursor_on_its_display_line [of "ed_New\<lparr>e_value := [[97], [98, 99]], e_row := 1, e_col := 2\<rparr>"
      length "\<lambda>_. 1"]
  by (simp add: ed_New_def cursor_ok_def cur_line_def)

text \<open>
  A key never leaves the cursor outside the viewport: from a state in which the cursor's
  display line is in view, every key leads to a state in which it is in view again, with the
  invariant.
\<close>

theorem key_keeps_cursor_visible:
  assumes "ed_inv sw rw e" "cursor_visible sw rw e"
  shows "cursor_visible sw rw (fst (ed_HandleKey sw rw ev e))"
  using HandleKey_vis [of sw rw e ev] assms by (simp add: ed_vis_def)

theorem key_keeps_cursor_visible_witness:
  "cursor_visible length (\<lambda>_. 1) (fst (ed_HandleKey length (\<lambda>_. 1)
     \<lparr>k_code = KeyEnter, k_alt = False, k_ctrl = False, k_text = []\<rparr> ed_New))"
  by (rule key_keeps_cursor_visible [OF ed_New_inv])
    (simp add: ed_New_def cursor_visible_def CursorDisplayLine_def LineInfo_def wrapRow_def
      wrapLine_def wrap_init_def wrap_finish_def append_line_def)

text \<open>
  Setting a value and reading it back gives the sanitised text: control characters other
  than the newline are gone, everything else is kept in order.
\<close>

theorem SetValue_Value:
  assumes "1 \<le> e_width e" "1 \<le> e_height e"
  shows "ed_Value (ed_SetValue sw rw s e) = sanitize s"
proof -
  have ok: "cursor_ok (ed_reset e)"
    using assms by (simp add: ed_reset_def cursor_ok_def cur_line_def)
  have empty: "before (ed_reset e) = []" "after (ed_reset e) = []"
    by (simp_all add: ed_reset_def before_def after_def cur_line_def)
  have "cursor_ok (insertString sw rw s (ed_reset e))"
    using ok ins_body_ok [OF ok split_lines_neq_Nil]
    by (auto simp: insertString_eq cursor_ok_def frame_simps)
  from before_after [OF this] show ?thesis
    by (simp add: ed_SetValue_eq insert_refines [OF ok] empty)
qed

theorem SetValue_Value_witness:
  "ed_Value (ed_SetValue length (\<lambda>_. 1) [104, 9, 105, 10, 33] ed_New) = [104, 105, 10, 33]"
  using SetValue_Value [of ed_New length "\<lambda>_. 1" "[104, 9, 105, 10, 33]"]
  by (simp add: ed_New_def sanitize_def is_control_def)

end
