(* ===== verification/Uiinput.thy ===== *)
theory Uiinput
  imports Prelude
begin

text \<open>
  The single-line input, \<^verbatim>\<open>internal/ui/components/uiinput/uiinput.go\<close>: value, caret,
  horizontal scroll, masking and length limit. Drawing is not modelled, but
  \<open>RuneIndexAtViewportX\<close> is the inverse of the drawn layout and \<open>draw_column\<close>
  gives the column \<open>Draw\<close> puts a rune in, so the two are compared. \<open>sw\<close> is
  \<^verbatim>\<open>uniseg.StringWidth\<close>.
\<close>

section \<open>State and operations\<close>

record input =
  in_value :: runes
  in_cursor :: nat
  in_viewOffset :: nat
  in_prompt :: runes
  in_placeholder :: runes
  in_width :: int
  in_masked :: bool
  in_maxLen :: int
  in_focused :: bool

definition in_New :: input where
  "in_New = \<lparr>in_value = [], in_cursor = 0, in_viewOffset = 0, in_prompt = [], in_placeholder = [],
             in_width = 0, in_masked = False, in_maxLen = 0, in_focused = False\<rparr>"

text \<open>What \<open>Draw\<close> and the width measures show for one rune: a bullet (U+2022) when masked.\<close>

definition shown_rune :: "input \<Rightarrow> rune \<Rightarrow> runes" where
  "shown_rune i r = (if in_masked i then [8226] else [r])"

definition rune_width :: "(runes \<Rightarrow> nat) \<Rightarrow> input \<Rightarrow> nat \<Rightarrow> nat" where
  "rune_width sw i k = sw (shown_rune i (in_value i ! k))"

text \<open>The loop of \<open>cellWidth\<close> from \<open>from\<close> to \<open>to\<close>, stopping at the end of the value.\<close>

definition cellWidth :: "(runes \<Rightarrow> nat) \<Rightarrow> input \<Rightarrow> nat \<Rightarrow> nat \<Rightarrow> nat" where
  "cellWidth sw i frm to = sum_list (map (rune_width sw i) [frm..<min to (length (in_value i))])"

function clamp_right :: "(runes \<Rightarrow> nat) \<Rightarrow> input \<Rightarrow> int \<Rightarrow> nat \<Rightarrow> nat" where
  "clamp_right sw i inner v =
     (if v < in_cursor i \<and> int (cellWidth sw i v (in_cursor i)) + 1 > inner
      then clamp_right sw i inner (v + 1) else v)"
  by pat_completeness auto
termination
  by (relation "measure (\<lambda>(sw, i, inner, v). in_cursor i - v)") auto

declare clamp_right.simps [simp del]

fun clamp_left :: "(runes \<Rightarrow> nat) \<Rightarrow> input \<Rightarrow> int \<Rightarrow> nat \<Rightarrow> nat" where
  "clamp_left sw i inner 0 = 0"
| "clamp_left sw i inner (Suc v) =
     (if int (cellWidth sw i v (in_cursor i)) + 1 \<le> inner then clamp_left sw i inner v else Suc v)"

definition clampView :: "(runes \<Rightarrow> nat) \<Rightarrow> input \<Rightarrow> input" where
  "clampView sw i =
     (let inner = max (in_width i) 1
      in if in_cursor i < in_viewOffset i then i\<lparr>in_viewOffset := in_cursor i\<rparr>
         else i\<lparr>in_viewOffset := clamp_left sw i inner (clamp_right sw i inner (in_viewOffset i))\<rparr>)"

definition in_SetValue :: "(runes \<Rightarrow> nat) \<Rightarrow> runes \<Rightarrow> input \<Rightarrow> input" where
  "in_SetValue sw s i =
     (let v = (if in_maxLen i > 0 \<and> int (length s) > in_maxLen i then take (nat (in_maxLen i)) s else s)
      in clampView sw (i\<lparr>in_value := v, in_cursor := length v\<rparr>))"

definition in_SetCursor :: "(runes \<Rightarrow> nat) \<Rightarrow> int \<Rightarrow> input \<Rightarrow> input" where
  "in_SetCursor sw n i =
     clampView sw (i\<lparr>in_cursor := nat (min (max n 0) (int (length (in_value i))))\<rparr>)"

definition in_SetWidth :: "(runes \<Rightarrow> nat) \<Rightarrow> int \<Rightarrow> input \<Rightarrow> input" where
  "in_SetWidth sw w i = clampView sw (i\<lparr>in_width := if w < 1 then 1 else w\<rparr>)"

definition insertRune :: "(runes \<Rightarrow> nat) \<Rightarrow> rune \<Rightarrow> input \<Rightarrow> input" where
  "insertRune sw r i =
     (if in_maxLen i > 0 \<and> int (length (in_value i)) \<ge> in_maxLen i then i
      else clampView sw
        (i\<lparr>in_value := take (in_cursor i) (in_value i) @ r # drop (in_cursor i) (in_value i),
           in_cursor := in_cursor i + 1\<rparr>))"

definition InsertText :: "(runes \<Rightarrow> nat) \<Rightarrow> runes \<Rightarrow> input \<Rightarrow> input" where
  "InsertText sw s i = fold (insertRune sw) s i"

definition in_HandleKey :: "(runes \<Rightarrow> nat) \<Rightarrow> key_event \<Rightarrow> input \<Rightarrow> input \<times> bool" where
  "in_HandleKey sw ev i =
     (if k_ctrl ev \<or> k_alt ev then (i, False)
      else
        let other = (if k_text ev \<noteq> [] then (InsertText sw (k_text ev) i, True) else (i, False))
        in case k_code ev of
          KeyLeft \<Rightarrow> (if in_cursor i > 0 then clampView sw (i\<lparr>in_cursor := in_cursor i - 1\<rparr>) else i, True)
        | KeyRight \<Rightarrow> (if in_cursor i < length (in_value i)
                       then clampView sw (i\<lparr>in_cursor := in_cursor i + 1\<rparr>) else i, True)
        | KeyHome \<Rightarrow> (clampView sw (i\<lparr>in_cursor := 0\<rparr>), True)
        | KeyEnd \<Rightarrow> (clampView sw (i\<lparr>in_cursor := length (in_value i)\<rparr>), True)
        | KeyBackspace \<Rightarrow>
            (if in_cursor i > 0
             then clampView sw (i\<lparr>in_value := take (in_cursor i - 1) (in_value i) @ drop (in_cursor i) (in_value i),
                                  in_cursor := in_cursor i - 1\<rparr>)
             else i, True)
        | KeyDelete \<Rightarrow>
            (if in_cursor i < length (in_value i)
             then clampView sw (i\<lparr>in_value := take (in_cursor i) (in_value i) @ drop (in_cursor i + 1) (in_value i)\<rparr>)
             else i, True)
        | _ \<Rightarrow> other)"

text \<open>The walk of \<open>RuneIndexAtViewportX\<close> over the runes from index \<open>k\<close>.\<close>

function viewport_walk :: "(runes \<Rightarrow> nat) \<Rightarrow> input \<Rightarrow> int \<Rightarrow> nat \<Rightarrow> nat \<Rightarrow> nat" where
  "viewport_walk sw i cellOff col k =
     (if k < length (in_value i) then
        let w = rune_width sw i k
        in if w = 0 then viewport_walk sw i cellOff col (k + 1)
           else if cellOff < int (col + w) then k
           else viewport_walk sw i cellOff (col + w) (k + 1)
      else length (in_value i))"
  by pat_completeness auto
termination
  by (relation "measure (\<lambda>(sw, i, cellOff, col, k). length (in_value i) - k)") auto

declare viewport_walk.simps [simp del]

definition RuneIndexAtViewportX :: "(runes \<Rightarrow> nat) \<Rightarrow> int \<Rightarrow> input \<Rightarrow> nat" where
  "RuneIndexAtViewportX sw x i =
     (let cellOff = x - int (sw (in_prompt i))
      in if cellOff \<le> 0 then min (in_viewOffset i) (length (in_value i))
         else viewport_walk sw i cellOff 0 (in_viewOffset i))"

definition in_Focus :: "input \<Rightarrow> input" where "in_Focus i = i\<lparr>in_focused := True\<rparr>"
definition in_Blur :: "input \<Rightarrow> input" where "in_Blur i = i\<lparr>in_focused := False\<rparr>"
definition in_SetMasked :: "bool \<Rightarrow> input \<Rightarrow> input" where "in_SetMasked b i = i\<lparr>in_masked := b\<rparr>"
definition in_SetMaxLen :: "int \<Rightarrow> input \<Rightarrow> input" where "in_SetMaxLen n i = i\<lparr>in_maxLen := n\<rparr>"

section \<open>The invariant\<close>

definition in_inv :: "input \<Rightarrow> bool" where
  "in_inv i \<longleftrightarrow> in_viewOffset i \<le> in_cursor i \<and> in_cursor i \<le> length (in_value i)"

text \<open>The caret's cell is inside the viewport.\<close>

definition caret_fits :: "(runes \<Rightarrow> nat) \<Rightarrow> input \<Rightarrow> bool" where
  "caret_fits sw i \<longleftrightarrow> int (cellWidth sw i (in_viewOffset i) (in_cursor i)) + 1 \<le> max (in_width i) 1"

lemma rune_width_viewOffset [simp]: "rune_width sw (i\<lparr>in_viewOffset := v\<rparr>) = rune_width sw i"
  by (simp add: rune_width_def shown_rune_def fun_eq_iff)

lemma cellWidth_viewOffset [simp]: "cellWidth sw (i\<lparr>in_viewOffset := v\<rparr>) = cellWidth sw i"
  by (simp add: cellWidth_def fun_eq_iff)

lemma cellWidth_same [simp]: "cellWidth sw i v v = 0"
  by (simp add: cellWidth_def)

lemma clamp_right_spec:
  "v \<le> in_cursor i \<Longrightarrow> 1 \<le> inner \<Longrightarrow> clamp_right sw i inner v \<le> in_cursor i
     \<and> int (cellWidth sw i (clamp_right sw i inner v) (in_cursor i)) + 1 \<le> inner"
proof (induction sw i inner v rule: clamp_right.induct)
  case (1 sw i inner v)
  show ?case
  proof (cases "v < in_cursor i \<and> int (cellWidth sw i v (in_cursor i)) + 1 > inner")
    case True
    with 1 show ?thesis by (subst (1 2) clamp_right.simps) simp
  next
    case False
    with "1.prems" show ?thesis
      by (cases "v = in_cursor i") (subst (1 2) clamp_right.simps, simp)+
  qed
qed

lemma clamp_left_spec:
  "int (cellWidth sw i v (in_cursor i)) + 1 \<le> inner \<Longrightarrow> clamp_left sw i inner v \<le> v
     \<and> int (cellWidth sw i (clamp_left sw i inner v) (in_cursor i)) + 1 \<le> inner"
  by (induction sw i inner v rule: clamp_left.induct) auto

lemma clamp_left_minimal:
  "0 < clamp_left sw i inner v \<Longrightarrow>
     inner < int (cellWidth sw i (clamp_left sw i inner v - 1) (in_cursor i)) + 1"
  by (induction sw i inner v rule: clamp_left.induct) auto

lemma clampView_frame [frame_simps]:
  "in_value (clampView sw i) = in_value i" "in_cursor (clampView sw i) = in_cursor i"
  "in_maxLen (clampView sw i) = in_maxLen i" "in_width (clampView sw i) = in_width i"
  "in_masked (clampView sw i) = in_masked i" "in_prompt (clampView sw i) = in_prompt i"
  "in_focused (clampView sw i) = in_focused i"
  by (simp_all add: clampView_def Let_def)

lemma clampView_spec:
  assumes "in_cursor i \<le> length (in_value i)"
  shows "in_inv (clampView sw i)" "caret_fits sw (clampView sw i)"
proof -
  have "in_inv (clampView sw i) \<and> caret_fits sw (clampView sw i)"
  proof (cases "in_cursor i < in_viewOffset i")
    case True
    with assms show ?thesis by (simp add: clampView_def in_inv_def caret_fits_def)
  next
    case False
    let ?v = "clamp_right sw i (max (in_width i) 1) (in_viewOffset i)"
    have "?v \<le> in_cursor i" "int (cellWidth sw i ?v (in_cursor i)) + 1 \<le> max (in_width i) 1"
      using clamp_right_spec [of "in_viewOffset i" i "max (in_width i) 1" sw] False by auto
    then show ?thesis
      using clamp_left_spec [of sw i ?v "max (in_width i) 1"] False assms
      by (auto simp: clampView_def in_inv_def caret_fits_def Let_def)
  qed
  then show "in_inv (clampView sw i)" "caret_fits sw (clampView sw i)" by auto
qed


section \<open>Every operation keeps the invariant\<close>

lemma in_inv_mask [simp]: "in_inv (i\<lparr>in_focused := b\<rparr>) = in_inv i" "in_inv (i\<lparr>in_masked := b\<rparr>) = in_inv i"
  "in_inv (i\<lparr>in_maxLen := n\<rparr>) = in_inv i"
  by (simp_all add: in_inv_def)

lemma in_SetValue_inv [wf_intros]: "in_inv (in_SetValue sw s i)"
  by (auto simp: in_SetValue_def Let_def intro!: clampView_spec)

lemma in_SetCursor_inv [wf_intros]: "in_inv (in_SetCursor sw n i)"
  by (auto simp: in_SetCursor_def intro!: clampView_spec)

lemma in_SetWidth_inv [wf_intros]: "in_inv i \<Longrightarrow> in_inv (in_SetWidth sw w i)"
  by (auto simp: in_SetWidth_def in_inv_def [of i] intro!: clampView_spec)

lemma insertRune_inv [wf_intros]: "in_inv i \<Longrightarrow> in_inv (insertRune sw r i)"
  by (auto simp: insertRune_def in_inv_def [of i] intro!: clampView_spec)

lemma InsertText_inv [wf_intros]: "in_inv i \<Longrightarrow> in_inv (InsertText sw s i)"
  unfolding InsertText_def by (induction s arbitrary: i) (auto simp: insertRune_inv)

lemma in_HandleKey_inv [wf_intros]: "in_inv i \<Longrightarrow> in_inv (fst (in_HandleKey sw ev i))"
  by (auto simp: in_HandleKey_def Let_def InsertText_inv in_inv_def [of i] Suc_le_eq
      intro!: clampView_spec split: key_code.split)

text \<open>The length limit: insertion never takes the value past it.\<close>

lemma insertRune_value:
  "in_value (insertRune sw r i) =
     (if in_maxLen i > 0 \<and> int (length (in_value i)) \<ge> in_maxLen i then in_value i
      else take (in_cursor i) (in_value i) @ r # drop (in_cursor i) (in_value i))"
  by (simp add: insertRune_def frame_simps)

lemma insertRune_maxLen [simp]: "in_maxLen (insertRune sw r i) = in_maxLen i"
  by (simp add: insertRune_def frame_simps)

lemma InsertText_limit:
  "in_inv i \<Longrightarrow> 0 < in_maxLen i \<Longrightarrow> int (length (in_value i)) \<le> in_maxLen i
     \<Longrightarrow> int (length (in_value (InsertText sw s i))) \<le> in_maxLen i"
proof (induction s arbitrary: i)
  case (Cons r s)
  have "int (length (in_value (insertRune sw r i))) \<le> in_maxLen i"
    using Cons.prems by (auto simp: insertRune_value in_inv_def)
  with Cons.IH [of "insertRune sw r i"] Cons.prems show ?case
    by (simp add: InsertText_def insertRune_inv)
qed (simp add: InsertText_def)

lemma InsertText_unlimited:
  "in_inv i \<Longrightarrow> in_maxLen i \<le> 0 \<Longrightarrow>
     in_value (InsertText sw s i) = take (in_cursor i) (in_value i) @ s @ drop (in_cursor i) (in_value i)
     \<and> in_cursor (InsertText sw s i) = in_cursor i + length s"
proof (induction s arbitrary: i)
  case (Cons r s)
  let ?j = "insertRune sw r i"
  have j: "in_value ?j = take (in_cursor i) (in_value i) @ r # drop (in_cursor i) (in_value i)"
    "in_cursor ?j = in_cursor i + 1"
    using Cons.prems by (simp_all add: insertRune_def frame_simps)
  have "in_cursor i \<le> length (in_value i)" using Cons.prems by (simp add: in_inv_def)
  with Cons.IH [of ?j] Cons.prems j show ?case
    by (simp add: InsertText_def insertRune_inv)
qed (simp add: InsertText_def)

section \<open>The contract the list and the filter menu rely on\<close>

text \<open>
  A text field: it can be set, read, typed and pasted into. The clients of the input (the fuzzy
  filter of the list, the rule rows of the filter menu) use only these operations.
\<close>

locale text_field =
  fixes ok :: "'i \<Rightarrow> bool"
    and val :: "'i \<Rightarrow> runes"
    and set_val :: "runes \<Rightarrow> 'i \<Rightarrow> 'i"
    and paste :: "runes \<Rightarrow> 'i \<Rightarrow> 'i"
    and key :: "key_event \<Rightarrow> 'i \<Rightarrow> 'i \<times> bool"
    and unlimited :: "'i \<Rightarrow> bool"
  assumes ok_set_val: "ok (set_val s i)"
    and ok_paste: "ok i \<Longrightarrow> ok (paste s i)"
    and ok_key: "ok i \<Longrightarrow> ok (fst (key ev i))"
    and val_set_val: "unlimited i \<Longrightarrow> val (set_val s i) = s"
    and unlimited_set_val: "unlimited i \<Longrightarrow> unlimited (set_val s i)"
    and unlimited_paste: "unlimited i \<Longrightarrow> unlimited (paste s i)"
    and unlimited_key: "unlimited i \<Longrightarrow> unlimited (fst (key ev i))"
    and paste_infix: "ok i \<Longrightarrow> unlimited i \<Longrightarrow> \<exists>u v. val i = u @ v \<and> val (paste s i) = u @ s @ v"
    and key_ignored: "\<not> snd (key ev i) \<Longrightarrow> fst (key ev i) = i"
begin

lemma paste_grows: "ok i \<Longrightarrow> unlimited i \<Longrightarrow> length (val (paste s i)) = length (val i) + length s"
  using paste_infix [of i s] by auto

lemma paste_empty: "ok i \<Longrightarrow> unlimited i \<Longrightarrow> val i = [] \<Longrightarrow> val (paste s i) = s"
  using paste_infix [of i s] by auto

lemma clear_then_paste: "unlimited i \<Longrightarrow> val (paste s (set_val [] i)) = s"
  by (simp add: paste_empty ok_set_val unlimited_set_val val_set_val)

lemma keys_ok: "ok i \<Longrightarrow> ok (fold (\<lambda>ev i. fst (key ev i)) evs i)"
  by (induction evs arbitrary: i) (auto simp: ok_key)

end

lemma in_HandleKey_maxLen [simp]: "in_maxLen (fst (in_HandleKey sw ev i)) = in_maxLen i"
proof -
  have ins: "in_maxLen (InsertText sw s i) = in_maxLen i" for s
    unfolding InsertText_def by (induction s arbitrary: i) auto
  show ?thesis
    by (simp add: in_HandleKey_def Let_def ins frame_simps split: key_code.split)
qed

lemma in_SetValue_unlimited: "in_maxLen i \<le> 0 \<Longrightarrow> in_value (in_SetValue sw s i) = s"
  by (simp add: in_SetValue_def frame_simps)

lemma in_SetValue_maxLen [simp]: "in_maxLen (in_SetValue sw s i) = in_maxLen i"
  by (simp add: in_SetValue_def frame_simps Let_def)

interpretation field: text_field in_inv in_value "in_SetValue sw" "InsertText sw" "in_HandleKey sw"
    "\<lambda>i. in_maxLen i \<le> 0" for sw
proof
  show "in_inv i \<Longrightarrow> in_maxLen i \<le> 0 \<Longrightarrow>
      \<exists>u v. in_value i = u @ v \<and> in_value (InsertText sw s i) = u @ s @ v" for i s
    using InsertText_unlimited [of i sw s] append_take_drop_id [of "in_cursor i" "in_value i"] by metis
  show "in_maxLen i \<le> 0 \<Longrightarrow> in_maxLen (InsertText sw s i) \<le> 0" for i s
    unfolding InsertText_def by (induction s arbitrary: i) auto
  show "\<not> snd (in_HandleKey sw ev i) \<Longrightarrow> fst (in_HandleKey sw ev i) = i" for ev i
    by (auto simp: in_HandleKey_def Let_def split: key_code.splits if_splits)
qed (auto simp: in_SetValue_inv InsertText_inv in_HandleKey_inv in_SetValue_unlimited)

section \<open>Runs\<close>

datatype input_event =
    InKey key_event | InSetValue runes | InPaste runes | InSetCursor int | InSetWidth int
  | InSetMasked bool | InSetMaxLen int | InFocus | InBlur

fun in_step :: "(runes \<Rightarrow> nat) \<Rightarrow> input_event \<Rightarrow> input \<Rightarrow> input" where
  "in_step sw (InKey ev) i = fst (in_HandleKey sw ev i)"
| "in_step sw (InSetValue s) i = in_SetValue sw s i"
| "in_step sw (InPaste s) i = InsertText sw s i"
| "in_step sw (InSetCursor n) i = in_SetCursor sw n i"
| "in_step sw (InSetWidth w) i = in_SetWidth sw w i"
| "in_step sw (InSetMasked b) i = in_SetMasked b i"
| "in_step sw (InSetMaxLen n) i = in_SetMaxLen n i"
| "in_step sw InFocus i = in_Focus i"
| "in_step sw InBlur i = in_Blur i"

lemma in_step_inv: "in_inv i \<Longrightarrow> in_inv (in_step sw ev i)"
  by (cases ev) (auto simp: in_SetValue_inv in_SetCursor_inv in_SetWidth_inv InsertText_inv
      in_HandleKey_inv in_SetMasked_def in_SetMaxLen_def in_Focus_def in_Blur_def)

interpretation input: event_machine in_inv "in_step sw" for sw
  by unfold_locales (rule in_step_inv)

section \<open>Clicks\<close>

text \<open>The column, relative to the end of the prompt, at which \<open>Draw\<close> puts rune \<open>k\<close>.\<close>

definition draw_column :: "(runes \<Rightarrow> nat) \<Rightarrow> input \<Rightarrow> nat \<Rightarrow> nat" where
  "draw_column sw i k = sum_list (map (rune_width sw i) [in_viewOffset i..<k])"

lemma viewport_walk_le: "k \<le> length (in_value i) \<Longrightarrow> viewport_walk sw i cellOff col k \<le> length (in_value i)"
  by (induction sw i cellOff col k rule: viewport_walk.induct)
    (subst viewport_walk.simps, auto simp: Let_def)

lemma viewport_walk_hit:
  assumes "k \<le> t" "t < length (in_value i)"
    "int col + int (sum_list (map (rune_width sw i) [k..<t])) \<le> cellOff"
    "cellOff < int col + int (sum_list (map (rune_width sw i) [k..<t])) + int (rune_width sw i t)"
  shows "viewport_walk sw i cellOff col k = t"
  using assms
proof (induction "t - k" arbitrary: k col)
  case 0
  then show ?case by (subst viewport_walk.simps) (auto simp: Let_def)
next
  case (Suc n)
  then have kt: "k < t" by simp
  then have upt: "[k..<t] = k # [Suc k..<t]" by (simp add: upt_rec)
  let ?w = "rune_width sw i k"
  have IH: "viewport_walk sw i cellOff (col + ?w) (Suc k) = t"
    using Suc.hyps(2) Suc.prems kt upt by (intro Suc.hyps(1)) auto
  have "int (col + ?w) \<le> cellOff" using Suc.prems(3) upt by simp
  with IH kt Suc.prems(2) show ?case
    by (subst viewport_walk.simps) (auto simp: Let_def)
qed

section \<open>Properties\<close>

text \<open>
  Whatever sequence of keys, pastes, cursor placements and resizes an input receives, its
  caret stays within the value and the first visible rune is never right of the caret.
\<close>

theorem input_run_invariant: "in_inv (fold (in_step sw) evs in_New)"
  by (rule input.run_inv) (simp add: in_inv_def in_New_def)

text \<open>
  Scrolling keeps the caret in view and wastes no room: after a reclamp the run from the first
  visible rune to the caret and the caret's own cell fit the inner width, and when the loops ran,
  one more rune on the left would not fit.
\<close>

theorem clampView_fits_and_tight:
  assumes "in_cursor i \<le> length (in_value i)"
  shows "caret_fits sw (clampView sw i) \<and> in_inv (clampView sw i)
     \<and> (in_viewOffset i \<le> in_cursor i \<and> 0 < in_viewOffset (clampView sw i) \<longrightarrow>
         max (in_width i) 1 < int (cellWidth sw i (in_viewOffset (clampView sw i) - 1) (in_cursor i)) + 1)"
proof -
  have "max (in_width i) 1 < int (cellWidth sw i (in_viewOffset (clampView sw i) - 1) (in_cursor i)) + 1"
    if "in_viewOffset i \<le> in_cursor i" "0 < in_viewOffset (clampView sw i)"
  proof -
    have eq: "in_viewOffset (clampView sw i)
        = clamp_left sw i (max (in_width i) 1) (clamp_right sw i (max (in_width i) 1) (in_viewOffset i))"
      using that(1) by (simp add: clampView_def Let_def)
    show ?thesis
      unfolding eq by (rule clamp_left_minimal) (use that(2) eq in simp)
  qed
  with clampView_spec [OF assms, of sw] show ?thesis by blast
qed

theorem clampView_fits_and_tight_witness:
  "caret_fits length (clampView length (in_New\<lparr>in_value := [97, 98, 99], in_cursor := 3, in_width := 2\<rparr>))"
  using clampView_fits_and_tight [of "in_New\<lparr>in_value := [97, 98, 99], in_cursor := 3, in_width := 2\<rparr>" length]
  by (simp add: in_New_def)

text \<open>
  A click places the caret on the rune that is drawn there: for a visible rune, every cell it
  covers maps back to its index, and any click at all gives an index within the value.
\<close>

theorem click_inverts_draw:
  assumes "in_inv i"
  shows "RuneIndexAtViewportX sw x i \<le> length (in_value i)
     \<and> (\<forall>k. in_viewOffset i \<le> k \<and> k < length (in_value i)
          \<and> int (sw (in_prompt i)) + int (draw_column sw i k) \<le> x
          \<and> x < int (sw (in_prompt i)) + int (draw_column sw i k) + int (rune_width sw i k)
          \<and> 0 < x - int (sw (in_prompt i))
          \<longrightarrow> RuneIndexAtViewportX sw x i = k)"
proof -
  have "in_viewOffset i \<le> length (in_value i)" using assms by (simp add: in_inv_def)
  then show ?thesis
    using viewport_walk_le [of "in_viewOffset i" i sw "x - int (sw (in_prompt i))" 0]
    by (auto simp: RuneIndexAtViewportX_def Let_def draw_column_def intro!: viewport_walk_hit)
qed

theorem click_inverts_draw_witness:
  "RuneIndexAtViewportX length 4 (in_New\<lparr>in_value := [97, 98, 99], in_prompt := [62, 32]\<rparr>) = 2"
proof -
  let ?i = "in_New\<lparr>in_value := [97, 98, 99], in_prompt := [62, 32]\<rparr>"
  have "in_inv ?i" by (simp add: in_New_def in_inv_def)
  then show ?thesis
    by (rule click_inverts_draw [THEN conjunct2, rule_format])
      (simp add: in_New_def draw_column_def rune_width_def shown_rune_def upt_conv_Cons)
qed

text \<open>
  Typing and pasting insert at the caret; with a length limit the value never grows past it.
\<close>

theorem paste_inserts_within_limit:
  assumes "in_inv i"
  shows "(in_maxLen i \<le> 0 \<longrightarrow>
       in_value (InsertText sw s i) = take (in_cursor i) (in_value i) @ s @ drop (in_cursor i) (in_value i)
       \<and> in_cursor (InsertText sw s i) = in_cursor i + length s)
     \<and> (0 < in_maxLen i \<and> int (length (in_value i)) \<le> in_maxLen i \<longrightarrow>
       int (length (in_value (InsertText sw s i))) \<le> in_maxLen i)"
  using InsertText_unlimited [OF assms] InsertText_limit [OF assms] by auto

theorem paste_inserts_within_limit_witness:
  "in_value (InsertText length [98] (in_New\<lparr>in_value := [97, 99], in_cursor := 1\<rparr>)) = [97, 98, 99]"
  using paste_inserts_within_limit [of "in_New\<lparr>in_value := [97, 99], in_cursor := 1\<rparr>" length "[98]"]
  by (simp add: in_New_def in_inv_def)

end
