(* ===== verification/Jqval.thy ===== *)
theory Jqval
  imports Prelude "HOL-Library.Word"
begin

text \<open>
  Values a log carries and what the jq stage makes of them:
  \<^verbatim>\<open>internal/ui/components/logviewer/jq.go\<close>. A Go string (and a \<^verbatim>\<open>[]byte\<close>) is the list of
  its bytes. Everything third-party the log viewer calls is a field of the record \<open>ext\<close>,
  which the definitions take as their first argument.
\<close>

section \<open>Values\<close>

type_synonym gostr = "nat list"

definition str :: "string \<Rightarrow> gostr" where
  "str s = map of_char s"

lemma str_Nil [simp]: "str [] = []" and str_Cons [simp]: "str (c # s) = of_char c # str s"
  and str_eq_Nil [simp]: "str s = [] \<longleftrightarrow> s = []"
  by (simp_all add: str_def)

text \<open>
  The dynamic types a decoded or computed JSON value has: \<^verbatim>\<open>nil\<close>, \<^verbatim>\<open>bool\<close>, \<^verbatim>\<open>int\<close>,
  \<^verbatim>\<open>float64\<close> (its bits), \<^verbatim>\<open>*big.Int\<close>, \<^verbatim>\<open>string\<close>, \<^verbatim>\<open>[]any\<close> and
  \<^verbatim>\<open>map[string]any\<close> (an association list; the code never depends on its order).
\<close>

datatype jv =
    JNil | JBool bool | JInt int | JFloat "64 word" | JBig int | JStr gostr
  | JArr "jv list" | JMap "(gostr \<times> jv) list"

text \<open>
  What one call of \<^verbatim>\<open>iter.Next\<close> of a gojq run gives: a value, an error (its message), or
  the \<^verbatim>\<open>HaltError\<close> without a value that ends a run normally.
\<close>

datatype jq_out = Out jv | Failure gostr | Halted

text \<open>
  The functions of other packages the log viewer relies on. A run of a query or of compiled code
  may depend on its context: one that is cancelled before the run, or an active one (a number),
  whose deadline can pass while the query runs.
\<close>

datatype ctx = Active nat | Cancelled

record ('q, 'c) ext =
  x_parse :: "gostr \<Rightarrow> gostr + 'q"
  x_compile :: "'q \<Rightarrow> gostr + 'c"
  x_run :: "ctx \<Rightarrow> 'q \<Rightarrow> jv \<Rightarrow> jq_out list"
  x_run_code :: "ctx \<Rightarrow> 'c \<Rightarrow> jv \<Rightarrow> jq_out list"
  x_marshal :: "jv \<Rightarrow> gostr + gostr"
  x_marshal_indent :: "jv \<Rightarrow> gostr + gostr"
  x_unmarshal :: "gostr \<Rightarrow> jv option"
  x_gofmt :: "jv \<Rightarrow> gostr"
  x_clusters :: "gostr \<Rightarrow> (gostr \<times> nat) list"
  x_ac :: "gostr list \<Rightarrow> gostr \<Rightarrow> (nat \<times> nat \<times> nat) list"

text \<open>
  A small instance, for evaluating the model on concrete inputs: a query is its text, which selects a
  top-level key; there is no segmentation beyond single bytes, and nothing is found.
\<close>

definition demo_ext :: "(gostr, gostr) ext" where
  "demo_ext = \<lparr>x_parse = \<lambda>s. if s = [] then Inl [] else Inr s, x_compile = Inr,
     x_run = \<lambda>cx q v. [Out (case v of JMap kvs \<Rightarrow> (case map_of kvs q of Some x \<Rightarrow> x | None \<Rightarrow> JNil) | _ \<Rightarrow> JNil)],
     x_run_code = \<lambda>cx q v. [Out (case v of JMap kvs \<Rightarrow> (case map_of kvs q of Some x \<Rightarrow> x | None \<Rightarrow> JNil) | _ \<Rightarrow> JNil)],
     x_marshal = \<lambda>v. Inr (case v of JStr s \<Rightarrow> 34 # s @ [34] | _ \<Rightarrow> [48]),
     x_marshal_indent = \<lambda>v. Inr (case v of JStr s \<Rightarrow> 34 # s @ [34] | _ \<Rightarrow> [48]),
     x_unmarshal = \<lambda>s. None, x_gofmt = \<lambda>v. [48], x_clusters = map (\<lambda>b. ([b], 1)),
     x_ac = \<lambda>ps b. []\<rparr>"

section \<open>\<open>isEmpty\<close> and \<open>cloneJSONValue\<close>\<close>

text \<open>
  The case \<^verbatim>\<open>map[any]any\<close> of the type switch is no JSON value (an object is a
  \<^verbatim>\<open>map[string]any\<close>), so an empty object falls to the default case.
\<close>

fun isEmpty :: "jv \<Rightarrow> bool" where
  "isEmpty JNil = True"
| "isEmpty (JStr s) = (s = [] \<or> s = str ''<nil>'')"
| "isEmpty (JArr vs) = (length vs = 0)"
| "isEmpty (JInt n) = (n = 0)"
| "isEmpty _ = False"

fun cloneJSONValue :: "jv \<Rightarrow> jv" where
  "cloneJSONValue (JMap kvs) = JMap (map (\<lambda>(k, x). (k, cloneJSONValue x)) kvs)"
| "cloneJSONValue (JArr vs) = JArr (map cloneJSONValue vs)"
| "cloneJSONValue v = v"

lemma cloneJSONValue_id [simp]: "cloneJSONValue v = v"
proof (induction v rule: cloneJSONValue.induct)
  case (1 kvs)
  have "(case kv of (k, x) \<Rightarrow> (k, cloneJSONValue x)) = kv" if "kv \<in> set kvs" for kv
    using 1 that by (cases kv) auto
  then show ?case by (simp add: map_idI)
next
  case (2 vs)
  then show ?case by (simp add: map_idI)
qed simp_all

fun isJSONContainer :: "jv \<Rightarrow> bool" where
  "isJSONContainer (JMap _) = True"
| "isJSONContainer (JArr _) = True"
| "isJSONContainer _ = False"

section \<open>One log through a jq query\<close>

text \<open>\<^verbatim>\<open>strconv.Itoa\<close>.\<close>

function digits :: "nat \<Rightarrow> gostr" where
  "digits n = (if n < 10 then [48 + n] else digits (n div 10) @ [48 + n mod 10])"
  by pat_completeness auto
termination by (relation "measure id") auto

declare digits.simps [simp del]

definition itoa :: "int \<Rightarrow> gostr" where
  "itoa n = (if n < 0 then 45 # digits (nat (- n)) else digits (nat n))"

definition jqValueString :: "('q, 'c) ext \<Rightarrow> jv \<Rightarrow> gostr + gostr" where
  "jqValueString X v =
     (case v of
        JMap kvs \<Rightarrow> x_marshal X v
      | JStr s \<Rightarrow> Inr s
      | JInt n \<Rightarrow> Inr (itoa n)
      | _ \<Rightarrow> Inr (x_gofmt X v))"

definition jqValue :: "('q, 'c) ext \<Rightarrow> jv \<Rightarrow> gostr + jv" where
  "jqValue X v =
     (case v of
        JMap kvs \<Rightarrow> Inr v
      | JArr vs \<Rightarrow> Inr v
      | JStr s \<Rightarrow>
          (case x_unmarshal X s of
             Some p \<Rightarrow> if isJSONContainer p then Inr p else Inr v
           | None \<Rightarrow> Inr v)
      | _ \<Rightarrow>
          (case jqValueString X v of
             Inl e \<Rightarrow> Inl e
           | Inr s \<Rightarrow> (case x_unmarshal X s of Some p \<Rightarrow> Inr p | None \<Rightarrow> Inr (JStr s))))"

text \<open>The loop over the outputs: \<open>Inl\<close> is the error text the log shows instead of a value.\<close>

fun jq_collect :: "jq_out list \<Rightarrow> gostr + jv list" where
  "jq_collect [] = Inr []"
| "jq_collect (Halted # outs) = Inr []"
| "jq_collect (Failure e # outs) = Inl (str ''LOGNAV-JQERR: '' @ e)"
| "jq_collect (Out v # outs) =
     (if v = JStr [] then jq_collect outs
      else case jq_collect outs of Inl e \<Rightarrow> Inl e | Inr vs \<Rightarrow> Inr (v # vs))"

text \<open>\<^verbatim>\<open>strings.Join(parts, ", ")\<close>.\<close>

fun join_comma :: "gostr list \<Rightarrow> gostr" where
  "join_comma [] = []"
| "join_comma [p] = p"
| "join_comma (p # ps) = p @ [44, 32] @ join_comma ps"

text \<open>A loop over a slice that stops at the first error.\<close>

fun map_err :: "('a \<Rightarrow> 'e + 'b) \<Rightarrow> 'a list \<Rightarrow> 'e + 'b list" where
  "map_err f [] = Inr []"
| "map_err f (x # xs) =
     (case f x of Inl e \<Rightarrow> Inl e
      | Inr y \<Rightarrow> (case map_err f xs of Inl e \<Rightarrow> Inl e | Inr ys \<Rightarrow> Inr (y # ys)))"

lemma map_err_length: "map_err f xs = Inr ys \<Longrightarrow> length ys = length xs"
  by (induction xs arbitrary: ys) (auto split: sum.splits)

lemma map_err_nth: "map_err f xs = Inr ys \<Longrightarrow> i < length xs \<Longrightarrow> f (xs ! i) = Inr (ys ! i)"
  by (induction xs arbitrary: ys i) (auto split: sum.splits simp: nth_Cons split: nat.split)

definition jqSingle :: "('q, 'c) ext \<Rightarrow> ctx \<Rightarrow> 'q \<Rightarrow> jv \<Rightarrow> gostr + jv" where
  "jqSingle X cx q d =
     (case jq_collect (x_run X cx q (cloneJSONValue d)) of
        Inl msg \<Rightarrow> Inr (JStr msg)
      | Inr vals \<Rightarrow>
          (case vals of
             [v] \<Rightarrow> jqValue X v
           | _ \<Rightarrow>
               (case map_err (jqValueString X) vals of
                  Inl e \<Rightarrow> Inl e
                | Inr parts \<Rightarrow>
                    let joined = [91] @ join_comma parts @ [93]
                    in (case x_unmarshal X joined of Some p \<Rightarrow> Inr p | None \<Rightarrow> Inr (JStr joined)))))"

text \<open>
  \<open>jqBatch\<close>: before every log it looks whether its context is done; \<open>stop i\<close> tells it is at the
  \<open>i\<close>-th look, and the error is then the context's.
\<close>

fun jq_batch_from :: "('q, 'c) ext \<Rightarrow> (nat \<Rightarrow> bool) \<Rightarrow> ctx \<Rightarrow> 'q \<Rightarrow> nat \<Rightarrow> jv list \<Rightarrow> gostr + jv list" where
  "jq_batch_from X stop cx q i [] = Inr []"
| "jq_batch_from X stop cx q i (d # ds) =
     (if stop i then Inl (str ''context canceled'')
      else case jqSingle X cx q d of
          Inl e \<Rightarrow> Inl e
        | Inr r \<Rightarrow> (case jq_batch_from X stop cx q (i + 1) ds of Inl e \<Rightarrow> Inl e | Inr rs \<Rightarrow> Inr (r # rs)))"

definition jqBatch :: "('q, 'c) ext \<Rightarrow> (nat \<Rightarrow> bool) \<Rightarrow> ctx \<Rightarrow> 'q \<Rightarrow> jv list \<Rightarrow> gostr + jv list" where
  "jqBatch X stop cx q ds = jq_batch_from X stop cx q 0 ds"

section \<open>Facts\<close>

lemma jq_batch_from_length: "jq_batch_from X stop cx q i ds = Inr rs \<Longrightarrow> length rs = length ds"
  by (induction ds arbitrary: i rs) (auto split: if_splits sum.splits)

lemma jqBatch_length: "jqBatch X stop cx q ds = Inr rs \<Longrightarrow> length rs = length ds"
  by (simp add: jqBatch_def jq_batch_from_length)

lemma jq_batch_from_map_err:
  "(\<And>k. \<not> stop k) \<Longrightarrow> jq_batch_from X stop cx q i ds = map_err (jqSingle X cx q) ds"
  by (induction ds arbitrary: i) (auto split: sum.splits)

lemma jqBatch_nth:
  assumes "jqBatch X stop cx q ds = Inr rs" "i < length ds"
  shows "jqSingle X cx q (ds ! i) = Inr (rs ! i)"
proof -
  have "jq_batch_from X stop cx q k ds = Inr rs \<Longrightarrow> i < length ds
      \<Longrightarrow> jqSingle X cx q (ds ! i) = Inr (rs ! i)" for k
    by (induction ds arbitrary: k rs i) (auto split: if_splits sum.splits simp: nth_Cons split: nat.split)
  then show ?thesis using assms by (simp add: jqBatch_def)
qed

lemma jq_collect_no_empty: "jq_collect outs = Inr vs \<Longrightarrow> JStr [] \<notin> set vs"
  by (induction outs arbitrary: vs rule: jq_collect.induct) (auto split: if_splits sum.splits)

lemma jq_collect_error: "jq_collect outs = Inl e \<Longrightarrow> e \<noteq> []"
  by (induction outs arbitrary: e rule: jq_collect.induct) (auto split: if_splits sum.splits)

lemma digits_neq_Nil [simp]: "digits n \<noteq> []"
  by (subst digits.simps) auto

lemma digits_bytes: "d \<in> set (digits n) \<Longrightarrow> 48 \<le> d \<and> d \<le> 57"
  by (induction n rule: digits.induct) (subst (asm) digits.simps, auto split: if_splits)

lemma itoa_neq_Nil [simp]: "itoa n \<noteq> []"
  by (simp add: itoa_def)

lemma itoa_no_quote: "34 \<notin> set (itoa n)"
  using digits_bytes [of 34] by (auto simp: itoa_def)

text \<open>
  What the JSON decoder and Go's formatter are documented to do, as far as the log viewer relies
  on it: only a text with a quotation mark in it decodes to a string, a text in square brackets decodes to an array
  if at all, and \<^verbatim>\<open>%#v\<close> of a nil, boolean or number is a non-empty text without quotation mark.
\<close>

definition json_laws :: "('q, 'c) ext \<Rightarrow> bool" where
  "json_laws X \<longleftrightarrow>
     (\<forall>s t. x_unmarshal X s = Some (JStr t) \<longrightarrow> 34 \<in> set s)
   \<and> (\<forall>s v. x_unmarshal X (91 # s) = Some v \<longrightarrow> (\<exists>vs. v = JArr vs))
   \<and> (\<forall>v. (case v of JNil \<Rightarrow> True | JBool b \<Rightarrow> True | JFloat w \<Rightarrow> True | JBig n \<Rightarrow> True | _ \<Rightarrow> False)
        \<longrightarrow> x_gofmt X v \<noteq> [] \<and> 34 \<notin> set (x_gofmt X v))"

text \<open>
  The viewer draws a log from \<open>Bytes\<close>, whose wrapping reads the first byte: the empty string must
  never become a log's jq output.
\<close>

lemma jqValue_not_empty:
  assumes "json_laws X" "v \<noteq> JStr []" "jqValue X v = Inr r"
  shows "r \<noteq> JStr []"
proof -
  have q: "34 \<in> set s" if "x_unmarshal X s = Some (JStr [])" for s
    using assms(1) that unfolding json_laws_def by blast
  have g: "x_gofmt X v \<noteq> [] \<and> 34 \<notin> set (x_gofmt X v)"
    if "case v of JNil \<Rightarrow> True | JBool b \<Rightarrow> True | JFloat w \<Rightarrow> True | JBig n \<Rightarrow> True | _ \<Rightarrow> False"
    using assms(1) that unfolding json_laws_def by blast
  have i: "x_unmarshal X (itoa n) \<noteq> Some (JStr [])" for n
    using q itoa_no_quote by blast
  show ?thesis
    using assms(2,3) q g
    by (cases v) (auto simp: jqValue_def jqValueString_def i split: option.splits if_splits)
qed

lemma jqSingle_not_empty:
  assumes "json_laws X" "jqSingle X cx q d = Inr r"
  shows "r \<noteq> JStr []"
proof (cases "jq_collect (x_run X cx q d)")
  case (Inl e)
  then show ?thesis using assms(2) jq_collect_error [OF Inl] by (auto simp: jqSingle_def)
next
  case (Inr vals)
  have br: "r \<noteq> JStr []"
    if "(case map_err (jqValueString X) vals of Inl e \<Rightarrow> Inl e
        | Inr parts \<Rightarrow> (let joined = [91] @ join_comma parts @ [93]
            in (case x_unmarshal X joined of Some p \<Rightarrow> Inr p | None \<Rightarrow> Inr (JStr joined)))) = Inr r"
    using that assms(1) by (auto simp: json_laws_def Let_def split: sum.splits option.splits)
  show ?thesis
  proof (cases "\<exists>v. vals = [v]")
    case True
    then obtain v where v: "vals = [v]" by auto
    then have "v \<noteq> JStr []" using jq_collect_no_empty [OF Inr] by auto
    with jqValue_not_empty [OF assms(1)] assms(2) v Inr show ?thesis
      by (auto simp: jqSingle_def)
  next
    case False
    then show ?thesis using assms(2) Inr br
      by (auto simp: jqSingle_def split: list.splits)
  qed
qed

end
