(* ===== verification/Log_Entry.thy ===== *)
theory Log_Entry
  imports Jqval
begin

text \<open>
  One log of the store and the bytes it is drawn, searched and filtered by: \<^verbatim>\<open>entry.go\<close> and
  the wrapping of expanded entries, \<^verbatim>\<open>wrap.go\<close>, of package \<^verbatim>\<open>logviewer\<close>, and the log
  as package \<^verbatim>\<open>icl\<close> delivers it.
\<close>

section \<open>Logs and entries\<close>

record metadata =
  md_id :: gostr
  md_ts :: int
  md_severity :: nat
  md_priority :: nat

record log =
  l_data :: jv
  l_metadata :: metadata

record entry =
  e_metadata :: metadata
  e_modified :: jv
  e_data :: jv

definition newEntry :: "log \<Rightarrow> entry" where
  "newEntry l = \<lparr>e_metadata = l_metadata l, e_modified = JNil, e_data = l_data l\<rparr>"

definition WithData :: "jv \<Rightarrow> entry \<Rightarrow> entry" where
  "WithData v e = \<lparr>e_metadata = e_metadata e, e_modified = v, e_data = e_data e\<rparr>"

text \<open>The zero value of the struct, in the slots of the backing array not filled yet.\<close>

definition zero_entry :: entry where
  "zero_entry = \<lparr>e_metadata = \<lparr>md_id = [], md_ts = 0, md_severity = 0, md_priority = 0\<rparr>,
                 e_modified = JNil, e_data = JNil\<rparr>"

text \<open>\<^verbatim>\<open>strings.ReplaceAll(s, "\n", "\\n")\<close>.\<close>

definition escape_newlines :: "gostr \<Rightarrow> gostr" where
  "escape_newlines s = concat (map (\<lambda>b. if b = NL then [92, 110] else [b]) s)"

text \<open>\<open>Inl\<close> is an error, carried as its message.\<close>

definition entry_marshal :: "('q, 'c) ext \<Rightarrow> bool \<Rightarrow> entry \<Rightarrow> gostr + gostr" where
  "entry_marshal X expand e =
     (case e_modified e of
        JStr s \<Rightarrow> if expand then Inr s else Inr (escape_newlines s)
      | m \<Rightarrow>
          let v = (if m = JNil then e_data e else m)
          in if expand then x_marshal_indent X v else x_marshal X v)"

section \<open>Wrapping\<close>

record wrap_st =
  ws_buf :: gostr
  ws_width :: int
  ws_indent :: nat
  ws_first :: bool
  ws_key :: bool

text \<open>The switch that runs until the first character of the line's content.\<close>

definition scan_indent :: "bool \<Rightarrow> gostr \<Rightarrow> wrap_st \<Rightarrow> wrap_st" where
  "scan_indent isJSON cluster st =
     (if ws_first st then st
      else if \<not> ws_key st \<and> cluster = [58]
      then st\<lparr>ws_key := True, ws_indent := ws_indent st + 1\<rparr>
      else if \<not> ws_key st \<or> cluster = [32] \<or> (isJSON \<and> cluster = [34])
      then st\<lparr>ws_indent := ws_indent st + 1\<rparr>
      else st\<lparr>ws_first := True\<rparr>)"

definition wrap_needed :: "int \<Rightarrow> gostr \<Rightarrow> nat \<Rightarrow> wrap_st \<Rightarrow> bool" where
  "wrap_needed n cluster w st \<longleftrightarrow>
     ws_width st + int w \<ge> n \<or> (ws_width st + int w = n - 1 \<and> cluster = [92])"

definition wrap_cluster :: "bool \<Rightarrow> int \<Rightarrow> gostr \<times> nat \<Rightarrow> wrap_st \<Rightarrow> wrap_st" where
  "wrap_cluster isJSON n cw st =
     (case cw of (cluster, w) \<Rightarrow>
        if cluster = [NL]
        then \<lparr>ws_buf = ws_buf st @ [NL], ws_width = 0, ws_indent = 0, ws_first = False, ws_key = \<not> isJSON\<rparr>
        else
          let st1 = (if wrap_needed n cluster w st
                     then st\<lparr>ws_buf := ws_buf st @ NL # replicate (ws_indent st) 32,
                             ws_width := int (ws_indent st)\<rparr>
                     else st);
              st2 = scan_indent isJSON cluster st1
          in st2\<lparr>ws_buf := ws_buf st2 @ cluster, ws_width := ws_width st2 + int w\<rparr>)"

text \<open>\<open>None\<close> is the panic of \<^verbatim>\<open>in[0]\<close> on an empty text.\<close>

definition wrapLinesAt :: "('q, 'c) ext \<Rightarrow> gostr \<Rightarrow> int \<Rightarrow> gostr option" where
  "wrapLinesAt X inp n =
     (case inp of
        [] \<Rightarrow> None
      | b # _ \<Rightarrow>
          let isJSON = (b = 123)
          in Some (ws_buf (fold (wrap_cluster isJSON n) (x_clusters X inp)
               \<lparr>ws_buf = [], ws_width = 0, ws_indent = 0, ws_first = False, ws_key = \<not> isJSON\<rparr>)))"

text \<open>
  \<open>w\<close> is what the entry's \<^verbatim>\<open>getWidth\<close> returns at the call (0 without one). Where the wrapping
  panics the model gives the empty text; \<open>Bytes_no_panic\<close> shows that it does not happen.
\<close>

definition Bytes :: "('q, 'c) ext \<Rightarrow> int \<Rightarrow> bool \<Rightarrow> entry \<Rightarrow> gostr" where
  "Bytes X w expand e =
     (case entry_marshal X expand e of
        Inl err \<Rightarrow> err
      | Inr b \<Rightarrow> if expand then (case wrapLinesAt X b w of Some b' \<Rightarrow> b' | None \<Rightarrow> []) else b)"

definition ByteLines :: "('q, 'c) ext \<Rightarrow> int \<Rightarrow> bool \<Rightarrow> entry \<Rightarrow> gostr list" where
  "ByteLines X w expand e = split_lines (Bytes X w expand e)"

section \<open>Facts\<close>

lemma newEntry_simps [simp]:
  "e_metadata (newEntry l) = l_metadata l" "e_data (newEntry l) = l_data l" "e_modified (newEntry l) = JNil"
  by (simp_all add: newEntry_def)

lemma WithData_simps [simp]:
  "e_metadata (WithData v e) = e_metadata e" "e_data (WithData v e) = e_data e"
  "e_modified (WithData v e) = v" "WithData u (WithData v e) = WithData u e"
  by (simp_all add: WithData_def)

definition Bytes_panics :: "('q, 'c) ext \<Rightarrow> int \<Rightarrow> bool \<Rightarrow> entry \<Rightarrow> bool" where
  "Bytes_panics X w expand e \<longleftrightarrow>
     expand \<and> (case entry_marshal X expand e of Inl err \<Rightarrow> False | Inr b \<Rightarrow> wrapLinesAt X b w = None)"

definition marshal_laws :: "('q, 'c) ext \<Rightarrow> bool" where
  "marshal_laws X \<longleftrightarrow>
     (\<forall>v b. x_marshal X v = Inr b \<longrightarrow> b \<noteq> []) \<and> (\<forall>v b. x_marshal_indent X v = Inr b \<longrightarrow> b \<noteq> [])"

lemma Bytes_no_panic:
  assumes "marshal_laws X" "e_modified e \<noteq> JStr []"
  shows "\<not> Bytes_panics X w expand e"
  using assms by (auto simp: Bytes_panics_def wrapLinesAt_def entry_marshal_def marshal_laws_def Let_def
      split: sum.splits list.splits jv.splits if_splits)

lemma concat_replicate_space: "filter (\<lambda>b. b \<noteq> 32 \<and> b \<noteq> NL) (replicate n 32) = []"
  by (induction n) auto

text \<open>Wrapping inserts newlines and spaces only: all other bytes stay, in order.\<close>

abbreviation ink :: "gostr \<Rightarrow> gostr" where
  "ink s \<equiv> filter (\<lambda>b. b \<noteq> 32 \<and> b \<noteq> NL) s"

lemma scan_indent_frame [simp]:
  "ws_buf (scan_indent j c st) = ws_buf st" "ws_width (scan_indent j c st) = ws_width st"
  by (simp_all add: scan_indent_def)

lemma wrap_cluster_ink: "ink (ws_buf (wrap_cluster j n cw st)) = ink (ws_buf st) @ ink (fst cw)"
  by (cases cw) (simp add: wrap_cluster_def Let_def concat_replicate_space)

lemma wrap_fold_ink:
  "ink (ws_buf (fold (wrap_cluster j n) cs st)) = ink (ws_buf st) @ ink (concat (map fst cs))"
  by (induction cs arbitrary: st) (auto simp: wrap_cluster_ink)

text \<open>
  Width: the display width of what has been written since the last newline. A cell width law for
  the clusters is all that is assumed of the segmentation.
\<close>

definition seg_laws :: "('q, 'c) ext \<Rightarrow> bool" where
  "seg_laws X \<longleftrightarrow> (\<forall>s. concat (map fst (x_clusters X s)) = s)"

text \<open>The invariant of the loop: the line under construction stays below the limit unless a single
  cluster behind the indent is already too wide.\<close>

definition wrap_fits :: "int \<Rightarrow> nat \<Rightarrow> wrap_st \<Rightarrow> bool" where
  "wrap_fits n wide st \<longleftrightarrow> ws_width st < n \<or> ws_width st \<le> int (ws_indent st) + int wide"

lemma wrap_cluster_fits:
  assumes "0 < n" "snd cw \<le> wide"
  shows "wrap_fits n wide (wrap_cluster j n cw st)"
  using assms
  by (cases cw) (auto simp: wrap_cluster_def Let_def wrap_fits_def wrap_needed_def scan_indent_def)

end
