(* ===== verification/Log_Filter.thy ===== *)
theory Log_Filter
  imports Log_Entry
begin

text \<open>
  The filter rules: package \<^verbatim>\<open>internal/filter\<close> and the evaluation of a rule set on one log in
  \<^verbatim>\<open>logviewer/filter.go\<close>. The passes over the whole store are in \<open>Logstore\<close>.
\<close>

section \<open>Rules\<close>

text \<open>\<^verbatim>\<open>filter.Type\<close> is a \<^verbatim>\<open>uint8\<close>; a snapshot can hold any value of it.\<close>

datatype filter_type = Unknown | Include | Exclude | HasField | LacksField | OtherType nat

fun Label :: "filter_type \<Rightarrow> string" where
  "Label Include = ''include''"
| "Label Exclude = ''exclude''"
| "Label HasField = ''has field''"
| "Label LacksField = ''lacks field''"
| "Label _ = []"

record rule =
  r_type :: filter_type
  r_value :: gostr

record 'c compiledRule =
  cr_t :: filter_type
  cr_code :: "'c option"
  cr_needle :: gostr
  cr_term :: bool
  cr_skip :: bool

definition compileFieldRule :: "('q, 'c) ext \<Rightarrow> gostr \<Rightarrow> gostr + 'c" where
  "compileFieldRule X expr = (case x_parse X expr of Inl e \<Rightarrow> Inl e | Inr q \<Rightarrow> x_compile X q)"

definition compile_rule :: "('q, 'c) ext \<Rightarrow> rule \<Rightarrow> 'c compiledRule list" where
  "compile_rule X r =
     (case r_type r of
        Include \<Rightarrow> [\<lparr>cr_t = r_type r, cr_code = None, cr_needle = r_value r, cr_term = True, cr_skip = False\<rparr>]
      | Exclude \<Rightarrow> [\<lparr>cr_t = r_type r, cr_code = None, cr_needle = r_value r, cr_term = True, cr_skip = False\<rparr>]
      | HasField \<Rightarrow>
          (case compileFieldRule X (r_value r) of
             Inl e \<Rightarrow> [\<lparr>cr_t = r_type r, cr_code = None, cr_needle = [], cr_term = False, cr_skip = True\<rparr>]
           | Inr c \<Rightarrow> [\<lparr>cr_t = r_type r, cr_code = Some c, cr_needle = [], cr_term = False, cr_skip = False\<rparr>])
      | LacksField \<Rightarrow>
          (case compileFieldRule X (r_value r) of
             Inl e \<Rightarrow> [\<lparr>cr_t = r_type r, cr_code = None, cr_needle = [], cr_term = False, cr_skip = True\<rparr>]
           | Inr c \<Rightarrow> [\<lparr>cr_t = r_type r, cr_code = Some c, cr_needle = [], cr_term = False, cr_skip = False\<rparr>])
      | _ \<Rightarrow> [])"

definition compileRules :: "('q, 'c) ext \<Rightarrow> rule list \<Rightarrow> 'c compiledRule list" where
  "compileRules X rules = concat (map (compile_rule X) rules)"

section \<open>One log\<close>

text \<open>\<^verbatim>\<open>bytes.Contains\<close>.\<close>

fun contains :: "gostr \<Rightarrow> gostr \<Rightarrow> bool" where
  "contains needle [] = (needle = [])"
| "contains needle (b # bs) = (take (length needle) (b # bs) = needle \<or> contains needle bs)"

definition hideForTermRule :: "gostr \<Rightarrow> filter_type \<Rightarrow> gostr \<Rightarrow> bool" where
  "hideForTermRule needle t bs =
     (let matched = (length needle > 0 \<and> contains needle bs)
      in case t of Include \<Rightarrow> \<not> matched | Exclude \<Rightarrow> matched | _ \<Rightarrow> False)"

definition hideForFieldRule :: "('q, 'c) ext \<Rightarrow> ctx \<Rightarrow> 'c \<Rightarrow> filter_type \<Rightarrow> jv \<Rightarrow> bool" where
  "hideForFieldRule X cx code t d =
     (let empty = (case x_run_code X cx code d of Out v # _ \<Rightarrow> isEmpty v | _ \<Rightarrow> True)
      in case t of HasField \<Rightarrow> empty | LacksField \<Rightarrow> \<not> empty | _ \<Rightarrow> False)"

text \<open>The body of the loop of \<open>hideEntry\<close>; a rule without code reaches it only skipped.\<close>

definition rule_hides :: "('q, 'c) ext \<Rightarrow> ctx \<Rightarrow> int \<Rightarrow> 'c compiledRule \<Rightarrow> entry \<Rightarrow> bool \<Rightarrow> bool" where
  "rule_hides X cx w cr e expanded =
     (if cr_skip cr then False
      else if cr_term cr then hideForTermRule (cr_needle cr) (cr_t cr) (Bytes X w expanded e)
      else case cr_code cr of
          Some c \<Rightarrow> hideForFieldRule X cx c (cr_t cr) (e_data e)
        | None \<Rightarrow> False)"

fun hideEntry :: "('q, 'c) ext \<Rightarrow> ctx \<Rightarrow> int \<Rightarrow> 'c compiledRule list \<Rightarrow> entry \<Rightarrow> bool \<Rightarrow> bool" where
  "hideEntry X cx w [] e expanded = False"
| "hideEntry X cx w (cr # crs) e expanded =
     (if rule_hides X cx w cr e expanded then True else hideEntry X cx w crs e expanded)"

definition applicable :: "'c compiledRule list \<Rightarrow> bool" where
  "applicable crs = list_ex (\<lambda>cr. \<not> cr_skip cr) crs"

section \<open>Facts\<close>

lemma contains_iff: "contains needle bs \<longleftrightarrow> (\<exists>u v. bs = u @ needle @ v)"
proof (induction bs)
  case (Cons b bs)
  show ?case
  proof
    assume "contains needle (b # bs)"
    then consider "take (length needle) (b # bs) = needle" | "contains needle bs" by auto
    then show "\<exists>u v. b # bs = u @ needle @ v"
    proof cases
      case 1
      then show ?thesis by (metis append_Nil append_take_drop_id)
    next
      case 2
      then show ?thesis using Cons.IH by (metis append_Cons)
    qed
  next
    assume "\<exists>u v. b # bs = u @ needle @ v"
    then obtain u v where uv: "b # bs = u @ needle @ v" by blast
    show "contains needle (b # bs)"
    proof (cases u)
      case Nil
      then have "take (length needle) (b # bs) = needle" using uv by simp
      then show ?thesis by simp
    next
      case (Cons c u')
      then have "bs = u' @ needle @ v" using uv by simp
      then show ?thesis using Cons.IH by auto
    qed
  qed
qed auto

lemma hideEntry_iff: "hideEntry X cx w crs e expanded \<longleftrightarrow> (\<exists>cr \<in> set crs. rule_hides X cx w cr e expanded)"
  by (induction crs) auto

lemma hideEntry_not_applicable: "\<not> applicable crs \<Longrightarrow> \<not> hideEntry X cx w crs e expanded"
  by (auto simp: applicable_def list_ex_iff hideEntry_iff rule_hides_def)

text \<open>
  What a rule promises its user, stated on the rule and not on its compiled form: it keeps the
  logs that contain a term, or not, or on which the expression gives a non-empty first value, or
  an empty one. A rule of another type and a field rule that does not compile keep everything.
\<close>

definition field_empty :: "('q, 'c) ext \<Rightarrow> ctx \<Rightarrow> 'c \<Rightarrow> entry \<Rightarrow> bool" where
  "field_empty X cx c e \<longleftrightarrow> (\<forall>v rest. x_run_code X cx c (e_data e) = Out v # rest \<longrightarrow> isEmpty v)"

definition keeps :: "('q, 'c) ext \<Rightarrow> ctx \<Rightarrow> int \<Rightarrow> entry \<Rightarrow> bool \<Rightarrow> rule \<Rightarrow> bool" where
  "keeps X cx w e expanded r \<longleftrightarrow>
     (let found = (r_value r \<noteq> [] \<and> (\<exists>u v. Bytes X w expanded e = u @ r_value r @ v))
      in case r_type r of
        Include \<Rightarrow> found
      | Exclude \<Rightarrow> \<not> found
      | HasField \<Rightarrow> (\<forall>c. compileFieldRule X (r_value r) = Inr c \<longrightarrow> \<not> field_empty X cx c e)
      | LacksField \<Rightarrow> (\<forall>c. compileFieldRule X (r_value r) = Inr c \<longrightarrow> field_empty X cx c e)
      | _ \<Rightarrow> True)"

lemma field_empty_code:
  "(case x_run_code X cx c (e_data e) of Out v # _ \<Rightarrow> isEmpty v | _ \<Rightarrow> True) = field_empty X cx c e"
  by (auto simp: field_empty_def split: list.split jq_out.split)

lemma rule_hides_iff_not_keeps:
  "(\<exists>cr \<in> set (compile_rule X r). rule_hides X cx w cr e expanded) \<longleftrightarrow> \<not> keeps X cx w e expanded r"
  by (cases "r_type r")
    (auto simp: compile_rule_def rule_hides_def keeps_def hideForTermRule_def hideForFieldRule_def
      Let_def contains_iff field_empty_code split: sum.split)

lemma hideEntry_compiled:
  "hideEntry X cx w (compileRules X rules) e expanded \<longleftrightarrow> (\<exists>r \<in> set rules. \<not> keeps X cx w e expanded r)"
  unfolding hideEntry_iff compileRules_def using rule_hides_iff_not_keeps [of X _ cx w e expanded]
  by auto

text \<open>
  C5: A log is visible exactly when every applied rule keeps it: an include rule when its term occurs in the
  bytes of the log, an exclude rule when it does not, a has-field rule when the first value of its
  expression is there and not empty, a lacks-field rule when it is empty or missing; an
  empty term matches nothing, and a rule that does not compile or of unknown type hides nothing.
\<close>

theorem hidden_iff_some_rule_rejects:
  "hideEntry X cx w (compileRules X rules) e expanded \<longleftrightarrow> \<not> list_all (keeps X cx w e expanded) rules"
  using hideEntry_compiled [of X cx w rules e expanded] by (auto simp: list_all_iff)

end
