(* ===== verification/Log_Search.thy ===== *)
theory Log_Search
  imports Log_Entry
begin

text \<open>
  Searching one chunk of logs and the map of matches: \<^verbatim>\<open>logviewer/search.go\<close>. The
  Aho-Corasick iterator is the parameter \<open>x_ac\<close>: for the patterns of an automaton and a text
  the matches in the order \<^verbatim>\<open>IterByte\<close> yields them, as (pattern, start, end).
\<close>

section \<open>Columns\<close>

type_synonym colMap = "nat list"

definition MapByte :: "colMap \<Rightarrow> nat \<Rightarrow> nat" where
  "MapByte c off = (if off < length c then c ! off else off)"

definition isASCII :: "gostr \<Rightarrow> bool" where
  "isASCII b = list_all (\<lambda>c. c < 128) b"

definition byteToCol :: "('q, 'c) ext \<Rightarrow> gostr \<Rightarrow> colMap" where
  "byteToCol X line =
     (if isASCII line then [0..<length line + 1]
      else
        let r = fold (\<lambda>(cluster, w) (col, m). (col + w, m @ replicate (length cluster) col))
                  (x_clusters X line) (0, [])
        in snd r @ [fst r])"

section \<open>Matches\<close>

record smatch =
  m_line :: nat
  m_start :: nat
  m_end :: nat

type_synonym search_map = "nat \<Rightarrow> smatch list option"
type_synonym automaton = "gostr list"

text \<open>An automaton is represented by its patterns.\<close>

definition buildSearchAC :: "gostr \<Rightarrow> automaton" where
  "buildSearchAC query = [[NL]] @ (if query \<noteq> [] then [query] else [])"

text \<open>The loop over the matches of one log, with the line number and the end of the last newline.\<close>

fun ac_loop :: "nat \<Rightarrow> nat \<Rightarrow> (nat \<times> nat \<times> nat) list \<Rightarrow> smatch list" where
  "ac_loop line lastNewline [] = []"
| "ac_loop line lastNewline ((pat, s, e) # ms) =
     (if pat = 0 then ac_loop (line + 1) e ms
      else \<lparr>m_line = line, m_start = s - lastNewline, m_end = e - lastNewline\<rparr> # ac_loop line lastNewline ms)"

definition to_columns :: "('q, 'c) ext \<Rightarrow> gostr list \<Rightarrow> smatch \<Rightarrow> smatch" where
  "to_columns X lines m =
     (if m_line m < length lines
      then let cm = byteToCol X (lines ! m_line m)
           in m\<lparr>m_start := MapByte cm (m_start m), m_end := MapByte cm (m_end m)\<rparr>
      else m)"

definition search_log :: "('q, 'c) ext \<Rightarrow> automaton \<Rightarrow> gostr \<Rightarrow> smatch list" where
  "search_log X ac b = map (to_columns X (split_lines b)) (ac_loop 0 0 (x_ac X ac b))"

definition search :: "('q, 'c) ext \<Rightarrow> automaton \<Rightarrow> gostr list \<Rightarrow> search_map" where
  "search X ac bmatrix =
     (\<lambda>i. if i < length bmatrix \<and> search_log X ac (bmatrix ! i) \<noteq> []
          then Some (search_log X ac (bmatrix ! i)) else None)"

text \<open>
  \<open>searchChunk\<close>: \<open>logs\<close> and \<open>expanded\<close> are read when the worker runs; a cancelled
  context posts nothing. The result is keyed by the index of the log in the store.
\<close>

definition searchChunk ::
  "('q, 'c) ext \<Rightarrow> bool \<Rightarrow> int \<Rightarrow> automaton \<Rightarrow> nat \<Rightarrow> nat \<Rightarrow> entry list \<Rightarrow> nat set \<Rightarrow> search_map option" where
  "searchChunk X cancelled w ac offset batchSize logs expanded =
     (if cancelled then None
      else
        let globalOffset = offset * batchSize;
            bmatrix = map (\<lambda>i. Bytes X w (globalOffset + i \<in> expanded) (logs ! i)) [0..<length logs];
            results = search X ac bmatrix
        in Some (\<lambda>k. if globalOffset \<le> k then results (k - globalOffset) else None))"

section \<open>Counting\<close>

definition FilteredCount :: "search_map \<Rightarrow> nat set \<Rightarrow> nat" where
  "FilteredCount sm filtered = (\<Sum>k \<in> dom sm - filtered. length (the (sm k)))"

definition MatchIndex :: "search_map \<Rightarrow> nat \<Rightarrow> nat \<Rightarrow> nat set \<Rightarrow> nat" where
  "MatchIndex sm logIdx matchIdx hidden =
     (if sm logIdx = None \<or> logIdx \<in> hidden then 0
      else card {k \<in> dom sm. k < logIdx \<and> k \<notin> hidden} + matchIdx)"

section \<open>Facts\<close>

lemma dom_search: "dom (search X ac bm) \<subseteq> {..<length bm}"
  by (auto simp: search_def split: if_splits)

lemma searchChunk_dom:
  assumes "searchChunk X cancelled w ac offset batchSize logs expanded = Some r"
  shows "dom r \<subseteq> {offset * batchSize ..< offset * batchSize + length logs}"
  using assms dom_search by (fastforce simp: searchChunk_def Let_def search_def split: if_splits)

lemma searchChunk_at:
  assumes "i < length logs"
  shows "\<exists>r. searchChunk X False w ac offset batchSize logs expanded = Some r
     \<and> r (offset * batchSize + i) =
       (let ms = search_log X ac (Bytes X w (offset * batchSize + i \<in> expanded) (logs ! i))
        in if ms \<noteq> [] then Some ms else None)"
  using assms by (auto simp: searchChunk_def Let_def search_def)

lemma ASCII_column [simp]: "isASCII line \<Longrightarrow> MapByte (byteToCol X line) off = off"
  by (simp add: MapByte_def byteToCol_def nth_append)

text \<open>
  What the iterator is documented to yield for the two patterns, a newline and a query without one: the matches that do not
  overlap, from left to right.
\<close>

function scan_from :: "gostr \<Rightarrow> nat \<Rightarrow> gostr \<Rightarrow> (nat \<times> nat \<times> nat) list" where
  "scan_from query p [] = []"
| "scan_from query p (c # cs) =
     (if c = NL then (0, p, p + 1) # scan_from query (p + 1) cs
      else if query \<noteq> [] \<and> take (length query) (c # cs) = query
           then (1, p, p + length query) # scan_from query (p + length query) (drop (length query - 1) cs)
      else scan_from query (p + 1) cs)"
  by pat_completeness auto
termination by (relation "measure (\<lambda>(query, p, cs). length cs)") auto

text \<open>The occurrences of a query in one line, from left to right and not overlapping.\<close>

function find_all :: "gostr \<Rightarrow> nat \<Rightarrow> gostr \<Rightarrow> nat list" where
  "find_all query p [] = []"
| "find_all query p (c # cs) =
     (if query \<noteq> [] \<and> take (length query) (c # cs) = query
      then p # find_all query (p + length query) (drop (length query - 1) cs)
      else find_all query (p + 1) cs)"
  by pat_completeness auto
termination by (relation "measure (\<lambda>(query, p, cs). length cs)") auto

text \<open>\<open>find_all\<close> reports occurrences only, and every occurrence overlaps a reported one.\<close>

lemma find_all_occurs: "s \<in> set (find_all q p l) \<Longrightarrow> p \<le> s \<and> take (length q) (drop (s - p) l) = q"
proof (induction q p l rule: find_all.induct)
  case (2 q p c cs)
  show ?case
  proof (cases "q \<noteq> [] \<and> take (length q) (c # cs) = q")
    case True
    then have d: "drop (length q - 1) cs = drop (length q) (c # cs)" by (cases q) auto
    from True "2.prems" consider "s = p" | "s \<in> set (find_all q (p + length q) (drop (length q - 1) cs))" by auto
    then show ?thesis
    proof cases
      case 2
      with "2.IH"(1) [OF True] have "p + length q \<le> s" "take (length q) (drop (s - (p + length q)) (drop (length q) (c # cs))) = q"
        unfolding d by blast+
      then show ?thesis by (simp del: drop_Cons)
    qed (use True in simp)
  next
    case False
    then have "s \<in> set (find_all q (p + 1) cs)" using "2.prems" by auto
    from "2.IH"(2) [OF False this] have t: "p + 1 \<le> s" "take (length q) (drop (s - (p + 1)) cs) = q" by blast+
    then have "s - p = Suc (s - (p + 1))" by simp
    then show ?thesis using t by simp
  qed
qed simp

lemma find_all_complete:
  "q \<noteq> [] \<Longrightarrow> take (length q) (drop j l) = q \<Longrightarrow> \<exists>s \<in> set (find_all q p l). s < p + j + length q \<and> p + j < s + length q"
proof (induction q p l arbitrary: j rule: find_all.induct)
  case (2 q p c cs)
  show ?case
  proof (cases "take (length q) (c # cs) = q")
    case True
    have d: "drop (length q - 1) cs = drop (length q) (c # cs)" using "2.prems"(1) by (cases q) auto
    show ?thesis
    proof (cases "j < length q")
      case False
      then have "drop (j - length q) (drop (length q) (c # cs)) = drop j (c # cs)" by (simp del: drop_Cons)
      then have "\<exists>s \<in> set (find_all q (p + length q) (drop (length q - 1) cs)).
          s < p + length q + (j - length q) + length q \<and> p + length q + (j - length q) < s + length q"
        using "2.IH"(1) [of "j - length q"] True "2.prems" unfolding d by metis
      then show ?thesis using True "2.prems"(1) False by auto
    qed (use True "2.prems"(1) in auto)
  next
    case False
    then obtain i where j: "j = Suc i" using "2.prems"(2) by (cases j) auto
    then have "\<exists>s \<in> set (find_all q (p + 1) cs). s < p + 1 + i + length q \<and> p + 1 + i < s + length q"
      using "2.IH"(2) [of i] False "2.prems" by simp
    then show ?thesis using False j by auto
  qed
qed simp

text \<open>The matches of the rest of a line that began \<open>k\<close> bytes before, and of the lines after it.\<close>

definition hits_of :: "nat \<Rightarrow> nat \<Rightarrow> gostr \<Rightarrow> gostr \<Rightarrow> smatch list" where
  "hits_of i k query line = map (\<lambda>s. \<lparr>m_line = i, m_start = s, m_end = s + length query\<rparr>) (find_all query k line)"

fun hits_in :: "nat \<Rightarrow> nat \<Rightarrow> gostr \<Rightarrow> gostr list \<Rightarrow> smatch list" where
  "hits_in i k query [] = []"
| "hits_in i k query (l # ls) = hits_of i k query l @ hits_in (Suc i) 0 query ls"

lemma split_lines_Cons: "split_lines (c # cs) = (if c = NL then [] # split_lines cs else (c # hd (split_lines cs)) # tl (split_lines cs))"
  by (cases "split_lines cs") auto

lemma take_first_line: "NL \<notin> set q \<Longrightarrow> take (length q) (hd (split_lines b)) = q \<longleftrightarrow> take (length q) b = q"
proof (induction q arbitrary: b)
  case (Cons x q)
  then show ?case by (cases b) (auto simp: split_lines_Cons simp del: split_lines.simps(2))
qed simp

lemma drop_first_line:
  "NL \<notin> set q \<Longrightarrow> take (length q) b = q \<Longrightarrow>
     split_lines (drop (length q) b) = drop (length q) (hd (split_lines b)) # tl (split_lines b)"
proof (induction q arbitrary: b)
  case Nil
  then show ?case using split_lines_neq_Nil by simp
next
  case (Cons x q)
  then show ?case by (cases b) (auto simp: split_lines_Cons simp del: split_lines.simps(2))
qed

lemma ac_loop_scan:
  assumes "NL \<notin> set query" "query \<noteq> []"
  shows "ac_loop i nl (scan_from query (nl + k) b) = hits_in i k query (split_lines b)"
proof (induction "length b" arbitrary: b i nl k rule: less_induct)
  case less
  show ?case
  proof (cases b)
    case Nil
    then show ?thesis by (simp add: hits_of_def)
  next
    case (Cons c cs)
    let ?l = "hd (split_lines cs)" and ?ls = "tl (split_lines cs)"
    consider "c = NL" | "c \<noteq> NL" "take (length query) b = query" | "c \<noteq> NL" "take (length query) b \<noteq> query" by blast
    then show ?thesis
    proof cases
      case 1
      have "ac_loop (i + 1) (nl + k + 1) (scan_from query (nl + k + 1 + 0) cs) = hits_in (i + 1) 0 query (split_lines cs)"
        using less [of cs "i + 1" "nl + k + 1" 0] Cons by simp
      then show ?thesis using 1 Cons by (simp add: split_lines_Cons hits_of_def del: split_lines.simps(2))
    next
      case 2
      have first: "hd (split_lines b) = c # ?l" using 2 Cons by (simp add: split_lines_Cons del: split_lines.simps(2))
      have q: "take (length query) (c # ?l) = query" using take_first_line [OF assms(1), of b] 2 first by simp
      have d: "drop (length query) b = drop (length query - 1) cs" using assms(2) Cons by (cases query) auto
      have d': "drop (length query) (c # ?l) = drop (length query - 1) ?l" using assms(2) by (cases query) auto
      have "ac_loop i nl (scan_from query (nl + (k + length query)) (drop (length query - 1) cs))
          = hits_in i (k + length query) query (split_lines (drop (length query - 1) cs))"
        using less [of "drop (length query - 1) cs"] Cons by auto
      moreover have "split_lines (drop (length query - 1) cs) = drop (length query - 1) ?l # ?ls"
        using drop_first_line [OF assms(1) 2(2)] d d' first Cons 2(1) by (simp add: split_lines_Cons del: split_lines.simps(2))
      ultimately show ?thesis
        using 2 Cons q assms(2) by (simp add: split_lines_Cons hits_of_def add.assoc del: split_lines.simps(2))
    next
      case 3
      have q: "take (length query) (c # ?l) \<noteq> query" using take_first_line [OF assms(1), of b] 3 Cons
        by (simp add: split_lines_Cons del: split_lines.simps(2))
      have "ac_loop i nl (scan_from query (nl + (k + 1)) cs) = hits_in i (k + 1) query (split_lines cs)"
        using less [of cs i nl "k + 1"] Cons by simp
      then show ?thesis using 3 Cons q split_lines_neq_Nil [of cs]
        by (cases "split_lines cs") (auto simp: hits_of_def split_lines_Cons simp del: split_lines.simps(2))
    qed
  qed
qed

text \<open>
  C27: A search finds exactly the occurrences of the query: the matches reported for a log are, line by line from the first to
  the last, the occurrences of the query in that line from left to right without overlap, each with the number of its line and its
  offsets turned into columns of that line; for ASCII the columns are the offsets. Hypotheses: the query is not empty and
  has no newline, as the search field gives it, and the iterator yields the matches of its two patterns from left to right.
\<close>

theorem search_hits_are_occurrences:
  assumes "query \<noteq> []" "NL \<notin> set query" "x_ac X (buildSearchAC query) b = scan_from query 0 b"
  shows "search_log X (buildSearchAC query) b =
    concat (map (\<lambda>i. let line = split_lines b ! i; cm = byteToCol X line
      in map (\<lambda>s. \<lparr>m_line = i, m_start = MapByte cm s, m_end = MapByte cm (s + length query)\<rparr>) (find_all query 0 line))
      [0..<length (split_lines b)])"
proof -
  have "hits_in i 0 query ls = concat (map (\<lambda>j. hits_of (i + j) 0 query (ls ! j)) [0..<length ls])" for i ls
  proof (induction ls arbitrary: i)
    case (Cons l ls)
    show ?case by (simp add: Cons.IH upt_conv_Cons map_Suc_upt [symmetric] comp_def del: upt_Suc)
  qed simp
  then have "search_log X (buildSearchAC query) b =
      map (to_columns X (split_lines b)) (concat (map (\<lambda>j. hits_of j 0 query (split_lines b ! j)) [0..<length (split_lines b)]))"
    using ac_loop_scan [OF assms(2,1), of 0 0 0 b] assms(3) by (simp add: search_log_def)
  also have "\<dots> = concat (map (\<lambda>i. let line = split_lines b ! i; cm = byteToCol X line
      in map (\<lambda>s. \<lparr>m_line = i, m_start = MapByte cm s, m_end = MapByte cm (s + length query)\<rparr>) (find_all query 0 line))
      [0..<length (split_lines b)])"
    by (simp add: map_concat comp_def) (rule arg_cong [where f = concat], rule map_cong,
        auto simp: hits_of_def to_columns_def Let_def)
  finally show ?thesis .
qed

theorem search_hits_are_occurrences_witness:
  "search_log (demo_ext\<lparr>x_ac := \<lambda>p b. scan_from [98] 0 b\<rparr>) (buildSearchAC [98]) [97, 10, 98, 98]
   = [\<lparr>m_line = 1, m_start = 0, m_end = 1\<rparr>, \<lparr>m_line = 1, m_start = 1, m_end = 2\<rparr>]"
proof -
  have s: "split_lines [97, 10, 98, 98] = [[97], [98, 98 :: nat]]" by (simp add:)
  show ?thesis
    using search_hits_are_occurrences [of "[98]" "demo_ext\<lparr>x_ac := \<lambda>p b. scan_from [98] 0 b\<rparr>" "[97, 10, 98, 98]"]
    by (simp add: s isASCII_def upt_conv_Cons Let_def)
qed

end
