(* ===== verification/Logstore.thy ===== *)
theory Logstore
  imports Log_Filter Log_Search
begin

text \<open>
  The store of one instance's logs, \<^verbatim>\<open>logviewer/logstore.go\<close>, \<^verbatim>\<open>epochcache.go\<close>, the passes of
  \<^verbatim>\<open>filter.go\<close> over the store and the chunk handlers of \<^verbatim>\<open>logviewer.go\<close>, with the shared
  state of package \<^verbatim>\<open>internal/state\<close> they read.

  A store is a record. \<^verbatim>\<open>st_logs\<close> is the backing array at its full capacity, of which the first
  \<open>st_logCount\<close> entries are valid. A worker handed to the poster is a value appended to
  \<open>st_jobs\<close>; what it posts is defined in section ``Workers''. A context is a number; \<open>st_cancelled\<close> are the
  cancelled ones, 0 is \<^verbatim>\<open>context.Background()\<close>, and a cancel function is the context it cancels.
  Query ids and epochs are numbers: they count fetches and recomputations of one session.
\<close>

section \<open>The shared state\<close>

record instance_info =
  ii_Name :: gostr
  ii_Enabled :: bool
  ii_State :: gostr
  ii_LogCount :: nat

record manager =
  mgr_query :: gostr
  mgr_lastFetchedQuery :: gostr
  mgr_search :: gostr
  mgr_jq :: gostr
  mgr_filters :: "rule list"
  mgr_instances :: "instance_info list"

definition mgr_New :: manager where
  "mgr_New = \<lparr>mgr_query = [], mgr_lastFetchedQuery = [], mgr_search = [], mgr_jq = [],
              mgr_filters = [], mgr_instances = []\<rparr>"

definition RestoreSnapshot :: "gostr \<Rightarrow> gostr \<Rightarrow> gostr \<Rightarrow> rule list \<Rightarrow> manager \<Rightarrow> manager" where
  "RestoreSnapshot lastFetched srch jq filters M =
     M\<lparr>mgr_lastFetchedQuery := lastFetched, mgr_search := srch, mgr_jq := jq, mgr_filters := filters\<rparr>"

section \<open>The store\<close>

record ('q, 'c) epochCache =
  ec_jq :: "(gostr \<times> (gostr + 'q)) option"
  ec_filter :: "(rule list \<times> nat \<times> 'c compiledRule list) option"
  ec_search :: "(gostr \<times> automaton) option"
  ec_jqParses :: nat
  ec_filterCompiles :: nat
  ec_searchBuilds :: nat

text \<open>
  A worker with what it captured: the query id, its parent context, the chunk offset and its inputs.
  The jq worker has the data maps, the filter worker a copy of the entries and of their expanded
  flags; the search worker only the bounds of its slice, since it reads the live entries.
\<close>

datatype ('q, 'c) job =
    JQJob (job_id: nat) (job_ctx: nat) 'q (job_offset: nat) "jv list"
  | SearchJob (job_id: nat) (job_ctx: nat) automaton (job_offset: nat) (job_first: nat) (job_count: nat)
  | FilterJob (job_id: nat) (job_epoch: nat) (job_ctx: nat) "'c compiledRule list" (job_offset: nat)
      "entry list" "bool list"

record ('q, 'c) store =
  st_identity :: gostr
  st_batch :: nat
  st_width :: int
  st_message :: gostr
  st_expanded :: "nat set"
  st_marked :: "nat set"
  st_filtered :: "nat set"
  st_search :: search_map
  st_mutexes :: nat
  st_logs :: "entry list"
  st_logCount :: nat
  st_earliest :: int
  st_latest :: int
  st_contextRoot :: gostr
  st_jqCount :: nat
  st_cancelJQ :: "nat option"
  st_jqCtx :: "nat option"
  st_searchCount :: int
  st_cancelSearch :: "nat option"
  st_searchCtx :: "nat option"
  st_filterCount :: nat
  st_cancelFilter :: "nat option"
  st_filterCtx :: "nat option"
  st_filterEpoch :: nat
  st_epoch :: "('q, 'c) epochCache"
  st_filteredTotal :: nat
  st_filteredTotalDirty :: bool
  st_streaming :: bool
  st_pending :: nat
  st_queryID :: nat
  st_appliedSearch :: gostr
  st_appliedJQ :: gostr
  st_appliedFilters :: "rule list"
  st_cancelled :: "nat set"
  st_nextCtx :: nat
  st_jobs :: "('q, 'c) job list"

definition newCache :: "('q, 'c) epochCache" where
  "newCache = \<lparr>ec_jq = None, ec_filter = None, ec_search = None,
               ec_jqParses = 0, ec_filterCompiles = 0, ec_searchBuilds = 0\<rparr>"

definition NewLogStore :: "gostr \<Rightarrow> nat \<Rightarrow> ('q, 'c) store" where
  "NewLogStore identity batch =
     \<lparr>st_identity = identity, st_batch = batch, st_width = 0, st_message = [], st_expanded = {}, st_marked = {},
      st_filtered = {}, st_search = Map.empty, st_mutexes = 0, st_logs = [], st_logCount = 0,
      st_earliest = 0, st_latest = 0, st_contextRoot = [], st_jqCount = 0, st_cancelJQ = None,
      st_jqCtx = None, st_searchCount = 0, st_cancelSearch = None, st_searchCtx = None,
      st_filterCount = 0, st_cancelFilter = None, st_filterCtx = None, st_filterEpoch = 0,
      st_epoch = newCache, st_filteredTotal = 0, st_filteredTotalDirty = False, st_streaming = False,
      st_pending = 0, st_queryID = 0, st_appliedSearch = [], st_appliedJQ = [], st_appliedFilters = [],
      st_cancelled = {}, st_nextCtx = 1, st_jobs = []\<rparr>"

text \<open>\<^verbatim>\<open>indexMap.Set\<close>.\<close>

definition idx_Set :: "nat \<Rightarrow> bool \<Rightarrow> nat set \<Rightarrow> nat set" where
  "idx_Set i b im = (if \<not> b \<and> i \<in> im then im - {i} else if b \<and> i \<notin> im then insert i im else im)"

lemma mem_idx_Set [simp]: "k \<in> idx_Set i b im \<longleftrightarrow> (if k = i then b else k \<in> im)"
  by (auto simp: idx_Set_def)

section \<open>Contexts\<close>

definition cancel_ctx :: "nat option \<Rightarrow> ('q, 'c) store \<Rightarrow> ('q, 'c) store" where
  "cancel_ctx c s = (case c of None \<Rightarrow> s | Some n \<Rightarrow> s\<lparr>st_cancelled := insert n (st_cancelled s)\<rparr>)"

definition cancelAndNil_jq :: "('q, 'c) store \<Rightarrow> ('q, 'c) store" where
  "cancelAndNil_jq s = (cancel_ctx (st_cancelJQ s) s)\<lparr>st_cancelJQ := None\<rparr>"

definition cancelAndNil_search :: "('q, 'c) store \<Rightarrow> ('q, 'c) store" where
  "cancelAndNil_search s = (cancel_ctx (st_cancelSearch s) s)\<lparr>st_cancelSearch := None\<rparr>"

definition cancelAndNil_filter :: "('q, 'c) store \<Rightarrow> ('q, 'c) store" where
  "cancelAndNil_filter s = (cancel_ctx (st_cancelFilter s) s)\<lparr>st_cancelFilter := None\<rparr>"

definition CancelAll :: "('q, 'c) store \<Rightarrow> ('q, 'c) store" where
  "CancelAll s = cancelAndNil_filter (cancelAndNil_jq (cancelAndNil_search s))"

definition markFilteredTotalDirty :: "('q, 'c) store \<Rightarrow> ('q, 'c) store" where
  "markFilteredTotalDirty s = s\<lparr>st_filteredTotalDirty := True\<rparr>"

section \<open>Clearing and sizing\<close>

definition ClearData :: "('q, 'c) store \<Rightarrow> ('q, 'c) store" where
  "ClearData s =
     (let s1 = CancelAll s
      in s1\<lparr>st_logCount := 0, st_logs := [], st_earliest := 0, st_latest := 0, st_message := [],
            st_contextRoot := [], st_streaming := False, st_pending := 0, st_jqCtx := None,
            st_searchCtx := None, st_filterCtx := None, st_filterCount := 0, st_marked := {},
            st_search := Map.empty, st_filteredTotalDirty := True, st_appliedJQ := [],
            st_appliedSearch := [], st_appliedFilters := [], st_jqCount := 0, st_searchCount := 0,
            st_queryID := st_queryID s1 + 1, st_filterEpoch := st_filterEpoch s1 + 1\<rparr>)"

definition Clear :: "('q, 'c) store \<Rightarrow> ('q, 'c) store" where
  "Clear s = (ClearData s)\<lparr>st_expanded := {}, st_filtered := {}\<rparr>"

text \<open>A batch size of 0 would divide by zero; the configuration gives a positive one.\<close>

definition sizeBacking :: "int \<Rightarrow> ('q, 'c) store \<Rightarrow> ('q, 'c) store" where
  "sizeBacking capacity s =
     (let cap = nat (max capacity 1); batch = st_batch s
      in s\<lparr>st_logs := replicate cap zero_entry, st_mutexes := max ((cap + batch - 1) div batch) 1\<rparr>)"

definition StartStream :: "int \<Rightarrow> ('q, 'c) store \<Rightarrow> ('q, 'c) store" where
  "StartStream capacity s =
     (let s1 = sizeBacking capacity s in s1\<lparr>st_streaming := True, st_queryID := st_queryID s1 + 1\<rparr>)"

section \<open>The epoch cache\<close>

definition parsedJQ :: "('q, 'c) ext \<Rightarrow> gostr \<Rightarrow> ('q, 'c) store \<Rightarrow> ('q, 'c) store \<times> (gostr + 'q)" where
  "parsedJQ X src s =
     (let ec = st_epoch s; miss = (let r = x_parse X src
          in (s\<lparr>st_epoch := ec\<lparr>ec_jq := Some (src, r), ec_jqParses := ec_jqParses ec + 1\<rparr>\<rparr>, r))
      in case ec_jq ec of
           Some (src', r) \<Rightarrow> if src' = src then (s, r) else miss
         | None \<Rightarrow> miss)"

definition compiledFilterRules ::
  "('q, 'c) ext \<Rightarrow> rule list \<Rightarrow> ('q, 'c) store \<Rightarrow> ('q, 'c) store \<times> 'c compiledRule list" where
  "compiledFilterRules X rules s =
     (let ec = st_epoch s; miss = (let r = compileRules X rules
          in (s\<lparr>st_epoch := ec\<lparr>ec_filter := Some (rules, st_filterEpoch s, r),
                                 ec_filterCompiles := ec_filterCompiles ec + 1\<rparr>\<rparr>, r))
      in case ec_filter ec of
           Some (rules', ep, r) \<Rightarrow> if ep = st_filterEpoch s \<and> rules' = rules then (s, r) else miss
         | None \<Rightarrow> miss)"

definition searchAutomaton :: "gostr \<Rightarrow> ('q, 'c) store \<Rightarrow> ('q, 'c) store \<times> automaton" where
  "searchAutomaton query s =
     (let ec = st_epoch s; miss = (let r = buildSearchAC query
          in (s\<lparr>st_epoch := ec\<lparr>ec_search := Some (query, r), ec_searchBuilds := ec_searchBuilds ec + 1\<rparr>\<rparr>, r))
      in case ec_search ec of
           Some (q', r) \<Rightarrow> if q' = query then (s, r) else miss
         | None \<Rightarrow> miss)"

section \<open>Spawning workers\<close>

definition spawn :: "('q, 'c) job \<Rightarrow> ('q, 'c) store \<Rightarrow> ('q, 'c) store" where
  "spawn j s = s\<lparr>st_jobs := st_jobs s @ [j]\<rparr>"

definition batch_logs :: "nat \<Rightarrow> nat \<Rightarrow> ('q, 'c) store \<Rightarrow> entry list" where
  "batch_logs first count s = take count (drop first (st_logs s))"

definition spawnJQ :: "nat \<Rightarrow> 'q \<Rightarrow> nat \<Rightarrow> nat \<Rightarrow> nat \<Rightarrow> ('q, 'c) store \<Rightarrow> ('q, 'c) store" where
  "spawnJQ cx q chunkIdx first count s =
     spawn (JQJob (st_queryID s) cx q chunkIdx (map e_data (batch_logs first count s))) s"

definition spawnSearchChunk ::
  "nat \<Rightarrow> automaton \<Rightarrow> nat \<Rightarrow> nat \<Rightarrow> nat \<Rightarrow> ('q, 'c) store \<Rightarrow> ('q, 'c) store" where
  "spawnSearchChunk cx ac chunkIdx first count s =
     spawn (SearchJob (st_queryID s) cx ac chunkIdx first count) s"

text \<open>The result of \<open>spawnFilterChunk\<close>, whether it spawned, is used by no caller.\<close>

definition spawnFilterChunk ::
  "('q, 'c) ext \<Rightarrow> rule list \<Rightarrow> nat \<Rightarrow> nat \<Rightarrow> nat \<Rightarrow> ('q, 'c) store \<Rightarrow> ('q, 'c) store" where
  "spawnFilterChunk X rules chunkIdx first count s =
     (let s1 = fst (compiledFilterRules X rules s); crules = snd (compiledFilterRules X rules s)
      in if \<not> applicable crules then s1
        else
          let offsetIdx = chunkIdx * st_batch s1;
              batch = batch_logs first count s1;
              exp = map (\<lambda>i. offsetIdx + i \<in> st_expanded s1) [0..<length batch]
          in spawn (FilterJob (st_queryID s1) (st_filterEpoch s1)
               (case st_filterCtx s1 of Some c \<Rightarrow> c | None \<Rightarrow> 0) crules chunkIdx batch exp) s1)"

text \<open>\<^verbatim>\<open>context.WithCancel(context.Background())\<close> into the fields of one of the three operations.\<close>

definition new_jqCtx :: "('q, 'c) store \<Rightarrow> ('q, 'c) store" where
  "new_jqCtx s = s\<lparr>st_jqCtx := Some (st_nextCtx s), st_cancelJQ := Some (st_nextCtx s), st_nextCtx := st_nextCtx s + 1\<rparr>"

definition new_searchCtx :: "('q, 'c) store \<Rightarrow> ('q, 'c) store" where
  "new_searchCtx s = s\<lparr>st_searchCtx := Some (st_nextCtx s), st_cancelSearch := Some (st_nextCtx s), st_nextCtx := st_nextCtx s + 1\<rparr>"

definition new_filterCtx :: "('q, 'c) store \<Rightarrow> ('q, 'c) store" where
  "new_filterCtx s = s\<lparr>st_filterCtx := Some (st_nextCtx s), st_cancelFilter := Some (st_nextCtx s), st_nextCtx := st_nextCtx s + 1\<rparr>"

section \<open>Batch dispatch\<close>

definition resetJQEpoch :: "('q, 'c) store \<Rightarrow> ('q, 'c) store" where
  "resetJQEpoch s = (cancelAndNil_jq (s\<lparr>st_appliedJQ := [], st_jqCount := 0\<rparr>))\<lparr>st_jqCtx := None\<rparr>"

definition prepareDispatchEpochs ::
  "gostr \<Rightarrow> gostr \<Rightarrow> rule list \<Rightarrow> ('q, 'c) store \<Rightarrow> ('q, 'c) store \<times> automaton" where
  "prepareDispatchEpochs jq srch rules s =
     (let s1 = (if jq \<noteq> [] \<and> st_jqCtx s = None then new_jqCtx s else s);
          searching = (srch \<noteq> [] \<and> jq = []);
          s1' = (if searching \<and> st_searchCtx s1 = None then new_searchCtx s1 else s1);
          r = searchAutomaton srch s1';
          s2 = (if searching then fst r else s1');
          ac = (if searching then snd r else []);
          s3 = (if rules \<noteq> [] \<and> st_filterCtx s2 = None then new_filterCtx s2 else s2)
      in (s3, ac))"

definition ctx_of :: "nat option \<Rightarrow> nat" where
  "ctx_of c = (case c of Some n \<Rightarrow> n | None \<Rightarrow> 0)"

text \<open>
  One round of the loop over the pending batches: the batch's workers, or \<open>None\<close> when the query does not
  parse and the loop is left.
\<close>

definition dispatch_batch ::
  "('q, 'c) ext \<Rightarrow> manager \<Rightarrow> automaton \<Rightarrow> nat \<Rightarrow> ('q, 'c) store \<Rightarrow> ('q, 'c) store \<times> bool" where
  "dispatch_batch X M ac count s =
     (let batchStart = st_logCount s - st_pending s;
          chunkIdx = batchStart div st_batch s;
          filtering = (\<lambda>t. if mgr_filters M \<noteq> [] \<and> mgr_jq M = []
                           then spawnFilterChunk X (mgr_filters M) chunkIdx batchStart count t else t);
          finish = (\<lambda>t. (t\<lparr>st_pending := st_pending t - count\<rparr>, True))
      in if mgr_jq M \<noteq> [] then
           (let s1 = fst (parsedJQ X (mgr_jq M) s)
            in case snd (parsedJQ X (mgr_jq M) s) of
              Inl err \<Rightarrow> ((resetJQEpoch s1)\<lparr>st_pending := 0\<rparr>, False)
            | Inr q \<Rightarrow>
                finish (filtering (spawnJQ (ctx_of (st_jqCtx s1)) q chunkIdx batchStart count s1)))
         else if mgr_search M \<noteq> [] then
           finish (filtering (spawnSearchChunk (ctx_of (st_searchCtx s)) ac chunkIdx batchStart count s))
         else finish (filtering s))"

text \<open>Many steps touch only the cache and the jobs.\<close>

definition only_spawns :: "('q, 'c) store \<Rightarrow> ('q, 'c) store \<Rightarrow> bool" where
  "only_spawns s t \<longleftrightarrow> (\<exists>ec js. t = s\<lparr>st_epoch := ec, st_jobs := js\<rparr>)"

lemma only_spawns_epoch: "only_spawns s (s\<lparr>st_epoch := ec\<rparr>)"
  unfolding only_spawns_def by (rule exI [of _ ec], rule exI [of _ "st_jobs s"]) simp

lemma only_spawns_jobs: "only_spawns s (s\<lparr>st_jobs := js\<rparr>)"
  unfolding only_spawns_def by (rule exI [of _ "st_epoch s"], rule exI [of _ js]) simp

lemma only_spawns_refl: "only_spawns s s"
  using only_spawns_jobs [of s "st_jobs s"] by simp

lemma only_spawns_trans:
  assumes "only_spawns s t" "only_spawns t u"
  shows "only_spawns s u"
proof -
  obtain ec js ec' js' where "t = s\<lparr>st_epoch := ec, st_jobs := js\<rparr>" "u = t\<lparr>st_epoch := ec', st_jobs := js'\<rparr>"
    using assms unfolding only_spawns_def by blast
  then have "u = s\<lparr>st_epoch := ec', st_jobs := js'\<rparr>" by simp
  then show ?thesis unfolding only_spawns_def by blast
qed

lemma only_spawns_spawn: "only_spawns s (spawn j s)"
  unfolding spawn_def by (rule only_spawns_jobs)

lemma only_spawns_frame:
  assumes "only_spawns s t"
  shows "st_pending t = st_pending s" "st_batch t = st_batch s" "st_streaming t = st_streaming s"
    "st_queryID t = st_queryID s" "st_logs t = st_logs s" "st_logCount t = st_logCount s"
    "st_jqCtx t = st_jqCtx s" "st_searchCtx t = st_searchCtx s" "st_filterCtx t = st_filterCtx s"
    "st_filterEpoch t = st_filterEpoch s" "st_expanded t = st_expanded s" "st_filtered t = st_filtered s"
    "st_search t = st_search s" "st_cancelled t = st_cancelled s" "st_width t = st_width s"
    "st_identity t = st_identity s" "st_nextCtx t = st_nextCtx s" "st_mutexes t = st_mutexes s"
  using assms by (auto simp: only_spawns_def)

lemma compiledFilterRules_spawns: "only_spawns s (fst (compiledFilterRules X rules s))"
  by (simp add: compiledFilterRules_def Let_def only_spawns_epoch only_spawns_refl split: option.split)

lemma parsedJQ_spawns: "only_spawns s (fst (parsedJQ X src s))"
  by (simp add: parsedJQ_def Let_def only_spawns_epoch only_spawns_refl split: option.split)

lemma searchAutomaton_spawns: "only_spawns s (fst (searchAutomaton q s))"
  by (simp add: searchAutomaton_def Let_def only_spawns_epoch only_spawns_refl split: option.split)

lemma spawnFilterChunk_spawns: "only_spawns s (spawnFilterChunk X rules i f c s)"
  using compiledFilterRules_spawns [of s X rules]
  by (auto simp: spawnFilterChunk_def Let_def intro: only_spawns_trans only_spawns_spawn)

lemma spawnJQ_spawns: "only_spawns s (spawnJQ cx q i f c s)"
  by (simp add: spawnJQ_def only_spawns_spawn)

lemma spawnSearchChunk_spawns: "only_spawns s (spawnSearchChunk cx ac i f c s)"
  by (simp add: spawnSearchChunk_def only_spawns_spawn)

lemmas spawns_intros = only_spawns_refl compiledFilterRules_spawns parsedJQ_spawns searchAutomaton_spawns
  spawnFilterChunk_spawns spawnJQ_spawns spawnSearchChunk_spawns only_spawns_spawn

lemmas spawn_frames [simp] =
  only_spawns_frame [OF spawnFilterChunk_spawns] only_spawns_frame [OF spawnJQ_spawns]
  only_spawns_frame [OF spawnSearchChunk_spawns] only_spawns_frame [OF parsedJQ_spawns]
  only_spawns_frame [OF searchAutomaton_spawns] only_spawns_frame [OF compiledFilterRules_spawns]

text \<open>What a round of the dispatch loop does to the store when it does not leave the loop.\<close>

lemma dispatch_batch_shape:
  assumes "dispatch_batch X M ac count s = (t, True)"
  shows "\<exists>u. only_spawns s u \<and> t = u\<lparr>st_pending := st_pending s - count\<rparr>"
proof -
  let ?F = "\<lambda>u. if mgr_filters M \<noteq> [] \<and> mgr_jq M = [] then spawnFilterChunk X (mgr_filters M)
      ((st_logCount s - st_pending s) div st_batch s) (st_logCount s - st_pending s) count u else u"
  have F: "only_spawns s (?F u)" if "only_spawns s u" for u
    using that only_spawns_trans [OF that spawnFilterChunk_spawns] by simp
  let ?p = "parsedJQ X (mgr_jq M) s" and ?b = "st_logCount s - st_pending s"
  let ?k = "?b div st_batch s"
  have jq: "only_spawns s (spawnJQ cx q i f c (fst ?p))" for cx q i f c
    using only_spawns_trans [OF parsedJQ_spawns spawnJQ_spawns] .
  consider "mgr_jq M \<noteq> []" | "mgr_jq M = []" "mgr_search M \<noteq> []" | "mgr_jq M = []" "mgr_search M = []"
    by blast
  then have "\<exists>u. only_spawns s u \<and> t = (?F u)\<lparr>st_pending := st_pending (?F u) - count\<rparr>"
  proof cases
    case 1
    then obtain q where "snd ?p = Inr q" using assms by (auto simp: dispatch_batch_def Let_def split: sum.splits)
    then have "t = (?F (spawnJQ (ctx_of (st_jqCtx (fst ?p))) q ?k ?b count (fst ?p)))\<lparr>st_pending :=
        st_pending (?F (spawnJQ (ctx_of (st_jqCtx (fst ?p))) q ?k ?b count (fst ?p))) - count\<rparr>"
      using 1 assms by (simp add: dispatch_batch_def Let_def)
    then show ?thesis using jq by blast
  next
    case 2
    then have "t = (?F (spawnSearchChunk (ctx_of (st_searchCtx s)) ac ?k ?b count s))\<lparr>st_pending :=
        st_pending (?F (spawnSearchChunk (ctx_of (st_searchCtx s)) ac ?k ?b count s)) - count\<rparr>"
      using assms by (simp add: dispatch_batch_def Let_def)
    then show ?thesis using spawnSearchChunk_spawns by blast
  next
    case 3
    then have "t = (?F s)\<lparr>st_pending := st_pending (?F s) - count\<rparr>"
      using assms by (simp add: dispatch_batch_def Let_def)
    then show ?thesis using only_spawns_refl by blast
  qed
  then obtain u where "only_spawns s (?F u)" "t = (?F u)\<lparr>st_pending := st_pending (?F u) - count\<rparr>"
    using F by blast
  then show ?thesis using only_spawns_frame(1) [of s "?F u"] by (intro exI [of _ "?F u"]) simp
qed

lemma dispatch_batch_pending:
  assumes "dispatch_batch X M ac count s = (t, True)"
  shows "st_pending t = st_pending s - count" "st_batch t = st_batch s" "st_streaming t = st_streaming s"
proof -
  obtain u where "only_spawns s u" "t = u\<lparr>st_pending := st_pending s - count\<rparr>"
    using dispatch_batch_shape [OF assms] by blast
  then show "st_pending t = st_pending s - count" "st_batch t = st_batch s" "st_streaming t = st_streaming s"
    by (simp_all add: only_spawns_frame [of s u])
qed

text \<open>The loop; its condition carries the positive batch size it divides by.\<close>

function dispatch_loop ::
  "('q, 'c) ext \<Rightarrow> manager \<Rightarrow> automaton \<Rightarrow> ('q, 'c) store \<Rightarrow> ('q, 'c) store" where
  "dispatch_loop X M ac s =
     (if 0 < st_batch s \<and> (st_pending s \<ge> st_batch s \<or> (\<not> st_streaming s \<and> st_pending s > 0)) then
        (case dispatch_batch X M ac (min (st_pending s) (st_batch s)) s of
           (t, True) \<Rightarrow> dispatch_loop X M ac t
         | (t, False) \<Rightarrow> t)
      else s)"
  by pat_completeness auto
termination
  by (relation "measure (\<lambda>(X, M, ac, s). st_pending s)")
    (auto dest: dispatch_batch_pending(1) [OF sym])

declare dispatch_loop.simps [simp del]

definition dispatchPendingBatches ::
  "('q, 'c) ext \<Rightarrow> manager \<Rightarrow> ('q, 'c) store \<Rightarrow> ('q, 'c) store" where
  "dispatchPendingBatches X M s =
     (let p = prepareDispatchEpochs (mgr_jq M) (mgr_search M) (mgr_filters M) s
      in dispatch_loop X M (snd p) (fst p))"

section \<open>Receiving the stream\<close>

record stream_msg =
  sm_ID :: nat
  sm_Logs :: "log list"
  sm_Errs :: "gostr list"

definition SEP :: gostr where
  "SEP = [NL] @ str ''---'' @ [NL]"

text \<open>\<^verbatim>\<open>strings.Join(errs, SEP)\<close> and the lines that append errors to the message.\<close>

fun join_errs :: "gostr list \<Rightarrow> gostr" where
  "join_errs [] = []"
| "join_errs [e] = e"
| "join_errs (e # es) = e @ SEP @ join_errs es"

definition add_errs :: "gostr list \<Rightarrow> ('q, 'c) store \<Rightarrow> ('q, 'c) store" where
  "add_errs errs s =
     (if errs \<noteq> []
      then s\<lparr>st_message := (if st_message s \<noteq> [] then st_message s @ SEP else st_message s) @ join_errs errs\<rparr>
      else s)"

text \<open>One row: the entry is written, the bounds of time and the context root updated, the count published.\<close>

definition put_row :: "log \<Rightarrow> ('q, 'c) store \<Rightarrow> ('q, 'c) store" where
  "put_row l s =
     (let n = st_logCount s;
          ts = md_ts (l_metadata l);
          s1 = s\<lparr>st_logs := (st_logs s)[n := newEntry l]\<rparr>;
          s2 = (if n = 0 \<or> ts < st_earliest s1 then s1\<lparr>st_earliest := ts\<rparr> else s1);
          s3 = (if n = 0 \<or> ts > st_latest s2 then s2\<lparr>st_latest := ts\<rparr> else s2);
          s4 = (if st_contextRoot s3 \<noteq> [] \<and> md_id (l_metadata l) = st_contextRoot s3
                then s3\<lparr>st_marked := idx_Set n True (st_marked s3), st_contextRoot := []\<rparr> else s3)
      in s4\<lparr>st_logCount := n + 1\<rparr>)"

text \<open>\<open>None\<close> is the index -1: no context root among the rows.\<close>

definition is_context_root :: "log \<Rightarrow> ('q, 'c) store \<Rightarrow> bool" where
  "is_context_root l s \<longleftrightarrow> st_contextRoot s \<noteq> [] \<and> md_id (l_metadata l) = st_contextRoot s"

fun put_rows :: "log list \<Rightarrow> nat option \<Rightarrow> nat \<Rightarrow> ('q, 'c) store \<Rightarrow> ('q, 'c) store \<times> nat option \<times> nat" where
  "put_rows [] root added s = (s, root, added)"
| "put_rows (l # ls) root added s =
     (if st_logCount s \<ge> length (st_logs s) then (s, root, added)
      else put_rows ls (if is_context_root l s then Some (st_logCount s) else root) (added + 1) (put_row l s))"

definition HandleLogStreamMsg ::
  "('q, 'c) ext \<Rightarrow> manager \<Rightarrow> stream_msg \<Rightarrow> ('q, 'c) store \<Rightarrow> ('q, 'c) store \<times> nat option" where
  "HandleLogStreamMsg X M msg s =
     (if sm_ID msg \<noteq> st_queryID s then (s, None)
      else
        case put_rows (sm_Logs msg) None 0 (add_errs (sm_Errs msg) s) of
          (s1, root, added) \<Rightarrow>
            (dispatchPendingBatches X M (s1\<lparr>st_pending := st_pending s1 + added\<rparr>), root))"

definition HandleLogStreamDoneMsg ::
  "('q, 'c) ext \<Rightarrow> manager \<Rightarrow> nat \<Rightarrow> gostr list \<Rightarrow> ('q, 'c) store \<Rightarrow> ('q, 'c) store" where
  "HandleLogStreamDoneMsg X M mid errs s =
     (if mid \<noteq> st_queryID s then s
      else dispatchPendingBatches X M (add_errs errs (s\<lparr>st_streaming := False\<rparr>)))"

section \<open>Search\<close>

text \<open>The chunks of \<^verbatim>\<open>slices.Chunk(s.logs[:count], batch)\<close>, as (index, first row, rows).\<close>

definition chunks :: "nat \<Rightarrow> nat \<Rightarrow> (nat \<times> nat \<times> nat) list" where
  "chunks batch n = map (\<lambda>k. (k, k * batch, min batch (n - k * batch))) [0..<(n + batch - 1) div batch]"

definition DoSearch :: "manager \<Rightarrow> ('q, 'c) store \<Rightarrow> ('q, 'c) store" where
  "DoSearch M s =
     (let s1 = (cancel_ctx (st_cancelSearch s) s)\<lparr>st_searchCtx := None\<rparr>;
          query = mgr_search M
      in if query = []
         then s1\<lparr>st_appliedSearch := [], st_search := Map.empty, st_filteredTotalDirty := True\<rparr>
         else
           let cx = st_nextCtx s1;
               s2 = s1\<lparr>st_cancelSearch := Some cx, st_nextCtx := cx + 1, st_searchCount := 0,
                       st_search := Map.empty, st_filteredTotalDirty := True\<rparr>;
               s3 = fst (searchAutomaton query s2);
               ac = snd (searchAutomaton query s2)
           in fold (\<lambda>(k, first, count). spawnSearchChunk cx ac k first count)
                (chunks (st_batch s3) (st_logCount s3)) s3)"

record search_chunk_msg =
  scm_Instance :: gostr
  scm_ID :: nat
  scm_Offset :: nat
  scm_Results :: search_map

text \<open>\<open>False\<close>: the chunk was rejected. A search worker never posts an error.\<close>

definition HandleSearchChunk ::
  "manager \<Rightarrow> search_chunk_msg \<Rightarrow> ('q, 'c) store \<Rightarrow> ('q, 'c) store \<times> bool" where
  "HandleSearchChunk M msg s =
     (if scm_Instance msg \<noteq> st_identity s then (s, False)
      else if scm_ID msg \<noteq> st_queryID s then (s, False)
      else
        let offsetIdx = scm_Offset msg * st_batch s;
            chunkEnd = min (offsetIdx + st_batch s) (st_logCount s);
            s1 = s\<lparr>st_search := (st_search s |` (- {offsetIdx..<chunkEnd})) ++ scm_Results msg,
                   st_filteredTotalDirty := True, st_searchCount := st_searchCount s + (int chunkEnd - int offsetIdx)\<rparr>
        in (if \<not> st_streaming s1 \<and> st_searchCount s1 \<ge> int (st_logCount s1)
            then (cancel_ctx (st_cancelSearch s1) s1)\<lparr>st_appliedSearch := mgr_search M\<rparr>
            else s1, True))"

section \<open>jq over the whole store\<close>

text \<open>\<^verbatim>\<open>s.logs[i] = s.logs[i].WithData(nil)\<close> for all valid rows.\<close>

definition clear_outputs :: "('q, 'c) store \<Rightarrow> ('q, 'c) store" where
  "clear_outputs s =
     s\<lparr>st_logs := map (WithData JNil) (take (st_logCount s) (st_logs s)) @ drop (st_logCount s) (st_logs s)\<rparr>"

definition ApplyJQ :: "('q, 'c) ext \<Rightarrow> manager \<Rightarrow> ('q, 'c) store \<Rightarrow> ('q, 'c) store" where
  "ApplyJQ X M s =
     (let s1 = cancel_ctx (st_cancelJQ s) s;
          s2 = cancelAndNil_filter (s1\<lparr>st_jqCtx := None, st_pending := 0, st_filterEpoch := st_filterEpoch s1 + 1\<rparr>);
          query = mgr_jq M
      in if query = [] then clear_outputs (s2\<lparr>st_appliedJQ := []\<rparr>)
         else
           let cx = st_nextCtx s2;
               s3 = s2\<lparr>st_cancelJQ := Some cx, st_nextCtx := cx + 1, st_jqCount := 0\<rparr>;
               s4 = fst (parsedJQ X query s3)
           in case snd (parsedJQ X query s3) of
                Inl err \<Rightarrow> clear_outputs (s4\<lparr>st_appliedJQ := [], st_jqCount := 0\<rparr>)
              | Inr q \<Rightarrow>
                  fold (\<lambda>(k, first, count). spawnJQ cx q k first count)
                    (chunks (st_batch s4) (st_logCount s4)) s4)"

record jq_chunk_msg =
  jm_Instance :: gostr
  jm_ID :: nat
  jm_Offset :: nat
  jm_Results :: "jv list"
  jm_Err :: "gostr option"

record jq_chunk_result =
  jr_CacheInvalidated :: "nat list"
  jr_ChunkOffset :: nat
  jr_ResultCount :: nat

text \<open>The loop that writes the results from row \<open>i\<close> on.\<close>

fun write_outputs :: "nat \<Rightarrow> jv list \<Rightarrow> entry list \<Rightarrow> entry list" where
  "write_outputs i [] logs = logs"
| "write_outputs i (r # rs) logs = write_outputs (i + 1) rs (logs[i := WithData r (logs ! i)])"

definition rsearchAffectedChunk :: "manager \<Rightarrow> nat \<Rightarrow> nat \<Rightarrow> ('q, 'c) store \<Rightarrow> ('q, 'c) store" where
  "rsearchAffectedChunk M offset resultCount s =
     (if mgr_search M = [] then s
      else
        let offsetIdx = offset * st_batch s;
            count = min resultCount (length (st_logs s) - offsetIdx);
            s1 = fst (searchAutomaton (mgr_search M) s);
            ac = snd (searchAutomaton (mgr_search M) s)
        in spawnSearchChunk 0 ac offset offsetIdx count s1)"

definition HandleJQChunk ::
  "('q, 'c) ext \<Rightarrow> manager \<Rightarrow> jq_chunk_msg \<Rightarrow> ('q, 'c) store \<Rightarrow> ('q, 'c) store \<times> jq_chunk_result" where
  "HandleJQChunk X M msg s =
     (let none = \<lparr>jr_CacheInvalidated = [], jr_ChunkOffset = jm_Offset msg, jr_ResultCount = 0\<rparr>;
          n = length (jm_Results msg);
          offsetIdx = jm_Offset msg * st_batch s
      in if jm_Instance msg \<noteq> st_identity s then (s, none)
         else if jm_ID msg \<noteq> st_queryID s then (s, none)
         else if jm_Err msg \<noteq> None then (cancelAndNil_jq s, none)
         else if offsetIdx + n > st_logCount s then (s, none)
         else
           let s1 = s\<lparr>st_logs := write_outputs offsetIdx (jm_Results msg) (st_logs s),
                      st_jqCount := st_jqCount s + n\<rparr>;
               s2 = (if \<not> st_streaming s1 \<and> st_jqCount s1 \<ge> st_logCount s1
                     then (cancelAndNil_jq s1)\<lparr>st_appliedJQ := mgr_jq M, st_appliedSearch := mgr_search M\<rparr>
                     else s1);
               s3 = rsearchAffectedChunk M (jm_Offset msg) n s2;
               s4 = (if mgr_filters M \<noteq> []
                     then spawnFilterChunk X (mgr_filters M) (jm_Offset msg) offsetIdx n
                            (if st_filterCtx s3 = None then new_filterCtx s3 else s3)
                     else s3)
           in (s4, \<lparr>jr_CacheInvalidated = [offsetIdx..<offsetIdx + n], jr_ChunkOffset = jm_Offset msg,
                    jr_ResultCount = n\<rparr>))"

section \<open>Filters over the whole store\<close>

text \<open>The loop \<^verbatim>\<open>filtered.Set(i, hide)\<close> over rows with their decisions.\<close>

definition set_flags :: "(nat \<times> bool) list \<Rightarrow> nat set \<Rightarrow> nat set" where
  "set_flags ds fl = fold (\<lambda>(i, b). idx_Set i b) ds fl"

definition ApplyFilters :: "('q, 'c) ext \<Rightarrow> manager \<Rightarrow> ('q, 'c) store \<Rightarrow> ('q, 'c) store" where
  "ApplyFilters X M s =
     (let rules = mgr_filters M;
          s1 = s\<lparr>st_filterEpoch := st_filterEpoch s + 1, st_filtered := {}, st_appliedFilters := rules\<rparr>;
          count = st_logCount s1
      in if rules = [] \<or> count = 0 then markFilteredTotalDirty s1
         else
           let s2 = fst (compiledFilterRules X rules s1);
               crules = snd (compiledFilterRules X rules s1)
           in if crules = [] then markFilteredTotalDirty s2
              else
                let cx = st_nextCtx s2;
                    decide = (\<lambda>i. hideEntry X (Active cx) (st_width s2) crules (st_logs s2 ! i) (i \<in> st_expanded s2))
                in markFilteredTotalDirty
                     (s2\<lparr>st_filtered := set_flags (map (\<lambda>i. (i, decide i)) [0..<count]) (st_filtered s2),
                         st_nextCtx := cx + 1\<rparr>))"

record filter_chunk_msg =
  fm_Instance :: gostr
  fm_ID :: nat
  fm_Epoch :: nat
  fm_Offset :: nat
  fm_Hidden :: "bool list"
  fm_Err :: "gostr option"

text \<open>
  The store's part of \<open>Model.HandleFilterChunk\<close>; the cursor then leaves hidden logs. The flag
  tells that the chunk was applied.
\<close>

definition HandleFilterChunk :: "filter_chunk_msg \<Rightarrow> ('q, 'c) store \<Rightarrow> ('q, 'c) store \<times> bool" where
  "HandleFilterChunk msg s =
     (let offsetIdx = fm_Offset msg * st_batch s
      in if fm_Instance msg \<noteq> st_identity s then (s, False)
         else if fm_ID msg \<noteq> st_queryID s then (s, False)
         else if fm_Epoch msg \<noteq> st_filterEpoch s then (s, False)
         else if fm_Err msg \<noteq> None then (s, False)
         else if offsetIdx + length (fm_Hidden msg) > st_logCount s then (s, False)
         else (markFilteredTotalDirty
                 (s\<lparr>st_filtered := set_flags (enumerate offsetIdx (fm_Hidden msg)) (st_filtered s)\<rparr>), True))"

section \<open>Loading\<close>

text \<open>\<open>loadLogs\<close>: the rows are written, the bounds folded over all of them, the count published last.\<close>

definition loadLogs :: "log list \<Rightarrow> ('q, 'c) store \<Rightarrow> ('q, 'c) store" where
  "loadLogs logs s =
     (let s0 = s\<lparr>st_streaming := False\<rparr>
      in if logs = [] then s0\<lparr>st_logCount := 0\<rparr>
         else
           let s1 = sizeBacking (int (length logs)) s0;
               t0 = md_ts (l_metadata (hd logs))
           in s1\<lparr>st_logs := map newEntry logs @ drop (length logs) (st_logs s1),
                 st_earliest := fold (\<lambda>l a. if md_ts (l_metadata l) < a then md_ts (l_metadata l) else a) logs t0,
                 st_latest := fold (\<lambda>l a. if md_ts (l_metadata l) > a then md_ts (l_metadata l) else a) logs t0,
                 st_logCount := length logs\<rparr>)"

definition SetLogs :: "('q, 'c) ext \<Rightarrow> manager \<Rightarrow> log list \<Rightarrow> ('q, 'c) store \<Rightarrow> ('q, 'c) store" where
  "SetLogs X M logs s = DoSearch M (ApplyJQ X M (ApplyFilters X M (loadLogs logs (Clear s))))"

definition SetLogsRaw :: "('q, 'c) ext \<Rightarrow> manager \<Rightarrow> log list \<Rightarrow> ('q, 'c) store \<Rightarrow> ('q, 'c) store" where
  "SetLogsRaw X M logs s = DoSearch M (ApplyJQ X M (ApplyFilters X M (loadLogs logs (ClearData s))))"

section \<open>Expansion\<close>

text \<open>A map entry with the matches of one text, none when there are none.\<close>

definition rematch :: "('q, 'c) ext \<Rightarrow> automaton \<Rightarrow> gostr \<Rightarrow> smatch list option" where
  "rematch X ac bs = search X ac [bs] 0"

definition SetExpand :: "('q, 'c) ext \<Rightarrow> manager \<Rightarrow> int \<Rightarrow> bool \<Rightarrow> ('q, 'c) store \<Rightarrow> ('q, 'c) store" where
  "SetExpand X M idx b s =
     (if idx < 0 \<or> idx \<ge> int (st_logCount s) then s
      else
        let i = nat idx; s1 = s\<lparr>st_expanded := idx_Set i b (st_expanded s)\<rparr>
        in if st_search s1 i \<noteq> None then
             (let bs = Bytes X (st_width s1) b (st_logs s1 ! i);
                  s2 = fst (searchAutomaton (mgr_search M) s1);
                  ac = snd (searchAutomaton (mgr_search M) s1)
              in markFilteredTotalDirty (s2\<lparr>st_search := (st_search s2)(i := rematch X ac bs)\<rparr>))
           else s1)"

definition RefreshExpandedSearch :: "('q, 'c) ext \<Rightarrow> manager \<Rightarrow> ('q, 'c) store \<Rightarrow> ('q, 'c) store" where
  "RefreshExpandedSearch X M s =
     (if dom (st_search s) = {} then s
      else
        let s1 = fst (searchAutomaton (mgr_search M) s);
            ac = snd (searchAutomaton (mgr_search M) s)
        in markFilteredTotalDirty
             (s1\<lparr>st_search := (\<lambda>i. if st_search s1 i \<noteq> None \<and> i \<in> st_expanded s1
                                  then rematch X ac (Bytes X (st_width s1) True (st_logs s1 ! i))
                                  else st_search s1 i)\<rparr>))"

definition ToggleExpandAll :: "('q, 'c) ext \<Rightarrow> manager \<Rightarrow> ('q, 'c) store \<Rightarrow> ('q, 'c) store" where
  "ToggleExpandAll X M s =
     (let count = st_logCount s; notAllExpanded = (card (st_expanded s) \<noteq> count)
      in fold (\<lambda>i. SetExpand X M (int i) notAllExpanded) [0..<count] s)"

definition FilteredMatchTotal :: "('q, 'c) store \<Rightarrow> ('q, 'c) store \<times> nat" where
  "FilteredMatchTotal s =
     (if st_filteredTotalDirty s
      then let t = FilteredCount (st_search s) (st_filtered s)
           in (s\<lparr>st_filteredTotal := t, st_filteredTotalDirty := False\<rparr>, t)
      else (s, st_filteredTotal s))"

section \<open>Reading\<close>

text \<open>
  \<open>IterLogs\<close>: the indices yielded when the consumer never stops. A step of 0 would not end; its
  callers pass 1 and -1.
\<close>

function iter_from :: "nat set \<Rightarrow> nat \<Rightarrow> int \<Rightarrow> int \<Rightarrow> int list" where
  "iter_from filtered count step i =
     (if 0 \<le> i \<and> i < int count \<and> step \<noteq> 0
      then (if nat i \<notin> filtered then [i] else []) @ iter_from filtered count step (i + step)
      else [])"
  by pat_completeness auto
termination
  by (relation "measure (\<lambda>(f, count, step, i). nat (if 0 < step then int count - i else i + 1))") auto

declare iter_from.simps [simp del]

definition IterLogs :: "('q, 'c) store \<Rightarrow> int \<Rightarrow> int \<Rightarrow> int list" where
  "IterLogs s frm step = iter_from (st_filtered s) (st_logCount s) step frm"

definition ReadLog :: "('q, 'c) store \<Rightarrow> int \<Rightarrow> log option" where
  "ReadLog s idx =
     (if idx < 0 \<or> idx \<ge> int (st_logCount s) then None
      else let e = st_logs s ! nat idx in Some \<lparr>l_data = e_data e, l_metadata = e_metadata e\<rparr>)"

fun ReadLogs :: "('q, 'c) store \<Rightarrow> int list \<Rightarrow> log list" where
  "ReadLogs s [] = []"
| "ReadLogs s (i # is) = (case ReadLog s i of Some l \<Rightarrow> l # ReadLogs s is | None \<Rightarrow> ReadLogs s is)"

definition GetTSMicro :: "('q, 'c) store \<Rightarrow> int \<Rightarrow> int option" where
  "GetTSMicro s idx =
     (if idx < 0 \<or> idx \<ge> int (st_logCount s) then None else Some (md_ts (e_metadata (st_logs s ! nat idx))))"

definition GetSeverity :: "('q, 'c) store \<Rightarrow> int \<Rightarrow> nat option" where
  "GetSeverity s idx =
     (if idx < 0 \<or> idx \<ge> int (st_logCount s) then None
      else Some (md_severity (e_metadata (st_logs s ! nat idx))))"

definition GetTimeRange :: "('q, 'c) store \<Rightarrow> int \<times> int" where
  "GetTimeRange s = (st_earliest s, st_latest s)"

record log_meta =
  lm_Idx :: nat
  lm_TSMicro :: int
  lm_Severity :: nat

definition IterLogMeta :: "('q, 'c) store \<Rightarrow> log_meta list" where
  "IterLogMeta s =
     map (\<lambda>i. \<lparr>lm_Idx = i, lm_TSMicro = md_ts (e_metadata (st_logs s ! i)),
               lm_Severity = md_severity (e_metadata (st_logs s ! i))\<rparr>) [0..<st_logCount s]"

text \<open>\<open>Snapshotize\<close> without its locks.\<close>

definition Snapshotize :: "('q, 'c) store \<Rightarrow> log list" where
  "Snapshotize s =
     map (\<lambda>e. \<lparr>l_data = e_data e, l_metadata = e_metadata e\<rparr>) (take (st_logCount s) (st_logs s))"

definition SetContextRootLogID :: "gostr \<Rightarrow> ('q, 'c) store \<Rightarrow> ('q, 'c) store" where
  "SetContextRootLogID i s = s\<lparr>st_contextRoot := i\<rparr>"

definition SetMessage :: "gostr \<Rightarrow> ('q, 'c) store \<Rightarrow> ('q, 'c) store" where
  "SetMessage m s = s\<lparr>st_message := m\<rparr>"

definition SetWidthSource :: "int \<Rightarrow> ('q, 'c) store \<Rightarrow> ('q, 'c) store" where
  "SetWidthSource w s = s\<lparr>st_width := w\<rparr>"

section \<open>Workers\<close>

text \<open>
  The closures the poster runs, as the message they post. The context a worker sees is cancelled when
  its parent was cancelled before it ran. The jq and filter workers work on what they captured.
\<close>

definition observe :: "('q, 'c) store \<Rightarrow> nat \<Rightarrow> ctx" where
  "observe s c = (if c \<in> st_cancelled s then Cancelled else Active c)"

definition jq_worker ::
  "('q, 'c) ext \<Rightarrow> (nat \<Rightarrow> bool) \<Rightarrow> ctx \<Rightarrow> gostr \<Rightarrow> nat \<Rightarrow> 'q \<Rightarrow> nat \<Rightarrow> jv list \<Rightarrow> jq_chunk_msg" where
  "jq_worker X stop cx identity qid q offset ds =
     (case jqBatch X stop cx q ds of
        Inl e \<Rightarrow> \<lparr>jm_Instance = identity, jm_ID = qid, jm_Offset = offset, jm_Results = [], jm_Err = Some e\<rparr>
      | Inr rs \<Rightarrow> \<lparr>jm_Instance = identity, jm_ID = qid, jm_Offset = offset, jm_Results = rs, jm_Err = None\<rparr>)"

definition filter_worker ::
  "('q, 'c) ext \<Rightarrow> ctx \<Rightarrow> int \<Rightarrow> gostr \<Rightarrow> nat \<Rightarrow> nat \<Rightarrow> 'c compiledRule list \<Rightarrow> nat \<Rightarrow> entry list \<Rightarrow> bool list
     \<Rightarrow> filter_chunk_msg" where
  "filter_worker X cx w identity qid epoch crules offset batch exp =
     \<lparr>fm_Instance = identity, fm_ID = qid, fm_Epoch = epoch, fm_Offset = offset,
      fm_Hidden = map2 (\<lambda>e b. hideEntry X cx w crules e b) batch exp, fm_Err = None\<rparr>"

definition search_worker ::
  "('q, 'c) ext \<Rightarrow> bool \<Rightarrow> int \<Rightarrow> gostr \<Rightarrow> nat \<Rightarrow> automaton \<Rightarrow> nat \<Rightarrow> nat \<Rightarrow> entry list \<Rightarrow> nat set
     \<Rightarrow> search_chunk_msg option" where
  "search_worker X cancelled w identity qid ac offset batchSize logs expanded =
     (case searchChunk X cancelled w ac offset batchSize logs expanded of
        None \<Rightarrow> None
      | Some r \<Rightarrow> Some \<lparr>scm_Instance = identity, scm_ID = qid, scm_Offset = offset, scm_Results = r\<rparr>)"

end
