(* ===== verification/Logstore_Inv.thy ===== *)
theory Logstore_Inv
  imports Logstore
begin

text \<open>
  The invariant of a store and of the workers it has spawned, and that every operation of
  \<open>Logstore\<close> keeps it while the store only moves forward (\<open>good\<close>): the query id and the filter
  epoch never decrease and within one query id rows are only added.
\<close>

section \<open>The invariant\<close>

definition rows_ok :: "('q, 'c) store \<Rightarrow> bool" where
  "rows_ok s \<longleftrightarrow> 0 < st_batch s \<and> st_logCount s \<le> length (st_logs s) \<and> st_pending s \<le> st_logCount s
     \<and> (\<forall>n < length (st_logs s). n div st_batch s < st_mutexes s)
     \<and> dom (st_search s) \<subseteq> {..<st_logCount s} \<and> st_marked s \<subseteq> {..<st_logCount s}
     \<and> (\<forall>i < st_logCount s. st_earliest s \<le> md_ts (e_metadata (st_logs s ! i))
                          \<and> md_ts (e_metadata (st_logs s ! i)) \<le> st_latest s)"

text \<open>
  A worker in flight belongs to this or an earlier query, and if to this one, the rows it is about
  exist: what it will post indexes valid rows.
\<close>

fun job_ok :: "('q, 'c) store \<Rightarrow> ('q, 'c) job \<Rightarrow> bool" where
  "job_ok s (JQJob i cx q off ds) \<longleftrightarrow> i \<le> st_queryID s
     \<and> (i = st_queryID s \<longrightarrow> off * st_batch s + length ds \<le> st_logCount s \<and> length ds \<le> st_batch s)"
| "job_ok s (SearchJob i cx ac off first count) \<longleftrightarrow> i \<le> st_queryID s
     \<and> (i = st_queryID s \<longrightarrow> off * st_batch s \<le> first \<and> first + count \<le> st_logCount s \<and> count \<le> st_batch s)"
| "job_ok s (FilterJob i ep cx crs off es bs) \<longleftrightarrow> i \<le> st_queryID s \<and> ep \<le> st_filterEpoch s
     \<and> length bs = length es
     \<and> (i = st_queryID s \<longrightarrow> off * st_batch s + length es \<le> st_logCount s)"

definition store_inv :: "('q, 'c) store \<Rightarrow> bool" where
  "store_inv s \<longleftrightarrow> rows_ok s \<and> list_all (job_ok s) (st_jobs s)"

definition evolves :: "('q, 'c) store \<Rightarrow> ('q, 'c) store \<Rightarrow> bool" where
  "evolves s t \<longleftrightarrow> st_batch t = st_batch s \<and> st_identity t = st_identity s \<and> st_filterEpoch s \<le> st_filterEpoch t
     \<and> (st_queryID s < st_queryID t \<or> st_queryID t = st_queryID s \<and> st_logCount s \<le> st_logCount t)"

definition good :: "('q, 'c) store \<Rightarrow> ('q, 'c) store \<Rightarrow> bool" where
  "good s t \<longleftrightarrow> store_inv t \<and> evolves s t"

lemma evolves_refl [simp]: "evolves s s"
  by (simp add: evolves_def)

lemma evolves_trans: "evolves s t \<Longrightarrow> evolves t u \<Longrightarrow> evolves s u"
  by (auto simp: evolves_def)

lemma good_refl: "store_inv s \<Longrightarrow> good s s"
  by (simp add: good_def)

lemma good_trans: "good s t \<Longrightarrow> good t u \<Longrightarrow> good s u"
  using evolves_trans by (auto simp: good_def)

lemma good_inv: "good s t \<Longrightarrow> store_inv t"
  by (simp add: good_def)

lemma job_ok_evolves: "job_ok s j \<Longrightarrow> evolves s t \<Longrightarrow> job_ok t j"
  by (cases j) (auto simp: evolves_def)

lemma jobs_ok_evolves: "list_all (job_ok s) js \<Longrightarrow> evolves s t \<Longrightarrow> list_all (job_ok t) js"
  using job_ok_evolves by (auto simp: list_all_iff)

section \<open>Steps that leave the rows alone\<close>

definition core where
  "core s = ((st_batch s, st_identity s, st_logCount s, st_logs s, st_pending s, st_mutexes s),
             (st_search s, st_marked s, st_earliest s, st_latest s, st_queryID s, st_filterEpoch s, st_jobs s))"

lemma job_ok_cong:
  assumes "st_queryID t = st_queryID s" "st_batch t = st_batch s" "st_logCount t = st_logCount s"
    "st_filterEpoch t = st_filterEpoch s"
  shows "job_ok t = job_ok s"
proof
  fix j show "job_ok t j = job_ok s j" using assms by (cases j) auto
qed

lemma good_frame: "core t = core s \<Longrightarrow> store_inv s \<Longrightarrow> good s t"
  using job_ok_cong [of t s]
  by (simp add: core_def good_def store_inv_def rows_ok_def evolves_def)

lemma good_frame_trans: "good s t \<Longrightarrow> core u = core t \<Longrightarrow> good s u"
  using good_frame good_trans good_inv by blast

lemma core_cancel [simp]: "core (cancel_ctx c s) = core s"
  by (simp add: cancel_ctx_def core_def split: option.split)

lemma core_cancelAndNil [simp]:
  "core (cancelAndNil_jq s) = core s" "core (cancelAndNil_search s) = core s"
  "core (cancelAndNil_filter s) = core s"
  using core_cancel [of "st_cancelJQ s" s] core_cancel [of "st_cancelSearch s" s]
    core_cancel [of "st_cancelFilter s" s]
  by (simp_all add: cancelAndNil_jq_def cancelAndNil_search_def cancelAndNil_filter_def core_def)

lemma core_CancelAll [simp]: "core (CancelAll s) = core s"
  by (simp add: CancelAll_def)

lemma core_new_ctx [simp]:
  "core (new_jqCtx s) = core s" "core (new_searchCtx s) = core s" "core (new_filterCtx s) = core s"
  by (simp_all add: new_jqCtx_def new_searchCtx_def new_filterCtx_def core_def)

lemma core_cache [simp]:
  "core (fst (parsedJQ X src s)) = core s" "core (fst (searchAutomaton q s)) = core s"
  "core (fst (compiledFilterRules X rules s)) = core s"
  by (simp_all add: parsedJQ_def searchAutomaton_def compiledFilterRules_def Let_def core_def split: option.split)

lemma core_add_errs [simp]: "core (add_errs errs s) = core s"
  by (simp add: add_errs_def core_def)

lemma core_markDirty [simp]: "core (markFilteredTotalDirty s) = core s"
  by (simp add: markFilteredTotalDirty_def core_def)

lemma core_prepare [simp]: "core (fst (prepareDispatchEpochs jq srch rules s)) = core s"
  by (simp add: prepareDispatchEpochs_def Let_def)

lemma core_FilteredMatchTotal [simp]: "core (fst (FilteredMatchTotal s)) = core s"
  by (simp add: FilteredMatchTotal_def core_def Let_def)

section \<open>Spawning\<close>

lemma good_spawn: "store_inv s \<Longrightarrow> job_ok s j \<Longrightarrow> good s (spawn j s)"
  using job_ok_cong [of "spawn j s" s]
  by (simp add: spawn_def good_def store_inv_def rows_ok_def evolves_def)

lemma length_batch_logs: "rows_ok s \<Longrightarrow> f + c \<le> st_logCount s \<Longrightarrow> length (batch_logs f c s) = c"
  by (auto simp: batch_logs_def rows_ok_def)

lemma good_spawnJQ:
  assumes "store_inv s" "k * st_batch s \<le> f" "f + c \<le> st_logCount s" "c \<le> st_batch s"
  shows "good s (spawnJQ cx q k f c s)"
  unfolding spawnJQ_def using assms length_batch_logs [of s f c]
  by (intro good_spawn) (auto simp: store_inv_def)

lemma good_spawnSearchChunk:
  assumes "store_inv s" "k * st_batch s \<le> f" "f + c \<le> st_logCount s" "c \<le> st_batch s"
  shows "good s (spawnSearchChunk cx ac k f c s)"
  unfolding spawnSearchChunk_def using assms by (intro good_spawn) auto

lemma coreD:
  assumes "core t = core s"
  shows "st_batch t = st_batch s" "st_logCount t = st_logCount s" "st_logs t = st_logs s"
    "st_queryID t = st_queryID s" "st_pending t = st_pending s" "st_filterEpoch t = st_filterEpoch s"
    "st_jobs t = st_jobs s" "st_identity t = st_identity s" "st_search t = st_search s"
    "st_marked t = st_marked s" "st_mutexes t = st_mutexes s"
    "st_earliest t = st_earliest s" "st_latest t = st_latest s"
  using assms by (simp_all add: core_def)

lemma good_spawnFilterChunk:
  assumes "store_inv s" "k * st_batch s \<le> f" "f + c \<le> st_logCount s"
  shows "good s (spawnFilterChunk X rules k f c s)"
proof -
  let ?s = "fst (compiledFilterRules X rules s)"
  have c: "core ?s = core s" by simp
  then have g: "good s ?s" using assms(1) by (rule good_frame)
  then have i: "store_inv ?s" by (rule good_inv)
  have len: "length (batch_logs f c ?s) = c"
    using length_batch_logs [of s f c] assms coreD(2,3) [OF c] by (simp add: batch_logs_def store_inv_def)
  have "good ?s (spawn (FilterJob (st_queryID ?s) (st_filterEpoch ?s) cx crs k (batch_logs f c ?s)
      (map (\<lambda>i. k * st_batch ?s + i \<in> st_expanded ?s) [0..<length (batch_logs f c ?s)])) ?s)" for cx crs
    using i assms len coreD(1,2) [OF c] by (intro good_spawn) auto
  with g show ?thesis
    by (auto simp: spawnFilterChunk_def Let_def intro: good_trans)
qed

section \<open>Dispatch\<close>

lemma good_pending:
  "store_inv s \<Longrightarrow> p \<le> st_logCount s \<Longrightarrow> good s (s\<lparr>st_pending := p\<rparr>)"
  using job_ok_cong [of "s\<lparr>st_pending := p\<rparr>" s]
  by (simp add: good_def store_inv_def rows_ok_def evolves_def)

lemma core_resetJQEpoch [simp]: "core (resetJQEpoch s) = core s"
proof -
  have "core (cancelAndNil_jq (s\<lparr>st_appliedJQ := [], st_jqCount := 0\<rparr>)) = core (s\<lparr>st_appliedJQ := [], st_jqCount := 0\<rparr>)"
    by simp
  then show ?thesis by (simp add: resetJQEpoch_def core_def)
qed

lemma store_inv_rows: "store_inv s \<Longrightarrow> rows_ok s"
  by (simp add: store_inv_def)

lemma good_dispatch_batch:
  assumes "store_inv s" "count \<le> st_pending s" "count \<le> st_batch s"
  shows "good s (fst (dispatch_batch X M ac count s))"
proof -
  let ?b = "st_logCount s - st_pending s" and ?p = "parsedJQ X (mgr_jq M) s"
  let ?k = "?b div st_batch s"
  let ?F = "\<lambda>u. if mgr_filters M \<noteq> [] \<and> mgr_jq M = [] then spawnFilterChunk X (mgr_filters M) ?k ?b count u else u"
  have p: "st_pending s \<le> st_logCount s" using assms(1) by (simp add: store_inv_def rows_ok_def)
  have F: "good s ((?F u)\<lparr>st_pending := st_pending (?F u) - count\<rparr>)"
    if u: "good s u" "st_pending u = st_pending s" "st_batch u = st_batch s" "st_logCount u = st_logCount s" for u
  proof -
    have "good u (?F u)"
      using good_spawnFilterChunk [of u ?k ?b count X "mgr_filters M"] good_inv [OF u(1)] u p assms(2)
      by (auto intro: good_refl)
    moreover have "st_pending (?F u) = st_pending s" "st_logCount (?F u) = st_logCount s"
      using u by simp_all
    ultimately have g: "good s (?F u)" and le: "st_pending (?F u) - count \<le> st_logCount (?F u)"
      using good_trans [OF u(1)] p by simp_all
    show ?thesis
      using good_trans [OF g good_pending [OF good_inv [OF g] le]] .
  qed
  have ps: "good s (fst ?p)" and pc: "core (fst ?p) = core s"
    using good_frame [of "fst ?p" s] assms(1) by simp_all
  consider e where "mgr_jq M \<noteq> []" "snd ?p = Inl e" | q where "mgr_jq M \<noteq> []" "snd ?p = Inr q"
    | "mgr_jq M = []" "mgr_search M \<noteq> []" | "mgr_jq M = []" "mgr_search M = []"
    by (cases "snd ?p") auto
  then show ?thesis
  proof cases
    case 1
    have "good s (resetJQEpoch (fst ?p))" using good_frame_trans [OF ps] by simp
    then have "good s ((resetJQEpoch (fst ?p))\<lparr>st_pending := 0\<rparr>)"
      using good_pending good_trans good_inv by blast
    then show ?thesis using 1 by (simp add: dispatch_batch_def Let_def)
  next
    case 2
    have "good s (spawnJQ cx q ?k ?b count (fst ?p))" for cx
      using good_spawnJQ [of "fst ?p" ?k ?b count cx q] ps pc p assms(2,3) good_trans good_inv coreD(1,2) [OF pc]
      by force
    then show ?thesis using 2 F
      by (simp add: dispatch_batch_def Let_def)
  next
    case 3
    have "good s (spawnSearchChunk cx ac ?k ?b count s)" for cx
      using good_spawnSearchChunk [of s ?k ?b count cx ac] assms p by simp
    then show ?thesis using 3 F [of "spawnSearchChunk (ctx_of (st_searchCtx s)) ac ?k ?b count s"]
      by (simp add: dispatch_batch_def Let_def)
  next
    case 4
    then show ?thesis using F [of s] assms(1) by (simp add: dispatch_batch_def Let_def good_refl)
  qed
qed

lemma good_dispatch_loop: "store_inv s \<Longrightarrow> good s (dispatch_loop X M ac s)"
proof (induction X M ac s rule: dispatch_loop.induct)
  case (1 X M ac s)
  let ?c = "min (st_pending s) (st_batch s)"
  have g: "good s (fst (dispatch_batch X M ac ?c s))"
    using "1.prems" by (rule good_dispatch_batch) simp_all
  obtain t b where t: "dispatch_batch X M ac ?c s = (t, b)" by fastforce
  show ?case
  proof (cases "0 < st_batch s \<and> (st_pending s \<ge> st_batch s \<or> (\<not> st_streaming s \<and> st_pending s > 0))")
    case True
    have "good t (dispatch_loop X M ac t)" if b
      using "1.IH" [OF True t [symmetric]] that g t by (simp add: good_inv)
    then have "b \<Longrightarrow> good s (dispatch_loop X M ac t)"
      using good_trans g t by (metis fst_conv)
    then show ?thesis
      using True g t by (subst dispatch_loop.simps) (cases b; simp)
  next
    case False
    then show ?thesis by (subst dispatch_loop.simps) (auto simp: good_refl "1.prems")
  qed
qed

lemma good_dispatchPendingBatches: "store_inv s \<Longrightarrow> good s (dispatchPendingBatches X M s)"
  unfolding dispatchPendingBatches_def Let_def
  by (rule good_trans [OF good_frame [OF core_prepare] good_dispatch_loop])
    (auto intro: good_inv [OF good_frame [OF core_prepare]])

section \<open>Clearing, sizing, receiving\<close>

lemma good_rows:
  "store_inv s \<Longrightarrow> rows_ok t \<Longrightarrow> evolves s t \<Longrightarrow> st_jobs t = st_jobs s \<Longrightarrow> good s t"
  using jobs_ok_evolves by (auto simp: good_def store_inv_def)

lemma good_ClearData: "store_inv s \<Longrightarrow> good s (ClearData s)"
  using coreD [OF core_CancelAll [of s]]
  by (intro good_rows) (auto simp: ClearData_def Let_def evolves_def rows_ok_def store_inv_def)

lemma good_Clear: "store_inv s \<Longrightarrow> good s (Clear s)"
  by (rule good_frame_trans [OF good_ClearData]) (auto simp: Clear_def core_def)

lemma sizeBacking_mutexes:
  assumes "0 < batch" "n < max cap (1 :: nat)"
  shows "n div batch < max ((cap + batch - 1) div batch) 1"
proof (cases "n < cap")
  case True
  then have "n div batch \<le> (cap - 1) div batch" by (intro div_le_mono) simp
  also have "\<dots> < (cap - 1 + batch) div batch" using assms(1) div_add_self2 [of batch "cap - 1"] by simp
  also have "cap - 1 + batch = cap + batch - 1" using True by simp
  finally show ?thesis by simp
next
  case False
  then show ?thesis using assms by simp
qed

lemma Clear_simps [simp]:
  "st_logCount (ClearData s) = 0" "st_pending (ClearData s) = 0" "st_search (ClearData s) = Map.empty"
  "st_marked (ClearData s) = {}" "st_logCount (Clear s) = 0" "st_pending (Clear s) = 0"
  "st_search (Clear s) = Map.empty" "st_marked (Clear s) = {}"
  by (simp_all add: Clear_def ClearData_def Let_def)

lemma good_StartStream:
  assumes "store_inv s" "st_logCount s = 0"
  shows "good s (StartStream capacity s)"
proof -
  have "rows_ok (StartStream capacity s)"
    using assms sizeBacking_mutexes [of "st_batch s" _ "nat (max capacity 1)"]
    by (auto simp: StartStream_def sizeBacking_def Let_def rows_ok_def store_inv_def)
  then show ?thesis
    using assms(1)
    by (intro good_rows) (auto simp: StartStream_def sizeBacking_def Let_def evolves_def)
qed

lemma good_put_row:
  assumes "store_inv s" "st_logCount s < length (st_logs s)"
  shows "good s (put_row l s)"
proof -
  have r: "rows_ok s" using assms(1) by (rule store_inv_rows)
  have "rows_ok (put_row l s)"
    using r assms(2) unfolding rows_ok_def put_row_def Let_def
    by (auto simp: nth_list_update less_Suc_eq subset_iff split: if_splits)
  then show ?thesis
    using assms(1) by (intro good_rows) (auto simp: put_row_def Let_def evolves_def)
qed

lemma put_row_simps [simp]:
  "st_logCount (put_row l s) = Suc (st_logCount s)" "st_pending (put_row l s) = st_pending s"
  "length (st_logs (put_row l s)) = length (st_logs s)" "st_streaming (put_row l s) = st_streaming s"
  "st_queryID (put_row l s) = st_queryID s" "st_batch (put_row l s) = st_batch s"
  "st_jobs (put_row l s) = st_jobs s"
  by (simp_all add: put_row_def Let_def)

lemma good_put_rows:
  "put_rows ls root a s = (t, root', a') \<Longrightarrow> store_inv s \<Longrightarrow>
     good s t \<and> st_logCount t + a = st_logCount s + a' \<and> st_pending t = st_pending s"
proof (induction ls arbitrary: root a s)
  case (Cons l ls)
  show ?case
  proof (cases "st_logCount s \<ge> length (st_logs s)")
    case True
    then show ?thesis using Cons.prems by (simp add: good_refl)
  next
    case False
    then have g: "good s (put_row l s)" using Cons.prems(2) by (intro good_put_row) auto
    then show ?thesis
      using Cons.IH [of _ "a + 1" "put_row l s"] Cons.prems False good_inv good_trans [OF g] by fastforce
  qed
qed (simp add: good_refl)

lemma good_HandleLogStreamMsg:
  assumes "store_inv s"
  shows "good s (fst (HandleLogStreamMsg X M msg s))"
proof (cases "sm_ID msg = st_queryID s")
  case True
  obtain t r a where t: "put_rows (sm_Logs msg) None 0 (add_errs (sm_Errs msg) s) = (t, r, a)"
    by (metis prod_cases3)
  have e: "good s (add_errs (sm_Errs msg) s)" using assms by (intro good_frame) auto
  have pt: "good (add_errs (sm_Errs msg) s) t" "st_logCount t + 0 = st_logCount s + a" "st_pending t = st_pending s"
    using good_put_rows [OF t good_inv [OF e]] coreD [OF core_add_errs [of "sm_Errs msg" s]] by auto
  have "st_pending t + a \<le> st_logCount t"
    using pt assms by (simp add: store_inv_def rows_ok_def)
  then have "good s (t\<lparr>st_pending := st_pending t + a\<rparr>)"
    using good_trans [OF e] pt good_pending good_inv good_trans by metis
  then show ?thesis
    using True t good_dispatchPendingBatches good_trans good_inv
    by (fastforce simp: HandleLogStreamMsg_def)
qed (simp add: HandleLogStreamMsg_def good_refl assms)

lemma good_HandleLogStreamDoneMsg:
  assumes "store_inv s"
  shows "good s (HandleLogStreamDoneMsg X M i errs s)"
proof -
  have "good s (add_errs errs (s\<lparr>st_streaming := False\<rparr>))"
    using assms by (intro good_frame) (auto simp: core_def add_errs_def)
  then show ?thesis
    using good_dispatchPendingBatches good_trans good_inv good_refl assms
    unfolding HandleLogStreamDoneMsg_def by (metis (full_types))
qed

section \<open>Search, jq and filters over the whole store\<close>

lemma chunks_bounds:
  assumes "(k, f, c) \<in> set (chunks batch n)" "0 < batch"
  shows "f = k * batch" "f + c \<le> n" "0 < c" "c \<le> batch"
proof -
  have k: "k < (n + batch - 1) div batch" and f: "f = k * batch" and c: "c = min batch (n - k * batch)"
    using assms(1) by (auto simp: chunks_def)
  have "k * batch < n"
  proof (rule ccontr)
    assume "\<not> k * batch < n"
    then have "(n + batch - 1) div batch \<le> (k * batch + batch - 1) div batch" by (intro div_le_mono) simp
    also have "(k * batch + batch - 1) div batch = k"
      using assms(2) by (intro div_nat_eqI) (auto simp: algebra_simps)
    finally show False using k by simp
  qed
  then show "f = k * batch" "f + c \<le> n" "0 < c" "c \<le> batch" using f c assms(2) by auto
qed

lemma good_fold_spawnSearch:
  "store_inv s \<Longrightarrow> (\<And>k f c. (k, f, c) \<in> set cs \<Longrightarrow> k * st_batch s \<le> f \<and> f + c \<le> st_logCount s \<and> c \<le> st_batch s)
     \<Longrightarrow> good s (fold (\<lambda>(k, f, c). spawnSearchChunk cx ac k f c) cs s)"
proof (induction cs arbitrary: s)
  case (Cons x cs)
  obtain k f c where x: "x = (k, f, c)" by (cases x) auto
  have "k * st_batch s \<le> f \<and> f + c \<le> st_logCount s \<and> c \<le> st_batch s" using Cons.prems(2) [of k f c] x by simp
  then have g: "good s (spawnSearchChunk cx ac k f c s)"
    using good_spawnSearchChunk [of s k f c cx ac] Cons.prems(1) by simp
  have "good (spawnSearchChunk cx ac k f c s)
      (fold (\<lambda>(k, f, c). spawnSearchChunk cx ac k f c) cs (spawnSearchChunk cx ac k f c s))"
    by (rule Cons.IH [OF good_inv [OF g]]) (use Cons.prems(2) in auto)
  then show ?case using good_trans [OF g] by (simp add: x)
qed (simp add: good_refl)

lemma good_fold_spawnJQ:
  "store_inv s \<Longrightarrow> (\<And>k f c. (k, f, c) \<in> set cs \<Longrightarrow> k * st_batch s \<le> f \<and> f + c \<le> st_logCount s \<and> c \<le> st_batch s)
     \<Longrightarrow> good s (fold (\<lambda>(k, f, c). spawnJQ cx q k f c) cs s)"
proof (induction cs arbitrary: s)
  case (Cons x cs)
  obtain k f c where x: "x = (k, f, c)" by (cases x) auto
  have "k * st_batch s \<le> f \<and> f + c \<le> st_logCount s \<and> c \<le> st_batch s" using Cons.prems(2) [of k f c] x by simp
  then have g: "good s (spawnJQ cx q k f c s)"
    using good_spawnJQ [of s k f c cx q] Cons.prems(1) by simp
  have "good (spawnJQ cx q k f c s) (fold (\<lambda>(k, f, c). spawnJQ cx q k f c) cs (spawnJQ cx q k f c s))"
    by (rule Cons.IH [OF good_inv [OF g]]) (use Cons.prems(2) in auto)
  then show ?case using good_trans [OF g] by (simp add: x)
qed (simp add: good_refl)

lemma store_inv_batch: "store_inv s \<Longrightarrow> 0 < st_batch s"
  by (simp add: store_inv_def rows_ok_def)

text \<open>Changes of the match map and of the entries' output that keep the rows.\<close>

lemma good_search:
  assumes "store_inv s" "core t = core (s\<lparr>st_search := sm\<rparr>)" "dom sm \<subseteq> {..<st_logCount s}"
  shows "good s t"
proof -
  have "good s (s\<lparr>st_search := sm\<rparr>)"
    using assms(1,3) by (intro good_rows) (auto simp: store_inv_def rows_ok_def evolves_def)
  then show ?thesis using assms(2) by (rule good_frame_trans)
qed

lemma good_logs:
  assumes "store_inv s" "core t = core (s\<lparr>st_logs := ls\<rparr>)" "map e_metadata ls = map e_metadata (st_logs s)"
  shows "good s t"
proof -
  have len: "length ls = length (st_logs s)" using assms(3) by (metis length_map)
  have md: "e_metadata (ls ! i) = e_metadata (st_logs s ! i)" if "i < length (st_logs s)" for i
    using assms(3) that len by (metis nth_map)
  have "rows_ok (s\<lparr>st_logs := ls\<rparr>)"
    using assms(1) len md by (auto simp: store_inv_def rows_ok_def)
  then have "good s (s\<lparr>st_logs := ls\<rparr>)"
    using assms(1) by (intro good_rows) (auto simp: evolves_def)
  then show ?thesis using assms(2) by (rule good_frame_trans)
qed

lemma good_DoSearch:
  assumes "store_inv s"
  shows "good s (DoSearch M s)"
proof -
  let ?s1 = "(cancel_ctx (st_cancelSearch s) s)\<lparr>st_searchCtx := None\<rparr>"
  have c1: "core ?s1 = core s" using core_cancel [of "st_cancelSearch s" s] by (simp add: core_def)
  show ?thesis
  proof (cases "mgr_search M = []")
    case True
    have "good s (?s1\<lparr>st_appliedSearch := [], st_search := Map.empty, st_filteredTotalDirty := True\<rparr>)"
      using assms c1 by (intro good_search [where sm = Map.empty]) (auto simp: core_def)
    then show ?thesis using True by (simp add: DoSearch_def Let_def)
  next
    case False
    let ?s2 = "?s1\<lparr>st_cancelSearch := Some (st_nextCtx ?s1), st_nextCtx := st_nextCtx ?s1 + 1,
        st_searchCount := 0, st_search := Map.empty, st_filteredTotalDirty := True\<rparr>"
    let ?s3 = "fst (searchAutomaton (mgr_search M) ?s2)"
    have "good s ?s2"
      using assms c1 by (intro good_search [where sm = Map.empty]) (auto simp: core_def)
    then have g3: "good s ?s3" by (rule good_frame_trans) simp
    have "good ?s3 (fold (\<lambda>(k, f, c). spawnSearchChunk cx ac k f c) (chunks (st_batch ?s3) (st_logCount ?s3)) ?s3)"
      for cx ac
      using good_inv [OF g3] chunks_bounds store_inv_batch [OF good_inv [OF g3]]
      by (intro good_fold_spawnSearch) auto
    then show ?thesis using False good_trans [OF g3] by (simp add: DoSearch_def Let_def)
  qed
qed

lemma clear_outputs_metadata:
  "map e_metadata (map (WithData JNil) (take n ls) @ drop n ls) = map e_metadata ls"
proof -
  have "map e_metadata ls = map e_metadata (take n ls) @ map e_metadata (drop n ls)"
    by (metis append_take_drop_id map_append)
  then show ?thesis by simp
qed

lemma good_clear_outputs: "store_inv s \<Longrightarrow> good s (clear_outputs s)"
  by (rule good_logs [OF _ _ clear_outputs_metadata]) (simp_all add: clear_outputs_def)

lemma good_epoch:
  "store_inv s \<Longrightarrow> good s (s\<lparr>st_filterEpoch := st_filterEpoch s + 1\<rparr>)"
  by (rule good_rows) (auto simp: store_inv_def rows_ok_def evolves_def)

lemma good_ApplyJQ:
  assumes "store_inv s"
  shows "good s (ApplyJQ X M s)"
proof -
  let ?s1 = "cancel_ctx (st_cancelJQ s) s"
  let ?e = "?s1\<lparr>st_filterEpoch := st_filterEpoch ?s1 + 1\<rparr>"
  let ?s2 = "cancelAndNil_filter (?s1\<lparr>st_jqCtx := None, st_pending := 0, st_filterEpoch := st_filterEpoch ?s1 + 1\<rparr>)"
  have "good s ?s1" using assms by (intro good_frame) simp_all
  then have "good s ?e" using good_epoch good_trans good_inv by blast
  then have "good s (?e\<lparr>st_pending := 0\<rparr>)" using good_pending good_trans good_inv by blast
  moreover have "core ?s2 = core (?e\<lparr>st_pending := 0\<rparr>)"
    by (simp only: core_cancelAndNil) (simp add: core_def)
  ultimately have g2: "good s ?s2" by (rule good_frame_trans)
  show ?thesis
  proof (cases "mgr_jq M = []")
    case True
    have "good s (?s2\<lparr>st_appliedJQ := []\<rparr>)" by (rule good_frame_trans [OF g2]) (simp add: core_def)
    then show ?thesis
      using True good_clear_outputs good_trans good_inv by (fastforce simp: ApplyJQ_def Let_def)
  next
    case False
    let ?s3 = "?s2\<lparr>st_cancelJQ := Some (st_nextCtx ?s2), st_nextCtx := st_nextCtx ?s2 + 1, st_jqCount := 0\<rparr>"
    let ?p = "parsedJQ X (mgr_jq M) ?s3"
    have "good s ?s3" by (rule good_frame_trans [OF g2]) (simp add: core_def)
    then have g4: "good s (fst ?p)" by (rule good_frame_trans) simp
    show ?thesis
    proof (cases "snd ?p")
      case (Inl e)
      have "good s ((fst ?p)\<lparr>st_appliedJQ := [], st_jqCount := 0\<rparr>)"
        by (rule good_frame_trans [OF g4]) (simp add: core_def)
      then have "good s (clear_outputs ((fst ?p)\<lparr>st_appliedJQ := [], st_jqCount := 0\<rparr>))"
        using good_clear_outputs good_trans good_inv by blast
      then show ?thesis using False Inl by (simp add: ApplyJQ_def Let_def)
    next
      case (Inr q)
      have "good (fst ?p) (fold (\<lambda>(k, f, c). spawnJQ cx q k f c) (chunks (st_batch (fst ?p)) (st_logCount (fst ?p))) (fst ?p))"
        for cx
        using good_inv [OF g4] chunks_bounds store_inv_batch [OF good_inv [OF g4]]
        by (intro good_fold_spawnJQ) auto
      then show ?thesis using False Inr good_trans [OF g4] by (simp add: ApplyJQ_def Let_def)
    qed
  qed
qed

section \<open>The chunk handlers\<close>

text \<open>What a message in flight promises, kept from the worker that posts it.\<close>

datatype msg = JQMsg jq_chunk_msg | SearchMsg search_chunk_msg | FilterMsg filter_chunk_msg

fun msg_ok :: "('q, 'c) store \<Rightarrow> msg \<Rightarrow> bool" where
  "msg_ok s (JQMsg m) \<longleftrightarrow> jm_ID m \<le> st_queryID s
     \<and> (jm_ID m = st_queryID s \<longrightarrow> jm_Offset m * st_batch s + length (jm_Results m) \<le> st_logCount s
         \<and> length (jm_Results m) \<le> st_batch s)"
| "msg_ok s (SearchMsg m) \<longleftrightarrow> scm_ID m \<le> st_queryID s
     \<and> (scm_ID m = st_queryID s \<longrightarrow> scm_Offset m * st_batch s \<le> st_logCount s
          \<and> dom (scm_Results m) \<subseteq> {scm_Offset m * st_batch s..<min (scm_Offset m * st_batch s + st_batch s) (st_logCount s)})"
| "msg_ok s (FilterMsg m) \<longleftrightarrow> fm_ID m \<le> st_queryID s \<and> fm_Epoch m \<le> st_filterEpoch s
     \<and> (fm_ID m = st_queryID s \<longrightarrow> fm_Offset m * st_batch s + length (fm_Hidden m) \<le> st_logCount s)"

lemma msg_ok_evolves: "msg_ok s m \<Longrightarrow> evolves s t \<Longrightarrow> msg_ok t m"
  by (cases m) (auto simp: evolves_def subset_iff dest: order_trans)

lemma write_outputs_length [simp]: "length (write_outputs i rs logs) = length logs"
  by (induction i rs logs rule: write_outputs.induct) auto

lemma write_outputs_nth:
  "i + length rs \<le> length logs \<Longrightarrow> k < length logs \<Longrightarrow>
     write_outputs i rs logs ! k = (if i \<le> k \<and> k < i + length rs then WithData (rs ! (k - i)) (logs ! k) else logs ! k)"
proof (induction i rs logs rule: write_outputs.induct)
  case (2 i r rs logs)
  then show ?case by (auto simp: nth_Cons' nth_list_update Suc_le_eq not_less dest!: le_antisym)
qed auto

lemma write_outputs_metadata:
  assumes "i + length rs \<le> length logs"
  shows "map e_metadata (write_outputs i rs logs) = map e_metadata logs"
  using write_outputs_nth [OF assms] by (intro nth_equalityI) auto

lemma good_rsearch:
  assumes "store_inv s" "k * st_batch s + n \<le> st_logCount s" "n \<le> st_batch s"
  shows "good s (rsearchAffectedChunk M k n s)"
proof -
  let ?s1 = "fst (searchAutomaton (mgr_search M) s)"
  have g: "good s ?s1" using assms(1) by (intro good_frame) auto
  have "good ?s1 (spawnSearchChunk 0 ac k (k * st_batch s) (min n (length (st_logs s) - k * st_batch s)) ?s1)" for ac
    using good_inv [OF g] assms by (intro good_spawnSearchChunk) auto
  then show ?thesis
    using good_trans [OF g] assms(1) by (auto simp: rsearchAffectedChunk_def Let_def intro: good_refl)
qed

lemma rsearch_spawns: "only_spawns s (rsearchAffectedChunk M k n s)"
  using only_spawns_trans [OF searchAutomaton_spawns spawnSearchChunk_spawns]
  by (auto simp: rsearchAffectedChunk_def Let_def intro: only_spawns_refl)

lemmas rsearch_frames [simp] = only_spawns_frame [OF rsearch_spawns]

lemma good_HandleJQChunk:
  assumes "store_inv s" "msg_ok s (JQMsg msg)"
  shows "good s (fst (HandleJQChunk X M msg s))"
proof (cases "jm_Instance msg = st_identity s \<and> jm_ID msg = st_queryID s \<and> jm_Err msg = None
    \<and> jm_Offset msg * st_batch s + length (jm_Results msg) \<le> st_logCount s")
  case False
  then show ?thesis
    using assms good_frame [of "cancelAndNil_jq s" s] by (auto simp: HandleJQChunk_def Let_def good_refl)
next
  case True
  let ?n = "length (jm_Results msg)" and ?o = "jm_Offset msg * st_batch s"
  let ?s1 = "s\<lparr>st_logs := write_outputs ?o (jm_Results msg) (st_logs s), st_jqCount := st_jqCount s + ?n\<rparr>"
  let ?s2 = "if \<not> st_streaming ?s1 \<and> st_jqCount ?s1 \<ge> st_logCount ?s1
      then (cancelAndNil_jq ?s1)\<lparr>st_appliedJQ := mgr_jq M, st_appliedSearch := mgr_search M\<rparr> else ?s1"
  let ?s3 = "rsearchAffectedChunk M (jm_Offset msg) ?n ?s2"
  let ?s4 = "if st_filterCtx ?s3 = None then new_filterCtx ?s3 else ?s3"
  have fit: "?o + ?n \<le> length (st_logs s)" using True assms by (auto simp: store_inv_def rows_ok_def)
  have "good s ?s1"
    by (rule good_logs [OF assms(1) _ write_outputs_metadata [OF fit]]) (simp add: core_def)
  moreover have c2: "core ?s2 = core ?s1"
    using core_cancelAndNil(1) [of ?s1] by (simp add: core_def)
  ultimately have g2: "good s ?s2" by (rule good_frame_trans)
  have d2: "st_batch ?s2 = st_batch s" "st_logCount ?s2 = st_logCount s"
    using coreD(1,2) [OF c2] by simp_all
  have "good ?s2 ?s3"
    using good_inv [OF g2] d2 True assms(2) by (intro good_rsearch) auto
  then have g3: "good s ?s3" by (rule good_trans [OF g2])
  have c4: "core ?s4 = core ?s3" by simp
  have g4: "good s ?s4" by (rule good_frame_trans [OF g3 c4])
  have d4: "st_batch ?s4 = st_batch s" "st_logCount ?s4 = st_logCount s"
    using coreD(1,2) [OF c4] d2 by (simp_all only: rsearch_frames)
  have "good ?s4 (spawnFilterChunk X (mgr_filters M) (jm_Offset msg) ?o ?n ?s4)"
    using good_inv [OF g4] d4 True by (intro good_spawnFilterChunk) auto
  then have "good s (spawnFilterChunk X (mgr_filters M) (jm_Offset msg) ?o ?n ?s4)"
    by (rule good_trans [OF g4])
  then show ?thesis
    using True g3 by (simp add: HandleJQChunk_def Let_def del: if_split)
qed

lemma good_HandleSearchChunk:
  assumes "store_inv s" "msg_ok s (SearchMsg msg)"
  shows "good s (fst (HandleSearchChunk M msg s))"
proof (cases "scm_Instance msg = st_identity s \<and> scm_ID msg = st_queryID s")
  case True
  let ?r = "{scm_Offset msg * st_batch s..<min (scm_Offset msg * st_batch s + st_batch s) (st_logCount s)}"
  let ?sm = "(st_search s |` (- ?r)) ++ scm_Results msg"
  have d: "dom ?sm \<subseteq> {..<st_logCount s}"
  proof -
    have "dom (st_search s) \<subseteq> {..<st_logCount s}" using assms(1) by (simp add: store_inv_def rows_ok_def)
    moreover have "dom (scm_Results msg) \<subseteq> {..<st_logCount s}" using assms(2) True by fastforce
    ultimately show ?thesis by auto
  qed
  let ?s1 = "s\<lparr>st_search := ?sm, st_filteredTotalDirty := True, st_searchCount := st_searchCount s
      + (int (min (scm_Offset msg * st_batch s + st_batch s) (st_logCount s)) - int (scm_Offset msg * st_batch s))\<rparr>"
  have g: "good s ?s1" by (rule good_search [OF assms(1) _ d]) (simp add: core_def)
  have "good s ((cancel_ctx (st_cancelSearch ?s1) ?s1)\<lparr>st_appliedSearch := mgr_search M\<rparr>)"
    using core_cancel [of "st_cancelSearch ?s1" ?s1]
    by (intro good_frame_trans [OF g]) (simp add: core_def)
  with g show ?thesis using True
    by (simp add: HandleSearchChunk_def Let_def del: if_split)
qed (auto simp: HandleSearchChunk_def good_refl assms)

lemma good_HandleFilterChunk: "store_inv s \<Longrightarrow> good s (fst (HandleFilterChunk msg s))"
  by (rule good_frame) (auto simp: HandleFilterChunk_def Let_def markFilteredTotalDirty_def core_def)

lemma good_ApplyFilters:
  assumes "store_inv s"
  shows "good s (ApplyFilters X M s)"
proof -
  let ?s1 = "s\<lparr>st_filterEpoch := st_filterEpoch s + 1, st_filtered := {}, st_appliedFilters := mgr_filters M\<rparr>"
  have g1: "good s ?s1" by (rule good_frame_trans [OF good_epoch [OF assms]]) (simp add: core_def)
  let ?s2 = "fst (compiledFilterRules X (mgr_filters M) ?s1)"
  have g2: "good s ?s2" by (rule good_frame_trans [OF g1]) simp
  have "good s (markFilteredTotalDirty (?s2\<lparr>st_filtered := fl, st_nextCtx := c\<rparr>))" for fl c
    by (rule good_frame_trans [OF g2]) (simp add: core_def markFilteredTotalDirty_def)
  moreover have "good s (markFilteredTotalDirty ?s1)" "good s (markFilteredTotalDirty ?s2)"
    using good_frame_trans [OF g1] good_frame_trans [OF g2] by simp_all
  ultimately show ?thesis by (simp add: ApplyFilters_def Let_def)
qed

section \<open>Loading and expansion\<close>

lemma fold_min_le:
  "fold (\<lambda>l a. if f l < a then f l else a) ls t \<le> (t :: int)
   \<and> (\<forall>l \<in> set ls. fold (\<lambda>l a. if f l < a then f l else a) ls t \<le> f l)"
proof (induction ls arbitrary: t)
  case (Cons l ls)
  from Cons.IH [of "if f l < t then f l else t"] show ?case by (auto split: if_splits intro: order_trans)
qed simp

lemma fold_max_ge:
  "(t :: int) \<le> fold (\<lambda>l a. if f l > a then f l else a) ls t
   \<and> (\<forall>l \<in> set ls. f l \<le> fold (\<lambda>l a. if f l > a then f l else a) ls t)"
proof (induction ls arbitrary: t)
  case (Cons l ls)
  from Cons.IH [of "if f l > t then f l else t"] show ?case by (auto split: if_splits intro: order_trans)
qed simp

lemma good_loadLogs:
  assumes "store_inv s" "st_logCount s = 0"
  shows "good s (loadLogs logs s)"
proof -
  have e: "evolves s (loadLogs logs s)" "st_jobs (loadLogs logs s) = st_jobs s"
    using assms(2) by (simp_all add: evolves_def loadLogs_def sizeBacking_def Let_def)
  have "rows_ok (loadLogs logs s)"
  proof (cases "logs = []")
    case True
    then show ?thesis using assms by (simp add: loadLogs_def store_inv_def rows_ok_def)
  next
    case False
    let ?f = "\<lambda>l. md_ts (l_metadata l)"
    have mx: "n div st_batch s < max ((length logs + st_batch s - 1) div st_batch s) 1" if "n < length logs" for n
      using sizeBacking_mutexes [of "st_batch s" n "length logs"] that assms(1) by (simp add: store_inv_def rows_ok_def)
    have cap: "nat (max (int (length logs)) 1) = length logs" using False by (cases logs) auto
    show ?thesis
      using assms False mx fold_min_le [of ?f logs "?f (hd logs)"] fold_max_ge [of "?f (hd logs)" ?f logs]
      by (auto simp: loadLogs_def sizeBacking_def Let_def cap rows_ok_def store_inv_def)
  qed
  then show ?thesis using good_rows [OF assms(1)] e by simp
qed

lemma good_apply_all:
  assumes "good s t"
  shows "good s (DoSearch M (ApplyJQ X M (ApplyFilters X M t)))"
proof -
  have "good s (ApplyFilters X M t)" using good_trans [OF assms good_ApplyFilters [OF good_inv [OF assms]]] .
  then have "good s (ApplyJQ X M (ApplyFilters X M t))" using good_trans good_ApplyJQ good_inv by blast
  then show ?thesis using good_trans good_DoSearch good_inv by blast
qed

lemma good_SetLogs: "store_inv s \<Longrightarrow> good s (SetLogs X M logs s)"
  unfolding SetLogs_def
  by (intro good_apply_all good_trans [OF good_Clear good_loadLogs])
    (auto intro: good_inv good_Clear)

lemma good_SetLogsRaw: "store_inv s \<Longrightarrow> good s (SetLogsRaw X M logs s)"
  unfolding SetLogsRaw_def
  by (intro good_apply_all good_trans [OF good_ClearData good_loadLogs])
    (auto intro: good_inv good_ClearData)

lemma store_inv_search: "store_inv s \<Longrightarrow> dom (st_search s) \<subseteq> {..<st_logCount s}"
  by (simp add: store_inv_def rows_ok_def)

lemma good_SetExpand:
  assumes "store_inv s"
  shows "good s (SetExpand X M idx b s)"
proof -
  let ?i = "nat idx"
  let ?s1 = "s\<lparr>st_expanded := idx_Set ?i b (st_expanded s)\<rparr>"
  let ?s2 = "fst (searchAutomaton (mgr_search M) ?s1)"
  have g1: "good s ?s1" using assms by (intro good_frame) (auto simp: core_def)
  then have g2: "good s ?s2" by (rule good_frame_trans) simp
  have "good s (markFilteredTotalDirty (?s2\<lparr>st_search := (st_search ?s2)(?i := m)\<rparr>))"
    if "\<not> (idx < 0 \<or> idx \<ge> int (st_logCount s))" for m
  proof (rule good_search [OF assms, where sm = "(st_search s)(?i := m)"])
    show "core (markFilteredTotalDirty (?s2\<lparr>st_search := (st_search ?s2)(?i := m)\<rparr>))
        = core (s\<lparr>st_search := (st_search s)(?i := m)\<rparr>)"
      using core_cache(2) [of "mgr_search M" ?s1] by (simp add: core_def markFilteredTotalDirty_def)
    show "dom ((st_search s)(?i := m)) \<subseteq> {..<st_logCount s}"
      using store_inv_search [OF assms] that by (auto split: if_splits)
  qed
  with g1 show ?thesis by (simp add: SetExpand_def Let_def good_refl assms)
qed

lemma good_RefreshExpandedSearch:
  assumes "store_inv s"
  shows "good s (RefreshExpandedSearch X M s)"
proof (cases "dom (st_search s) = {}")
  case False
  let ?s1 = "fst (searchAutomaton (mgr_search M) s)"
  let ?sm = "\<lambda>i. if st_search s i \<noteq> None \<and> i \<in> st_expanded s
      then rematch X (snd (searchAutomaton (mgr_search M) s)) (Bytes X (st_width s) True (st_logs s ! i)) else st_search s i"
  have "good s (markFilteredTotalDirty (?s1\<lparr>st_search := ?sm\<rparr>))"
  proof (rule good_search [OF assms, where sm = ?sm])
    show "core (markFilteredTotalDirty (?s1\<lparr>st_search := ?sm\<rparr>)) = core (s\<lparr>st_search := ?sm\<rparr>)"
      using core_cache(2) [of "mgr_search M" s] by (simp add: core_def markFilteredTotalDirty_def)
    show "dom ?sm \<subseteq> {..<st_logCount s}"
      using store_inv_search [OF assms] by (fastforce split: if_splits)
  qed
  then show ?thesis using False by (simp add: RefreshExpandedSearch_def Let_def cong: if_cong)
qed (simp add: RefreshExpandedSearch_def good_refl assms)

lemma good_fold: "(\<And>x s. store_inv s \<Longrightarrow> good s (f x s)) \<Longrightarrow> store_inv s \<Longrightarrow> good s (fold f xs s)"
proof (induction xs arbitrary: s)
  case (Cons x xs)
  have g: "good s (f x s)" by (rule Cons.prems(1) [OF Cons.prems(2)])
  have "good (f x s) (fold f xs (f x s))"
    by (rule Cons.IH [OF _ good_inv [OF g]]) (rule Cons.prems(1))
  then show ?case using good_trans [OF g] by simp
qed (simp add: good_refl)

lemma good_ToggleExpandAll: "store_inv s \<Longrightarrow> good s (ToggleExpandAll X M s)"
  unfolding ToggleExpandAll_def Let_def by (intro good_fold good_SetExpand)

lemma good_misc:
  assumes "store_inv s"
  shows "good s (CancelAll s)" "good s (SetContextRootLogID r s)" "good s (SetMessage m s)"
    "good s (SetWidthSource w s)" "good s (fst (FilteredMatchTotal s))"
proof -
  show "good s (CancelAll s)" "good s (fst (FilteredMatchTotal s))"
    by (rule good_frame [OF _ assms], simp)+
  show "good s (SetContextRootLogID r s)" "good s (SetMessage m s)" "good s (SetWidthSource w s)"
    by (rule good_frame [OF _ assms], simp add: SetContextRootLogID_def SetMessage_def SetWidthSource_def core_def)+
qed

end
