(* ===== verification/Logstore_Run.thy ===== *)
theory Logstore_Run
  imports Logstore_Inv
begin

text \<open>
  A store in operation: the loop goroutine calls its operations in any order, workers run
  at any time, and what they post is delivered later and in any order. The step relation is the
  interleaving the runtime allows; a worker's read of the live entries is one step of it. Rule induction over
  the reachable states gives the guarantees the chunk handlers rest on.
\<close>

section \<open>Steps\<close>

datatype store_event =
    EvFetch int | EvStream stream_msg | EvDone nat "gostr list" | EvClear | EvClearData
  | EvSetLogs "log list" | EvSetLogsRaw "log list" | EvApplyJQ | EvDoSearch | EvApplyFilters
  | EvSetExpand int bool | EvToggleExpandAll | EvRefreshExpanded | EvCancelAll | EvWidth int
  | EvContextRoot gostr | EvMessage gostr | EvMatchTotal

text \<open>A fetch clears the store before the stream starts.\<close>

fun loop_event :: "('q, 'c) ext \<Rightarrow> manager \<Rightarrow> store_event \<Rightarrow> ('q, 'c) store \<Rightarrow> ('q, 'c) store" where
  "loop_event X M (EvFetch cap) s = StartStream cap (Clear s)"
| "loop_event X M (EvStream msg) s = fst (HandleLogStreamMsg X M msg s)"
| "loop_event X M (EvDone i errs) s = HandleLogStreamDoneMsg X M i errs s"
| "loop_event X M EvClear s = Clear s"
| "loop_event X M EvClearData s = ClearData s"
| "loop_event X M (EvSetLogs ls) s = SetLogs X M ls s"
| "loop_event X M (EvSetLogsRaw ls) s = SetLogsRaw X M ls s"
| "loop_event X M EvApplyJQ s = ApplyJQ X M s"
| "loop_event X M EvDoSearch s = DoSearch M s"
| "loop_event X M EvApplyFilters s = ApplyFilters X M s"
| "loop_event X M (EvSetExpand i b) s = SetExpand X M i b s"
| "loop_event X M EvToggleExpandAll s = ToggleExpandAll X M s"
| "loop_event X M EvRefreshExpanded s = RefreshExpandedSearch X M s"
| "loop_event X M EvCancelAll s = CancelAll s"
| "loop_event X M (EvWidth w) s = SetWidthSource w s"
| "loop_event X M (EvContextRoot r) s = SetContextRootLogID r s"
| "loop_event X M (EvMessage m) s = SetMessage m s"
| "loop_event X M EvMatchTotal s = fst (FilteredMatchTotal s)"

fun deliver :: "('q, 'c) ext \<Rightarrow> manager \<Rightarrow> msg \<Rightarrow> ('q, 'c) store \<Rightarrow> ('q, 'c) store" where
  "deliver X M (JQMsg m) s = fst (HandleJQChunk X M m s)"
| "deliver X M (SearchMsg m) s = fst (HandleSearchChunk M m s)"
| "deliver X M (FilterMsg m) s = fst (HandleFilterChunk m s)"

text \<open>
  The message a worker posts when it runs in store \<open>s\<close>. A search worker of an earlier query reads a
  backing array the store has dropped: its result is left open.
\<close>

inductive runs :: "('q, 'c) ext \<Rightarrow> ('q, 'c) store \<Rightarrow> ('q, 'c) job \<Rightarrow> msg \<Rightarrow> bool" for X s where
  run_jq: "runs X s (JQJob i cx q off ds)
     (JQMsg (jq_worker X stop (observe s cx) (st_identity s) i q off ds))"
| run_filter: "runs X s (FilterJob i ep cx crs off es bs)
     (FilterMsg (filter_worker X (observe s cx) (st_width s) (st_identity s) i ep crs off es bs))"
| run_search: "i = st_queryID s \<Longrightarrow>
     search_worker X (cx \<in> st_cancelled s) (st_width s) (st_identity s) i ac off (st_batch s)
       (batch_logs first count s) (st_expanded s) = Some m \<Longrightarrow>
     runs X s (SearchJob i cx ac off first count) (SearchMsg m)"
| run_stale_search: "i \<noteq> st_queryID s \<Longrightarrow> scm_ID m = i \<Longrightarrow>
     runs X s (SearchJob i cx ac off first count) (SearchMsg m)"

inductive_cases runs_JQ [elim]: "runs X s (JQJob i cx q off ds) m"
inductive_cases runs_Filter [elim]: "runs X s (FilterJob i ep cx crs off es bs) m"
inductive_cases runs_Search [elim]: "runs X s (SearchJob i cx ac off first count) m"

record ('q, 'c) sys =
  y_mgr :: manager
  y_store :: "('q, 'c) store"
  y_msgs :: "msg list"

definition sys_init :: "gostr \<Rightarrow> nat \<Rightarrow> ('q, 'c) sys" where
  "sys_init identity batch = \<lparr>y_mgr = mgr_New, y_store = NewLogStore identity batch, y_msgs = []\<rparr>"

inductive sys_step :: "('q, 'c) ext \<Rightarrow> ('q, 'c) sys \<Rightarrow> ('q, 'c) sys \<Rightarrow> bool" for X where
  step_user: "sys_step X y (y\<lparr>y_mgr := M\<rparr>)"
| step_loop: "sys_step X y (y\<lparr>y_store := loop_event X (y_mgr y) ev (y_store y)\<rparr>)"
| step_work: "j \<in> set (st_jobs (y_store y)) \<Longrightarrow> runs X (y_store y) j m \<Longrightarrow>
     sys_step X y (y\<lparr>y_store := (y_store y)\<lparr>st_jobs := remove1 j (st_jobs (y_store y))\<rparr>, y_msgs := m # y_msgs y\<rparr>)"
| step_drop: "j \<in> set (st_jobs (y_store y)) \<Longrightarrow>
     sys_step X y (y\<lparr>y_store := (y_store y)\<lparr>st_jobs := remove1 j (st_jobs (y_store y))\<rparr>\<rparr>)"
| step_deliver: "m \<in> set (y_msgs y) \<Longrightarrow>
     sys_step X y (y\<lparr>y_store := deliver X (y_mgr y) m (y_store y), y_msgs := remove1 m (y_msgs y)\<rparr>)"

inductive reach :: "('q, 'c) ext \<Rightarrow> ('q, 'c) sys \<Rightarrow> ('q, 'c) sys \<Rightarrow> bool" for X y0 where
  reach_refl: "reach X y0 y0"
| reach_step: "reach X y0 y \<Longrightarrow> sys_step X y z \<Longrightarrow> reach X y0 z"

section \<open>The invariant of the running store\<close>

definition sys_inv :: "('q, 'c) sys \<Rightarrow> bool" where
  "sys_inv y \<longleftrightarrow> store_inv (y_store y) \<and> list_all (msg_ok (y_store y)) (y_msgs y)"

lemma good_loop_event: "store_inv s \<Longrightarrow> good s (loop_event X M ev s)"
proof (induction X M ev s rule: loop_event.induct)
  case (1 X M cap s)
  have "good s (Clear s)" using 1 by (rule good_Clear)
  then show ?case using good_StartStream good_trans good_inv by fastforce
qed (auto intro: good_HandleLogStreamMsg good_HandleLogStreamDoneMsg good_Clear good_ClearData good_SetLogs
      good_SetLogsRaw good_ApplyJQ good_DoSearch good_ApplyFilters good_SetExpand good_ToggleExpandAll
      good_RefreshExpandedSearch good_misc)

text \<open>A store driven by its loop alone, with the shared state changing between events.\<close>

interpretation store: event_machine store_inv "\<lambda>(M, ev). loop_event X M ev" for X
  by unfold_locales (auto intro: good_inv good_loop_event)

lemma good_deliver: "store_inv s \<Longrightarrow> msg_ok s m \<Longrightarrow> good s (deliver X M m s)"
  by (cases m) (auto intro: good_HandleJQChunk good_HandleSearchChunk good_HandleFilterChunk)

lemma length_map2: "length (map2 f xs ys) = min (length xs) (length ys)"
  by simp

lemma runs_msg_ok:
  assumes "runs X s j m" "job_ok s j" "store_inv s"
  shows "msg_ok s m"
  using assms
proof (cases rule: runs.cases)
  case (run_jq i cx q off ds stop)
  then show ?thesis using assms(2) by (auto simp: jq_worker_def dest: jqBatch_length split: sum.split)
next
  case (run_filter i ep cx crs off es bs)
  then show ?thesis using assms(2) by (auto simp: filter_worker_def)
next
  case (run_search i cx ac off f c sm)
  have len: "length (batch_logs f c s) = c"
    using run_search assms length_batch_logs store_inv_rows by auto
  obtain r where r: "searchChunk X (cx \<in> st_cancelled s) (st_width s) ac off (st_batch s) (batch_logs f c s) (st_expanded s) = Some r"
    and sm: "sm = \<lparr>scm_Instance = st_identity s, scm_ID = i, scm_Offset = off, scm_Results = r\<rparr>"
    using run_search(4) by (auto simp: search_worker_def split: option.splits)
  have "dom r \<subseteq> {off * st_batch s ..< off * st_batch s + c}"
    using searchChunk_dom [OF r] len by simp
  moreover have "off * st_batch s + c \<le> st_logCount s" "c \<le> st_batch s"
    using run_search assms(2) by auto
  ultimately have "x \<in> {off * st_batch s ..< min (off * st_batch s + st_batch s) (st_logCount s)}" if "x \<in> dom r" for x
    using subsetD [OF _ that, of "{off * st_batch s ..< off * st_batch s + c}"] by simp
  then have "dom r \<subseteq> {off * st_batch s ..< min (off * st_batch s + st_batch s) (st_logCount s)}" by blast
  moreover have "off * st_batch s \<le> st_logCount s" using run_search assms(2) by auto
  ultimately show ?thesis using run_search sm by simp
next
  case run_stale_search
  then show ?thesis using assms(2) by auto
qed

lemma jobs_removed:
  assumes "store_inv s"
  shows "good s (s\<lparr>st_jobs := remove1 j (st_jobs s)\<rparr>)"
proof -
  have "list_all (job_ok s) (remove1 j (st_jobs s))"
    using assms set_remove1_subset [of j "st_jobs s"] by (auto simp: store_inv_def list_all_iff)
  then show ?thesis
    using assms job_ok_cong [of "s\<lparr>st_jobs := remove1 j (st_jobs s)\<rparr>" s]
    by (simp add: good_def store_inv_def rows_ok_def evolves_def)
qed

lemma msgs_evolve: "list_all (msg_ok s) ms \<Longrightarrow> evolves s t \<Longrightarrow> list_all (msg_ok t) ms"
  using msg_ok_evolves by (auto simp: list_all_iff)

lemma good_evolves: "good s t \<Longrightarrow> evolves s t"
  by (simp add: good_def)

lemma sys_step_inv:
  "sys_step X y z \<Longrightarrow> sys_inv y \<Longrightarrow> sys_inv z \<and> evolves (y_store y) (y_store z)"
proof (induction rule: sys_step.induct)
  case (step_loop y ev)
  then have "good (y_store y) (loop_event X (y_mgr y) ev (y_store y))"
    by (intro good_loop_event) (simp add: sys_inv_def)
  then show ?case using step_loop msgs_evolve by (auto simp: sys_inv_def good_def)
next
  case (step_work j y m)
  let ?t = "(y_store y)\<lparr>st_jobs := remove1 j (st_jobs (y_store y))\<rparr>"
  have inv: "store_inv (y_store y)" using step_work by (simp add: sys_inv_def)
  have g: "good (y_store y) ?t" by (rule jobs_removed [OF inv])
  have "job_ok (y_store y) j" using inv step_work(1) by (auto simp: store_inv_def list_all_iff)
  then have "msg_ok (y_store y) m" using runs_msg_ok step_work(2) inv by blast
  moreover have "list_all (msg_ok (y_store y)) (y_msgs y)" using step_work(3) by (simp add: sys_inv_def)
  ultimately have "list_all (msg_ok (y_store y)) (m # y_msgs y)" by simp
  then have "list_all (msg_ok ?t) (m # y_msgs y)" by (rule msgs_evolve [OF _ good_evolves [OF g]])
  then show ?case using g by (simp add: sys_inv_def good_def)
next
  case (step_drop j y)
  let ?t = "(y_store y)\<lparr>st_jobs := remove1 j (st_jobs (y_store y))\<rparr>"
  have g: "good (y_store y) ?t" using step_drop by (intro jobs_removed) (simp add: sys_inv_def)
  have "list_all (msg_ok (y_store y)) (y_msgs y)" using step_drop(2) by (simp add: sys_inv_def)
  then have "list_all (msg_ok ?t) (y_msgs y)" by (rule msgs_evolve [OF _ good_evolves [OF g]])
  then show ?case using g by (simp add: sys_inv_def good_def)
next
  case (step_deliver m y)
  let ?t = "deliver X (y_mgr y) m (y_store y)"
  have ok: "store_inv (y_store y)" "msg_ok (y_store y) m" "list_all (msg_ok (y_store y)) (y_msgs y)"
    using step_deliver by (auto simp: sys_inv_def list_all_iff)
  then have g: "good (y_store y) ?t" by (intro good_deliver)
  have "list_all (msg_ok (y_store y)) (remove1 m (y_msgs y))"
    using ok(3) set_remove1_subset [of m "y_msgs y"] by (auto simp: list_all_iff)
  then have "list_all (msg_ok ?t) (remove1 m (y_msgs y))"
    using g msgs_evolve by (auto simp: good_def)
  then show ?case using g by (simp add: sys_inv_def good_def)
qed (simp add: sys_inv_def)

lemma reach_inv:
  "reach X y z \<Longrightarrow> sys_inv y \<Longrightarrow> sys_inv z \<and> evolves (y_store y) (y_store z)"
  by (induction rule: reach.induct) (auto dest: sys_step_inv intro: evolves_trans)

lemma init_inv: "0 < batch \<Longrightarrow> sys_inv (sys_init identity batch)"
  by (simp add: sys_inv_def sys_init_def store_inv_def rows_ok_def NewLogStore_def)

section \<open>Stale messages\<close>

fun msg_id :: "msg \<Rightarrow> nat" where
  "msg_id (JQMsg m) = jm_ID m"
| "msg_id (SearchMsg m) = scm_ID m"
| "msg_id (FilterMsg m) = fm_ID m"

lemma deliver_stale: "msg_id m \<noteq> st_queryID s \<Longrightarrow> deliver X M m s = s"
  by (cases m) (auto simp: HandleJQChunk_def HandleSearchChunk_def HandleFilterChunk_def Let_def)

lemma msg_id_le: "msg_ok s m \<Longrightarrow> msg_id m \<le> st_queryID s"
  by (cases m) auto

lemma runs_id: "runs X s j m \<Longrightarrow> msg_id m = job_id j"
  by (cases rule: runs.cases)
    (auto simp: jq_worker_def filter_worker_def search_worker_def split: sum.split option.splits)

lemma job_id_le: "job_ok s j \<Longrightarrow> job_id j \<le> st_queryID s"
  by (cases j) auto

lemma ClearData_queryID [simp]: "st_queryID (ClearData s) = Suc (st_queryID s)"
  using coreD(4) [OF core_CancelAll [of s]] by (simp add: ClearData_def Let_def)

lemma evolves_queryID: "evolves s t \<Longrightarrow> st_queryID s \<le> st_queryID t"
  by (auto simp: evolves_def)

section \<open>A concrete run\<close>

text \<open>A fetch of one log with a jq query set, up to the message of the jq worker.\<close>

definition demo_log :: log where
  "demo_log = \<lparr>l_data = JMap [([120], JInt 7)],
               l_metadata = \<lparr>md_id = [], md_ts = 5, md_severity = 3, md_priority = 0\<rparr>\<rparr>"

definition demo_mgr :: manager where
  "demo_mgr = mgr_New\<lparr>mgr_jq := [120]\<rparr>"

definition demo_store :: "(gostr, gostr) store" where
  "demo_store = fst (HandleLogStreamMsg demo_ext demo_mgr \<lparr>sm_ID = 2, sm_Logs = [demo_log], sm_Errs = []\<rparr>
     (StartStream 1 (Clear (NewLogStore [] 1))))"

definition demo_sys :: "(gostr, gostr) sys" where
  "demo_sys = \<lparr>y_mgr = demo_mgr, y_store = demo_store, y_msgs = []\<rparr>"

definition demo_job :: "(gostr, gostr) job" where
  "demo_job = JQJob 2 1 [120] 0 [JMap [([120], JInt 7)]]"

definition demo_msg :: jq_chunk_msg where
  "demo_msg = \<lparr>jm_Instance = [], jm_ID = 2, jm_Offset = 0, jm_Results = [JStr [55]], jm_Err = None\<rparr>"

definition demo_sys' :: "(gostr, gostr) sys" where
  "demo_sys' = demo_sys\<lparr>y_store := (y_store demo_sys)\<lparr>st_jobs := remove1 demo_job (st_jobs (y_store demo_sys))\<rparr>,
     y_msgs := [JQMsg demo_msg]\<rparr>"

lemma demo_reach: "reach demo_ext (sys_init [] 1) demo_sys"
proof -
  let ?y0 = "sys_init [] 1 :: (gostr, gostr) sys"
  let ?y1 = "?y0\<lparr>y_mgr := demo_mgr\<rparr>"
  define s2 where "s2 = StartStream 1 (Clear (NewLogStore [] 1 :: (gostr, gostr) store))"
  define y2 where "y2 = ?y1\<lparr>y_store := s2\<rparr>"
  have "reach demo_ext ?y0 ?y1" by (rule reach_step [OF reach_refl step_user])
  then have "reach demo_ext ?y0 (?y1\<lparr>y_store := loop_event demo_ext (y_mgr ?y1) (EvFetch 1) (y_store ?y1)\<rparr>)"
    by (rule reach_step) (rule step_loop)
  then have "reach demo_ext ?y0 y2"
    unfolding y2_def s2_def by (simp only: loop_event.simps sys.simps sys_init_def)
  then have "reach demo_ext ?y0 (y2\<lparr>y_store := loop_event demo_ext (y_mgr y2)
      (EvStream \<lparr>sm_ID = 2, sm_Logs = [demo_log], sm_Errs = []\<rparr>) (y_store y2)\<rparr>)"
    by (rule reach_step) (rule step_loop)
  then show ?thesis
    unfolding y2_def by (simp only: loop_event.simps sys.simps sys_init_def demo_sys_def demo_store_def s2_def)
qed

lemma demo_store_eval:
  "st_jobs demo_store = [demo_job]" "st_identity demo_store = []" "st_queryID demo_store = 2"
  "st_cancelled demo_store = {}"
  by code_simp+

lemma demo_search_empty: "st_search demo_store = Map.empty"
proof
  fix i show "st_search demo_store i = None" by code_simp
qed

lemma demo_store_inv: "store_inv demo_store"
  using reach_inv [OF demo_reach init_inv] by (simp add: sys_inv_def demo_sys_def)

lemma demo_worker:
  "jq_worker demo_ext (\<lambda>k. False) (Active 1) [] 2 [120] 0 [JMap [([120], JInt 7)]] = demo_msg"
  by code_simp

lemma demo_runs: "runs demo_ext demo_store demo_job (JQMsg demo_msg)"
  using run_jq [of demo_ext demo_store 2 1 "[120]" 0 "[JMap [([120], JInt 7)]]" "\<lambda>k. False"]
  by (simp add: demo_job_def observe_def demo_store_eval demo_worker [simplified])

lemma demo_reach': "reach demo_ext (sys_init [] 1) demo_sys'"
proof -
  have "sys_step demo_ext demo_sys demo_sys'"
    using step_work [of demo_job demo_sys demo_ext "JQMsg demo_msg"] demo_runs
    by (simp add: demo_sys_def demo_sys'_def demo_store_eval)
  then show ?thesis by (rule reach_step [OF demo_reach])
qed

section \<open>Properties\<close>

text \<open>
  C2: Whatever the loop does and in whatever order workers finish and their messages arrive, the
  store is consistent: the count stays within the backing array, every row has a mutex of the pool,
  matches and marks point at valid rows, the recorded time range covers every row, and every worker
  and message in flight is about rows that exist or belongs to a query that is over.
\<close>

theorem store_run_invariant:
  assumes "0 < batch" "reach X (sys_init identity batch) y"
  shows "sys_inv y"
  using reach_inv [OF assms(2) init_inv [OF assms(1)]] by simp

theorem store_run_invariant_witness:
  "sys_inv ((sys_init [] 2 :: (gostr, gostr) sys)\<lparr>y_store := loop_event demo_ext mgr_New (EvFetch 3) (NewLogStore [] 2)\<rparr>)"
proof (rule store_run_invariant [where X = demo_ext])
  show "reach demo_ext (sys_init [] 2)
      ((sys_init [] 2)\<lparr>y_store := loop_event demo_ext mgr_New (EvFetch 3) (NewLogStore [] 2)\<rparr>)"
    using step_loop [of demo_ext "sys_init [] 2" "EvFetch 3"]
    by (intro reach_step [OF reach_refl]) (simp add: sys_init_def)
qed simp

lemma mem_set_flags:
  "i \<in> set_flags (enumerate n bs) fl \<longleftrightarrow> (if n \<le> i \<and> i < n + length bs then bs ! (i - n) else i \<in> fl)"
proof (induction bs arbitrary: n fl)
  case (Cons b bs)
  have "set_flags (enumerate n (b # bs)) fl = set_flags (enumerate (Suc n) bs) (idx_Set n b fl)"
    by (simp add: set_flags_def)
  then show ?case by (auto simp: Cons.IH idx_Set_def nth_Cons' Suc_le_eq not_less less_Suc_eq_le)
qed (auto simp: set_flags_def)

text \<open>The rows that a handler writes for a chunk of the current query.\<close>

lemma jq_chunk_rows:
  assumes "msg_ok s (JQMsg jm)" "st_logCount s \<le> length (st_logs s)" "jm_ID jm = st_queryID s" "jm_Instance jm = st_identity s" "jm_Err jm = None"
  shows "jr_ResultCount (snd (HandleJQChunk X M jm s)) = length (jm_Results jm)"
    "k < length (st_logs s) \<Longrightarrow> st_logs (fst (HandleJQChunk X M jm s)) ! k =
       (if jm_Offset jm * st_batch s \<le> k \<and> k < jm_Offset jm * st_batch s + length (jm_Results jm)
        then WithData (jm_Results jm ! (k - jm_Offset jm * st_batch s)) (st_logs s ! k) else st_logs s ! k)"
proof -
  let ?o = "jm_Offset jm * st_batch s"
  have fit: "?o + length (jm_Results jm) \<le> st_logCount s" using assms(1,3) by simp
  have "st_logs (fst (HandleJQChunk X M jm s)) = write_outputs ?o (jm_Results jm) (st_logs s)"
    using assms(3-5) fit
    by (simp add: HandleJQChunk_def Let_def new_filterCtx_def cancelAndNil_jq_def cancel_ctx_def split: option.split)
  then show "k < length (st_logs s) \<Longrightarrow> st_logs (fst (HandleJQChunk X M jm s)) ! k = (if ?o \<le> k \<and> k < ?o + length (jm_Results jm)
      then WithData (jm_Results jm ! (k - ?o)) (st_logs s ! k) else st_logs s ! k)"
    using write_outputs_nth [of ?o "jm_Results jm" "st_logs s"] fit assms(2) by simp
  show "jr_ResultCount (snd (HandleJQChunk X M jm s)) = length (jm_Results jm)"
    using assms(3-5) fit by (simp add: HandleJQChunk_def Let_def)
qed

lemma search_chunk_rows:
  assumes "msg_ok s (SearchMsg sm)" "scm_ID sm = st_queryID s" "scm_Instance sm = st_identity s"
  shows "snd (HandleSearchChunk M sm s)"
    "st_search (fst (HandleSearchChunk M sm s)) k =
       (if scm_Offset sm * st_batch s \<le> k \<and> k < min (scm_Offset sm * st_batch s + st_batch s) (st_logCount s)
        then scm_Results sm k else st_search s k)"
proof -
  let ?o = "scm_Offset sm * st_batch s"
  have "dom (scm_Results sm) \<subseteq> {?o..<min (?o + st_batch s) (st_logCount s)}" using assms(1,2) by simp
  then have "k \<notin> {?o..<min (?o + st_batch s) (st_logCount s)} \<Longrightarrow> scm_Results sm k = None" by blast
  moreover have "st_search (fst (HandleSearchChunk M sm s)) =
      (st_search s |` (- {?o..<min (?o + st_batch s) (st_logCount s)})) ++ scm_Results sm"
    using assms(2,3) by (simp add: HandleSearchChunk_def Let_def cancel_ctx_def split: option.split)
  ultimately show "st_search (fst (HandleSearchChunk M sm s)) k =
      (if ?o \<le> k \<and> k < min (?o + st_batch s) (st_logCount s) then scm_Results sm k else st_search s k)"
    by (auto simp: map_add_def restrict_map_def split: option.split)
  show "snd (HandleSearchChunk M sm s)" using assms(2,3) by (simp add: HandleSearchChunk_def Let_def)
qed

lemma filter_chunk_rows:
  assumes "msg_ok s (FilterMsg fm)" "fm_ID fm = st_queryID s" "fm_Instance fm = st_identity s" "fm_Err fm = None"
    "fm_Epoch fm = st_filterEpoch s"
  shows "snd (HandleFilterChunk fm s)"
    "k \<in> st_filtered (fst (HandleFilterChunk fm s)) \<longleftrightarrow>
       (if fm_Offset fm * st_batch s \<le> k \<and> k < fm_Offset fm * st_batch s + length (fm_Hidden fm)
        then fm_Hidden fm ! (k - fm_Offset fm * st_batch s) else k \<in> st_filtered s)"
  using assms by (simp_all add: HandleFilterChunk_def Let_def markFilteredTotalDirty_def mem_set_flags)

text \<open>
  C4: A chunk computed for the current rows is never lost and reaches exactly the rows it is for: in every reachable
  state, a jq message of the current query without an error replaces the output of the rows it covers, a search message the
  matches of the rows of its chunk, and a filter message of the current query and epoch the decisions of the rows it covers,
  each row by the element of the message for it; no other row changes. The range checks of the handlers never fire.
\<close>

theorem current_chunks_are_applied:
  assumes "0 < batch" "reach X (sys_init identity batch) y" "m \<in> set (y_msgs y)"
    "msg_id m = st_queryID (y_store y)" "s = y_store y"
  shows "case m of
      JQMsg jm \<Rightarrow> jm_Instance jm = st_identity s \<and> jm_Err jm = None \<longrightarrow>
        jr_ResultCount (snd (HandleJQChunk X (y_mgr y) jm s)) = length (jm_Results jm)
        \<and> (\<forall>k < length (st_logs s). st_logs (fst (HandleJQChunk X (y_mgr y) jm s)) ! k =
             (if jm_Offset jm * st_batch s \<le> k \<and> k < jm_Offset jm * st_batch s + length (jm_Results jm)
              then WithData (jm_Results jm ! (k - jm_Offset jm * st_batch s)) (st_logs s ! k) else st_logs s ! k))
    | SearchMsg sm \<Rightarrow> scm_Instance sm = st_identity s \<longrightarrow>
        snd (HandleSearchChunk (y_mgr y) sm s) \<and> (\<forall>k. st_search (fst (HandleSearchChunk (y_mgr y) sm s)) k =
             (if scm_Offset sm * st_batch s \<le> k \<and> k < min (scm_Offset sm * st_batch s + st_batch s) (st_logCount s)
              then scm_Results sm k else st_search s k))
    | FilterMsg fm \<Rightarrow> fm_Instance fm = st_identity s \<and> fm_Err fm = None \<and> fm_Epoch fm = st_filterEpoch s \<longrightarrow>
        snd (HandleFilterChunk fm s) \<and> (\<forall>k. k \<in> st_filtered (fst (HandleFilterChunk fm s)) \<longleftrightarrow>
             (if fm_Offset fm * st_batch s \<le> k \<and> k < fm_Offset fm * st_batch s + length (fm_Hidden fm)
              then fm_Hidden fm ! (k - fm_Offset fm * st_batch s) else k \<in> st_filtered s))"
proof -
  have inv: "sys_inv y" using reach_inv [OF assms(2) init_inv [OF assms(1)]] by simp
  then have ok: "msg_ok s m" using assms(3,5) by (auto simp: sys_inv_def list_all_iff)
  have le: "st_logCount s \<le> length (st_logs s)" using inv assms(5) by (simp add: sys_inv_def store_inv_def rows_ok_def)
  show ?thesis
  proof (cases m)
    case (JQMsg jm)
    then show ?thesis using jq_chunk_rows [of s jm] ok le assms(4,5) by simp
  next
    case (SearchMsg sm)
    then show ?thesis using search_chunk_rows [of s sm] ok assms(4,5) by simp
  next
    case (FilterMsg fm)
    then show ?thesis using filter_chunk_rows [of s fm] ok assms(4,5) by simp
  qed
qed

theorem current_chunks_are_applied_witness:
  "jr_ResultCount (snd (HandleJQChunk demo_ext demo_mgr demo_msg (y_store demo_sys'))) = 1"
proof -
  have "msg_id (JQMsg demo_msg) = st_queryID (y_store demo_sys')" "JQMsg demo_msg \<in> set (y_msgs demo_sys')"
    "jm_Instance demo_msg = st_identity (y_store demo_sys')" "y_mgr demo_sys' = demo_mgr"
    by (simp_all add: demo_sys'_def demo_sys_def demo_msg_def demo_store_eval)
  then show ?thesis
    using current_chunks_are_applied [OF _ demo_reach', of "JQMsg demo_msg"] by (simp add: demo_msg_def)
qed

text \<open>
  C3: Nothing computed for rows that were cleared reaches the new ones: once a store is cleared, every message
  in flight, and every message posted later by a worker that was already in flight, leaves the store
  as it is, whenever it arrives.
\<close>

theorem cleared_rows_stay_cleared:
  assumes "0 < batch" "reach X (sys_init identity batch) y"
    "reach X (y\<lparr>y_store := ClearData (y_store y)\<rparr>) z"
    "m \<in> set (y_msgs y) \<or> (\<exists>j \<in> set (st_jobs (y_store y)). \<exists>s. runs X s j m)"
  shows "deliver X M m (y_store z) = y_store z"
proof -
  let ?c = "y\<lparr>y_store := ClearData (y_store y)\<rparr>"
  have inv: "sys_inv y" using reach_inv [OF assms(2) init_inv [OF assms(1)]] by simp
  have "sys_step X y ?c" using step_loop [of X y EvClearData] by simp
  then have "sys_inv ?c" using sys_step_inv inv by blast
  then have "st_queryID (y_store ?c) \<le> st_queryID (y_store z)"
    using reach_inv [OF assms(3)] evolves_queryID by blast
  moreover have "msg_id m \<le> st_queryID (y_store y)"
    using assms(4)
  proof
    assume "m \<in> set (y_msgs y)"
    then show ?thesis using inv msg_id_le by (auto simp: sys_inv_def list_all_iff)
  next
    assume "\<exists>j \<in> set (st_jobs (y_store y)). \<exists>s. runs X s j m"
    then obtain j s where "j \<in> set (st_jobs (y_store y))" "runs X s j m" by blast
    then show ?thesis
      using runs_id job_id_le inv by (fastforce simp: sys_inv_def store_inv_def list_all_iff)
  qed
  ultimately show ?thesis by (intro deliver_stale) simp
qed

theorem cleared_rows_stay_cleared_witness:
  "deliver demo_ext demo_mgr (JQMsg demo_msg) (ClearData (y_store demo_sys')) = ClearData (y_store demo_sys')"
  using cleared_rows_stay_cleared [OF _ demo_reach' reach_refl, of "JQMsg demo_msg" demo_mgr]
  by (simp add: demo_sys'_def)

end
