(* ===== verification/Logstore_Cache.thy ===== *)
theory Logstore_Cache
  imports Logstore_Run
begin

text \<open>
  The two caches of a store: the filter-aware match total behind a dirty flag, and the compiled artifacts
  of the epoch cache (\<^verbatim>\<open>epochcache.go\<close>). Both are coherent in every reachable state: what they
  serve is what a fresh computation would give.
\<close>

section \<open>The match total\<close>

text \<open>A step either leaves the total's inputs and the cached value alone or marks it dirty.\<close>

definition total_view where
  "total_view s = (st_search s, st_filtered s, st_filteredTotal s, st_filteredTotalDirty s)"

definition tracks :: "('q, 'c) store \<Rightarrow> ('q, 'c) store \<Rightarrow> bool" where
  "tracks s t \<longleftrightarrow> total_view t = total_view s \<or> st_filteredTotalDirty t"

definition total_ok :: "('q, 'c) store \<Rightarrow> bool" where
  "total_ok s \<longleftrightarrow> st_filteredTotalDirty s \<or> st_filteredTotal s = FilteredCount (st_search s) (st_filtered s)"

lemma tracks_refl [simp]: "tracks s s"
  by (simp add: tracks_def)

lemma tracks_trans: "tracks s t \<Longrightarrow> tracks t u \<Longrightarrow> tracks s u"
  by (auto simp: tracks_def total_view_def)

lemma tracks_dirty: "st_filteredTotalDirty t \<Longrightarrow> tracks s t"
  by (simp add: tracks_def)

lemma tracks_view: "total_view t = total_view s \<Longrightarrow> tracks s t"
  by (simp add: tracks_def)

lemma total_ok_tracks: "total_ok s \<Longrightarrow> tracks s t \<Longrightarrow> total_ok t"
  by (auto simp: total_ok_def tracks_def total_view_def)

lemma view_spawns: "only_spawns s t \<Longrightarrow> total_view t = total_view s"
  by (auto simp: only_spawns_def total_view_def)

lemma view_cancel [simp]: "total_view (cancel_ctx c s) = total_view s"
  by (simp add: cancel_ctx_def total_view_def split: option.split)

lemma view_cancelAndNil [simp]:
  "total_view (cancelAndNil_jq s) = total_view s" "total_view (cancelAndNil_search s) = total_view s"
  "total_view (cancelAndNil_filter s) = total_view s" "total_view (CancelAll s) = total_view s"
proof -
  show a: "total_view (cancelAndNil_jq s) = total_view s" for s :: "('q, 'c) store"
    using view_cancel [of "st_cancelJQ s" s] by (simp add: cancelAndNil_jq_def total_view_def)
  show b: "total_view (cancelAndNil_search s) = total_view s" for s :: "('q, 'c) store"
    using view_cancel [of "st_cancelSearch s" s] by (simp add: cancelAndNil_search_def total_view_def)
  show c: "total_view (cancelAndNil_filter s) = total_view s" for s :: "('q, 'c) store"
    using view_cancel [of "st_cancelFilter s" s] by (simp add: cancelAndNil_filter_def total_view_def)
  show "total_view (CancelAll s) = total_view s" by (simp add: CancelAll_def a b c)
qed

lemma view_cache [simp]:
  "total_view (fst (parsedJQ X src s)) = total_view s" "total_view (fst (searchAutomaton q s)) = total_view s"
  "total_view (fst (compiledFilterRules X rules s)) = total_view s"
  "total_view (spawnFilterChunk X rules k f c s) = total_view s"
  "total_view (spawnJQ cx qq k f c s) = total_view s" "total_view (spawnSearchChunk cx ac k f c s) = total_view s"
  "total_view (rsearchAffectedChunk M k n s) = total_view s"
  by (intro view_spawns spawns_intros rsearch_spawns)+

lemma view_new_ctx [simp]:
  "total_view (new_jqCtx s) = total_view s" "total_view (new_searchCtx s) = total_view s"
  "total_view (new_filterCtx s) = total_view s" "total_view (add_errs errs s) = total_view s"
  "total_view (put_row l s) = total_view s"
  by (simp_all add: new_jqCtx_def new_searchCtx_def new_filterCtx_def add_errs_def put_row_def Let_def total_view_def)

lemma view_prepare [simp]: "total_view (fst (prepareDispatchEpochs jq srch rules s)) = total_view s"
  by (simp add: prepareDispatchEpochs_def Let_def)

lemma view_pending [simp]: "total_view (s\<lparr>st_pending := p\<rparr>) = total_view s"
  by (simp add: total_view_def)

lemma view_resetJQEpoch [simp]: "total_view (resetJQEpoch s) = total_view s"
  using view_cancelAndNil(1) [of "s\<lparr>st_appliedJQ := [], st_jqCount := 0\<rparr>"]
  by (simp add: resetJQEpoch_def total_view_def)

lemma view_dispatch_batch [simp]: "total_view (fst (dispatch_batch X M ac c s)) = total_view s"
  by (simp add: dispatch_batch_def Let_def split: sum.split)

lemma view_dispatch_loop [simp]: "total_view (dispatch_loop X M ac s) = total_view s"
proof (induction X M ac s rule: dispatch_loop.induct)
  case (1 X M ac s)
  let ?c = "min (st_pending s) (st_batch s)"
  obtain t b where t: "dispatch_batch X M ac ?c s = (t, b)" by fastforce
  have v: "total_view t = total_view s" using view_dispatch_batch [of X M ac ?c s] t by simp
  show ?case
    by (subst dispatch_loop.simps) (use 1 t v in \<open>cases b; simp\<close>)
qed

lemma view_dispatch [simp]: "total_view (dispatchPendingBatches X M s) = total_view s"
  by (simp add: dispatchPendingBatches_def Let_def)

lemma view_put_rows: "put_rows ls r a s = (t, r', a') \<Longrightarrow> total_view t = total_view s"
  by (induction ls arbitrary: r a s) (fastforce split: if_splits)+

lemma view_stream [simp]:
  "total_view (fst (HandleLogStreamMsg X M msg s)) = total_view s"
  "total_view (HandleLogStreamDoneMsg X M i errs s) = total_view s"
proof -
  show "total_view (fst (HandleLogStreamMsg X M msg s)) = total_view s"
    by (auto simp: HandleLogStreamMsg_def view_put_rows split: prod.split)
  have "total_view (s\<lparr>st_streaming := False\<rparr>) = total_view s" by (simp add: total_view_def)
  then show "total_view (HandleLogStreamDoneMsg X M i errs s) = total_view s"
    by (simp add: HandleLogStreamDoneMsg_def)
qed

lemma dirty_view: "total_view t = total_view s \<Longrightarrow> st_filteredTotalDirty t = st_filteredTotalDirty s"
  by (simp add: total_view_def)

lemma view_fold: "(\<And>x s. total_view (f x s) = total_view s) \<Longrightarrow> total_view (fold f xs s) = total_view s"
  by (induction xs arbitrary: s) auto

lemma tracks_DoSearch: "tracks s (DoSearch M s)"
proof -
  have v: "total_view (fold (\<lambda>(k, f, c). spawnSearchChunk cx ac k f c) cs t) = total_view t"
    for cx ac cs and t :: "('a, 'b) store"
    by (rule view_fold) (auto split: prod.split)
  have "st_filteredTotalDirty (DoSearch M s)"
    by (simp add: DoSearch_def Let_def dirty_view [OF v] dirty_view [OF view_cache(2)])
  then show ?thesis by (rule tracks_dirty)
qed

lemma view_clear_outputs [simp]: "total_view (clear_outputs s) = total_view s"
  by (simp add: clear_outputs_def total_view_def)

lemma view_ApplyJQ [simp]: "total_view (ApplyJQ X M s) = total_view s"
proof -
  let ?s1 = "cancel_ctx (st_cancelJQ s) s"
  let ?s2 = "cancelAndNil_filter (?s1\<lparr>st_jqCtx := None, st_pending := 0, st_filterEpoch := st_filterEpoch ?s1 + 1\<rparr>)"
  have v2: "total_view ?s2 = total_view s"
    using view_cancel [of "st_cancelJQ s" s] by (simp only: view_cancelAndNil) (simp add: total_view_def)
  have upd: "total_view (t\<lparr>st_appliedJQ := a\<rparr>) = total_view t" "total_view (t\<lparr>st_appliedJQ := a, st_jqCount := n\<rparr>) = total_view t"
    "total_view (t\<lparr>st_cancelJQ := c, st_nextCtx := m, st_jqCount := n\<rparr>) = total_view t"
    for t :: "('a, 'b) store" and a n c m by (simp_all add: total_view_def)
  have fj: "total_view (fold (\<lambda>(k, f, c). spawnJQ cx q k f c) cs t) = total_view t" for cx q cs and t :: "('a, 'b) store"
    by (rule view_fold) (auto split: prod.split)
  show ?thesis
    using v2 by (simp add: ApplyJQ_def Let_def upd fj split: sum.split)
qed

lemma tracks_ApplyFilters: "tracks s (ApplyFilters X M s)"
  by (rule tracks_dirty) (simp add: ApplyFilters_def markFilteredTotalDirty_def Let_def)

lemma tracks_Clear: "tracks s (Clear s)" "tracks s (ClearData s)"
  by (rule tracks_dirty, simp add: Clear_def ClearData_def Let_def)+

lemma view_loadLogs [simp]: "total_view (loadLogs ls s) = total_view s"
  by (simp add: loadLogs_def sizeBacking_def Let_def total_view_def)

lemma tracks_SetExpand: "tracks s (SetExpand X M i b s)"
  by (auto simp: SetExpand_def Let_def markFilteredTotalDirty_def total_view_def
      intro: tracks_dirty tracks_view)

lemma tracks_fold: "(\<And>x s. tracks s (f x s)) \<Longrightarrow> tracks s (fold f xs s)"
  by (induction xs arbitrary: s) (auto intro: tracks_trans)

lemma tracks_frame:
  "tracks s (SetWidthSource w s)" "tracks s (SetContextRootLogID r s)" "tracks s (SetMessage m s)"
  by (simp_all add: tracks_def total_view_def SetWidthSource_def SetContextRootLogID_def SetMessage_def)

lemma dirty_cancel [simp]: "st_filteredTotalDirty (cancel_ctx c s) = st_filteredTotalDirty s"
  by (rule dirty_view) simp

lemma tracks_loop_event:
  assumes "ev \<noteq> EvMatchTotal"
  shows "tracks s (loop_event X M ev s)"
proof (cases ev)
  case (EvFetch cap)
  have "total_view (StartStream cap (Clear s)) = total_view (Clear s)"
    by (simp add: StartStream_def sizeBacking_def Let_def total_view_def)
  then show ?thesis using tracks_trans [OF tracks_Clear(1) tracks_view] EvFetch by simp
next
  case (EvSetLogs ls)
  have "tracks s (SetLogs X M ls s)" unfolding SetLogs_def
    by (intro tracks_trans [OF _ tracks_DoSearch] tracks_trans [OF _ tracks_view [OF view_ApplyJQ]]
        tracks_trans [OF _ tracks_ApplyFilters] tracks_trans [OF tracks_Clear(1) tracks_view]) simp
  then show ?thesis using EvSetLogs by simp
next
  case (EvSetLogsRaw ls)
  have "tracks s (SetLogsRaw X M ls s)" unfolding SetLogsRaw_def
    by (intro tracks_trans [OF _ tracks_DoSearch] tracks_trans [OF _ tracks_view [OF view_ApplyJQ]]
        tracks_trans [OF _ tracks_ApplyFilters] tracks_trans [OF tracks_Clear(2) tracks_view]) simp
  then show ?thesis using EvSetLogsRaw by simp
next
  case EvToggleExpandAll
  then show ?thesis by (simp add: ToggleExpandAll_def Let_def tracks_fold tracks_SetExpand)
next
  case EvRefreshExpanded
  then show ?thesis
    by (auto simp: RefreshExpandedSearch_def Let_def markFilteredTotalDirty_def intro: tracks_dirty)
qed (use assms in \<open>simp_all add: tracks_Clear tracks_DoSearch tracks_ApplyFilters tracks_SetExpand
      tracks_view [OF view_stream(1)] tracks_view [OF view_stream(2)] tracks_view [OF view_ApplyJQ]
      tracks_view [OF view_cancelAndNil(4)] tracks_frame\<close>)

lemma FilteredMatchTotal_ok: "total_ok s \<Longrightarrow> total_ok (fst (FilteredMatchTotal s))"
  by (auto simp: FilteredMatchTotal_def total_ok_def Let_def)

lemma tracks_deliver: "tracks s (deliver X M m s)"
proof (cases m)
  case (JQMsg jm)
  have upd: "total_view (s\<lparr>st_logs := l, st_jqCount := n\<rparr>) = total_view s"
    "total_view (t\<lparr>st_appliedJQ := a, st_appliedSearch := b\<rparr>) = total_view t" for l n a b and t :: "('a, 'b) store"
    by (simp_all add: total_view_def)
  show ?thesis using JQMsg by (simp add: HandleJQChunk_def Let_def upd tracks_view)
next
  case (SearchMsg sm)
  have "fst (HandleSearchChunk M sm s) = s \<or> st_filteredTotalDirty (fst (HandleSearchChunk M sm s))"
    by (simp add: HandleSearchChunk_def Let_def)
  then show ?thesis using SearchMsg tracks_dirty by fastforce
next
  case (FilterMsg fm)
  then show ?thesis
    by (auto simp: HandleFilterChunk_def Let_def markFilteredTotalDirty_def intro: tracks_dirty)
qed

lemma total_ok_step: "sys_step X y z \<Longrightarrow> total_ok (y_store y) \<Longrightarrow> total_ok (y_store z)"
proof (induction rule: sys_step.induct)
  case (step_loop y ev)
  then show ?case
    using total_ok_tracks [OF _ tracks_loop_event] FilteredMatchTotal_ok by (cases "ev = EvMatchTotal") auto
next
  case (step_deliver m y)
  then show ?case using total_ok_tracks [OF _ tracks_deliver] by simp
qed (simp_all add: total_ok_def)

text \<open>
  C26: The number of visible matches shown to the user is never stale: in every state a store can reach,
  \<open>FilteredMatchTotal\<close> returns the number of matches in logs that are not hidden, whether it recounts
  or serves the cached value.
\<close>

theorem match_total_is_current:
  assumes "reach X (sys_init identity batch) y"
  shows "snd (FilteredMatchTotal (y_store y)) = FilteredCount (st_search (y_store y)) (st_filtered (y_store y))"
proof -
  have "total_ok (y_store (sys_init identity batch :: ('a, 'b) sys))"
    by (simp add: sys_init_def NewLogStore_def total_ok_def FilteredCount_def)
  with assms have "total_ok (y_store y)"
    by (induction rule: reach.induct) (auto intro: total_ok_step)
  then show ?thesis by (auto simp: FilteredMatchTotal_def total_ok_def Let_def)
qed

theorem match_total_is_current_witness: "snd (FilteredMatchTotal (y_store demo_sys)) = 0"
  using match_total_is_current [OF demo_reach]
  by (simp add: demo_sys_def demo_search_empty FilteredCount_def)

section \<open>The epoch cache\<close>

definition epoch_ok :: "('q, 'c) ext \<Rightarrow> ('q, 'c) store \<Rightarrow> bool" where
  "epoch_ok X s \<longleftrightarrow>
     (\<forall>src r. ec_jq (st_epoch s) = Some (src, r) \<longrightarrow> r = x_parse X src)
   \<and> (\<forall>rules ep r. ec_filter (st_epoch s) = Some (rules, ep, r) \<longrightarrow> r = compileRules X rules)
   \<and> (\<forall>q r. ec_search (st_epoch s) = Some (q, r) \<longrightarrow> r = buildSearchAC q)"

lemma epoch_ok_cong: "st_epoch t = st_epoch s \<Longrightarrow> epoch_ok X t = epoch_ok X s"
  by (simp add: epoch_ok_def)

lemma serve_jq:
  "epoch_ok X s \<Longrightarrow> snd (parsedJQ X src s) = x_parse X src \<and> epoch_ok X (fst (parsedJQ X src s))"
  by (auto simp: parsedJQ_def epoch_ok_def Let_def split: option.split)

lemma serve_filter:
  "epoch_ok X s \<Longrightarrow> snd (compiledFilterRules X rules s) = compileRules X rules
     \<and> epoch_ok X (fst (compiledFilterRules X rules s))"
  by (auto simp: compiledFilterRules_def epoch_ok_def Let_def split: option.split)

lemma serve_search:
  "epoch_ok X s \<Longrightarrow> snd (searchAutomaton q s) = buildSearchAC q \<and> epoch_ok X (fst (searchAutomaton q s))"
  by (auto simp: searchAutomaton_def epoch_ok_def Let_def split: option.split)

lemma epoch_serve [wf_intros]:
  "epoch_ok X s \<Longrightarrow> epoch_ok X (fst (parsedJQ X src s))"
  "epoch_ok X s \<Longrightarrow> epoch_ok X (fst (compiledFilterRules X rules s))"
  "epoch_ok X s \<Longrightarrow> epoch_ok X (fst (searchAutomaton q s))"
  using serve_jq serve_filter serve_search by blast+

text \<open>Steps that do not touch the cache.\<close>

lemma epoch_frames [frame_simps]:
  "st_epoch (cancel_ctx c s) = st_epoch s" "st_epoch (cancelAndNil_jq s) = st_epoch s"
  "st_epoch (cancelAndNil_search s) = st_epoch s" "st_epoch (cancelAndNil_filter s) = st_epoch s"
  "st_epoch (CancelAll s) = st_epoch s" "st_epoch (ClearData s) = st_epoch s" "st_epoch (Clear s) = st_epoch s"
  "st_epoch (StartStream cap s) = st_epoch s" "st_epoch (markFilteredTotalDirty s) = st_epoch s"
  "st_epoch (new_jqCtx s) = st_epoch s" "st_epoch (new_searchCtx s) = st_epoch s"
  "st_epoch (new_filterCtx s) = st_epoch s" "st_epoch (resetJQEpoch s) = st_epoch s"
  "st_epoch (spawn j s) = st_epoch s" "st_epoch (add_errs errs s) = st_epoch s" "st_epoch (put_row l s) = st_epoch s"
  "st_epoch (clear_outputs s) = st_epoch s" "st_epoch (loadLogs ls s) = st_epoch s"
  by (simp_all add: cancel_ctx_def cancelAndNil_jq_def cancelAndNil_search_def cancelAndNil_filter_def CancelAll_def
      ClearData_def Clear_def StartStream_def sizeBacking_def markFilteredTotalDirty_def new_jqCtx_def
      new_searchCtx_def new_filterCtx_def resetJQEpoch_def spawn_def add_errs_def put_row_def clear_outputs_def
      loadLogs_def Let_def split: option.split)

lemma epoch_ok_frames [simp]:
  "epoch_ok X (cancel_ctx c s) = epoch_ok X s" "epoch_ok X (cancelAndNil_jq s) = epoch_ok X s"
  "epoch_ok X (cancelAndNil_filter s) = epoch_ok X s"
  "epoch_ok X (CancelAll s) = epoch_ok X s" "epoch_ok X (ClearData s) = epoch_ok X s" "epoch_ok X (Clear s) = epoch_ok X s"
  "epoch_ok X (StartStream cap s) = epoch_ok X s" "epoch_ok X (markFilteredTotalDirty s) = epoch_ok X s"
  "epoch_ok X (new_jqCtx s) = epoch_ok X s" "epoch_ok X (new_searchCtx s) = epoch_ok X s"
  "epoch_ok X (new_filterCtx s) = epoch_ok X s" "epoch_ok X (resetJQEpoch s) = epoch_ok X s"
  "epoch_ok X (spawn j s) = epoch_ok X s" "epoch_ok X (add_errs errs s) = epoch_ok X s" "epoch_ok X (put_row l s) = epoch_ok X s"
  "epoch_ok X (clear_outputs s) = epoch_ok X s" "epoch_ok X (loadLogs ls s) = epoch_ok X s"
  by (rule epoch_ok_cong, simp add: frame_simps)+

lemma epoch_ok_upd [simp]:
  "epoch_ok X (s\<lparr>st_pending := p\<rparr>) = epoch_ok X s" "epoch_ok X (s\<lparr>st_streaming := b\<rparr>) = epoch_ok X s"
  "epoch_ok X (s\<lparr>st_jobs := js\<rparr>) = epoch_ok X s" "epoch_ok X (s\<lparr>st_appliedJQ := a\<rparr>) = epoch_ok X s"
  "epoch_ok X (s\<lparr>st_appliedSearch := a\<rparr>) = epoch_ok X s" "epoch_ok X (s\<lparr>st_searchCtx := c\<rparr>) = epoch_ok X s"
  "epoch_ok X (s\<lparr>st_search := sm\<rparr>) = epoch_ok X s" "epoch_ok X (s\<lparr>st_filteredTotalDirty := b\<rparr>) = epoch_ok X s"
  "epoch_ok X (s\<lparr>st_cancelSearch := c\<rparr>) = epoch_ok X s" "epoch_ok X (s\<lparr>st_cancelJQ := c\<rparr>) = epoch_ok X s"
  "epoch_ok X (s\<lparr>st_nextCtx := n\<rparr>) = epoch_ok X s" "epoch_ok X (s\<lparr>st_searchCount := i\<rparr>) = epoch_ok X s"
  "epoch_ok X (s\<lparr>st_jqCount := n\<rparr>) = epoch_ok X s" "epoch_ok X (s\<lparr>st_filterEpoch := n\<rparr>) = epoch_ok X s"
  "epoch_ok X (s\<lparr>st_filtered := fl\<rparr>) = epoch_ok X s" "epoch_ok X (s\<lparr>st_appliedFilters := rs\<rparr>) = epoch_ok X s"
  "epoch_ok X (s\<lparr>st_jqCtx := c\<rparr>) = epoch_ok X s" "epoch_ok X (s\<lparr>st_logs := ls\<rparr>) = epoch_ok X s"
  "epoch_ok X (s\<lparr>st_expanded := fl\<rparr>) = epoch_ok X s" "epoch_ok X (s\<lparr>st_filteredTotal := n\<rparr>) = epoch_ok X s"
  "epoch_ok X (s\<lparr>st_width := w\<rparr>) = epoch_ok X s" "epoch_ok X (s\<lparr>st_contextRoot := a\<rparr>) = epoch_ok X s"
  "epoch_ok X (s\<lparr>st_message := a\<rparr>) = epoch_ok X s"
  by (simp_all add: epoch_ok_def)

lemma epoch_spawns:
  "epoch_ok X s \<Longrightarrow> epoch_ok X (spawnJQ cx q k f c s)"
  "epoch_ok X s \<Longrightarrow> epoch_ok X (spawnSearchChunk cx ac k f c s)"
  "epoch_ok X s \<Longrightarrow> epoch_ok X (spawnFilterChunk X rules k f c s)"
  "epoch_ok X s \<Longrightarrow> epoch_ok X (rsearchAffectedChunk M k n s)"
proof -
  show a: "epoch_ok X s \<Longrightarrow> epoch_ok X (spawnJQ cx q k f c s)" for s by (simp add: spawnJQ_def)
  show b: "epoch_ok X s \<Longrightarrow> epoch_ok X (spawnSearchChunk cx ac k f c s)" for cx ac k f c s
    by (simp add: spawnSearchChunk_def)
  show "epoch_ok X s \<Longrightarrow> epoch_ok X (spawnFilterChunk X rules k f c s)"
    by (simp add: spawnFilterChunk_def Let_def epoch_serve)
  show "epoch_ok X s \<Longrightarrow> epoch_ok X (rsearchAffectedChunk M k n s)"
    by (simp add: rsearchAffectedChunk_def Let_def b epoch_serve)
qed

lemma epoch_dispatch: "epoch_ok X s \<Longrightarrow> epoch_ok X (dispatchPendingBatches X M s)"
proof -
  have batch: "epoch_ok X s \<Longrightarrow> epoch_ok X (fst (dispatch_batch X M ac c s))" for ac c s
    by (simp add: dispatch_batch_def Let_def epoch_spawns epoch_serve split: sum.split)
  have loop: "epoch_ok X s \<Longrightarrow> epoch_ok X (dispatch_loop X M ac s)" for ac s
  proof (induction X M ac s rule: dispatch_loop.induct)
    case (1 X M ac s)
    let ?c = "min (st_pending s) (st_batch s)"
    obtain t b where t: "dispatch_batch X M ac ?c s = (t, b)" by fastforce
    have "epoch_ok X (fst (dispatch_batch X M ac ?c s))"
      using 1 by (simp add: dispatch_batch_def Let_def epoch_spawns epoch_serve split: sum.split)
    then show ?case
      by (subst dispatch_loop.simps) (use 1 t in \<open>cases b; simp\<close>)
  qed
  show "epoch_ok X s \<Longrightarrow> epoch_ok X (dispatchPendingBatches X M s)"
    unfolding dispatchPendingBatches_def Let_def
    by (rule loop) (simp add: prepareDispatchEpochs_def Let_def epoch_serve)
qed

lemma epoch_fold: "(\<And>x s. epoch_ok X s \<Longrightarrow> epoch_ok X (f x s)) \<Longrightarrow> epoch_ok X s \<Longrightarrow> epoch_ok X (fold f xs s)"
  by (induction xs arbitrary: s) auto

lemma epoch_put_rows: "put_rows ls r a s = (t, r', a') \<Longrightarrow> epoch_ok X t = epoch_ok X s"
  by (induction ls arbitrary: r a s) (fastforce split: if_splits)+

lemma epoch_DoSearch: "epoch_ok X s \<Longrightarrow> epoch_ok X (DoSearch M s)"
  by (auto simp: DoSearch_def Let_def intro!: epoch_fold epoch_serve epoch_spawns split: prod.split)

lemma epoch_ApplyJQ: "epoch_ok X s \<Longrightarrow> epoch_ok X (ApplyJQ X M s)"
  by (auto simp: ApplyJQ_def Let_def intro!: epoch_fold epoch_serve epoch_spawns split: prod.split sum.split)

lemma epoch_ApplyFilters: "epoch_ok X s \<Longrightarrow> epoch_ok X (ApplyFilters X M s)"
  by (simp add: ApplyFilters_def Let_def epoch_serve)

lemma epoch_SetExpand: "epoch_ok X s \<Longrightarrow> epoch_ok X (SetExpand X M i b s)"
  by (simp add: SetExpand_def Let_def epoch_serve)

lemma epoch_loop_event: "epoch_ok X s \<Longrightarrow> epoch_ok X (loop_event X M ev s)"
proof (cases ev)
  case (EvStream msg)
  assume "epoch_ok X s"
  then show ?thesis
    using EvStream
    by (auto simp: HandleLogStreamMsg_def intro!: epoch_dispatch dest!: epoch_put_rows [where X = X] split: prod.split)
qed (auto simp: HandleLogStreamDoneMsg_def SetLogs_def SetLogsRaw_def RefreshExpandedSearch_def Let_def
    ToggleExpandAll_def SetWidthSource_def SetContextRootLogID_def SetMessage_def FilteredMatchTotal_def
    intro!: epoch_dispatch epoch_DoSearch epoch_ApplyJQ epoch_ApplyFilters epoch_SetExpand epoch_fold epoch_serve)

lemma epoch_deliver: "epoch_ok X s \<Longrightarrow> epoch_ok X (deliver X M m s)"
  by (cases m) (auto simp: HandleJQChunk_def HandleSearchChunk_def HandleFilterChunk_def Let_def intro!: epoch_spawns)

lemma epoch_step: "sys_step X y z \<Longrightarrow> epoch_ok X (y_store y) \<Longrightarrow> epoch_ok X (y_store z)"
  by (induction rule: sys_step.induct) (auto intro: epoch_loop_event epoch_deliver)

text \<open>
  The epoch cache is transparent: in every reachable state the parsed query, the compiled rules and the
  search automaton it serves are what compiling the given source now would produce, and asking again
  for the same source in the same epoch compiles nothing.
\<close>

theorem epoch_cache_transparent:
  assumes "reach X (sys_init identity batch) y"
  shows "snd (parsedJQ X src (y_store y)) = x_parse X src
    \<and> snd (compiledFilterRules X rules (y_store y)) = compileRules X rules
    \<and> snd (searchAutomaton q (y_store y)) = buildSearchAC q
    \<and> fst (parsedJQ X src (fst (parsedJQ X src (y_store y)))) = fst (parsedJQ X src (y_store y))
    \<and> fst (compiledFilterRules X rules (fst (compiledFilterRules X rules (y_store y))))
       = fst (compiledFilterRules X rules (y_store y))
    \<and> fst (searchAutomaton q (fst (searchAutomaton q (y_store y)))) = fst (searchAutomaton q (y_store y))"
proof -
  have "epoch_ok X (y_store (sys_init identity batch :: ('a, 'b) sys))"
    by (simp add: sys_init_def NewLogStore_def epoch_ok_def newCache_def)
  with assms have ok: "epoch_ok X (y_store y)"
    by (induction rule: reach.induct) (auto intro: epoch_step)
  have "fst (parsedJQ X src (fst (parsedJQ X src s))) = fst (parsedJQ X src s)" for s
    by (auto simp: parsedJQ_def Let_def split: option.splits if_splits)
  moreover have "fst (compiledFilterRules X rules (fst (compiledFilterRules X rules s)))
      = fst (compiledFilterRules X rules s)" for s
    by (auto simp: compiledFilterRules_def Let_def split: option.splits if_splits)
  moreover have "fst (searchAutomaton q (fst (searchAutomaton q s))) = fst (searchAutomaton q s)" for s :: "('a, 'b) store"
    by (auto simp: searchAutomaton_def Let_def split: option.splits if_splits)
  ultimately show ?thesis
    using serve_jq [OF ok] serve_filter [OF ok] serve_search [OF ok] by simp
qed

theorem epoch_cache_transparent_witness:
  "snd (parsedJQ demo_ext [120] demo_store) = Inr [120]"
proof -
  have "x_parse demo_ext [120] = Inr [120]" by (simp add: demo_ext_def)
  then show ?thesis
    using epoch_cache_transparent [OF demo_reach, of "[120]"] by (simp add: demo_sys_def)
qed

end
