(* ===== verification/Logstore_Pass.thy ===== *)
theory Logstore_Pass
  imports Logstore_Cache
begin

text \<open>
  The asynchronous filter pass over a stream refines the synchronous one: however the batches of a
  stream are cut, whenever the filter workers run and in whatever order their chunks arrive, once all have
  arrived the hidden logs are those \<open>ApplyFilters\<close> would compute over the whole store.
\<close>

section \<open>Contexts are fresh\<close>

definition ctx_fresh :: "('q, 'c) store \<Rightarrow> bool" where
  "ctx_fresh s \<longleftrightarrow> (\<forall>c \<in> st_cancelled s. c < st_nextCtx s)
     \<and> (\<forall>c. st_cancelJQ s = Some c \<longrightarrow> c < st_nextCtx s)
     \<and> (\<forall>c. st_cancelSearch s = Some c \<longrightarrow> c < st_nextCtx s)
     \<and> (\<forall>c. st_cancelFilter s = Some c \<longrightarrow> c < st_nextCtx s)"

definition ctx_view where
  "ctx_view s = (st_cancelled s, st_cancelJQ s, st_cancelSearch s, st_cancelFilter s, st_nextCtx s)"

lemma ctx_fresh_view: "ctx_view t = ctx_view s \<Longrightarrow> ctx_fresh t = ctx_fresh s"
  by (simp add: ctx_view_def ctx_fresh_def)

lemma ctx_view_spawns: "only_spawns s t \<Longrightarrow> ctx_view t = ctx_view s"
  by (auto simp: only_spawns_def ctx_view_def)

lemma ctx_fresh_spawns: "only_spawns s t \<Longrightarrow> ctx_fresh t = ctx_fresh s"
  by (intro ctx_fresh_view ctx_view_spawns)

lemma ctx_fresh_ops [simp]:
  "ctx_fresh (fst (parsedJQ X src s)) = ctx_fresh s" "ctx_fresh (fst (searchAutomaton q s)) = ctx_fresh s"
  "ctx_fresh (fst (compiledFilterRules X rules s)) = ctx_fresh s"
  "ctx_fresh (spawnFilterChunk X rules k f c s) = ctx_fresh s"
  "ctx_fresh (spawnJQ cx qq k f c s) = ctx_fresh s" "ctx_fresh (spawnSearchChunk cx ac k f c s) = ctx_fresh s"
  "ctx_fresh (rsearchAffectedChunk M k n s) = ctx_fresh s"
  by (intro ctx_fresh_spawns spawns_intros rsearch_spawns)+

lemma ctx_fresh_upd [simp]:
  "ctx_fresh (s\<lparr>st_pending := p\<rparr>) = ctx_fresh s" "ctx_fresh (s\<lparr>st_streaming := b\<rparr>) = ctx_fresh s"
  "ctx_fresh (s\<lparr>st_jobs := js\<rparr>) = ctx_fresh s" "ctx_fresh (s\<lparr>st_appliedJQ := a\<rparr>) = ctx_fresh s"
  "ctx_fresh (s\<lparr>st_appliedSearch := a\<rparr>) = ctx_fresh s" "ctx_fresh (s\<lparr>st_searchCtx := x\<rparr>) = ctx_fresh s"
  "ctx_fresh (s\<lparr>st_search := sm\<rparr>) = ctx_fresh s" "ctx_fresh (s\<lparr>st_filteredTotalDirty := b\<rparr>) = ctx_fresh s"
  "ctx_fresh (s\<lparr>st_searchCount := i\<rparr>) = ctx_fresh s" "ctx_fresh (s\<lparr>st_jqCtx := x\<rparr>) = ctx_fresh s"
  "ctx_fresh (s\<lparr>st_jqCount := n\<rparr>) = ctx_fresh s" "ctx_fresh (s\<lparr>st_filterEpoch := n\<rparr>) = ctx_fresh s"
  "ctx_fresh (s\<lparr>st_filtered := fl\<rparr>) = ctx_fresh s" "ctx_fresh (s\<lparr>st_appliedFilters := rs\<rparr>) = ctx_fresh s"
  "ctx_fresh (s\<lparr>st_logs := ls\<rparr>) = ctx_fresh s" "ctx_fresh (s\<lparr>st_expanded := fl\<rparr>) = ctx_fresh s"
  "ctx_fresh (s\<lparr>st_filteredTotal := n\<rparr>) = ctx_fresh s" "ctx_fresh (s\<lparr>st_width := w\<rparr>) = ctx_fresh s"
  "ctx_fresh (s\<lparr>st_contextRoot := a\<rparr>) = ctx_fresh s" "ctx_fresh (s\<lparr>st_message := a\<rparr>) = ctx_fresh s"
  by (simp_all add: ctx_fresh_def)

lemma ctx_fresh_cancel [wf_intros]:
  "ctx_fresh s \<Longrightarrow> ctx_fresh (cancelAndNil_jq s)" "ctx_fresh s \<Longrightarrow> ctx_fresh (cancelAndNil_search s)"
  "ctx_fresh s \<Longrightarrow> ctx_fresh (cancelAndNil_filter s)"
  "ctx_fresh s \<Longrightarrow> ctx_fresh (cancel_ctx (st_cancelJQ s) s)"
  "ctx_fresh s \<Longrightarrow> ctx_fresh (cancel_ctx (st_cancelSearch s) s)"
  by (auto simp: ctx_fresh_def cancelAndNil_jq_def cancelAndNil_search_def cancelAndNil_filter_def cancel_ctx_def
      split: option.split)

lemma ctx_fresh_cancel_any: "ctx_fresh s \<Longrightarrow> (\<And>n. c = Some n \<Longrightarrow> n < st_nextCtx s) \<Longrightarrow> ctx_fresh (cancel_ctx c s)"
  by (auto simp: ctx_fresh_def cancel_ctx_def split: option.split)

lemma ctx_fresh_new [wf_intros]:
  "ctx_fresh s \<Longrightarrow> ctx_fresh (new_jqCtx s)" "ctx_fresh s \<Longrightarrow> ctx_fresh (new_searchCtx s)"
  "ctx_fresh s \<Longrightarrow> ctx_fresh (new_filterCtx s)"
  "ctx_fresh s \<Longrightarrow> ctx_fresh (s\<lparr>st_nextCtx := st_nextCtx s + 1\<rparr>)"
  "ctx_fresh s \<Longrightarrow> ctx_fresh (s\<lparr>st_cancelJQ := Some (st_nextCtx s), st_nextCtx := st_nextCtx s + 1\<rparr>)"
  "ctx_fresh s \<Longrightarrow> ctx_fresh (s\<lparr>st_cancelSearch := Some (st_nextCtx s), st_nextCtx := st_nextCtx s + 1\<rparr>)"
  by (auto simp: ctx_fresh_def new_jqCtx_def new_searchCtx_def new_filterCtx_def less_Suc_eq)

lemma ctx_fresh_plain [simp]:
  "ctx_fresh (add_errs errs s) = ctx_fresh s" "ctx_fresh (put_row l s) = ctx_fresh s"
  "ctx_fresh (clear_outputs s) = ctx_fresh s" "ctx_fresh (loadLogs ls s) = ctx_fresh s"
  "ctx_fresh (markFilteredTotalDirty s) = ctx_fresh s" "ctx_fresh (StartStream cap s) = ctx_fresh s"
  by (rule ctx_fresh_view, simp add: ctx_view_def add_errs_def put_row_def clear_outputs_def loadLogs_def
      sizeBacking_def markFilteredTotalDirty_def StartStream_def Let_def)+

lemma ctx_fresh_CancelAll: "ctx_fresh s \<Longrightarrow> ctx_fresh (CancelAll s)"
  by (simp add: CancelAll_def ctx_fresh_cancel)

lemma ctx_fresh_Clear: "ctx_fresh s \<Longrightarrow> ctx_fresh (Clear s)" "ctx_fresh s \<Longrightarrow> ctx_fresh (ClearData s)"
proof -
  assume "ctx_fresh s"
  then have c: "ctx_fresh (CancelAll s)" by (rule ctx_fresh_CancelAll)
  have "ctx_view (ClearData s) = ctx_view (CancelAll s)" "ctx_view (Clear s) = ctx_view (CancelAll s)"
    by (simp_all add: ClearData_def Clear_def Let_def ctx_view_def)
  then show "ctx_fresh (Clear s)" "ctx_fresh (ClearData s)" using c ctx_fresh_view by blast+
qed

lemma ctx_fresh_prepare: "ctx_fresh s \<Longrightarrow> ctx_fresh (fst (prepareDispatchEpochs jq srch rules s))"
  by (simp add: prepareDispatchEpochs_def Let_def ctx_fresh_new)

lemma ctx_fresh_batch: "ctx_fresh s \<Longrightarrow> ctx_fresh (fst (dispatch_batch X M ac c s))"
  by (simp add: dispatch_batch_def Let_def resetJQEpoch_def ctx_fresh_cancel split: sum.split)

lemma ctx_fresh_loop: "ctx_fresh s \<Longrightarrow> ctx_fresh (dispatch_loop X M ac s)"
proof (induction X M ac s rule: dispatch_loop.induct)
  case (1 X M ac s)
  let ?c = "min (st_pending s) (st_batch s)"
  obtain t b where t: "dispatch_batch X M ac ?c s = (t, b)" by fastforce
  have "ctx_fresh t" using ctx_fresh_batch [of s X M ac ?c] "1.prems" t by simp
  then show ?case
    by (subst dispatch_loop.simps) (use 1 t in \<open>cases b; simp\<close>)
qed

lemma ctx_fresh_dispatch: "ctx_fresh s \<Longrightarrow> ctx_fresh (dispatchPendingBatches X M s)"
  by (simp add: dispatchPendingBatches_def Let_def ctx_fresh_loop ctx_fresh_prepare)

lemma ctx_fresh_fold: "(\<And>x s. ctx_fresh s \<Longrightarrow> ctx_fresh (f x s)) \<Longrightarrow> ctx_fresh s \<Longrightarrow> ctx_fresh (fold f xs s)"
  by (induction xs arbitrary: s) auto

lemma ctx_fresh_put_rows: "put_rows ls r a s = (t, r', a') \<Longrightarrow> ctx_fresh t = ctx_fresh s"
  by (induction ls arbitrary: r a s) (fastforce split: if_splits)+

lemma ctx_fresh_DoSearch:
  assumes "ctx_fresh s"
  shows "ctx_fresh (DoSearch M s)"
proof -
  let ?s1 = "(cancel_ctx (st_cancelSearch s) s)\<lparr>st_searchCtx := None\<rparr>"
  have "ctx_fresh ?s1" using assms by (simp add: ctx_fresh_cancel)
  then have "ctx_fresh (?s1\<lparr>st_cancelSearch := Some (st_nextCtx ?s1), st_nextCtx := st_nextCtx ?s1 + 1,
      st_searchCount := 0, st_search := Map.empty, st_filteredTotalDirty := True\<rparr>)"
    using ctx_fresh_new(6) [of ?s1] by (simp add: ctx_fresh_def)
  then show ?thesis
    using \<open>ctx_fresh ?s1\<close> by (auto simp: DoSearch_def Let_def intro!: ctx_fresh_fold split: prod.split)
qed

lemma ctx_fresh_ApplyJQ:
  assumes "ctx_fresh s"
  shows "ctx_fresh (ApplyJQ X M s)"
proof -
  let ?s1 = "cancel_ctx (st_cancelJQ s) s"
  let ?s2 = "cancelAndNil_filter (?s1\<lparr>st_jqCtx := None, st_pending := 0, st_filterEpoch := st_filterEpoch ?s1 + 1\<rparr>)"
  have 2: "ctx_fresh ?s2" using assms by (simp add: ctx_fresh_cancel)
  then have "ctx_fresh (?s2\<lparr>st_cancelJQ := Some (st_nextCtx ?s2), st_nextCtx := st_nextCtx ?s2 + 1, st_jqCount := 0\<rparr>)"
    using ctx_fresh_new(5) [OF 2] by (simp add: ctx_fresh_def)
  then show ?thesis
    using 2 by (auto simp: ApplyJQ_def Let_def intro!: ctx_fresh_fold split: prod.split sum.split)
qed

lemma ctx_fresh_ApplyFilters: "ctx_fresh s \<Longrightarrow> ctx_fresh (ApplyFilters X M s)"
proof -
  have upd: "ctx_fresh (t\<lparr>st_filtered := fl, st_nextCtx := Suc (st_nextCtx t)\<rparr>)" if "ctx_fresh t" for t :: "('a, 'b) store" and fl
    using that by (auto simp: ctx_fresh_def)
  show "ctx_fresh s \<Longrightarrow> ctx_fresh (ApplyFilters X M s)"
    by (simp add: ApplyFilters_def Let_def upd del: spawn_frames)
qed

lemma ctx_fresh_SetExpand: "ctx_fresh s \<Longrightarrow> ctx_fresh (SetExpand X M i b s)"
  by (simp add: SetExpand_def Let_def)

lemma ctx_fresh_loop_event: "ctx_fresh s \<Longrightarrow> ctx_fresh (loop_event X M ev s)"
proof (cases ev)
  case (EvStream msg)
  assume "ctx_fresh s"
  then show ?thesis
    using EvStream
    by (auto simp: HandleLogStreamMsg_def intro!: ctx_fresh_dispatch dest!: ctx_fresh_put_rows split: prod.split)
qed (auto simp: HandleLogStreamDoneMsg_def SetLogs_def SetLogsRaw_def RefreshExpandedSearch_def Let_def
    ToggleExpandAll_def SetWidthSource_def SetContextRootLogID_def SetMessage_def FilteredMatchTotal_def
    intro!: ctx_fresh_dispatch ctx_fresh_DoSearch ctx_fresh_ApplyJQ ctx_fresh_ApplyFilters ctx_fresh_SetExpand
      ctx_fresh_fold ctx_fresh_CancelAll ctx_fresh_Clear)

lemma ctx_fresh_deliver: "ctx_fresh s \<Longrightarrow> ctx_fresh (deliver X M m s)"
proof (cases m)
  case (SearchMsg sm)
  assume "ctx_fresh s"
  then show ?thesis
    using SearchMsg
    by (auto simp: HandleSearchChunk_def Let_def intro!: ctx_fresh_cancel_any) (simp add: ctx_fresh_def)
qed (auto simp: HandleJQChunk_def HandleFilterChunk_def Let_def intro!: wf_intros)

lemma ctx_fresh_reach: "reach X (sys_init identity batch) y \<Longrightarrow> ctx_fresh (y_store y)"
proof (induction rule: reach.induct)
  case (reach_step y z)
  from reach_step(2,3) show ?case
    by (induction rule: sys_step.induct) (auto intro: ctx_fresh_loop_event ctx_fresh_deliver)
qed (simp add: sys_init_def NewLogStore_def ctx_fresh_def)

section \<open>What a pass in progress satisfies\<close>

text \<open>The decision a row should get, with contexts that are alive and no deadline passing.\<close>

definition hides :: "('q, 'c) ext \<Rightarrow> rule list \<Rightarrow> ('q, 'c) store \<Rightarrow> nat \<Rightarrow> bool" where
  "hides X rules s i =
     hideEntry X (Active 0) (st_width s) (compileRules X rules) (st_logs s ! i) (i \<in> st_expanded s)"

fun job_covers :: "('q, 'c) store \<Rightarrow> nat \<Rightarrow> ('q, 'c) job \<Rightarrow> bool" where
  "job_covers s i (FilterJob q ep cx crs off es bs) =
     (q = st_queryID s \<and> ep = st_filterEpoch s \<and> off * st_batch s \<le> i \<and> i < off * st_batch s + length es)"
| "job_covers s i _ = False"

fun msg_covers :: "('q, 'c) store \<Rightarrow> nat \<Rightarrow> msg \<Rightarrow> bool" where
  "msg_covers s i (FilterMsg m) =
     (fm_ID m = st_queryID s \<and> fm_Epoch m = st_filterEpoch s
      \<and> fm_Offset m * st_batch s \<le> i \<and> i < fm_Offset m * st_batch s + length (fm_Hidden m))"
| "msg_covers s i _ = False"

fun job_right :: "('q, 'c) ext \<Rightarrow> rule list \<Rightarrow> nat \<Rightarrow> ('q, 'c) store \<Rightarrow> ('q, 'c) job \<Rightarrow> bool" where
  "job_right X rules D s (JQJob q cx qq off ds) = (q \<noteq> st_queryID s)"
| "job_right X rules D s (SearchJob q cx ac off f c) = True"
| "job_right X rules D s (FilterJob q ep cx crs off es bs) =
     (q = st_queryID s \<and> ep = st_filterEpoch s \<longrightarrow>
        crs = compileRules X rules \<and> st_filterCtx s = Some cx \<and> length bs = length es
        \<and> off * st_batch s + length es \<le> D
        \<and> (\<forall>k < length es. es ! k = st_logs s ! (off * st_batch s + k)
                          \<and> bs ! k = (off * st_batch s + k \<in> st_expanded s)))"

fun msg_right :: "('q, 'c) ext \<Rightarrow> rule list \<Rightarrow> nat \<Rightarrow> ('q, 'c) store \<Rightarrow> msg \<Rightarrow> bool" where
  "msg_right X rules D s (JQMsg m) = (jm_ID m \<noteq> st_queryID s)"
| "msg_right X rules D s (SearchMsg m) = True"
| "msg_right X rules D s (FilterMsg m) =
     (fm_ID m = st_queryID s \<and> fm_Epoch m = st_filterEpoch s \<longrightarrow>
        fm_Instance m = st_identity s \<and> fm_Err m = None
        \<and> fm_Offset m * st_batch s + length (fm_Hidden m) \<le> D
        \<and> (\<forall>k < length (fm_Hidden m). fm_Hidden m ! k = hides X rules s (fm_Offset m * st_batch s + k)))"

definition ctx_live :: "('q, 'c) store \<Rightarrow> bool" where
  "ctx_live s \<longleftrightarrow> (\<forall>f. st_filterCtx s = Some f \<longrightarrow>
     f \<notin> st_cancelled s \<and> st_cancelSearch s \<noteq> Some f \<and> f < st_nextCtx s)"

text \<open>The first \<open>D\<close> rows have been handed out: each is decided or covered by a worker or message in flight.\<close>

definition pass_ok :: "('q, 'c) ext \<Rightarrow> rule list \<Rightarrow> nat \<Rightarrow> ('q, 'c) store \<Rightarrow> msg list \<Rightarrow> bool" where
  "pass_ok X rules D s ms \<longleftrightarrow> 0 < st_batch s \<and> D \<le> st_logCount s \<and> st_logCount s \<le> length (st_logs s)
     \<and> st_filtered s \<subseteq> {..<D}
     \<and> list_all (job_right X rules D s) (st_jobs s) \<and> list_all (msg_right X rules D s) ms
     \<and> epoch_ok X s \<and> ctx_fresh s \<and> ctx_live s
     \<and> (\<forall>i < D. list_ex (job_covers s i) (st_jobs s) \<or> list_ex (msg_covers s i) ms
               \<or> (i \<in> st_filtered s \<longleftrightarrow> hides X rules s i))"

definition pass_view where
  "pass_view s = ((st_batch s, st_logCount s, st_logs s, st_filtered s, st_epoch s, st_queryID s, st_filterEpoch s),
     (st_identity s, st_width s, st_expanded s, st_filterCtx s, st_cancelled s, st_cancelSearch s, st_nextCtx s,
      st_cancelJQ s, st_cancelFilter s))"

lemma pass_view_right:
  assumes "pass_view t = pass_view s"
  shows "job_right X rules D t = job_right X rules D s" "msg_right X rules D t = msg_right X rules D s"
    "job_covers t = job_covers s" "msg_covers t = msg_covers s" "hides X rules t = hides X rules s"
proof -
  show h: "hides X rules t = hides X rules s" using assms by (simp add: pass_view_def hides_def fun_eq_iff)
  have j: "job_right X rules D t j = job_right X rules D s j" for j
    using assms by (cases j) (auto simp: pass_view_def)
  have m: "msg_right X rules D t m = msg_right X rules D s m" for m
    using assms h by (cases m) (auto simp: pass_view_def)
  have c: "job_covers t i j = job_covers s i j" for i j
    using assms by (cases j) (auto simp: pass_view_def)
  have d: "msg_covers t i m = msg_covers s i m" for i m
    using assms by (cases m) (auto simp: pass_view_def)
  show "job_right X rules D t = job_right X rules D s" "msg_right X rules D t = msg_right X rules D s"
    "job_covers t = job_covers s" "msg_covers t = msg_covers s"
    using j m c d by (simp_all add: fun_eq_iff)
qed

lemma pass_frame:
  assumes "pass_view t = pass_view s" "st_jobs t = st_jobs s"
  shows "pass_ok X rules D t ms = pass_ok X rules D s ms"
proof -
  have "epoch_ok X t = epoch_ok X s" "ctx_fresh t = ctx_fresh s" "ctx_live t = ctx_live s"
    using assms(1) by (simp_all add: pass_view_def epoch_ok_def ctx_fresh_def ctx_live_def)
  then show ?thesis
    using assms unfolding pass_ok_def pass_view_right [OF assms(1)] by (simp add: pass_view_def)
qed

text \<open>A job that covers no row or only new rows with the right inputs.\<close>

lemma pass_spawn:
  assumes "pass_ok X rules D s ms" "job_right X rules D' (spawn j s) j" "D \<le> D'" "D' \<le> st_logCount s"
    "\<And>i. D \<le> i \<Longrightarrow> i < D' \<Longrightarrow> job_covers s i j \<or> \<not> hides X rules s i"
  shows "pass_ok X rules D' (spawn j s) ms"
proof -
  have v: "pass_view (spawn j s) = pass_view s" by (simp add: spawn_def pass_view_def)
  note [simp] = pass_view_right [OF v]
  have jr: "job_right X rules D s k \<Longrightarrow> job_right X rules D' s k" for k using assms(3) by (cases k) auto
  have mr: "msg_right X rules D s m \<Longrightarrow> msg_right X rules D' s m" for m using assms(3) by (cases m) auto
  have f: "st_filtered s \<subseteq> {..<D}" using assms(1) by (simp add: pass_ok_def)
  have "list_ex (job_covers s i) (st_jobs s @ [j]) \<or> list_ex (msg_covers s i) ms
      \<or> (i \<in> st_filtered s \<longleftrightarrow> hides X rules s i)" if "i < D'" for i
  proof (cases "i < D")
    case True
    then show ?thesis using assms(1) by (auto simp: pass_ok_def)
  next
    case False
    then have "i \<notin> st_filtered s" using f by auto
    then show ?thesis using assms(5) [of i] False that by auto
  qed
  moreover have "st_filtered s \<subseteq> {..<D'}" using f assms(3) by auto
  moreover have "list_all (job_right X rules D' s) (st_jobs s @ [j])" "list_all (msg_right X rules D' s) ms"
    using assms(1,2) jr mr by (auto simp: pass_ok_def list_all_iff)
  moreover have "epoch_ok X (spawn j s)" "ctx_fresh (spawn j s)" "ctx_live (spawn j s)"
    using assms(1) by (auto simp: pass_ok_def spawn_def ctx_live_def)
  ultimately show ?thesis using assms(1,4) unfolding pass_ok_def
    by (simp add: spawn_def) (simp add: spawn_def [symmetric])
qed

lemma pass_spawn_search: "pass_ok X rules D s ms \<Longrightarrow> pass_ok X rules D (spawnSearchChunk cx ac k f c s) ms"
  unfolding spawnSearchChunk_def by (rule pass_spawn) (auto simp: pass_ok_def)

lemma pass_put_row:
  assumes "pass_ok X rules D s ms" "st_logCount s < length (st_logs s)"
  shows "pass_ok X rules D (put_row l s) ms"
proof -
  let ?t = "put_row l s"
  have D: "D \<le> st_logCount s" using assms(1) by (simp add: pass_ok_def)
  have logs: "st_logs ?t ! i = st_logs s ! i" if "i < D" for i
    using that D by (simp add: put_row_def Let_def)
  have fr: "st_batch ?t = st_batch s" "st_queryID ?t = st_queryID s" "st_filterEpoch ?t = st_filterEpoch s"
    "st_filterCtx ?t = st_filterCtx s" "st_expanded ?t = st_expanded s" "st_width ?t = st_width s"
    "st_identity ?t = st_identity s" "st_filtered ?t = st_filtered s" "st_jobs ?t = st_jobs s"
    "st_cancelled ?t = st_cancelled s" "st_cancelSearch ?t = st_cancelSearch s" "st_nextCtx ?t = st_nextCtx s"
    by (simp_all add: put_row_def Let_def)
  have h: "hides X rules ?t i = hides X rules s i" if "i < D" for i
    using logs [OF that] by (simp add: hides_def fr)
  have j: "job_right X rules D ?t j = job_right X rules D s j" for j
    using logs by (cases j) (auto simp: fr)
  have m: "msg_right X rules D ?t m = msg_right X rules D s m" for m
    using h by (cases m) (auto simp: fr)
  have c: "job_covers ?t i = job_covers s i" "msg_covers ?t i = msg_covers s i" for i
  proof -
    have "job_covers ?t i k = job_covers s i k" for k by (cases k) (auto simp: fr)
    then show "job_covers ?t i = job_covers s i" by blast
    have "msg_covers ?t i k = msg_covers s i k" for k by (cases k) (auto simp: fr)
    then show "msg_covers ?t i = msg_covers s i" by blast
  qed
  have "job_right X rules D ?t = job_right X rules D s" "msg_right X rules D ?t = msg_right X rules D s"
    using j m by blast+
  moreover have "ctx_live ?t = ctx_live s" by (simp add: ctx_live_def fr)
  ultimately show ?thesis
    using assms h unfolding pass_ok_def c by (simp add: fr)
qed

lemma pass_put_rows:
  "put_rows ls r a s = (t, r', a') \<Longrightarrow> pass_ok X rules D s ms \<Longrightarrow> pass_ok X rules D t ms"
proof (induction ls arbitrary: r a s)
  case (Cons l ls)
  show ?case
  proof (cases "st_logCount s \<ge> length (st_logs s)")
    case False
    then have "pass_ok X rules D (put_row l s) ms" using Cons.prems(2) by (intro pass_put_row) auto
    then show ?thesis using Cons.IH Cons.prems(1) False by simp
  qed (use Cons.prems in simp)
qed simp

text \<open>Preparing the contexts of a dispatch.\<close>

lemma pass_core:
  assumes "pass_ok X rules D s ms"
    and v: "st_batch t = st_batch s" "st_logCount t = st_logCount s" "st_logs t = st_logs s" "st_filtered t = st_filtered s"
      "st_queryID t = st_queryID s" "st_filterEpoch t = st_filterEpoch s" "st_identity t = st_identity s"
      "st_width t = st_width s" "st_expanded t = st_expanded s" "st_jobs t = st_jobs s"
    and "st_filterCtx t = st_filterCtx s \<or> st_filterCtx s = None"
    and "epoch_ok X t" "ctx_fresh t" "ctx_live t"
  shows "pass_ok X rules D t ms"
proof -
  have h: "hides X rules t = hides X rules s" by (simp add: hides_def v fun_eq_iff)
  have j: "job_right X rules D s k \<Longrightarrow> job_right X rules D t k" for k
    using assms(12) by (cases k) (auto simp: v)
  have "msg_right X rules D t k = msg_right X rules D s k" for k by (cases k) (auto simp: v h)
  then have m: "msg_right X rules D t = msg_right X rules D s" by blast
  have "job_covers t i k = job_covers s i k" for i k by (cases k) (auto simp: v)
  then have c: "job_covers t = job_covers s" by blast
  have "msg_covers t i k = msg_covers s i k" for i k by (cases k) (auto simp: v)
  then have d: "msg_covers t = msg_covers s" by blast
  have "list_all (job_right X rules D t) (st_jobs t)" using assms(1) j by (auto simp: pass_ok_def list_all_iff v)
  then show ?thesis
    using assms(1,13-15) unfolding pass_ok_def h m c d v by blast
qed

lemma ctx_live_new_search: "ctx_live s \<Longrightarrow> ctx_live (new_searchCtx s)"
  by (auto simp: ctx_live_def new_searchCtx_def)

lemma ctx_live_new_filter: "ctx_fresh s \<Longrightarrow> ctx_live (new_filterCtx s)"
  by (auto simp: ctx_live_def new_filterCtx_def ctx_fresh_def)

lemma pass_new_search:
  assumes "pass_ok X rules D s ms"
  shows "pass_ok X rules D (new_searchCtx s) ms"
proof (rule pass_core [OF assms])
  show "epoch_ok X (new_searchCtx s)" "ctx_fresh (new_searchCtx s)" "ctx_live (new_searchCtx s)"
    using assms by (simp_all add: pass_ok_def ctx_live_new_search ctx_fresh_new)
qed (simp_all add: new_searchCtx_def)

lemma pass_new_filter:
  assumes "pass_ok X rules D s ms" "st_filterCtx s = None"
  shows "pass_ok X rules D (new_filterCtx s) ms"
proof (rule pass_core [OF assms(1)])
  show "epoch_ok X (new_filterCtx s)" "ctx_fresh (new_filterCtx s)" "ctx_live (new_filterCtx s)"
    using assms by (simp_all add: pass_ok_def ctx_live_new_filter ctx_fresh_new)
qed (simp_all add: new_filterCtx_def assms(2))

lemma pass_cache:
  assumes "pass_ok X rules D s ms" "core t = core s" "only_spawns s t" "epoch_ok X t"
  shows "pass_ok X rules D t ms"
proof (rule pass_core [OF assms(1)])
  show "ctx_fresh t" using assms(1,3) ctx_fresh_spawns by (auto simp: pass_ok_def)
  show "ctx_live t"
    using assms(1) ctx_view_spawns [OF assms(3)]
    by (simp add: pass_ok_def ctx_live_def ctx_view_def only_spawns_frame(9) [OF assms(3)])
  show "st_jobs t = st_jobs s" by (rule coreD [OF assms(2)])
qed (use assms(4) in \<open>simp_all add: only_spawns_frame [OF assms(3)]\<close>)

lemma pass_searchAutomaton: "pass_ok X rules D s ms \<Longrightarrow> pass_ok X rules D (fst (searchAutomaton q s)) ms"
  by (rule pass_cache) (auto simp: pass_ok_def epoch_serve intro: spawns_intros)

lemma pass_compiled: "pass_ok X rules D s ms \<Longrightarrow> pass_ok X rules D (fst (compiledFilterRules X rs s)) ms"
  by (rule pass_cache) (auto simp: pass_ok_def epoch_serve intro: spawns_intros)

lemma pass_prepare:
  assumes "pass_ok X rules D s ms"
  shows "pass_ok X rules D (fst (prepareDispatchEpochs [] srch rules s)) ms"
    and "rules \<noteq> [] \<Longrightarrow> st_filterCtx (fst (prepareDispatchEpochs [] srch rules s)) \<noteq> None"
proof -
  have a: "pass_ok X rules D (if srch \<noteq> [] \<and> st_searchCtx s = None then new_searchCtx s else s) ms"
    using assms by (simp add: pass_new_search)
  let ?s2 = "if srch \<noteq> [] then fst (searchAutomaton srch (if srch \<noteq> [] \<and> st_searchCtx s = None then new_searchCtx s else s))
      else (if srch \<noteq> [] \<and> st_searchCtx s = None then new_searchCtx s else s)"
  have b: "pass_ok X rules D ?s2 ms"
    using a pass_searchAutomaton [OF a] by (cases "srch \<noteq> []") simp_all
  have fin: "pass_ok X rules D u ms \<Longrightarrow>
      pass_ok X rules D (if rules \<noteq> [] \<and> st_filterCtx u = None then new_filterCtx u else u) ms" for u
    using pass_new_filter by auto
  from fin [OF b] show "pass_ok X rules D (fst (prepareDispatchEpochs [] srch rules s)) ms"
    by (simp only: prepareDispatchEpochs_def Let_def fst_conv simp_thms if_False)
  show "rules \<noteq> [] \<Longrightarrow> st_filterCtx (fst (prepareDispatchEpochs [] srch rules s)) \<noteq> None"
    by (simp add: prepareDispatchEpochs_def Let_def new_filterCtx_def new_searchCtx_def)
qed

section \<open>Dispatching hands out the next rows\<close>

lemma pass_extend:
  assumes "pass_ok X rules D s ms" "D \<le> D'" "D' \<le> st_logCount s"
    "\<And>i. D \<le> i \<Longrightarrow> i < D' \<Longrightarrow> \<not> hides X rules s i"
  shows "pass_ok X rules D' s ms"
proof -
  have jr: "job_right X rules D s k \<Longrightarrow> job_right X rules D' s k" for k using assms(2) by (cases k) auto
  have mr: "msg_right X rules D s m \<Longrightarrow> msg_right X rules D' s m" for m using assms(2) by (cases m) auto
  have f: "st_filtered s \<subseteq> {..<D}" using assms(1) by (simp add: pass_ok_def)
  have "list_ex (job_covers s i) (st_jobs s) \<or> list_ex (msg_covers s i) ms
      \<or> (i \<in> st_filtered s \<longleftrightarrow> hides X rules s i)" if "i < D'" for i
  proof (cases "i < D")
    case True
    then show ?thesis using assms(1) by (auto simp: pass_ok_def)
  next
    case False
    then have "i \<notin> st_filtered s" using f by auto
    then show ?thesis using assms(4) [of i] False that by auto
  qed
  moreover have "list_all (job_right X rules D' s) (st_jobs s)" "list_all (msg_right X rules D' s) ms"
    using assms(1) jr mr by (auto simp: pass_ok_def list_all_iff)
  moreover have "st_filtered s \<subseteq> {..<D'}" using f assms(2) by auto
  ultimately show ?thesis using assms(1,3) unfolding pass_ok_def by blast
qed

lemma pass_filter_chunk:
  assumes ok: "pass_ok X rules D s ms" and D: "D + count \<le> st_logCount s" "st_batch s dvd D"
    and cx: "st_filterCtx s \<noteq> None"
  shows "pass_ok X rules (D + count) (spawnFilterChunk X rules (D div st_batch s) D count s) ms"
proof -
  let ?s1 = "fst (compiledFilterRules X rules s)"
  have s1: "pass_ok X rules D ?s1 ms" by (rule pass_compiled [OF ok])
  have crs: "snd (compiledFilterRules X rules s) = compileRules X rules"
    using ok serve_filter by (auto simp: pass_ok_def)
  show ?thesis
  proof (cases "applicable (compileRules X rules)")
    case False
    then have "pass_ok X rules (D + count) ?s1 ms"
      using D(1) by (intro pass_extend [OF s1]) (auto simp: hides_def hideEntry_not_applicable)
    then show ?thesis using False crs by (simp add: spawnFilterChunk_def Let_def)
  next
    case True
    obtain f where f: "st_filterCtx s = Some f" using cx by auto
    have off: "(D div st_batch s) * st_batch s = D" using D(2) by simp
    have le: "st_logCount s \<le> length (st_logs s)" using ok by (simp add: pass_ok_def)
    have len: "length (batch_logs D count ?s1) = count" using D(1) le by (simp add: batch_logs_def)
    let ?j = "FilterJob (st_queryID ?s1) (st_filterEpoch ?s1) f (compileRules X rules) (D div st_batch s)
        (batch_logs D count ?s1) (map (\<lambda>i. D + i \<in> st_expanded ?s1) [0..<length (batch_logs D count ?s1)])"
    have "pass_ok X rules (D + count) (spawn ?j ?s1) ms"
    proof (rule pass_spawn [OF s1])
      show "job_right X rules (D + count) (spawn ?j ?s1) ?j"
        using off len f D(1) le by (simp add: spawn_def batch_logs_def)
    qed (use D(1) off len in auto)
    then show ?thesis
      using True crs f off by (simp add: spawnFilterChunk_def Let_def)
  qed
qed

lemma pass_dispatch_batch:
  assumes ok: "pass_ok X (mgr_filters M) (st_logCount s - st_pending s) s ms" and jq: "mgr_jq M = []"
    and c: "count \<le> st_pending s" "st_pending s \<le> st_logCount s" and al: "st_batch s dvd st_logCount s - st_pending s"
    and cx: "mgr_filters M \<noteq> [] \<Longrightarrow> st_filterCtx s \<noteq> None"
    and t: "dispatch_batch X M ac count s = (t, b)"
  shows "b" and "pass_ok X (mgr_filters M) (st_logCount t - st_pending t) t ms" and "st_pending t = st_pending s - count"
    and "st_filterCtx t = st_filterCtx s" and "st_logCount t = st_logCount s" and "st_batch t = st_batch s"
    and "st_streaming t = st_streaming s"
proof -
  let ?D = "st_logCount s - st_pending s"
  let ?k = "?D div st_batch s"
  let ?F = "\<lambda>u. if mgr_filters M \<noteq> [] then spawnFilterChunk X (mgr_filters M) ?k ?D count u else u"
  let ?u = "if mgr_search M \<noteq> [] then spawnSearchChunk (ctx_of (st_searchCtx s)) ac ?k ?D count s else s"
  have u: "only_spawns s ?u" by (simp add: spawnSearchChunk_spawns only_spawns_refl)
  have uok: "pass_ok X (mgr_filters M) ?D ?u ms" by (simp add: ok pass_spawn_search)
  have D: "?D + count \<le> st_logCount ?u" using c by (simp add: only_spawns_frame [OF u])
  have "pass_ok X (mgr_filters M) (?D + count) (?F ?u) ms"
  proof (cases "mgr_filters M = []")
    case True
    then show ?thesis
      using pass_extend [OF uok _ D] by (simp add: hides_def compileRules_def)
  next
    case False
    then show ?thesis
      using pass_filter_chunk [OF uok D] al cx by (simp add: only_spawns_frame [OF u])
  qed
  moreover have Fu: "only_spawns s (?F ?u)"
    using only_spawns_trans [OF u spawnFilterChunk_spawns] u by simp
  moreover have t': "t = (?F ?u)\<lparr>st_pending := st_pending (?F ?u) - count\<rparr>" "b"
    using t jq by (auto simp: dispatch_batch_def Let_def split: if_splits)
  moreover have "pass_ok X r d (w\<lparr>st_pending := p\<rparr>) ms = pass_ok X r d w ms" for r d w p
    by (rule pass_frame) (simp_all add: pass_view_def)
  moreover have "st_logCount s - (st_pending s - count) = ?D + count" using c by simp
  ultimately show "b" and "pass_ok X (mgr_filters M) (st_logCount t - st_pending t) t ms"
    and "st_pending t = st_pending s - count"
    and "st_filterCtx t = st_filterCtx s" and "st_logCount t = st_logCount s" and "st_batch t = st_batch s"
    and "st_streaming t = st_streaming s"
    by (simp_all add: only_spawns_frame [OF Fu] del: spawn_frames)
qed

text \<open>Between dispatches nothing is pending beyond a started batch, and the handed-out rows end at a batch boundary.\<close>

definition rests :: "('q, 'c) store \<Rightarrow> bool" where
  "rests s \<longleftrightarrow> st_pending s \<le> st_logCount s
     \<and> (if st_streaming s then st_batch s dvd st_logCount s - st_pending s else st_pending s = 0)"

lemma pass_dispatch_loop:
  "pass_ok X (mgr_filters M) (st_logCount s - st_pending s) s ms \<Longrightarrow> mgr_jq M = []
     \<Longrightarrow> st_pending s \<le> st_logCount s \<Longrightarrow> (0 < st_pending s \<or> st_streaming s \<longrightarrow> st_batch s dvd st_logCount s - st_pending s)
     \<Longrightarrow> (mgr_filters M \<noteq> [] \<Longrightarrow> st_filterCtx s \<noteq> None)
     \<Longrightarrow> pass_ok X (mgr_filters M) (st_logCount (dispatch_loop X M ac s) - st_pending (dispatch_loop X M ac s))
           (dispatch_loop X M ac s) ms
         \<and> rests (dispatch_loop X M ac s) \<and> st_streaming (dispatch_loop X M ac s) = st_streaming s"
proof (induction X M ac s rule: dispatch_loop.induct)
  case (1 X M ac s)
  let ?c = "min (st_pending s) (st_batch s)"
  have B: "0 < st_batch s" using "1.prems"(1) by (simp add: pass_ok_def)
  show ?case
  proof (cases "st_pending s \<ge> st_batch s \<or> (\<not> st_streaming s \<and> st_pending s > 0)")
    case True
    obtain t b where t: "dispatch_batch X M ac ?c s = (t, b)" by fastforce
    have al: "st_batch s dvd st_logCount s - st_pending s" using "1.prems"(4) True B by auto
    note P = pass_dispatch_batch [OF "1.prems"(1,2) _ "1.prems"(3) al "1.prems"(5) t, simplified]
    have al': "0 < st_pending t \<or> st_streaming t \<longrightarrow> st_batch t dvd st_logCount t - st_pending t"
    proof (cases "st_batch s \<le> st_pending s")
      case True
      then have "st_logCount s - (st_pending s - st_batch s) = (st_logCount s - st_pending s) + st_batch s"
        using "1.prems"(3) by simp
      then show ?thesis using P(3,5,6) al True by simp
    next
      case False
      then show ?thesis using P(3,7) True \<open>st_pending s \<ge> st_batch s \<or> (\<not> st_streaming s \<and> st_pending s > 0)\<close> by auto
    qed
    have "pass_ok X (mgr_filters M) (st_logCount (dispatch_loop X M ac t) - st_pending (dispatch_loop X M ac t))
           (dispatch_loop X M ac t) ms
         \<and> rests (dispatch_loop X M ac t) \<and> st_streaming (dispatch_loop X M ac t) = st_streaming t"
    proof (rule "1.IH" [OF _ t [symmetric]])
      show "0 < st_batch s \<and> (st_pending s \<ge> st_batch s \<or> (\<not> st_streaming s \<and> st_pending s > 0))"
        using True B by simp
      show "b = True" using P(1) by simp
      show "st_pending t \<le> st_logCount t" using P(3,5) "1.prems"(3) by simp
      show "mgr_filters M \<noteq> [] \<Longrightarrow> st_filterCtx t \<noteq> None" using P(4) "1.prems"(5) by simp
    qed (use P(2) al' "1.prems"(2) in simp_all)
    moreover have "dispatch_loop X M ac s = dispatch_loop X M ac t"
      by (subst dispatch_loop.simps) (use True B t P(1) in simp)
    ultimately show ?thesis using P(7) by simp
  next
    case False
    then have "dispatch_loop X M ac s = s" by (subst dispatch_loop.simps) auto
    then show ?thesis using "1.prems" False by (auto simp: rests_def)
  qed
qed

section \<open>Steps of a stream in progress\<close>

text \<open>
  What may happen while a stream is received under one rule set, no jq query and a fixed view: chunks
  of the stream until it is done, new searches, workers running and messages arriving, in any order.
\<close>

inductive stream_step :: "('q, 'c) ext \<Rightarrow> rule list \<Rightarrow> ('q, 'c) sys \<Rightarrow> ('q, 'c) sys \<Rightarrow> bool" for X rules where
  ss_user: "mgr_jq M = [] \<Longrightarrow> mgr_filters M = rules \<Longrightarrow> stream_step X rules y (y\<lparr>y_mgr := M\<rparr>)"
| ss_msg: "st_streaming (y_store y) \<Longrightarrow>
     stream_step X rules y (y\<lparr>y_store := loop_event X (y_mgr y) (EvStream msg) (y_store y)\<rparr>)"
| ss_done: "st_streaming (y_store y) \<Longrightarrow>
     stream_step X rules y (y\<lparr>y_store := loop_event X (y_mgr y) (EvDone i errs) (y_store y)\<rparr>)"
| ss_search: "stream_step X rules y (y\<lparr>y_store := loop_event X (y_mgr y) EvDoSearch (y_store y)\<rparr>)"
| ss_total: "stream_step X rules y (y\<lparr>y_store := loop_event X (y_mgr y) EvMatchTotal (y_store y)\<rparr>)"
| ss_work: "j \<in> set (st_jobs (y_store y)) \<Longrightarrow> runs X (y_store y) j m \<Longrightarrow>
     stream_step X rules y (y\<lparr>y_store := (y_store y)\<lparr>st_jobs := remove1 j (st_jobs (y_store y))\<rparr>, y_msgs := m # y_msgs y\<rparr>)"
| ss_deliver: "m \<in> set (y_msgs y) \<Longrightarrow>
     stream_step X rules y (y\<lparr>y_store := deliver X (y_mgr y) m (y_store y), y_msgs := remove1 m (y_msgs y)\<rparr>)"

definition pass_inv :: "('q, 'c) ext \<Rightarrow> rule list \<Rightarrow> ('q, 'c) sys \<Rightarrow> bool" where
  "pass_inv X rules y \<longleftrightarrow> mgr_jq (y_mgr y) = [] \<and> mgr_filters (y_mgr y) = rules \<and> rests (y_store y)
     \<and> pass_ok X rules (st_logCount (y_store y) - st_pending (y_store y)) (y_store y) (y_msgs y)"

lemma pass_dispatch:
  assumes "pass_ok X (mgr_filters M) (st_logCount s - st_pending s) s ms" "mgr_jq M = []"
    "st_pending s \<le> st_logCount s" "0 < st_pending s \<or> st_streaming s \<longrightarrow> st_batch s dvd st_logCount s - st_pending s"
    and t: "t = dispatchPendingBatches X M s"
  shows "pass_ok X (mgr_filters M) (st_logCount t - st_pending t) t ms" "rests t"
proof -
  let ?p = "prepareDispatchEpochs (mgr_jq M) (mgr_search M) (mgr_filters M) s"
  have c: "core (fst ?p) = core s" by simp
  have str: "st_streaming (fst ?p) = st_streaming s"
    by (simp add: prepareDispatchEpochs_def Let_def new_jqCtx_def new_searchCtx_def new_filterCtx_def)
  have "pass_ok X (mgr_filters M) (st_logCount (fst ?p) - st_pending (fst ?p)) (fst ?p) ms"
    using pass_prepare(1) [OF assms(1), of "mgr_search M"] assms(2) coreD(2,5) [OF c] by simp
  then have "pass_ok X (mgr_filters M) (st_logCount t - st_pending t) t ms \<and> rests t \<and> st_streaming t = st_streaming s"
    unfolding t dispatchPendingBatches_def Let_def str [symmetric]
    using assms(2-4) coreD [OF c] str pass_prepare(2) [OF assms(1), of "mgr_search M"]
    by (intro pass_dispatch_loop) simp_all
  then show "pass_ok X (mgr_filters M) (st_logCount t - st_pending t) t ms" "rests t" by auto
qed

lemma put_rows_counts:
  "put_rows ls r a s = (t, r', a') \<Longrightarrow> st_logCount t + a = st_logCount s + a' \<and> st_pending t = st_pending s
     \<and> st_streaming t = st_streaming s \<and> st_batch t = st_batch s \<and> a \<le> a'"
  by (induction ls arbitrary: r a s) (fastforce split: if_splits)+

lemma add_errs_view [simp]:
  "pass_view (add_errs errs s) = pass_view s" "st_jobs (add_errs errs s) = st_jobs s"
  "st_pending (add_errs errs s) = st_pending s" "st_logCount (add_errs errs s) = st_logCount s"
  "st_streaming (add_errs errs s) = st_streaming s" "st_batch (add_errs errs s) = st_batch s"
  by (simp_all add: add_errs_def pass_view_def)

lemma pass_msg:
  assumes "pass_inv X rules y" "st_streaming (y_store y)"
  shows "pass_inv X rules (y\<lparr>y_store := loop_event X (y_mgr y) (EvStream msg) (y_store y)\<rparr>)"
proof (cases "sm_ID msg = st_queryID (y_store y)")
  case True
  let ?s = "y_store y" and ?M = "y_mgr y"
  let ?u = "add_errs (sm_Errs msg) ?s"
  obtain t r a where t: "put_rows (sm_Logs msg) None 0 ?u = (t, r, a)" by (metis prod_cases3)
  have "pass_ok X rules (st_logCount ?s - st_pending ?s) ?s (y_msgs y)"
    using assms(1) by (simp add: pass_inv_def)
  then have D: "pass_ok X rules (st_logCount ?s - st_pending ?s) ?u (y_msgs y)"
    by (rule iffD2 [OF pass_frame [OF add_errs_view(1,2)]])
  note cnt = put_rows_counts [OF t]
  let ?t = "t\<lparr>st_pending := st_pending t + a\<rparr>"
  have eq: "st_logCount ?t - st_pending ?t = st_logCount ?s - st_pending ?s" using cnt by simp
  have v: "pass_ok X r d (w\<lparr>st_pending := p\<rparr>) ms = pass_ok X r d w ms" for r d p ms and w :: "('a, 'b) store"
    by (rule pass_frame) (simp_all add: pass_view_def)
  have "pass_ok X rules (st_logCount ?t - st_pending ?t) ?t (y_msgs y)"
    using pass_put_rows [OF t D] unfolding eq v .
  then have "pass_ok X (mgr_filters ?M) (st_logCount ?t - st_pending ?t) ?t (y_msgs y)"
    using assms(1) by (simp add: pass_inv_def)
  moreover have "st_pending ?t \<le> st_logCount ?t" "0 < st_pending ?t \<or> st_streaming ?t \<longrightarrow> st_batch ?t dvd st_logCount ?t - st_pending ?t"
    using assms cnt eq by (simp_all add: pass_inv_def rests_def)
  moreover have jq: "mgr_jq ?M = []" and fs: "mgr_filters ?M = rules" using assms(1) by (simp_all add: pass_inv_def)
  ultimately show ?thesis
    using pass_dispatch [of X ?M ?t "y_msgs y", OF _ jq _ _ refl] True t jq
    by (simp add: pass_inv_def HandleLogStreamMsg_def fs)
qed (use assms in \<open>simp add: HandleLogStreamMsg_def\<close>)

lemma pass_done:
  assumes "pass_inv X rules y" "st_streaming (y_store y)"
  shows "pass_inv X rules (y\<lparr>y_store := loop_event X (y_mgr y) (EvDone i errs) (y_store y)\<rparr>)"
proof (cases "i = st_queryID (y_store y)")
  case True
  let ?s = "y_store y" and ?M = "y_mgr y"
  let ?t = "add_errs errs (?s\<lparr>st_streaming := False\<rparr>)"
  have "pass_view ?t = pass_view ?s" by (simp only: add_errs_view) (simp add: pass_view_def)
  moreover have "st_jobs ?t = st_jobs ?s" by (simp only: add_errs_view) simp
  moreover have "st_logCount ?t - st_pending ?t = st_logCount ?s - st_pending ?s" by simp
  moreover have "pass_ok X rules (st_logCount ?s - st_pending ?s) ?s (y_msgs y)"
    using assms(1) by (simp add: pass_inv_def)
  ultimately have "pass_ok X rules (st_logCount ?t - st_pending ?t) ?t (y_msgs y)"
    by (simp only: pass_frame [of ?t ?s])
  moreover have jq: "mgr_jq ?M = []" and fs: "mgr_filters ?M = rules" using assms(1) by (simp_all add: pass_inv_def)
  ultimately have "pass_ok X (mgr_filters ?M) (st_logCount ?t - st_pending ?t) ?t (y_msgs y)" by simp
  moreover have "st_pending ?t \<le> st_logCount ?t" "0 < st_pending ?t \<or> st_streaming ?t \<longrightarrow> st_batch ?t dvd st_logCount ?t - st_pending ?t"
    using assms by (simp_all add: pass_inv_def rests_def)
  ultimately show ?thesis
    using pass_dispatch [of X ?M ?t "y_msgs y", OF _ jq _ _ refl] True jq
    by (simp add: pass_inv_def HandleLogStreamDoneMsg_def fs)
qed (use assms in \<open>simp add: HandleLogStreamDoneMsg_def\<close>)

lemma pass_fold_search:
  "pass_ok X rules D s ms \<Longrightarrow> pass_ok X rules D (fold (\<lambda>(k, f, c). spawnSearchChunk cx ac k f c) cs s) ms"
  by (induction cs arbitrary: s) (auto intro: pass_spawn_search)

lemma pass_search_fields:
  assumes "pass_ok X rules D s ms" "pass_view t = pass_view (s\<lparr>st_cancelled := st_cancelled t, st_cancelSearch := st_cancelSearch t,
      st_nextCtx := st_nextCtx t\<rparr>)" "st_jobs t = st_jobs s" "ctx_fresh t" "ctx_live t"
  shows "pass_ok X rules D t ms"
proof (rule pass_core [OF assms(1)])
  show "epoch_ok X t" using assms(1,2) by (simp add: pass_view_def pass_ok_def epoch_ok_def)
qed (use assms in \<open>simp_all add: pass_view_def\<close>)

lemma ctx_live_cancel_search: "ctx_live s \<Longrightarrow> ctx_live (cancel_ctx (st_cancelSearch s) s)"
  by (auto simp: ctx_live_def cancel_ctx_def split: option.split)

lemma cancel_ctx_frame:
  "pass_view (cancel_ctx c s) = pass_view (s\<lparr>st_cancelled := st_cancelled (cancel_ctx c s)\<rparr>)"
  "st_jobs (cancel_ctx c s) = st_jobs s" "st_nextCtx (cancel_ctx c s) = st_nextCtx s"
  "st_cancelSearch (cancel_ctx c s) = st_cancelSearch s" "st_filterCtx (cancel_ctx c s) = st_filterCtx s"
  "st_pending (cancel_ctx c s) = st_pending s" "st_logCount (cancel_ctx c s) = st_logCount s"
  "st_streaming (cancel_ctx c s) = st_streaming s" "st_batch (cancel_ctx c s) = st_batch s"
  by (auto simp: cancel_ctx_def pass_view_def split: option.split)

lemma pass_DoSearch:
  assumes "pass_ok X rules D s ms"
  shows "pass_ok X rules D (DoSearch M s) ms"
proof -
  let ?c = "cancel_ctx (st_cancelSearch s) s"
  let ?s1 = "?c\<lparr>st_searchCtx := None\<rparr>"
  let ?s2 = "?s1\<lparr>st_cancelSearch := Some (st_nextCtx ?s1), st_nextCtx := st_nextCtx ?s1 + 1,
               st_searchCount := 0, st_search := Map.empty, st_filteredTotalDirty := True\<rparr>"
  have fr: "ctx_fresh ?c" "ctx_live ?c" using assms ctx_fresh_cancel(5) ctx_live_cancel_search by (auto simp: pass_ok_def)
  have c: "pass_ok X rules D ?c ms"
    by (rule pass_search_fields [OF assms _ _ fr]) (simp_all add: cancel_ctx_def pass_view_def split: option.split)
  have e: "pass_ok X rules D (?s1\<lparr>st_appliedSearch := [], st_search := Map.empty, st_filteredTotalDirty := True\<rparr>) ms"
    by (rule iffD2 [OF pass_frame c]) (simp_all add: pass_view_def)
  have "pass_ok X rules D ?s2 ms"
  proof (rule pass_search_fields [OF c])
    show "ctx_fresh ?s2" "ctx_live ?s2" using fr by (auto simp: ctx_fresh_def ctx_live_def less_Suc_eq)
  qed (simp_all add: pass_view_def)
  then have "pass_ok X rules D (fold (\<lambda>(k, f, c). spawnSearchChunk cx ac k f c) cs (fst (searchAutomaton q ?s2))) ms"
    for cx ac cs q by (intro pass_fold_search pass_searchAutomaton)
  with e show ?thesis by (simp add: DoSearch_def Let_def del: spawn_frames)
qed

lemma rests_cong: "st_pending t = st_pending s \<Longrightarrow> st_logCount t = st_logCount s \<Longrightarrow> st_streaming t = st_streaming s
    \<Longrightarrow> st_batch t = st_batch s \<Longrightarrow> rests t = rests s"
  by (simp add: rests_def)

lemma fold_search_spawns: "only_spawns s (fold (\<lambda>(k, f, c). spawnSearchChunk cx ac k f c) cs s)"
proof (induction cs arbitrary: s)
  case (Cons x cs)
  show ?case using only_spawns_trans [OF spawnSearchChunk_spawns Cons] by (cases x) simp
qed (simp add: only_spawns_refl)

lemmas fold_search_frames [simp] = only_spawns_frame [OF fold_search_spawns]

lemma DoSearch_frame:
  "st_pending (DoSearch M s) = st_pending s" "st_logCount (DoSearch M s) = st_logCount s"
  "st_streaming (DoSearch M s) = st_streaming s" "st_batch (DoSearch M s) = st_batch s"
  by (simp_all add: DoSearch_def Let_def cancel_ctx_frame)

section \<open>Workers and messages\<close>

text \<open>Contexts that are not cancelled give the same results: no deadline passes during the pass.\<close>

definition no_deadline :: "('q, 'c) ext \<Rightarrow> bool" where
  "no_deadline X \<longleftrightarrow> (\<forall>a. x_run_code X (Active a) = x_run_code X (Active 0))"

lemma rule_hides_active:
  assumes "no_deadline X"
  shows "rule_hides X (Active a) w cr e b = rule_hides X (Active 0) w cr e b"
proof -
  have "x_run_code X (Active a) = x_run_code X (Active 0)" using assms unfolding no_deadline_def by blast
  then show ?thesis by (simp add: rule_hides_def hideForFieldRule_def split: option.split)
qed

lemma hideEntry_active: "no_deadline X \<Longrightarrow> hideEntry X (Active a) w crs e b = hideEntry X (Active 0) w crs e b"
  by (simp add: hideEntry_iff rule_hides_active [of X a])

lemma pass_run:
  assumes ok: "pass_ok X rules D s ms" and j: "j \<in> set (st_jobs s)" and run: "runs X s j m" and dl: "no_deadline X"
  shows "msg_right X rules D s m \<and> (\<forall>i. job_covers s i j \<longrightarrow> msg_covers s i m)"
proof -
  have jr: "job_right X rules D s j" using ok j by (auto simp: pass_ok_def list_all_iff)
  have live: "ctx_live s" using ok by (simp add: pass_ok_def)
  show ?thesis
    using run
  proof (cases rule: runs.cases)
    case (run_jq i cx q off ds stop)
    then show ?thesis using jr by (auto simp: jq_worker_def split: sum.split)
  next
    case (run_filter i ep cx crs off es bs)
    let ?m = "filter_worker X (observe s cx) (st_width s) (st_identity s) i ep crs off es bs"
    have "msg_right X rules D s (FilterMsg ?m)"
    proof (cases "i = st_queryID s \<and> ep = st_filterEpoch s")
      case True
      then have r: "crs = compileRules X rules" "st_filterCtx s = Some cx" "length bs = length es"
        "off * st_batch s + length es \<le> D"
        "\<And>k. k < length es \<Longrightarrow> es ! k = st_logs s ! (off * st_batch s + k) \<and> bs ! k = (off * st_batch s + k \<in> st_expanded s)"
        using jr run_filter by auto
      have "observe s cx = Active cx" using live r(2) by (simp add: ctx_live_def observe_def)
      then show ?thesis
        using r by (simp add: filter_worker_def hides_def hideEntry_active [OF dl, of cx])
    qed (auto simp: filter_worker_def)
    moreover have "length (fm_Hidden ?m) = length es" if "i = st_queryID s \<and> ep = st_filterEpoch s"
      using jr run_filter that by (simp add: filter_worker_def)
    ultimately show ?thesis using run_filter by (auto simp: filter_worker_def)
  next
    case run_search
    then show ?thesis by auto
  next
    case run_stale_search
    then show ?thesis by auto
  qed
qed

lemma pass_work:
  assumes ok: "pass_ok X rules D s ms" and j: "j \<in> set (st_jobs s)" and run: "runs X s j m" and dl: "no_deadline X"
  shows "pass_ok X rules D (s\<lparr>st_jobs := remove1 j (st_jobs s)\<rparr>) (m # ms)"
proof -
  let ?t = "s\<lparr>st_jobs := remove1 j (st_jobs s)\<rparr>"
  have v: "pass_view ?t = pass_view s" by (simp add: pass_view_def)
  note R = pass_view_right [OF v]
  have m: "msg_right X rules D s m" "\<And>i. job_covers s i j \<Longrightarrow> msg_covers s i m"
    using pass_run [OF assms] by auto
  have "list_ex (job_covers s i) (remove1 j (st_jobs s)) \<or> list_ex (msg_covers s i) (m # ms)
      \<or> (i \<in> st_filtered s \<longleftrightarrow> hides X rules s i)" if "i < D" for i
  proof -
    have "list_ex (job_covers s i) (st_jobs s) \<or> list_ex (msg_covers s i) ms \<or> (i \<in> st_filtered s \<longleftrightarrow> hides X rules s i)"
      using ok that by (simp add: pass_ok_def)
    moreover have "list_ex (job_covers s i) (remove1 j (st_jobs s)) \<or> msg_covers s i m" if ex: "list_ex (job_covers s i) (st_jobs s)"
    proof -
      obtain k where k: "k \<in> set (st_jobs s)" "job_covers s i k" using ex by (auto simp: list_ex_iff)
      show ?thesis
      proof (cases "k = j")
        case False
        then have "k \<in> set (remove1 j (st_jobs s))" using k by simp
        then show ?thesis using k by (auto simp: list_ex_iff)
      qed (use k m in auto)
    qed
    ultimately show ?thesis by auto
  qed
  moreover have "list_all (job_right X rules D s) (remove1 j (st_jobs s))"
    using ok set_remove1_subset [of j "st_jobs s"] by (auto simp: pass_ok_def list_all_iff)
  moreover have "epoch_ok X ?t" "ctx_fresh ?t" "ctx_live ?t"
    using ok by (simp_all add: pass_ok_def ctx_live_def)
  ultimately show ?thesis
    using ok m(1) unfolding pass_ok_def R by simp
qed

lemma set_flags_append: "set_flags (xs @ ys) fl = set_flags ys (set_flags xs fl)"
  by (simp add: set_flags_def)

text \<open>Changing flags.\<close>

lemma pass_flags:
  assumes ok: "pass_ok X rules D s ms" and fl: "fl \<subseteq> {..<D}" and ms: "set ms' \<subseteq> set ms"
    and cov: "\<And>i. i < D \<Longrightarrow> list_ex (job_covers s i) (st_jobs s) \<or> list_ex (msg_covers s i) ms' \<or> (i \<in> fl \<longleftrightarrow> hides X rules s i)"
  shows "pass_ok X rules D (s\<lparr>st_filtered := fl, st_filteredTotalDirty := b\<rparr>) ms'"
proof -
  let ?t = "s\<lparr>st_filtered := fl, st_filteredTotalDirty := b\<rparr>"
  have h: "hides X rules ?t = hides X rules s" by (simp add: hides_def fun_eq_iff)
  have "job_right X rules D ?t j = job_right X rules D s j" for j by (cases j) auto
  then have j: "job_right X rules D ?t = job_right X rules D s" by blast
  have "msg_right X rules D ?t k = msg_right X rules D s k" for k by (cases k) (auto simp: h)
  then have m: "msg_right X rules D ?t = msg_right X rules D s" by blast
  have "job_covers ?t i j = job_covers s i j" for i j by (cases j) auto
  then have c: "job_covers ?t = job_covers s" by blast
  have "msg_covers ?t i k = msg_covers s i k" for i k by (cases k) auto
  then have d: "msg_covers ?t = msg_covers s" by blast
  have "list_all (msg_right X rules D s) ms'" using ok ms by (auto simp: pass_ok_def list_all_iff)
  moreover have "epoch_ok X ?t" "ctx_fresh ?t" "ctx_live ?t"
    using ok by (simp_all add: pass_ok_def ctx_live_def)
  ultimately show ?thesis using ok fl cov unfolding pass_ok_def h j m c d by simp
qed

text \<open>A delivered filter chunk decides its rows as they should be; others keep what they had.\<close>

lemma filter_chunk_effect:
  assumes "msg_right X rules D s (FilterMsg fm)" "D \<le> st_logCount s"
  shows "\<exists>fl b. fst (HandleFilterChunk fm s) = s\<lparr>st_filtered := fl, st_filteredTotalDirty := b\<rparr>
     \<and> (\<forall>i. i \<in> fl \<longleftrightarrow> (if msg_covers s i (FilterMsg fm) then hides X rules s i else i \<in> st_filtered s))"
proof (cases "fm_ID fm = st_queryID s \<and> fm_Epoch fm = st_filterEpoch s")
  case True
  let ?o = "fm_Offset fm * st_batch s"
  have r: "fm_Instance fm = st_identity s" "fm_Err fm = None" "?o + length (fm_Hidden fm) \<le> D"
    "\<And>k. k < length (fm_Hidden fm) \<Longrightarrow> fm_Hidden fm ! k = hides X rules s (?o + k)"
    using assms(1) True by auto
  have "fst (HandleFilterChunk fm s)
      = s\<lparr>st_filtered := set_flags (enumerate ?o (fm_Hidden fm)) (st_filtered s), st_filteredTotalDirty := True\<rparr>"
    using r(1-3) True assms(2) by (simp add: HandleFilterChunk_def Let_def markFilteredTotalDirty_def)
  moreover have "i \<in> set_flags (enumerate ?o (fm_Hidden fm)) (st_filtered s)
      \<longleftrightarrow> (if msg_covers s i (FilterMsg fm) then hides X rules s i else i \<in> st_filtered s)" for i
    using r(4) [of "i - ?o"] True by (auto simp: mem_set_flags)
  ultimately show ?thesis by blast
next
  case False
  then have "fst (HandleFilterChunk fm s) = s\<lparr>st_filtered := st_filtered s, st_filteredTotalDirty := st_filteredTotalDirty s\<rparr>"
    by (auto simp: HandleFilterChunk_def Let_def)
  moreover have "\<not> msg_covers s i (FilterMsg fm)" for i using False by auto
  ultimately show ?thesis
    by (intro exI [of _ "st_filtered s"] exI [of _ "st_filteredTotalDirty s"])
      (simp del: msg_covers.simps)
qed

lemma covers_remove1:
  "list_ex P ms \<Longrightarrow> list_ex P (remove1 m ms) \<or> P m"
  by (induction ms) auto

lemma pass_deliver_filter:
  assumes ok: "pass_ok X rules D s ms" and m: "FilterMsg fm \<in> set ms"
  shows "pass_ok X rules D (fst (HandleFilterChunk fm s)) (remove1 (FilterMsg fm) ms)"
proof -
  have mr: "msg_right X rules D s (FilterMsg fm)" and D: "D \<le> st_logCount s" and f: "st_filtered s \<subseteq> {..<D}"
    using ok m by (auto simp: pass_ok_def list_all_iff)
  obtain fl b where t: "fst (HandleFilterChunk fm s) = s\<lparr>st_filtered := fl, st_filteredTotalDirty := b\<rparr>"
    and fl: "\<And>i. i \<in> fl \<longleftrightarrow> (if msg_covers s i (FilterMsg fm) then hides X rules s i else i \<in> st_filtered s)"
    using filter_chunk_effect [OF mr D] by blast
  have "fl \<subseteq> {..<D}"
  proof
    fix i assume "i \<in> fl"
    then show "i \<in> {..<D}" using fl [of i] mr f by (auto split: if_splits)
  qed
  moreover have "list_ex (job_covers s i) (st_jobs s) \<or> list_ex (msg_covers s i) (remove1 (FilterMsg fm) ms)
      \<or> (i \<in> fl \<longleftrightarrow> hides X rules s i)" if "i < D" for i
  proof -
    have "list_ex (job_covers s i) (st_jobs s) \<or> list_ex (msg_covers s i) ms \<or> (i \<in> st_filtered s \<longleftrightarrow> hides X rules s i)"
      using ok that by (simp add: pass_ok_def)
    then show ?thesis using fl [of i] covers_remove1 [of "msg_covers s i" ms "FilterMsg fm"] by auto
  qed
  ultimately show ?thesis
    unfolding t by (intro pass_flags [OF ok _ set_remove1_subset])
qed

lemma pass_forget:
  assumes "pass_ok X rules D s ms" "\<And>i. \<not> msg_covers s i m"
  shows "pass_ok X rules D s (remove1 m ms)"
proof -
  have "list_ex (msg_covers s i) (remove1 m ms)" if "list_ex (msg_covers s i) ms" for i
    using covers_remove1 [OF that, of m] assms(2) by blast
  then show ?thesis
    using assms(1) set_remove1_subset [of m ms] unfolding pass_ok_def list_all_iff by blast
qed

lemma pass_search_chunk:
  assumes "pass_ok X rules D s ms"
  shows "pass_ok X rules D (fst (HandleSearchChunk M msg s)) ms"
proof (cases "scm_Instance msg = st_identity s \<and> scm_ID msg = st_queryID s")
  case True
  define u where "u = s\<lparr>st_search := (st_search s |`
        (- {scm_Offset msg * st_batch s..<min (scm_Offset msg * st_batch s + st_batch s) (st_logCount s)})) ++ scm_Results msg,
      st_filteredTotalDirty := True, st_searchCount := st_searchCount s
        + (int (min (scm_Offset msg * st_batch s + st_batch s) (st_logCount s)) - int (scm_Offset msg * st_batch s))\<rparr>"
  have cs: "fst (HandleSearchChunk M msg s) = u
      \<or> fst (HandleSearchChunk M msg s) = (cancel_ctx (st_cancelSearch u) u)\<lparr>st_appliedSearch := mgr_search M\<rparr>"
    using True unfolding HandleSearchChunk_def Let_def u_def by simp
  have uok: "pass_ok X rules D u ms"
    by (rule iffD2 [OF pass_frame assms]) (simp_all add: u_def pass_view_def)
  have fr: "ctx_fresh (cancel_ctx (st_cancelSearch u) u)" "ctx_live (cancel_ctx (st_cancelSearch u) u)"
    using uok ctx_fresh_cancel(5) ctx_live_cancel_search by (auto simp: pass_ok_def)
  have "pass_ok X rules D (cancel_ctx (st_cancelSearch u) u) ms"
    by (rule pass_search_fields [OF uok _ _ fr]) (simp_all add: cancel_ctx_def pass_view_def split: option.split)
  then have "pass_ok X rules D ((cancel_ctx (st_cancelSearch u) u)\<lparr>st_appliedSearch := mgr_search M\<rparr>) ms"
    by (rule iffD2 [OF pass_frame, rotated 2]) (simp_all add: pass_view_def)
  then show ?thesis using cs uok by auto
next
  case False
  then have "fst (HandleSearchChunk M msg s) = s" by (auto simp: HandleSearchChunk_def)
  then show ?thesis using assms by simp
qed

lemma HandleSearchChunk_frame:
  "st_pending (fst (HandleSearchChunk M msg s)) = st_pending s" "st_logCount (fst (HandleSearchChunk M msg s)) = st_logCount s"
  "st_streaming (fst (HandleSearchChunk M msg s)) = st_streaming s" "st_batch (fst (HandleSearchChunk M msg s)) = st_batch s"
  by (simp_all add: HandleSearchChunk_def Let_def cancel_ctx_frame)

lemma HandleFilterChunk_frame:
  "st_pending (fst (HandleFilterChunk msg s)) = st_pending s" "st_logCount (fst (HandleFilterChunk msg s)) = st_logCount s"
  "st_streaming (fst (HandleFilterChunk msg s)) = st_streaming s" "st_batch (fst (HandleFilterChunk msg s)) = st_batch s"
  by (simp_all add: HandleFilterChunk_def Let_def markFilteredTotalDirty_def)

lemma pass_deliver:
  assumes "pass_inv X rules y" "m \<in> set (y_msgs y)"
  shows "pass_inv X rules (y\<lparr>y_store := deliver X (y_mgr y) m (y_store y), y_msgs := remove1 m (y_msgs y)\<rparr>)"
proof -
  let ?s = "y_store y" and ?D = "st_logCount (y_store y) - st_pending (y_store y)"
  have ok: "pass_ok X rules ?D ?s (y_msgs y)" and r: "rests ?s" using assms(1) by (auto simp: pass_inv_def)
  show ?thesis
  proof (cases m)
    case (JQMsg jm)
    have "msg_right X rules ?D ?s m" using ok assms(2) by (auto simp: pass_ok_def list_all_iff)
    then have "deliver X (y_mgr y) m ?s = ?s" using JQMsg by (simp add: HandleJQChunk_def Let_def)
    then show ?thesis using assms(1) pass_forget [OF ok, of m] JQMsg by (simp add: pass_inv_def)
  next
    case (SearchMsg sm)
    have "pass_ok X rules ?D (fst (HandleSearchChunk (y_mgr y) sm ?s)) (remove1 m (y_msgs y))"
      using pass_search_chunk [OF pass_forget [OF ok, of m]] SearchMsg by simp
    then show ?thesis
      using assms(1) SearchMsg r
      by (simp add: pass_inv_def HandleSearchChunk_frame rests_cong [OF HandleSearchChunk_frame])
  next
    case (FilterMsg fm)
    have "pass_ok X rules ?D (fst (HandleFilterChunk fm ?s)) (remove1 m (y_msgs y))"
      using pass_deliver_filter [OF ok] assms(2) FilterMsg by simp
    then show ?thesis
      using assms(1) FilterMsg r
      by (simp add: pass_inv_def HandleFilterChunk_frame rests_cong [OF HandleFilterChunk_frame])
  qed
qed

section \<open>The pass refines the synchronous one\<close>

lemma pass_step:
  assumes "stream_step X rules y z" "no_deadline X" "pass_inv X rules y"
  shows "pass_inv X rules z"
  using assms
proof (induction rule: stream_step.induct)
  case (ss_user M y)
  then show ?case by (simp add: pass_inv_def)
next
  case (ss_msg y msg)
  then show ?case by (intro pass_msg)
next
  case (ss_done y i errs)
  then show ?case by (intro pass_done)
next
  case (ss_search y)
  then show ?case
    by (simp add: pass_inv_def DoSearch_frame rests_cong [OF DoSearch_frame] pass_DoSearch)
next
  case (ss_total y)
  let ?t = "fst (FilteredMatchTotal (y_store y))"
  have v: "pass_view ?t = pass_view (y_store y)" "st_jobs ?t = st_jobs (y_store y)"
    and r: "st_pending ?t = st_pending (y_store y)" "st_logCount ?t = st_logCount (y_store y)"
    "st_streaming ?t = st_streaming (y_store y)" "st_batch ?t = st_batch (y_store y)"
    by (simp_all add: FilteredMatchTotal_def Let_def pass_view_def)
  show ?case
    using ss_total(2) rests_cong [OF r] iffD2 [OF pass_frame [OF v]] by (simp add: pass_inv_def r)
next
  case (ss_work j y m)
  then show ?case using pass_work by (auto simp: pass_inv_def rests_def)
next
  case (ss_deliver m y)
  then show ?case by (intro pass_deliver)
qed

lemma StartStream_Clear_simps:
  defines "t \<equiv> \<lambda>cap s. StartStream cap (Clear s)"
  shows "st_logCount (t cap s) = 0" "st_pending (t cap s) = 0" "st_streaming (t cap s)"
    "st_filtered (t cap s) = {}" "st_jobs (t cap s) = st_jobs s" "st_filterCtx (t cap s) = None"
    "st_batch (t cap s) = st_batch s" "st_queryID (t cap s) = st_queryID s + 2" "st_identity (t cap s) = st_identity s"
  using coreD [OF core_CancelAll [of s]]
  by (simp_all add: t_def StartStream_def Clear_def ClearData_def sizeBacking_def Let_def)

lemma pass_start:
  assumes "sys_inv y" "ctx_fresh (y_store y)" "epoch_ok X (y_store y)"
    "mgr_jq (y_mgr y) = []" "mgr_filters (y_mgr y) = rules"
  shows "pass_inv X rules (y\<lparr>y_store := loop_event X M (EvFetch cap) (y_store y)\<rparr>)"
proof -
  let ?s = "y_store y"
  let ?t = "StartStream cap (Clear ?s)"
  note S = StartStream_Clear_simps [where cap = cap and s = ?s]
  have jobs: "list_all (job_right X rules 0 ?t) (st_jobs ?t)"
  proof -
    have "job_ok ?s j \<Longrightarrow> job_right X rules 0 ?t j" for j by (cases j) (auto simp: S)
    then show ?thesis using assms(1) by (auto simp: S sys_inv_def store_inv_def list_all_iff)
  qed
  have msgs: "list_all (msg_right X rules 0 ?t) (y_msgs y)"
  proof -
    have "msg_ok ?s m \<Longrightarrow> msg_right X rules 0 ?t m" for m by (cases m) (auto simp: S)
    then show ?thesis using assms(1) by (auto simp: sys_inv_def list_all_iff)
  qed
  have "0 < st_batch ?t" using assms(1) by (simp add: S sys_inv_def store_inv_def rows_ok_def)
  moreover have "epoch_ok X ?t" "ctx_fresh ?t" using assms(2,3) by (simp_all add: ctx_fresh_Clear)
  moreover have "ctx_live ?t" by (simp add: ctx_live_def S)
  ultimately show ?thesis
    using assms(4,5) jobs msgs by (simp add: pass_inv_def pass_ok_def rests_def S)
qed

lemma epoch_reach: "reach X (sys_init identity batch) y \<Longrightarrow> epoch_ok X (y_store y)"
proof (induction rule: reach.induct)
  case (reach_step y z)
  then show ?case by (auto intro: epoch_step)
qed (simp add: sys_init_def NewLogStore_def epoch_ok_def newCache_def)

definition all_arrived :: "('q, 'c) sys \<Rightarrow> bool" where
  "all_arrived y \<longleftrightarrow> \<not> st_streaming (y_store y)
     \<and> list_all (\<lambda>j. case j of FilterJob i ep cx crs off es bs \<Rightarrow> False | _ \<Rightarrow> True) (st_jobs (y_store y))
     \<and> list_all (\<lambda>m. case m of FilterMsg fm \<Rightarrow> False | _ \<Rightarrow> True) (y_msgs y)"

lemma pass_complete:
  assumes "pass_inv X rules y" "all_arrived y"
  shows "st_filtered (y_store y) = {i. i < st_logCount (y_store y) \<and> hides X rules (y_store y) i}"
proof -
  let ?s = "y_store y"
  have "st_pending ?s = 0" "pass_ok X rules (st_logCount ?s - st_pending ?s) ?s (y_msgs y)"
    using assms by (auto simp: pass_inv_def rests_def all_arrived_def)
  then have ok: "pass_ok X rules (st_logCount ?s) ?s (y_msgs y)" by simp
  have no: "\<not> list_ex (job_covers ?s i) (st_jobs ?s)" "\<not> list_ex (msg_covers ?s i) (y_msgs y)" for i
  proof -
    have "\<not> job_covers ?s i j" if "case j of FilterJob i ep cx crs off es bs \<Rightarrow> False | _ \<Rightarrow> True" for j
      using that by (cases j) simp_all
    then show "\<not> list_ex (job_covers ?s i) (st_jobs ?s)"
      using assms(2) unfolding all_arrived_def list_all_iff list_ex_iff by blast
    have "\<not> msg_covers ?s i m" if "case m of FilterMsg fm \<Rightarrow> False | _ \<Rightarrow> True" for m
      using that by (cases m) simp_all
    then show "\<not> list_ex (msg_covers ?s i) (y_msgs y)"
      using assms(2) unfolding all_arrived_def list_all_iff list_ex_iff by blast
  qed
  have "st_filtered ?s \<subseteq> {..<st_logCount ?s}" "\<And>i. i < st_logCount ?s \<Longrightarrow> i \<in> st_filtered ?s \<longleftrightarrow> hides X rules ?s i"
    using ok no unfolding pass_ok_def by blast+
  then show ?thesis by auto
qed

lemma set_flags_map: "set_flags (map (\<lambda>i. (i, P i)) [0..<n]) {} = {i. i < n \<and> P i}"
  by (induction n) (auto simp: set_flags_def less_Suc_eq idx_Set_def)

lemma ApplyFilters_filtered:
  assumes "epoch_ok X s" "no_deadline X"
  shows "st_filtered (ApplyFilters X M s) = {i. i < st_logCount s \<and> hides X (mgr_filters M) s i}"
proof -
  let ?s1 = "s\<lparr>st_filterEpoch := Suc (st_filterEpoch s), st_filtered := {}, st_appliedFilters := mgr_filters M\<rparr>"
  have "epoch_ok X ?s1" using assms(1) by simp
  then have c: "snd (compiledFilterRules X (mgr_filters M) ?s1) = compileRules X (mgr_filters M)"
    by (rule serve_filter [THEN conjunct1])
  have e: "\<not> hides X (mgr_filters M) s i" if "mgr_filters M = [] \<or> compileRules X (mgr_filters M) = []" for i
  proof -
    have "compileRules X (mgr_filters M) = []" using that by (auto simp: compileRules_def)
    then show ?thesis by (simp add: hides_def)
  qed
  have h: "hideEntry X (Active a) (st_width s) (compileRules X (mgr_filters M)) (st_logs s ! i) (i \<in> st_expanded s)
      = hides X (mgr_filters M) s i" for a i
    by (simp only: hides_def hideEntry_active [OF assms(2), of a])
  have "compileRules X (mgr_filters M) = [] \<Longrightarrow> {i. i < st_logCount s \<and> hides X (mgr_filters M) s i} = {}"
    using e by blast
  moreover have "mgr_filters M = [] \<Longrightarrow> {i. i < st_logCount s \<and> hides X (mgr_filters M) s i} = {}"
    using e by blast
  ultimately show ?thesis
    by (simp add: ApplyFilters_def Let_def c set_flags_map h markFilteredTotalDirty_def cong: if_cong)
qed

text \<open>
  C1: The asynchronous filter pass equals the synchronous one. Start a fetch in any reachable state in which no jq query is
  set, and let the stream arrive cut into messages in any way, workers run and chunks be delivered in any order, searches be
  made meanwhile, under one set of rules, one width and no expansion, and with a jq library that gives a filter the same answer
  whatever its context as long as that is live: when the stream is done and every filter chunk has arrived, the hidden rows are
  exactly those a recomputation over the whole store would hide, each row having been decided by the chunk that covers it.
\<close>

theorem async_filter_pass_is_ApplyFilters:
  assumes "0 < batch" "reach X (sys_init identity batch) y" "no_deadline X"
    and "mgr_jq (y_mgr y) = []" "mgr_filters (y_mgr y) = rules"
    and "(stream_step X rules)\<^sup>*\<^sup>* (y\<lparr>y_store := loop_event X (y_mgr y) (EvFetch cap) (y_store y)\<rparr>) z"
    and "all_arrived z"
  shows "st_filtered (y_store z) = st_filtered (ApplyFilters X (y_mgr z) (y_store z))"
proof -
  have "sys_inv y" using reach_inv [OF assms(2) init_inv [OF assms(1)]] by simp
  then have "pass_inv X rules (y\<lparr>y_store := loop_event X (y_mgr y) (EvFetch cap) (y_store y)\<rparr>)"
    using pass_start ctx_fresh_reach [OF assms(2)] epoch_reach [OF assms(2)] assms(4,5) by blast
  with assms(6) have z: "pass_inv X rules z"
    by (induction rule: rtranclp_induct) (auto intro: pass_step assms(3))
  then have "epoch_ok X (y_store z)" "mgr_filters (y_mgr z) = rules"
    by (auto simp: pass_inv_def pass_ok_def)
  then show ?thesis
    using pass_complete [OF z assms(7)] ApplyFilters_filtered [OF _ assms(3)] by metis
qed

text \<open>A run with one log and one rule that hides it.\<close>

definition pass_rules :: "rule list" where
  "pass_rules = [\<lparr>r_type = Exclude, r_value = [48]\<rparr>]"

definition pass_mgr :: manager where
  "pass_mgr = mgr_New\<lparr>mgr_filters := pass_rules\<rparr>"

definition pass_s1 :: "(gostr, gostr) store" where
  "pass_s1 = StartStream 1 (Clear (NewLogStore [] 1))"

definition pass_s2 :: "(gostr, gostr) store" where
  "pass_s2 = fst (HandleLogStreamMsg demo_ext pass_mgr \<lparr>sm_ID = 2, sm_Logs = [demo_log], sm_Errs = []\<rparr> pass_s1)"

definition pass_s3 :: "(gostr, gostr) store" where
  "pass_s3 = HandleLogStreamDoneMsg demo_ext pass_mgr 2 [] pass_s2"

definition pass_job :: "(gostr, gostr) job" where
  "pass_job = FilterJob 2 1 1 (compileRules demo_ext pass_rules) 0 [newEntry demo_log] [False]"

definition pass_fm :: filter_chunk_msg where
  "pass_fm = \<lparr>fm_Instance = [], fm_ID = 2, fm_Epoch = 1, fm_Offset = 0, fm_Hidden = [True], fm_Err = None\<rparr>"

definition pass_s4 :: "(gostr, gostr) store" where
  "pass_s4 = fst (HandleFilterChunk pass_fm (pass_s3\<lparr>st_jobs := []\<rparr>))"

lemma pass_s3_eval:
  "st_jobs pass_s3 = [pass_job]" "st_identity pass_s3 = []" "st_cancelled pass_s3 = {}" "st_streaming pass_s3 = False"
  "st_width pass_s3 = 0" "st_streaming pass_s1" "st_streaming pass_s2"
  by code_simp+

lemma pass_s4_eval: "st_jobs pass_s4 = []" "st_streaming pass_s4 = False" "st_filtered pass_s4 = {0}"
  by code_simp+

lemma pass_worker: "filter_worker demo_ext (Active 1) 0 [] 2 1 (compileRules demo_ext pass_rules) 0 [newEntry demo_log] [False] = pass_fm"
  by code_simp

theorem async_filter_pass_is_ApplyFilters_witness:
  "st_filtered pass_s4 = {0} \<and> st_filtered pass_s4 = st_filtered (ApplyFilters demo_ext pass_mgr pass_s4)"
proof -
  let ?S = "stream_step demo_ext pass_rules"
  let ?y = "(sys_init [] 1)\<lparr>y_mgr := pass_mgr\<rparr> :: (gostr, gostr) sys"
  let ?at = "\<lambda>s ms. \<lparr>y_mgr = pass_mgr, y_store = s, y_msgs = ms\<rparr> :: (gostr, gostr) sys"
  have "?S (?at pass_s1 []) (?at pass_s2 [])"
    using ss_msg [of "?at pass_s1 []" demo_ext pass_rules "\<lparr>sm_ID = 2, sm_Logs = [demo_log], sm_Errs = []\<rparr>"]
    by (simp add: pass_s3_eval pass_s2_def)
  moreover have "?S (?at pass_s2 []) (?at pass_s3 [])"
    using ss_done [of "?at pass_s2 []" demo_ext pass_rules 2 "[]"] by (simp add: pass_s3_eval pass_s3_def)
  moreover have "runs demo_ext pass_s3 pass_job (FilterMsg pass_fm)"
    using run_filter [of demo_ext pass_s3 2 1 1 "compileRules demo_ext pass_rules" 0 "[newEntry demo_log]" "[False]"]
    by (simp add: pass_job_def observe_def pass_s3_eval pass_worker [simplified])
  then have "?S (?at pass_s3 []) (?at (pass_s3\<lparr>st_jobs := []\<rparr>) [FilterMsg pass_fm])"
    using ss_work [of pass_job "?at pass_s3 []" demo_ext "FilterMsg pass_fm" pass_rules] by (simp add: pass_s3_eval)
  moreover have "?S (?at (pass_s3\<lparr>st_jobs := []\<rparr>) [FilterMsg pass_fm]) (?at pass_s4 [])"
    using ss_deliver [of "FilterMsg pass_fm" "?at (pass_s3\<lparr>st_jobs := []\<rparr>) [FilterMsg pass_fm]" demo_ext pass_rules]
    by (simp add: pass_s4_def)
  ultimately have run: "?S\<^sup>*\<^sup>* (?at pass_s1 []) (?at pass_s4 [])"
    by (meson converse_rtranclp_into_rtranclp rtranclp.rtrancl_refl)
  have "?y\<lparr>y_store := loop_event demo_ext (y_mgr ?y) (EvFetch 1) (y_store ?y)\<rparr> = ?at pass_s1 []"
    by (simp only: loop_event.simps sys.simps sys_init_def pass_s1_def)
  moreover have "reach demo_ext (sys_init [] 1) ?y" by (rule reach_step [OF reach_refl step_user])
  moreover have "no_deadline demo_ext" by (simp add: no_deadline_def demo_ext_def)
  moreover have "all_arrived (?at pass_s4 [])" by (simp add: all_arrived_def pass_s4_eval)
  ultimately show ?thesis
    using async_filter_pass_is_ApplyFilters [of 1 demo_ext "[]" ?y pass_rules 1 "?at pass_s4 []"] run
    by (simp add: pass_mgr_def mgr_New_def pass_s4_eval)
qed

end
