(* ===== verification/Logstore_Edge.thy ===== *)
theory Logstore_Edge
  imports Logstore_Pass
begin

text \<open>
  Two behaviours of the store at the edges of what \<open>Logstore_Pass\<close> assumes: a
  jq application in the middle of a stream, in general (\<open>ApplyJQ\<close> drops the count of pending rows, and the
  next batch no longer starts at a chunk boundary), and, on a concrete run, a filter pass under a cancelled context
  (\<open>ApplyJQ\<close> cancels the filter context but keeps it for the passes that follow).
\<close>

section \<open>jq in the middle of a stream\<close>

text \<open>Three logs in chunks of two; the query is applied after the first has arrived.\<close>

definition edge_log :: "nat \<Rightarrow> log" where
  "edge_log n = demo_log\<lparr>l_data := JMap [([120], JStr [n])]\<rparr>"

definition edge_s1 :: "(gostr, gostr) store" where
  "edge_s1 = fst (HandleLogStreamMsg demo_ext mgr_New \<lparr>sm_ID = 2, sm_Logs = [edge_log 97], sm_Errs = []\<rparr>
     (StartStream 3 (Clear (NewLogStore [] 2))))"

definition edge_s2 :: "(gostr, gostr) store" where
  "edge_s2 = fst (HandleLogStreamMsg demo_ext demo_mgr
     \<lparr>sm_ID = 2, sm_Logs = [edge_log 98, edge_log 99], sm_Errs = []\<rparr> (ApplyJQ demo_ext demo_mgr edge_s1))"

lemma edge_jobs:
  "st_jobs edge_s2 = [JQJob 2 1 [120] 0 [JMap [([120], JStr [97])]],
                      JQJob 2 2 [120] 0 [JMap [([120], JStr [98])], JMap [([120], JStr [99])]]]"
  "st_pending edge_s2 = 0" "st_logCount edge_s2 = 3"
  by code_simp+

text \<open>
  Both workers are for chunk 0: the second, for rows 1 and 2, writes its outputs over rows 0 and 1,
  and no worker is left for row 2.
\<close>

definition edge_msg :: "gostr list \<Rightarrow> jq_chunk_msg" where
  "edge_msg rs = \<lparr>jm_Instance = [], jm_ID = 2, jm_Offset = 0, jm_Results = map JStr rs, jm_Err = None\<rparr>"

lemma edge_workers:
  "jq_worker demo_ext (\<lambda>k. False) (Active 1) [] 2 [120] 0 [JMap [([120], JStr [97])]] = edge_msg [[97]]"
  "jq_worker demo_ext (\<lambda>k. False) (Active 2) [] 2 [120] 0 [JMap [([120], JStr [98])], JMap [([120], JStr [99])]]
     = edge_msg [[98], [99]]"
  by code_simp+

lemma cancel_ctx_rows [simp]:
  "st_logCount (cancel_ctx c s) = st_logCount s" "st_batch (cancel_ctx c s) = st_batch s" "st_queryID (cancel_ctx c s) = st_queryID s"
  "st_pending (cancel_ctx c s) = st_pending s"
  by (simp_all add: cancel_ctx_def split: option.split)

lemma fold_spawnJQ_spawns: "only_spawns s (fold (\<lambda>(k, f, c). spawnJQ cx q k f c) cs s)"
proof (induction cs arbitrary: s)
  case (Cons x cs)
  obtain k f c where "x = (k, f, c)" by (cases x)
  then show ?case using only_spawns_trans [OF spawnJQ_spawns Cons.IH] by simp
qed (simp add: only_spawns_refl)

lemma ApplyJQ_rows:
  "st_pending (ApplyJQ X M s) = 0" "st_logCount (ApplyJQ X M s) = st_logCount s" "st_batch (ApplyJQ X M s) = st_batch s"
  by (simp_all add: ApplyJQ_def Let_def clear_outputs_def cancelAndNil_filter_def only_spawns_frame [OF fold_spawnJQ_spawns]
      split: sum.split)

lemma dispatch_batch_job:
  assumes "mgr_jq M \<noteq> []" "snd (parsedJQ X (mgr_jq M) t) = Inr q"
  shows "\<exists>cx. JQJob (st_queryID t) cx q ((st_logCount t - st_pending t) div st_batch t)
      (map e_data (batch_logs (st_logCount t - st_pending t) count t)) \<in> set (st_jobs (fst (dispatch_batch X M ac count t)))"
  using assms by (auto simp: dispatch_batch_def Let_def spawnJQ_def spawn_def batch_logs_def)

text \<open>
  C36: Applying jq in the middle of a stream misplaces outputs, whenever the rows so far are no whole number of chunks:
  \<open>ApplyJQ\<close> forgets the rows that wait for their chunk to fill, so the next batch of the stream starts at the first new row
  but is numbered, and written back, as the chunk that this row lies in. Its outputs land on the rows from the start of that
  chunk: the output of the first new row on one that was there before, and that of each row on the one \<open>n mod batch\<close> above it.
\<close>

theorem midstream_ApplyJQ_misplaces_outputs:
  assumes "n = st_logCount s" "0 < st_batch s" "n mod st_batch s \<noteq> 0"
    and "st_batch t = st_batch s" "st_logCount t = n + p" "st_pending t = st_pending (ApplyJQ X M s) + p"
    and "mgr_jq M \<noteq> []" "snd (parsedJQ X (mgr_jq M) t) = Inr q"
    and "st_batch u = st_batch s" "n + st_batch s \<le> st_logCount u" "st_logCount u \<le> length (st_logs u)"
    and "jm = \<lparr>jm_Instance = st_identity u, jm_ID = st_queryID u, jm_Offset = n div st_batch s, jm_Results = rs, jm_Err = None\<rparr>"
    and "length rs = st_batch s"
  shows "(\<exists>cx. JQJob (st_queryID t) cx q (n div st_batch s) (map e_data (batch_logs n (st_batch s) t))
        \<in> set (st_jobs (fst (dispatch_batch X M ac (st_batch s) t))))
    \<and> (\<forall>k < st_batch s. e_modified (st_logs (fst (HandleJQChunk X M' jm u)) ! (n + k - n mod st_batch s)) = rs ! k)
    \<and> n - n mod st_batch s < n"
proof (intro conjI allI impI)
  have "st_logCount t - st_pending t = n" using assms(5,6) by (simp add: ApplyJQ_rows)
  then show "\<exists>cx. JQJob (st_queryID t) cx q (n div st_batch s) (map e_data (batch_logs n (st_batch s) t))
      \<in> set (st_jobs (fst (dispatch_batch X M ac (st_batch s) t)))"
    using dispatch_batch_job [OF assms(7,8), of "st_batch s" ac] assms(4) by simp
next
  fix k assume k: "k < st_batch s"
  have o: "n div st_batch s * st_batch s = n - n mod st_batch s" by (simp add: minus_mod_eq_div_mult)
  have le: "n mod st_batch s \<le> n" by simp
  then have fit: "n div st_batch s * st_batch s + length rs \<le> st_logCount u" using assms(10,13) unfolding o by linarith
  have "st_logs (fst (HandleJQChunk X M' jm u)) = write_outputs (n div st_batch s * st_batch s) rs (st_logs u)"
    using fit assms(9) unfolding assms(12)
    by (simp add: HandleJQChunk_def Let_def new_filterCtx_def cancelAndNil_jq_def cancel_ctx_def split: option.split)
  moreover have "n + k - n mod st_batch s = n div st_batch s * st_batch s + k" unfolding o using le by simp
  ultimately show "e_modified (st_logs (fst (HandleJQChunk X M' jm u)) ! (n + k - n mod st_batch s)) = rs ! k"
    using k fit assms(11,13) by (simp add: write_outputs_nth)
next
  show "n - n mod st_batch s < n"
    using assms(3) by (metis diff_less gr0I mod_less_eq_dividend not_less le_zero_eq)
qed

text \<open>Three logs in chunks of two, the query applied after the first: the second row gets the output of the third.\<close>

definition edge_t :: "(gostr, gostr) store" where
  "edge_t = (case put_rows [edge_log 98, edge_log 99] None 0 (ApplyJQ demo_ext demo_mgr edge_s1) of
     (s, root, added) \<Rightarrow> s\<lparr>st_pending := st_pending s + added\<rparr>)"

lemma edge_t_eval:
  "st_logCount edge_s1 = 1" "st_batch edge_s1 = 2" "st_batch edge_t = 2" "st_logCount edge_t = 3" "st_pending edge_t = 2"
  "mgr_jq demo_mgr \<noteq> []" "snd (parsedJQ demo_ext (mgr_jq demo_mgr) edge_t) = Inr [120]"
  "st_batch edge_s2 = 2" "st_logCount edge_s2 = 3" "length (st_logs edge_s2) = 3" "st_identity edge_s2 = []" "st_queryID edge_s2 = 2"
  by code_simp+

theorem midstream_ApplyJQ_misplaces_outputs_witness:
  "e_modified (st_logs (fst (HandleJQChunk demo_ext demo_mgr (edge_msg [[98], [99]]) edge_s2)) ! 1) = JStr [99]"
proof -
  have "1 < (2 :: nat)" "1 + 1 - 1 mod 2 = (1 :: nat)" by simp_all
  then show ?thesis
    using midstream_ApplyJQ_misplaces_outputs [of 1 edge_s1 edge_t 2 demo_ext demo_mgr "[120]" edge_s2 "edge_msg [[98], [99]]"
        "[JStr [98], JStr [99]]" "[]" demo_mgr]
    by (simp add: edge_t_eval ApplyJQ_rows edge_msg_def)
qed

section \<open>Filtering under a cancelled context\<close>

text \<open>
  The jq library checks its context before every step, so a run under a cancelled one gives that
  error first. The instance below does.
\<close>

definition ctx_ext :: "(gostr, gostr) ext" where
  "ctx_ext = demo_ext\<lparr>x_run_code := \<lambda>cx q v. case cx of
       Cancelled \<Rightarrow> [Failure (str ''context canceled'')]
     | Active n \<Rightarrow> [Out (case v of JMap kvs \<Rightarrow> (case map_of kvs q of Some x \<Rightarrow> x | None \<Rightarrow> JNil) | _ \<Rightarrow> JNil)]\<rparr>"

definition field_mgr :: manager where
  "field_mgr = mgr_New\<lparr>mgr_filters := [\<lparr>r_type = HasField, r_value = [120]\<rparr>]\<rparr>"

text \<open>A log that has the field is streamed under the rule; then a jq query is applied and its output delivered.\<close>

definition ctx_s1 :: "(gostr, gostr) store" where
  "ctx_s1 = HandleLogStreamDoneMsg ctx_ext field_mgr 2 []
     (fst (HandleLogStreamMsg ctx_ext field_mgr \<lparr>sm_ID = 2, sm_Logs = [edge_log 97], sm_Errs = []\<rparr>
       (StartStream 1 (Clear (NewLogStore [] 1)))))"

definition ctx_s2 :: "(gostr, gostr) store" where
  "ctx_s2 = fst (HandleJQChunk ctx_ext (field_mgr\<lparr>mgr_jq := [120]\<rparr>) (edge_msg [[97]])
     (ApplyJQ ctx_ext (field_mgr\<lparr>mgr_jq := [120]\<rparr>) ctx_s1))"

text \<open>
  After \<open>ApplyJQ\<close> a filter worker can work under a cancelled context: the worker spawned for the new
  output has the cancelled parent, and its chunk, which is current, hides the row that the synchronous pass keeps.
\<close>

theorem filter_after_ApplyJQ_is_cancelled:
  "job_ctx (last (st_jobs ctx_s2)) \<in> st_cancelled ctx_s2
   \<and> (case last (st_jobs ctx_s2) of
        FilterJob i ep cx crs off es bs \<Rightarrow>
          fm_Hidden (filter_worker ctx_ext (observe ctx_s2 cx) 0 [] i ep crs off es bs) = [True]
          \<and> ep = st_filterEpoch ctx_s2 \<and> i = st_queryID ctx_s2
      | _ \<Rightarrow> False)
   \<and> st_filtered (ApplyFilters ctx_ext (field_mgr\<lparr>mgr_jq := [120]\<rparr>) ctx_s2) = {}"
proof (intro conjI)
  show "job_ctx (last (st_jobs ctx_s2)) \<in> st_cancelled ctx_s2" by code_simp
  show "case last (st_jobs ctx_s2) of
        FilterJob i ep cx crs off es bs \<Rightarrow>
          fm_Hidden (filter_worker ctx_ext (observe ctx_s2 cx) 0 [] i ep crs off es bs) = [True]
          \<and> ep = st_filterEpoch ctx_s2 \<and> i = st_queryID ctx_s2
      | _ \<Rightarrow> False" by code_simp
  show "st_filtered (ApplyFilters ctx_ext (field_mgr\<lparr>mgr_jq := [120]\<rparr>) ctx_s2) = {}" by code_simp
qed

end
