(* ===== verification/Container.thy ===== *)
theory Container
  imports Prelude "HOL-Library.Word" "HOL-Library.Sublist"
begin

text \<open>
  The snapshot file format, \<^verbatim>\<open>internal/snapshot/container.go\<close>: a magic header, a version and a
  sequence of named frames. The model has the reader (a file and a position), the frame index the
  parser builds, the writer with its buffer, and the file that a series of appends leaves behind. An
  append may fail after any number of bytes have reached the disk.
\<close>

type_synonym byte = "8 word"
type_synonym bytes = "byte list"

section \<open>Constants and errors\<close>

definition CurrentFileVersion :: "32 word" where "CurrentFileVersion = 1"
definition maxFrameBytes :: "32 word" where "maxFrameBytes = 2 ^ 30"
definition supportedVersions :: "32 word \<Rightarrow> bool" where "supportedVersions v \<longleftrightarrow> v = 1"

definition magic :: bytes where "magic = [176, 76, 79, 71, 78, 65, 86, 233]"

datatype c_error =
    ErrInvalidFileMagic | ErrUnsupportedVersion "32 word" | ErrFrameDoesNotExist
  | EOF | UnexpectedEOF
  | FrameTooLarge bytes "32 word" | ContentTooLarge bytes nat
  | NotWritable | FrameExists bytes | NameTooLong nat | WriteFailed bytes
  | NilReader

definition checkFrameSize :: "bytes \<Rightarrow> nat \<Rightarrow> c_error option" where
  "checkFrameSize name n = (if n > unat maxFrameBytes then Some (ContentTooLarge name n) else None)"

section \<open>Big-endian integers\<close>

definition append_uint16 :: "16 word \<Rightarrow> bytes" where
  "append_uint16 v = [of_nat (unat v div 2 ^ 8), of_nat (unat v)]"

definition append_uint32 :: "32 word \<Rightarrow> bytes" where
  "append_uint32 v = [of_nat (unat v div 2 ^ 24), of_nat (unat v div 2 ^ 16), of_nat (unat v div 2 ^ 8), of_nat (unat v)]"

definition be_uint :: "bytes \<Rightarrow> nat" where
  "be_uint bs = fold (\<lambda>b n. n * 256 + unat b) bs 0"

section \<open>Reading\<close>

text \<open>
  \<^verbatim>\<open>io.ReadFull\<close> of \<open>n\<close> bytes from position \<open>pos\<close> of a file: all of them with the new
  position, \<open>EOF\<close> when none is left, \<open>UnexpectedEOF\<close> when only some are.
\<close>

definition ReadFull :: "nat \<Rightarrow> bytes \<Rightarrow> nat \<Rightarrow> c_error + bytes \<times> nat" where
  "ReadFull n file pos =
     (if pos + n \<le> length file \<or> n = 0 then Inr (take n (drop pos file), pos + n)
      else if length file \<le> pos then Inl EOF
      else Inl UnexpectedEOF)"

definition unexpectEOF :: "c_error \<Rightarrow> c_error" where
  "unexpectEOF e = (if e = EOF then UnexpectedEOF else e)"

definition readUint16 :: "bytes \<Rightarrow> nat \<Rightarrow> c_error + 16 word \<times> nat" where
  "readUint16 file pos = (case ReadFull 2 file pos of Inl e \<Rightarrow> Inl e | Inr (buf, p) \<Rightarrow> Inr (of_nat (be_uint buf), p))"

definition readUint32 :: "bytes \<Rightarrow> nat \<Rightarrow> c_error + 32 word \<times> nat" where
  "readUint32 file pos = (case ReadFull 4 file pos of Inl e \<Rightarrow> Inl e | Inr (buf, p) \<Rightarrow> Inr (of_nat (be_uint buf), p))"

definition checkHeader :: "bytes \<Rightarrow> nat \<Rightarrow> c_error + nat" where
  "checkHeader file pos =
     (case ReadFull (length magic) file pos of
        Inl _ \<Rightarrow> Inl ErrInvalidFileMagic
      | Inr (buf, p) \<Rightarrow> if buf \<noteq> magic then Inl ErrInvalidFileMagic else Inr p)"

definition VerifyFileMagic :: "bytes \<Rightarrow> c_error option" where
  "VerifyFileMagic file = (case checkHeader file 0 of Inl e \<Rightarrow> Some e | Inr _ \<Rightarrow> None)"

definition readFrameHeader :: "bytes \<Rightarrow> nat \<Rightarrow> c_error + bytes \<times> 32 word \<times> nat" where
  "readFrameHeader file pos =
     (case readUint16 file pos of
        Inl e \<Rightarrow> Inl e
      | Inr (nameLength, p1) \<Rightarrow>
         (case ReadFull (unat nameLength) file p1 of
            Inl e \<Rightarrow> Inl (unexpectEOF e)
          | Inr (name, p2) \<Rightarrow>
             (case readUint32 file p2 of
                Inl e \<Rightarrow> Inl (unexpectEOF e)
              | Inr (frameLength, p3) \<Rightarrow>
                  if frameLength > maxFrameBytes then Inl (FrameTooLarge name frameLength)
                  else Inr (name, frameLength, p3))))"

record frame =
  f_offset :: nat
  f_size :: "32 word"

lemma ReadFull_pos:
  "ReadFull n file pos = Inr (bs, p) \<Longrightarrow> p = pos + n \<and> length bs = n \<and> (n = 0 \<or> p \<le> length file)"
  by (auto simp: ReadFull_def split: if_splits)

lemma readFrameHeader_pos:
  assumes "readFrameHeader file pos = Inr (name, len, p)"
  shows "p = pos + 6 + length name" "p \<le> length file" "len \<le> maxFrameBytes" "length name < 2 ^ 16"
  using assms unsigned_less [where 'b = 16 and 'a = nat]
  by (auto simp: readFrameHeader_def readUint16_def readUint32_def not_less simp del: length_greater_0_conv
           dest!: ReadFull_pos split: sum.splits if_splits)

lemma readFrameHeader_pos':
  "readFrameHeader file pos = Inr (name, len, p) \<Longrightarrow> pos < p \<and> p \<le> length file"
  using readFrameHeader_pos(1,2) by fastforce

text \<open>
  The scan over the frames. \<open>pos\<close> is the reader's position and \<open>cur\<close> the offset the code counts
  beside it; the map keeps the last frame of a name, the list every name read.
\<close>

function readFramePointers ::
  "bool \<Rightarrow> bytes \<Rightarrow> nat \<Rightarrow> nat \<Rightarrow> nat \<Rightarrow> (bytes \<rightharpoonup> frame) \<Rightarrow> bytes list \<Rightarrow> c_error + (bytes \<rightharpoonup> frame) \<times> bytes list" where
  "readFramePointers lenient file fileSize pos cur framePointers orderedNames =
     (case readFrameHeader file pos of
        Inl e \<Rightarrow>
          if e = EOF then Inr (framePointers, orderedNames)
          else if lenient then Inr (framePointers, orderedNames)
          else Inl e
      | Inr (name, frameLength, p) \<Rightarrow>
          let nameLength = (of_nat (length name) :: 16 word);
              dataOffset = cur + 2 + unat nameLength + 4
          in if dataOffset + unat frameLength > fileSize then
               if lenient then Inr (framePointers, orderedNames) else Inl UnexpectedEOF
             else readFramePointers lenient file fileSize (p + unat frameLength) (dataOffset + unat frameLength)
                    (framePointers(name \<mapsto> \<lparr>f_offset = dataOffset, f_size = frameLength\<rparr>)) (orderedNames @ [name]))"
  by pat_completeness auto
termination
  by (relation "measure (\<lambda>(l, file, sz, pos, cur, m, ns). length file - pos)")
     (auto dest!: readFrameHeader_pos')

declare readFramePointers.simps [simp del]

definition parseContainerWithOpts ::
  "bool \<Rightarrow> bytes \<Rightarrow> c_error + 32 word \<times> (bytes \<rightharpoonup> frame) \<times> bytes list \<times> nat" where
  "parseContainerWithOpts lenient file =
     (case checkHeader file 0 of
        Inl e \<Rightarrow> Inl e
      | Inr p \<Rightarrow>
         (case readUint32 file p of
            Inl e \<Rightarrow> Inl (unexpectEOF e)
          | Inr (version, _) \<Rightarrow>
              if \<not> supportedVersions version then Inl (ErrUnsupportedVersion version)
              else
                let size = length file; startOffset = length magic + 4
                in case readFramePointers lenient file size startOffset startOffset Map.empty [] of
                     Inl e \<Rightarrow> Inl e
                   | Inr (frames, orderedNames) \<Rightarrow> Inr (version, frames, orderedNames, length file)))"

section \<open>The container\<close>

text \<open>
  \<open>c_writer\<close> is the buffered, unwritten output (\<open>None\<close> is a nil writer), \<open>c_readable\<close> whether
  there is a reader. The bytes the file itself holds are a separate value.
\<close>

record container =
  c_readable :: bool
  c_writer :: "bytes option"
  c_offset :: nat
  c_version :: "32 word"
  c_frames :: "bytes \<rightharpoonup> frame"
  c_orderedNames :: "bytes list"

definition newFileHeader :: bytes where
  "newFileHeader = magic @ append_uint32 CurrentFileVersion"

definition NewWriter :: container where
  "NewWriter = \<lparr>c_readable = False, c_writer = Some newFileHeader, c_offset = length newFileHeader,
     c_version = CurrentFileVersion, c_frames = Map.empty, c_orderedNames = []\<rparr>"

definition OpenContainerReadOnlyWithOpts :: "bool \<Rightarrow> bytes \<Rightarrow> c_error + container" where
  "OpenContainerReadOnlyWithOpts lenient file =
     (case parseContainerWithOpts lenient file of
        Inl e \<Rightarrow> Inl e
      | Inr (version, frames, orderedNames, offset) \<Rightarrow>
          Inr \<lparr>c_readable = True, c_writer = None, c_offset = offset, c_version = version,
               c_frames = frames, c_orderedNames = orderedNames\<rparr>)"

definition OpenContainerReadOnly :: "bytes \<Rightarrow> c_error + container" where
  "OpenContainerReadOnly = OpenContainerReadOnlyWithOpts False"

definition ReadFrame :: "container \<Rightarrow> bytes \<Rightarrow> bytes \<Rightarrow> c_error + bytes" where
  "ReadFrame c file name =
     (case c_frames c name of
        None \<Rightarrow> Inl ErrFrameDoesNotExist
      | Some fp \<Rightarrow>
          if \<not> c_readable c then Inl NilReader
          else if unat (f_size fp) = 0 \<or> f_offset fp + unat (f_size fp) \<le> length file
          then Inr (take (unat (f_size fp)) (drop (f_offset fp) file))
          else Inl EOF)"

definition GetFrameNames :: "container \<Rightarrow> bytes list" where "GetFrameNames c = c_orderedNames c"

text \<open>The bytes of one frame, as \<^verbatim>\<open>AppendFrame\<close> lays them out.\<close>

definition frame_bytes :: "bytes \<Rightarrow> bytes \<Rightarrow> bytes" where
  "frame_bytes name content =
     append_uint16 (of_nat (length name)) @ name @ append_uint32 (of_nat (length content)) @ content"

text \<open>
  \<^verbatim>\<open>AppendFrame\<close> on a container and the file it writes to. \<open>torn\<close> is the outcome of the buffered
  write and the flush: \<open>None\<close> when all bytes reach the file, \<open>Some k\<close> when an error stops them after
  \<open>k\<close> bytes.
\<close>

definition AppendFrame ::
  "nat option \<Rightarrow> bytes \<Rightarrow> bytes \<Rightarrow> container \<times> bytes \<Rightarrow> c_error option \<times> container \<times> bytes" where
  "AppendFrame torn name content st = (case st of (c, file) \<Rightarrow>
     (case c_writer c of
        None \<Rightarrow> (Some NotWritable, c, file)
      | Some pending \<Rightarrow>
          if c_frames c name \<noteq> None then (Some (FrameExists name), c, file)
          else if length name > 65535 then (Some (NameTooLong (length name)), c, file)
          else (case checkFrameSize name (length content) of
             Some e \<Rightarrow> (Some e, c, file)
           | None \<Rightarrow>
               let headerSize = 2 + length name + 4; buf = frame_bytes name content
               in case torn of
                    Some k \<Rightarrow> (Some (WriteFailed name), c\<lparr>c_writer := None\<rparr>, file @ take k (pending @ buf))
                  | None \<Rightarrow>
                      (None,
                       c\<lparr>c_writer := Some [],
                         c_frames := (c_frames c)(name \<mapsto> \<lparr>f_offset = c_offset c + headerSize, f_size = of_nat (length content)\<rparr>),
                         c_orderedNames := c_orderedNames c @ [name],
                         c_offset := c_offset c + length buf\<rparr>,
                       file @ pending @ buf))))"

text \<open>\<^verbatim>\<open>Close\<close>: the flush of what is still buffered, with the same outcome parameter.\<close>

definition Close :: "nat option \<Rightarrow> container \<times> bytes \<Rightarrow> c_error option \<times> container \<times> bytes" where
  "Close torn st = (case st of (c, file) \<Rightarrow>
     (case c_writer c of
        None \<Rightarrow> (None, c, file)
      | Some pending \<Rightarrow>
         (case torn of
            Some k \<Rightarrow> (Some (WriteFailed []), c, file @ take k pending)
          | None \<Rightarrow> (None, c\<lparr>c_writer := Some []\<rparr>, file @ pending))))"

end
