(* ===== verification/Container_Correct.thy ===== *)
theory Container_Correct
  imports Container
begin

text \<open>
  What a snapshot file is worth: the parser inverts the writer, a torn write costs only the torn
  frame, and an index built from any bytes at all points inside the file.
\<close>

section \<open>Integers and single reads\<close>

lemma byte_val: "unat (of_nat n :: byte) = n mod 256"
  by (simp add: unat_of_nat)

lemma be_uint16 [simp]: "be_uint (append_uint16 v) = unat v"
proof -
  have lt: "unat v < 65536" using unsigned_less [of v, where 'a = nat] by simp
  have "be_uint (append_uint16 v) = (0 * 256 + unat v div 2 ^ 8 mod 256) * 256 + unat v mod 256"
    by (simp only: be_uint_def append_uint16_def fold_simps byte_val)
  moreover have "unat v div 2 ^ 8 mod 256 = unat v div 256"
    using lt by (simp add: less_mult_imp_div_less)
  moreover have "unat v div 256 * 256 + unat v mod 256 = unat v" by simp
  ultimately show ?thesis by simp
qed

lemma base256: "n < 4294967296 \<Longrightarrow>
    (((0 * 256 + n div 2 ^ 24 mod 256) * 256 + n div 2 ^ 16 mod 256) * 256 + n div 2 ^ 8 mod 256) * 256 + n mod 256 = n"
  for n :: nat
proof -
  assume lt: "n < 4294967296"
  have "n div 2 ^ 16 = n div 256 div 256" "n div 2 ^ 24 = n div 256 div 256 div 256" "n div 2 ^ 8 = n div 256"
    by (simp_all add: div_mult2_eq [symmetric])
  moreover have "n div 256 div 256 div 256 mod 256 = n div 256 div 256 div 256"
    using lt by (simp add: div_mult2_eq [symmetric] less_mult_imp_div_less)
  moreover have "m div 256 * 256 + m mod 256 = m" for m :: nat by simp
  ultimately show ?thesis by simp
qed

lemma be_uint32 [simp]: "be_uint (append_uint32 v) = unat v"
proof -
  have "unat v < 4294967296" using unsigned_less [of v, where 'a = nat] by simp
  then show ?thesis
    by (simp only: be_uint_def append_uint32_def fold_simps byte_val base256)
qed

lemma length_append_uint [simp]: "length (append_uint16 v) = 2" "length (append_uint32 w) = 4"
  by (simp_all add: append_uint16_def append_uint32_def)

lemma ReadFull_app: "pos = length a \<Longrightarrow> n = length b \<Longrightarrow> ReadFull n (a @ b @ r) pos = Inr (b, length a + n)"
  by (simp add: ReadFull_def)

lemma readUint16_app: "pos = length a \<Longrightarrow> readUint16 (a @ append_uint16 v @ r) pos = Inr (v, length a + 2)"
  by (simp add: readUint16_def ReadFull_app)

lemma readUint32_app: "pos = length a \<Longrightarrow> readUint32 (a @ append_uint32 v @ r) pos = Inr (v, length a + 4)"
  by (simp add: readUint32_def ReadFull_app)

lemma ReadFull_short:
  "length a < pos + n \<Longrightarrow> 0 < n \<Longrightarrow> ReadFull n a pos = Inl (if length a \<le> pos then EOF else UnexpectedEOF)"
  by (simp add: ReadFull_def)

section \<open>Frames\<close>

definition valid_frame :: "bytes \<times> bytes \<Rightarrow> bool" where
  "valid_frame f \<longleftrightarrow> length (fst f) \<le> 65535 \<and> length (snd f) \<le> 2 ^ 30"

lemma unat_sizes:
  assumes "valid_frame (n, c)"
  shows "unat (of_nat (length n) :: 16 word) = length n" "unat (of_nat (length c) :: 32 word) = length c"
    "\<not> maxFrameBytes < of_nat (length c)"
  using assms by (simp_all add: valid_frame_def unat_of_nat word_less_nat_alt maxFrameBytes_def)

lemma length_frame_bytes [simp]: "length (frame_bytes n c) = 6 + length n + length c"
  by (simp add: frame_bytes_def)

lemma frame_bytes_neq_Nil [simp]: "frame_bytes n c \<noteq> []"
  using length_frame_bytes [of n c] by (metis add_is_0 list.size(3) zero_neq_numeral)

lemma readFrameHeader_app:
  assumes "valid_frame (n, c)"
  shows "readFrameHeader (a @ frame_bytes n c @ r) (length a) = Inr (n, of_nat (length c), length a + 6 + length n)"
proof -
  let ?l = "of_nat (length n) :: 16 word" and ?s = "of_nat (length c) :: 32 word"
  let ?file = "a @ frame_bytes n c @ r"
  have 1: "readUint16 ?file (length a) = Inr (?l, length a + 2)"
    using readUint16_app [of "length a" a ?l "n @ append_uint32 ?s @ c @ r"] by (simp add: frame_bytes_def)
  have 2: "ReadFull (length n) ?file (length a + 2) = Inr (n, length a + 2 + length n)"
    using ReadFull_app [of "length a + 2" "a @ append_uint16 ?l" "length n" n "append_uint32 ?s @ c @ r"]
    by (simp add: frame_bytes_def)
  have 3: "readUint32 ?file (length a + 2 + length n) = Inr (?s, length a + 6 + length n)"
    using readUint32_app [of "length a + 2 + length n" "a @ append_uint16 ?l @ n" ?s "c @ r"]
    by (simp add: frame_bytes_def)
  show ?thesis
    using unat_sizes [OF assms] by (simp add: readFrameHeader_def 1 2 [simplified] 3 [simplified] del: of_nat_numeral)
qed

text \<open>A header cut short is an error, except when nothing of it is there.\<close>

lemma readFrameHeader_cut:
  assumes "valid_frame (n, c)" "k < 6 + length n"
  shows "readFrameHeader (a @ take k (frame_bytes n c)) (length a) = Inl (if k = 0 then EOF else UnexpectedEOF)"
proof -
  let ?l = "of_nat (length n) :: 16 word" and ?s = "of_nat (length c) :: 32 word"
  let ?file = "a @ take k (frame_bytes n c)"
  have len: "length ?file = length a + k" using assms(2) by simp
  show ?thesis
  proof (cases "k < 2")
    case True
    have "ReadFull 2 ?file (length a) = Inl (if k = 0 then EOF else UnexpectedEOF)"
      using len True by (subst ReadFull_short) auto
    then show ?thesis by (simp add: readFrameHeader_def readUint16_def)
  next
    case False
    then have f2: "?file = a @ append_uint16 ?l @ take (k - 2) (n @ append_uint32 ?s @ c)"
      by (simp add: frame_bytes_def)
    have 1: "readUint16 ?file (length a) = Inr (?l, length a + 2)"
      unfolding f2 by (rule readUint16_app) simp
    show ?thesis
    proof (cases "k < 2 + length n")
      case True
      then have "ReadFull (length n) ?file (length a + 2) = Inl (if k \<le> 2 then EOF else UnexpectedEOF)"
        using len False by (subst ReadFull_short) auto
      with 1 False show ?thesis
        using unat_sizes [OF assms(1)] by (simp add: readFrameHeader_def unexpectEOF_def)
    next
      case ge: False
      then have f3: "?file = (a @ append_uint16 ?l) @ n @ take (k - 2 - length n) (append_uint32 ?s @ c)"
        unfolding f2 by simp
      have 2: "ReadFull (length n) ?file (length a + 2) = Inr (n, length a + 2 + length n)"
        unfolding f3 by (subst ReadFull_app) simp_all
      have 3: "ReadFull 4 ?file (length a + 2 + length n) = Inl (if k \<le> 2 + length n then EOF else UnexpectedEOF)"
        using len assms(2) by (subst ReadFull_short) auto
      show ?thesis
        using unat_sizes [OF assms(1)] 1 2 3 ge False
        by (simp add: readFrameHeader_def readUint32_def unexpectEOF_def)
    qed
  qed
qed

section \<open>The scan\<close>

text \<open>The index of a list of frames that starts at offset \<open>cur\<close>.\<close>

fun index_from :: "nat \<Rightarrow> (bytes \<times> bytes) list \<Rightarrow> (bytes \<rightharpoonup> frame) \<Rightarrow> (bytes \<rightharpoonup> frame)" where
  "index_from cur [] m = m"
| "index_from cur ((n, c) # fs) m =
     index_from (cur + 6 + length n + length c) fs (m(n \<mapsto> \<lparr>f_offset = cur + 6 + length n, f_size = of_nat (length c)\<rparr>))"

definition frames_bytes :: "(bytes \<times> bytes) list \<Rightarrow> bytes" where
  "frames_bytes fs = concat (map (\<lambda>(n, c). frame_bytes n c) fs)"

lemma frames_bytes_simps [simp]:
  "frames_bytes [] = []" "frames_bytes ((n, c) # fs) = frame_bytes n c @ frames_bytes fs"
  "frames_bytes (fs @ gs) = frames_bytes fs @ frames_bytes gs"
  by (simp_all add: frames_bytes_def)

lemma index_from_app:
  "index_from cur (fs @ gs) m = index_from (cur + length (frames_bytes fs)) gs (index_from cur fs m)"
  by (induction fs arbitrary: cur m) (auto simp: algebra_simps)

lemma scan_step:
  assumes "readFrameHeader file pos = Inr (n, l, p)" "cur + 6 + length n + unat l \<le> sz" "length n \<le> 65535"
  shows "readFramePointers lenient file sz pos cur m ns
       = readFramePointers lenient file sz (p + unat l) (cur + 6 + length n + unat l)
           (m(n \<mapsto> \<lparr>f_offset = cur + 6 + length n, f_size = l\<rparr>)) (ns @ [n])"
proof -
  have "unat (of_nat (length n) :: 16 word) = length n"
    using assms(3) by (simp add: unat_of_nat)
  then show ?thesis
    using assms by (subst readFramePointers.simps) (simp add: Let_def ac_simps)
qed

lemma scan_frames:
  assumes "list_all valid_frame fs"
  shows "readFramePointers lenient (a @ frames_bytes fs @ r) (length (a @ frames_bytes fs @ r)) (length a) (length a) m ns
       = readFramePointers lenient (a @ frames_bytes fs @ r) (length (a @ frames_bytes fs @ r))
           (length a + length (frames_bytes fs)) (length a + length (frames_bytes fs))
           (index_from (length a) fs m) (ns @ map fst fs)"
  using assms
proof (induction fs arbitrary: a m ns)
  case (Cons f fs)
  obtain n c where f [simp]: "f = (n, c)" by fastforce
  have v: "valid_frame (n, c)" using Cons.prems by simp
  let ?file = "a @ frames_bytes (f # fs) @ r"
  have split: "?file = (a @ frame_bytes n c) @ frames_bytes fs @ r" by simp
  have hd: "readFrameHeader ?file (length a) = Inr (n, of_nat (length c), length a + 6 + length n)"
    using readFrameHeader_app [OF v, of a "frames_bytes fs @ r"] by simp
  let ?b = "a @ frame_bytes n c"
  let ?m = "m(n \<mapsto> \<lparr>f_offset = length a + 6 + length n, f_size = of_nat (length c)\<rparr>)"
  have "readFramePointers lenient ?file (length ?file) (length a) (length a) m ns
      = readFramePointers lenient ?file (length ?file) (length ?b) (length ?b) ?m (ns @ [n])"
    using v by (subst scan_step [OF hd]) (simp_all add: unat_sizes [OF v] valid_frame_def add.assoc)
  also have "\<dots> = readFramePointers lenient ?file (length ?file) (length ?b + length (frames_bytes fs))
      (length ?b + length (frames_bytes fs)) (index_from (length ?b) fs ?m) ((ns @ [n]) @ map fst fs)"
    unfolding split by (rule Cons.IH) (use Cons.prems in simp)
  finally show ?case by (simp add: add.assoc)
qed simp

text \<open>What stops the scan: the end of the file, or a frame of which only \<open>k\<close> bytes are there.\<close>

lemma scan_end: "readFramePointers lenient a (length a) (length a) (length a) m ns = Inr (m, ns)"
  by (subst readFramePointers.simps) (simp add: readFrameHeader_def readUint16_def ReadFull_short)

lemma scan_cut:
  assumes v: "valid_frame (n, c)" and k: "0 < k" "k < length (frame_bytes n c)"
  shows "readFramePointers lenient (a @ take k (frame_bytes n c)) (length (a @ take k (frame_bytes n c))) (length a) (length a) m ns
       = (if lenient then Inr (m, ns) else Inl UnexpectedEOF)"
proof (cases "k < 6 + length n")
  case True
  from readFrameHeader_cut [OF v this, of a] k show ?thesis
    by (subst readFramePointers.simps) simp
next
  case False
  have "take k (frame_bytes n c) = take (6 + length n) (frame_bytes n c) @ take (k - (6 + length n)) (drop (6 + length n) (frame_bytes n c))"
    using False by (metis le_add_diff_inverse not_less take_add)
  moreover have "take (6 + length n) (frame_bytes n c) = append_uint16 (of_nat (length n)) @ n @ append_uint32 (of_nat (length c))"
    and "drop (6 + length n) (frame_bytes n c) = c"
    by (simp_all add: frame_bytes_def)
  ultimately have cut: "a @ take k (frame_bytes n c)
      = a @ append_uint16 (of_nat (length n)) @ n @ append_uint32 (of_nat (length c)) @ take (k - (6 + length n)) c"
    by simp
  have hd: "readFrameHeader (a @ take k (frame_bytes n c)) (length a) = Inr (n, of_nat (length c), length a + 6 + length n)"
    unfolding cut using v unat_sizes [OF v]
      readUint16_app [of "length a" a "of_nat (length n)" "n @ append_uint32 (of_nat (length c)) @ take (k - (6 + length n)) c"]
      ReadFull_app [of "length a + 2" "a @ append_uint16 (of_nat (length n))" "length n" n "append_uint32 (of_nat (length c)) @ take (k - (6 + length n)) c"]
      readUint32_app [of "length a + 2 + length n" "a @ append_uint16 (of_nat (length n)) @ n" "of_nat (length c)" "take (k - (6 + length n)) c"]
    by (simp add: readFrameHeader_def)
  show ?thesis
    using k hd unat_sizes [OF v] by (subst readFramePointers.simps) (simp add: Let_def)
qed

section \<open>Opening what a writer laid out\<close>

definition layout :: "(bytes \<times> bytes) list \<Rightarrow> bytes" where
  "layout fs = newFileHeader @ frames_bytes fs"

lemma header_bytes: "newFileHeader = magic @ append_uint32 1" "length newFileHeader = 12" "length magic = 8"
  by (simp_all add: newFileHeader_def CurrentFileVersion_def magic_def)

lemma parse_body: "parseContainerWithOpts lenient (newFileHeader @ r) =
    (case readFramePointers lenient (newFileHeader @ r) (length (newFileHeader @ r)) (length newFileHeader) (length newFileHeader) Map.empty [] of
       Inl e \<Rightarrow> Inl e
     | Inr (frames, ns) \<Rightarrow> Inr (1, frames, ns, length (newFileHeader @ r)))"
proof -
  have 1: "checkHeader (newFileHeader @ r) 0 = Inr 8"
    by (simp add: checkHeader_def ReadFull_def header_bytes)
  have 2: "readUint32 (newFileHeader @ r) 8 = Inr (1, 12)"
    using readUint32_app [of 8 magic 1 r] by (simp add: header_bytes)
  show ?thesis
    by (simp add: parseContainerWithOpts_def 1 2 supportedVersions_def header_bytes(2,3) Let_def)
qed

lemma parse_layout:
  "list_all valid_frame fs \<Longrightarrow>
     parseContainerWithOpts lenient (layout fs) = Inr (1, index_from 12 fs Map.empty, map fst fs, length (layout fs))"
  using scan_frames [of fs lenient newFileHeader "[]" Map.empty "[]"]
    scan_end [of lenient "layout fs" "index_from 12 fs Map.empty" "map fst fs"]
  by (simp add: layout_def parse_body header_bytes(2))

lemma parse_layout_cut:
  assumes "list_all valid_frame fs" "valid_frame (n, c)" "0 < k" "k < length (frame_bytes n c)"
  shows "parseContainerWithOpts lenient (layout fs @ take k (frame_bytes n c)) =
    (if lenient then Inr (1, index_from 12 fs Map.empty, map fst fs, length (layout fs) + k) else Inl UnexpectedEOF)"
  using scan_frames [OF assms(1), of lenient newFileHeader "take k (frame_bytes n c)" Map.empty "[]"]
    scan_cut [OF assms(2-4), of lenient "layout fs" "index_from 12 fs Map.empty" "map fst fs"] assms(4)
  by (simp add: layout_def parse_body header_bytes(2) add.assoc)

lemma parse_short:
  assumes "k < 12"
  shows "parseContainerWithOpts lenient (take k (layout fs)) = Inl (if k < 8 then ErrInvalidFileMagic else UnexpectedEOF)"
proof (cases "k < 8")
  case True
  then show ?thesis
    by (simp add: parseContainerWithOpts_def checkHeader_def ReadFull_def header_bytes layout_def)
next
  case False
  then have "take k (layout fs) = magic @ take (k - 8) (append_uint32 1)"
    using assms by (simp add: layout_def header_bytes)
  with False assms show ?thesis
    by (simp add: parseContainerWithOpts_def checkHeader_def ReadFull_def header_bytes readUint32_def unexpectEOF_def)
qed

text \<open>The frames that lie completely within the first \<open>k\<close> bytes of a list of frames.\<close>

fun complete :: "nat \<Rightarrow> (bytes \<times> bytes) list \<Rightarrow> (bytes \<times> bytes) list" where
  "complete k [] = []"
| "complete k ((n, c) # fs) =
     (if length (frame_bytes n c) \<le> k then (n, c) # complete (k - length (frame_bytes n c)) fs else [])"

lemma take_frames:
  "(\<exists>gs. fs = complete k fs @ gs \<and>
     ((take k (frames_bytes fs) = frames_bytes (complete k fs) \<and> (gs = [] \<or> k = length (frames_bytes (complete k fs)))) \<or>
      (\<exists>n c hs j. gs = (n, c) # hs \<and> 0 < j \<and> j < length (frame_bytes n c) \<and> k = length (frames_bytes (complete k fs)) + j \<and>
         take k (frames_bytes fs) = frames_bytes (complete k fs) @ take j (frame_bytes n c))))"
proof (induction fs arbitrary: k)
  case (Cons f fs)
  obtain n c where f: "f = (n, c)" by fastforce
  show ?case
  proof (cases "length (frame_bytes n c) \<le> k")
    case True
    then show ?thesis using Cons.IH [of "k - length (frame_bytes n c)"] f
      by (auto simp del: length_frame_bytes) fastforce+
  next
    case False
    then show ?thesis using f by (cases "k = 0") auto
  qed
qed simp

text \<open>What an index of distinct frames reads from the file.\<close>

lemma index_from_other: "n \<notin> fst ` set fs \<Longrightarrow> index_from cur fs m n = m n"
  by (induction fs arbitrary: cur m) auto

lemma index_from_reads:
  assumes "distinct (map fst fs)" "list_all valid_frame fs" "map_of fs n = Some c"
  shows "\<exists>f. index_from (length a) fs m n = Some f \<and> unat (f_size f) = length c \<and>
    f_offset f + length c \<le> length (a @ frames_bytes fs @ r) \<and>
    take (length c) (drop (f_offset f) (a @ frames_bytes fs @ r)) = c"
  using assms
proof (induction fs arbitrary: a m)
  case (Cons g fs)
  obtain n' c' where g: "g = (n', c')" by fastforce
  have v: "valid_frame (n', c')" using Cons.prems(2) g by simp
  show ?case
  proof (cases "n = n'")
    case True
    then have "c' = c" using Cons.prems g by simp
    with True g Cons.prems unat_sizes [OF v] show ?thesis
      by (simp add: index_from_other frame_bytes_def)
  next
    case False
    let ?b = "a @ frame_bytes n' c'"
    let ?m = "m(n' \<mapsto> \<lparr>f_offset = length a + 6 + length n', f_size = of_nat (length c')\<rparr>)"
    have "index_from (length a) (g # fs) m = index_from (length ?b) fs ?m" "a @ frames_bytes (g # fs) @ r = ?b @ frames_bytes fs @ r"
      using g by (simp_all add: add.assoc)
    moreover have "distinct (map fst fs)" "list_all valid_frame fs" "map_of fs n = Some c"
      using False Cons.prems g by simp_all
    ultimately show ?thesis
      using Cons.IH [of ?b ?m] by metis
  qed
qed simp

end
