(* ===== verification/Container_Writer.thy ===== *)
theory Container_Writer
  imports Container_Correct
begin

text \<open>
  Writing and reopening a snapshot container: what a series of appends leaves in the file, what
  opening that file finds, whole or cut at any byte, and what the index of any accepted file is worth.
\<close>

section \<open>What an opened container reads\<close>

lemma ReadFrame_layout:
  assumes "distinct (map fst fs)" "list_all valid_frame fs" "c_frames c = index_from 12 fs Map.empty" "c_readable c"
  shows "ReadFrame c (layout fs @ r) name =
    (case map_of fs name of None \<Rightarrow> Inl ErrFrameDoesNotExist | Some d \<Rightarrow> Inr d)"
proof (cases "map_of fs name")
  case None
  then have "name \<notin> fst ` set fs" by (simp add: map_of_eq_None_iff)
  with None assms show ?thesis by (simp add: ReadFrame_def index_from_other)
next
  case (Some d)
  from index_from_reads [OF assms(1,2) Some, of newFileHeader Map.empty r]
  obtain f where "index_from 12 fs Map.empty name = Some f" "unat (f_size f) = length d"
    "f_offset f + length d \<le> length (layout fs @ r)" "take (length d) (drop (f_offset f) (layout fs @ r)) = d"
    by (auto simp: header_bytes(2) layout_def)
  with Some assms show ?thesis by (simp add: ReadFrame_def)
qed

section \<open>The writer\<close>

text \<open>The frames a series of appends gets into the file: an earlier one of the same name wins.\<close>

fun accept :: "(bytes \<times> bytes) list \<Rightarrow> (bytes \<times> bytes) list \<Rightarrow> (bytes \<times> bytes) list" where
  "accept fs [] = fs"
| "accept fs (f # calls) =
     accept (if fst f \<notin> set (map fst fs) \<and> valid_frame f then fs @ [f] else fs) calls"

definition append_all :: "(bytes \<times> bytes) list \<Rightarrow> container \<times> bytes \<Rightarrow> container \<times> bytes" where
  "append_all calls st = fold (\<lambda>(n, c) st. snd (AppendFrame None n c st)) calls st"

definition saved :: "(bytes \<times> bytes) list \<Rightarrow> bytes" where
  "saved calls = snd (snd (Close None (append_all calls (NewWriter, []))))"

text \<open>The state of a writer whose appended frames are \<open>fs\<close>.\<close>

definition writer_inv :: "(bytes \<times> bytes) list \<Rightarrow> container \<times> bytes \<Rightarrow> bool" where
  "writer_inv fs st \<longleftrightarrow> (case st of (c, file) \<Rightarrow>
     (\<exists>pending. c_writer c = Some pending \<and> file @ pending = layout fs \<and> (pending = [] \<or> fs = [])) \<and>
     c_frames c = index_from 12 fs Map.empty \<and> c_orderedNames c = map fst fs \<and>
     c_offset c = length (layout fs) \<and> c_version c = 1 \<and> \<not> c_readable c \<and>
     distinct (map fst fs) \<and> list_all valid_frame fs)"

lemma writer_inv_New: "writer_inv [] (NewWriter, [])"
  by (simp add: writer_inv_def NewWriter_def layout_def header_bytes(2) CurrentFileVersion_def)

lemma index_from_dom': "dom (index_from cur fs m) = dom m \<union> set (map fst fs)"
  by (induction cur fs m rule: index_from.induct) (simp_all del: fun_upd_apply)

lemma index_from_dom: "index_from cur fs Map.empty n \<noteq> None \<longleftrightarrow> n \<in> set (map fst fs)"
  using index_from_dom' [of cur fs Map.empty] by (metis domIff dom_empty sup_bot_left)

lemma AppendFrame_accept:
  assumes "writer_inv fs (c, file)"
  shows "\<lbrakk>n \<notin> set (map fst fs); valid_frame (n, d)\<rbrakk> \<Longrightarrow>
      fst (AppendFrame None n d (c, file)) = None \<and> writer_inv (fs @ [(n, d)]) (snd (AppendFrame None n d (c, file)))"
    and "\<not> (n \<notin> set (map fst fs) \<and> valid_frame (n, d)) \<Longrightarrow>
      fst (AppendFrame torn n d (c, file)) \<noteq> None \<and> snd (AppendFrame torn n d (c, file)) = (c, file)"
proof -
  obtain pending where p: "c_writer c = Some pending" "file @ pending = layout fs"
    using assms by (auto simp: writer_inv_def)
  have ix: "c_frames c n = None \<longleftrightarrow> n \<notin> set (map fst fs)"
    using assms index_from_dom [of 12 fs n] by (auto simp: writer_inv_def)
  have sz: "checkFrameSize n (length d) = None \<longleftrightarrow> length d \<le> 2 ^ 30"
    by (simp add: checkFrameSize_def maxFrameBytes_def)
  { assume new: "n \<notin> set (map fst fs)" and v: "valid_frame (n, d)"
    have "index_from 12 (fs @ [(n, d)]) Map.empty
        = (index_from 12 fs Map.empty)(n \<mapsto> \<lparr>f_offset = length (layout fs) + 6 + length n, f_size = of_nat (length d)\<rparr>)"
      by (simp add: index_from_app layout_def header_bytes(2))
    then show "fst (AppendFrame None n d (c, file)) = None \<and> writer_inv (fs @ [(n, d)]) (snd (AppendFrame None n d (c, file)))"
      using p ix sz new v assms
      by (auto simp: AppendFrame_def writer_inv_def valid_frame_def Let_def layout_def ac_simps) }
  { assume "\<not> (n \<notin> set (map fst fs) \<and> valid_frame (n, d))"
    then show "fst (AppendFrame torn n d (c, file)) \<noteq> None \<and> snd (AppendFrame torn n d (c, file)) = (c, file)"
      using p(1) ix sz by (auto simp: AppendFrame_def valid_frame_def split: option.splits) }
qed

lemma append_all_inv: "writer_inv fs st \<Longrightarrow> writer_inv (accept fs calls) (append_all calls st)"
proof (induction calls arbitrary: fs st)
  case (Cons f calls)
  obtain n d c fl where e: "f = (n, d)" "st = (c, fl)" by fastforce
  show ?case
  proof (cases "n \<notin> set (map fst fs) \<and> valid_frame (n, d)")
    case True
    then show ?thesis
      using Cons.IH AppendFrame_accept(1) [of fs c fl n d] Cons.prems e by (simp add: append_all_def)
  next
    case False
    then show ?thesis
      using Cons.IH [of fs st] AppendFrame_accept(2) [of fs c fl n d None] Cons.prems e
      by (auto simp: append_all_def)
  qed
qed (simp add: append_all_def)

lemma accept_ok:
  "distinct (map fst fs) \<Longrightarrow> list_all valid_frame fs \<Longrightarrow>
     distinct (map fst (accept fs calls)) \<and> list_all valid_frame (accept fs calls)"
  by (induction calls arbitrary: fs) auto

lemmas accepted_ok = accept_ok [of "[]", simplified]

lemma saved_layout: "saved calls = layout (accept [] calls)"
proof -
  have "writer_inv (accept [] calls) (append_all calls (NewWriter, []))"
    by (rule append_all_inv [OF writer_inv_New])
  then show ?thesis
    by (cases "append_all calls (NewWriter, [])") (auto simp: writer_inv_def saved_def Close_def)
qed

section \<open>Properties\<close>

text \<open>
  C18: for any sequence of appends (repeated names, oversized frames and names included), the file left by
  closing the writer opens strictly, lists the accepted frames in order and reads back each content.
\<close>

theorem saved_frames_read_back:
  "case OpenContainerReadOnly (saved calls) of
     Inl _ \<Rightarrow> False
   | Inr c \<Rightarrow> GetFrameNames c = map fst (accept [] calls) \<and>
       ReadFrame c (saved calls) name =
         (case map_of (accept [] calls) name of None \<Rightarrow> Inl ErrFrameDoesNotExist | Some d \<Rightarrow> Inr d)"
  using accepted_ok [of calls] parse_layout [of "accept [] calls" False]
    ReadFrame_layout [of "accept [] calls" _ "[]" name]
  by (simp add: OpenContainerReadOnly_def OpenContainerReadOnlyWithOpts_def saved_layout GetFrameNames_def)

lemma take_layout:
  assumes "12 \<le> k"
  shows "take k (layout fs) = newFileHeader @ take (k - 12) (frames_bytes fs)"
  using assms by (simp add: layout_def header_bytes(2))

lemma complete_prefix: "prefix (complete k fs) fs"
  by (induction k fs rule: complete.induct) simp_all

lemma complete_ok:
  assumes "list_all valid_frame fs" "distinct (map fst fs)"
  shows "list_all valid_frame (complete k fs) \<and> distinct (map fst (complete k fs))"
proof -
  obtain zs where "fs = complete k fs @ zs" using complete_prefix [of k fs] by (auto simp: prefix_def)
  with assms show ?thesis by (metis list_all_append map_append distinct_append)
qed

text \<open>What a parse of a file cut at byte \<open>k\<close> finds.\<close>

lemma parse_cut:
  assumes "list_all valid_frame fs" "12 \<le> k"
  defines "g \<equiv> complete (k - 12) fs"
  shows "parseContainerWithOpts lenient (take k (layout fs)) =
      (if lenient \<or> take k (layout fs) = layout g
       then Inr (1, index_from 12 g Map.empty, map fst g, length (take k (layout fs)))
       else Inl UnexpectedEOF) \<and> (\<exists>r. take k (layout fs) = layout g @ r)"
proof -
  obtain gs where gs: "fs = g @ gs"
    and cases: "take (k - 12) (frames_bytes fs) = frames_bytes g \<or>
      (\<exists>n c hs j. gs = (n, c) # hs \<and> 0 < j \<and> j < length (frame_bytes n c) \<and>
         take (k - 12) (frames_bytes fs) = frames_bytes g @ take j (frame_bytes n c))"
    using take_frames [of fs "k - 12"] unfolding g_def by blast
  have v: "list_all valid_frame g" using assms(1) gs by simp
  from cases show ?thesis
  proof (elim disjE exE conjE)
    assume "take (k - 12) (frames_bytes fs) = frames_bytes g"
    then have "take k (layout fs) = layout g" using assms(2) unfolding take_layout [OF assms(2)] by (simp add: layout_def)
    with parse_layout [OF v, of lenient] show ?thesis by simp
  next
    fix n c hs j
    assume j: "gs = (n, c) # hs" "0 < j" "j < length (frame_bytes n c)"
      "take (k - 12) (frames_bytes fs) = frames_bytes g @ take j (frame_bytes n c)"
    then have "take k (layout fs) = layout g @ take j (frame_bytes n c)"
      using assms(2) unfolding take_layout [OF assms(2)] by (simp add: layout_def)
    moreover have "valid_frame (n, c)" using assms(1) gs j(1) by simp
    ultimately show ?thesis
      using parse_layout_cut [OF v, of n c j lenient] j(2,3) by (auto simp: min_def)
  qed
qed

text \<open>
  C20: a file cut at any byte (a torn or unfinished save) still opens leniently once its header is there:
  exactly the frames that lie completely before the cut are listed, in order, and each reads back its content.
\<close>

theorem lenient_open_recovers_complete_frames:
  "case OpenContainerReadOnlyWithOpts True (take k (saved calls)) of
     Inl e \<Rightarrow> k < 12 \<and> e = (if k < 8 then ErrInvalidFileMagic else UnexpectedEOF)
   | Inr c \<Rightarrow> 12 \<le> k \<and> GetFrameNames c = map fst (complete (k - 12) (accept [] calls)) \<and>
       ReadFrame c (take k (saved calls)) name =
         (case map_of (complete (k - 12) (accept [] calls)) name of
            None \<Rightarrow> Inl ErrFrameDoesNotExist | Some d \<Rightarrow> Inr d)"
proof (cases "k < 12")
  case True
  then show ?thesis
    by (simp add: OpenContainerReadOnlyWithOpts_def saved_layout parse_short)
next
  case False
  let ?g = "complete (k - 12) (accept [] calls)"
  have ok: "list_all valid_frame ?g \<and> distinct (map fst ?g)"
    using complete_ok accepted_ok [of calls] by blast
  have cut: "parseContainerWithOpts True (take k (layout (accept [] calls)))
      = Inr (1, index_from 12 ?g Map.empty, map fst ?g, length (take k (layout (accept [] calls))))"
    and ex: "\<exists>r. take k (layout (accept [] calls)) = layout ?g @ r"
    using parse_cut [of "accept [] calls" k True] accepted_ok [of calls] False by simp_all
  from ex obtain r where r: "take k (layout (accept [] calls)) = layout ?g @ r" ..
  show ?thesis
    using False ok ReadFrame_layout [of ?g _ r name] cut
    by (simp add: OpenContainerReadOnlyWithOpts_def saved_layout GetFrameNames_def r)
qed

text \<open>
  The strict reader never takes a cut file for a whole one: beyond the header, a file cut inside a frame
  is refused with \<open>UnexpectedEOF\<close>, and it opens exactly when the cut is where a frame ends.
\<close>

theorem strict_open_refuses_torn_files:
  "OpenContainerReadOnly (take (12 + k) (saved calls)) =
    (if take (12 + k) (saved calls) = saved (complete k (accept [] calls))
     then OpenContainerReadOnlyWithOpts True (take (12 + k) (saved calls))
     else Inl UnexpectedEOF)"
proof -
  let ?g = "complete k (accept [] calls)"
  have acc: "accept [] fs = fs" if "list_all valid_frame fs" "distinct (map fst fs)" for fs
  proof -
    have "accept gs fs = gs @ fs" if "list_all valid_frame fs" "distinct (map fst (gs @ fs))" for gs
      using that by (induction fs arbitrary: gs) auto
    from this [of "[]"] that show ?thesis by simp
  qed
  have "saved ?g = layout ?g"
    using acc [of ?g] complete_ok [of "accept [] calls" k] accepted_ok [of calls] by (simp add: saved_layout)
  moreover have "parseContainerWithOpts True (layout ?g) = Inr (1, index_from 12 ?g Map.empty, map fst ?g, length (layout ?g))"
    using complete_ok [of "accept [] calls" k] accepted_ok [of calls] by (simp add: parse_layout)
  ultimately show ?thesis
    using conjunct1 [OF parse_cut [of "accept [] calls" "12 + k" False]] conjunct1 [OF parse_cut [of "accept [] calls" "12 + k" True]] accepted_ok [of calls]
    by (simp add: OpenContainerReadOnly_def OpenContainerReadOnlyWithOpts_def saved_layout [of calls])
qed

section \<open>Failed appends\<close>

lemma complete_snoc:
  "length (frames_bytes fs) \<le> j \<Longrightarrow> j < length (frames_bytes fs) + length (frame_bytes n d) \<Longrightarrow>
     complete j (fs @ [(n, d)]) = fs"
  by (induction fs arbitrary: j) auto

text \<open>
  When the write of an accepted frame fails after any part of it but not all has reached the file, the
  container is no longer writable, a later append is refused and changes nothing, the bookkeeping is that of
  before, and a lenient open of the file (once its header is there) lists exactly the frames of the bookkeeping.
\<close>

theorem failed_append_keeps_earlier_frames:
  assumes "append_all calls (NewWriter, []) = (c, disk)"
    and "c_writer c = Some pending" "k < length (pending @ frame_bytes n d)" "12 \<le> length disk + k"
    and "AppendFrame (Some k) n d (c, disk) = (Some (WriteFailed n), c', disk')"
  shows "GetFrameNames c' = GetFrameNames c \<and> AppendFrame torn n' d' (c', disk') = (Some NotWritable, c', disk') \<and>
    (case OpenContainerReadOnlyWithOpts True disk' of Inl _ \<Rightarrow> False | Inr r \<Rightarrow> GetFrameNames r = GetFrameNames c)"
proof -
  let ?fs = "accept [] calls"
  have inv: "writer_inv ?fs (c, disk)"
    using append_all_inv [OF writer_inv_New, of calls] assms(1) by simp
  have acc: "n \<notin> set (map fst ?fs) \<and> valid_frame (n, d)"
    using assms(5) inv index_from_dom [of 12 ?fs n]
    by (auto simp: writer_inv_def AppendFrame_def checkFrameSize_def valid_frame_def maxFrameBytes_def split: if_splits)
  have c': "c' = c\<lparr>c_writer := None\<rparr>" "disk' = disk @ take k (pending @ frame_bytes n d)"
    using assms(2,5) by (auto simp: AppendFrame_def checkFrameSize_def Let_def split: if_splits)
  have lay: "disk @ pending = layout ?fs"
    using inv assms(2) by (auto simp: writer_inv_def)
  have disk': "disk' = take (length disk + k) (layout (?fs @ [(n, d)]))"
  proof -
    have "layout (?fs @ [(n, d)]) = disk @ pending @ frame_bytes n d"
      using lay by (simp add: layout_def flip: append_assoc)
    then show ?thesis by (simp add: c')
  qed
  have v: "list_all valid_frame (?fs @ [(n, d)])"
    using accepted_ok [of calls] acc by simp
  have "length (disk @ pending) = length (layout ?fs)" by (simp only: lay)
  moreover have "pending = [] \<or> ?fs = []"
    using inv assms(2) by (auto simp: writer_inv_def)
  ultimately have "complete (length disk + k - 12) (?fs @ [(n, d)]) = ?fs"
    using assms(3,4) by (intro complete_snoc) (auto simp: layout_def header_bytes(2))
  then have "parseContainerWithOpts True disk' = Inr (1, index_from 12 ?fs Map.empty, map fst ?fs, length disk')"
    using conjunct1 [OF parse_cut [OF v assms(4), of True]] unfolding disk' by simp
  moreover have "GetFrameNames c = map fst ?fs"
    using inv by (simp add: writer_inv_def GetFrameNames_def)
  ultimately show ?thesis
    by (simp add: c'(1) GetFrameNames_def AppendFrame_def OpenContainerReadOnlyWithOpts_def)
qed

theorem failed_append_keeps_earlier_frames_witness:
  "GetFrameNames (NewWriter\<lparr>c_writer := None\<rparr>) = GetFrameNames NewWriter \<and>
   AppendFrame None [2] [] (NewWriter\<lparr>c_writer := None\<rparr>, newFileHeader @ [0]) =
     (Some NotWritable, NewWriter\<lparr>c_writer := None\<rparr>, newFileHeader @ [0]) \<and>
   (case OpenContainerReadOnlyWithOpts True (newFileHeader @ [0]) of Inl _ \<Rightarrow> False | Inr r \<Rightarrow> GetFrameNames r = GetFrameNames NewWriter)"
proof (rule failed_append_keeps_earlier_frames [where calls = "[]" and k = 13 and n = "[1]" and d = "[]" and pending = newFileHeader])
  show "append_all [] (NewWriter, []) = (NewWriter, [])" by (simp add: append_all_def)
  show "c_writer NewWriter = Some newFileHeader" by (simp add: NewWriter_def)
  show "13 < length (newFileHeader @ frame_bytes [1] [])" by (simp add: header_bytes(2))
  show "12 \<le> length [] + (13::nat)" by simp
  have "take 13 (newFileHeader @ frame_bytes [1] []) = newFileHeader @ [0]"
    by (simp add: header_bytes(2) frame_bytes_def append_uint16_def)
  then show "AppendFrame (Some 13) [1] [] (NewWriter, []) =
      (Some (WriteFailed [1]), NewWriter\<lparr>c_writer := None\<rparr>, newFileHeader @ [0])"
    by (simp add: AppendFrame_def NewWriter_def checkFrameSize_def maxFrameBytes_def)
qed

section \<open>Any file\<close>

text \<open>Whatever the bytes, an index entry lies within the size the scan was given, and has a name read.\<close>

lemma readFramePointers_inside:
  assumes "readFramePointers lenient f sz pos cur m ns = Inr (m', ns')"
    and "\<forall>n. n \<in> set ns \<longleftrightarrow> m n \<noteq> None" and "\<forall>n e. m n = Some e \<longrightarrow> f_offset e + unat (f_size e) \<le> sz \<and> f_size e \<le> maxFrameBytes"
  shows "(\<forall>n. n \<in> set ns' \<longleftrightarrow> m' n \<noteq> None) \<and>
    (\<forall>n e. m' n = Some e \<longrightarrow> f_offset e + unat (f_size e) \<le> sz \<and> f_size e \<le> maxFrameBytes)"
  using assms
proof (induction lenient f sz pos cur m ns rule: readFramePointers.induct)
  case (1 lenient f sz pos cur m ns)
  show ?case
  proof (cases "readFrameHeader f pos")
    case (Inl e)
    with "1.prems" show ?thesis by (subst (asm) readFramePointers.simps) (auto split: if_splits)
  next
    case (Inr r)
    obtain n l p where r: "r = (n, l, p)" by (cases r)
    let ?off = "cur + 2 + unat (of_nat (length n) :: 16 word) + 4"
    have l: "l \<le> maxFrameBytes" using readFrameHeader_pos(3) Inr r by blast
    show ?thesis
    proof (cases "?off + unat l > sz")
      case True
      with "1.prems" Inr r show ?thesis
        by (subst (asm) readFramePointers.simps) (auto simp: Let_def split: if_splits)
    next
      case False
      have rec: "readFramePointers lenient f sz (p + unat l) (?off + unat l) (m(n \<mapsto> \<lparr>f_offset = ?off, f_size = l\<rparr>)) (ns @ [n]) = Inr (m', ns')"
        using "1.prems"(1) Inr r False by (subst (asm) readFramePointers.simps) (simp add: Let_def)
      show ?thesis
        by (rule "1.IH" [OF Inr r [symmetric] refl refl refl False rec]) (use "1.prems"(2,3) False l in auto)
    qed
  qed
qed

text \<open>
  Whatever bytes a file holds, when it opens (strictly or leniently) every frame it lists can be read from it
  in full, and none is larger than the size limit: a corrupt length never leads outside the file or to a huge read.
\<close>

theorem listed_frames_are_readable:
  "case OpenContainerReadOnlyWithOpts lenient disk of
     Inl _ \<Rightarrow> True
   | Inr c \<Rightarrow> list_all (\<lambda>n. case ReadFrame c disk n of Inl _ \<Rightarrow> False | Inr d \<Rightarrow> length d \<le> 2 ^ 30) (GetFrameNames c)"
proof (cases "parseContainerWithOpts lenient disk")
  case Inl
  then show ?thesis by (simp add: OpenContainerReadOnlyWithOpts_def)
next
  case (Inr r)
  obtain v m ns off where r: "r = (v, m, ns, off)" by (cases r)
  have scan: "readFramePointers lenient disk (length disk) (length magic + 4) (length magic + 4) Map.empty [] = Inr (m, ns)"
    using Inr r by (auto simp: parseContainerWithOpts_def Let_def split: sum.splits if_splits)
  have ins: "(\<forall>n. n \<in> set ns \<longleftrightarrow> m n \<noteq> None) \<and>
      (\<forall>n e. m n = Some e \<longrightarrow> f_offset e + unat (f_size e) \<le> length disk \<and> f_size e \<le> maxFrameBytes)"
    by (rule readFramePointers_inside [OF scan]) simp_all
  have small: "unat (w :: 32 word) \<le> 2 ^ 30" if "w \<le> maxFrameBytes" for w
    using that by (simp add: maxFrameBytes_def word_le_nat_alt)
  have "case ReadFrame c disk n of Inl _ \<Rightarrow> False | Inr d \<Rightarrow> length d \<le> 2 ^ 30"
    if "n \<in> set ns" "c_frames c = m" "c_readable c" for c n
  proof -
    have "m n \<noteq> None" using ins that(1) by blast
    then obtain e where "m n = Some e" by blast
    with ins small [of "f_size e"] that show ?thesis by (auto simp: ReadFrame_def)
  qed
  then show ?thesis
    using Inr r by (simp add: OpenContainerReadOnlyWithOpts_def GetFrameNames_def list_all_iff)
qed

section \<open>What the strict reader accepts\<close>

lemma byte_eqI: "unat a = n mod 256 \<Longrightarrow> of_nat n = a" for a :: byte
  by (simp add: word_unat_eq_iff byte_val del: of_nat_unat)

lemma append_be_uint16:
  assumes "length bs = 2"
  shows "append_uint16 (of_nat (be_uint bs)) = bs"
proof -
  obtain x y where bs: "bs = [x, y]" using assms by (auto simp: numeral_2_eq_2 length_Suc_conv)
  have b: "unat x < 256" "unat y < 256" using unsigned_less [where 'b = 8 and 'a = nat] by simp_all
  have n: "be_uint bs = unat x * 256 + unat y" by (simp add: be_uint_def bs)
  have "unat (of_nat (be_uint bs) :: 16 word) = unat x * 256 + unat y"
    unfolding n using b by (simp add: unat_of_nat del: of_nat_add of_nat_mult)
  then show ?thesis
    using b unfolding append_uint16_def bs by (simp add: byte_eqI del: of_nat_unat of_nat_add of_nat_mult)
qed

lemma append_be_uint32:
  assumes "length bs = 4"
  shows "append_uint32 (of_nat (be_uint bs)) = bs"
proof -
  obtain w x y z where bs: "bs = [w, x, y, z]" using assms by (auto simp: numeral_eq_Suc length_Suc_conv)
  have b: "unat w < 256" "unat x < 256" "unat y < 256" "unat z < 256"
    using unsigned_less [where 'b = 8 and 'a = nat] by simp_all
  define n where "n = ((unat w * 256 + unat x) * 256 + unat y) * 256 + unat z"
  have n: "be_uint bs = n" by (simp add: be_uint_def bs n_def)
  have "n < 2 ^ 32" using b by (simp add: n_def)
  then have u: "unat (of_nat n :: 32 word) = n" by (simp add: unat_of_nat)
  have "n div 256 = (unat w * 256 + unat x) * 256 + unat y" using b by (simp add: n_def)
  moreover from this have "n div 256 div 256 = unat w * 256 + unat x" using b by simp
  moreover from this have "n div 256 div 256 div 256 = unat w" using b by simp
  moreover have "n div 2 ^ 8 = n div 256" "n div 2 ^ 16 = n div 256 div 256" "n div 2 ^ 24 = n div 256 div 256 div 256"
    by (simp_all add: div_mult2_eq [symmetric])
  ultimately have "n div 2 ^ 24 = unat w" "n div 2 ^ 16 = unat w * 256 + unat x" "n div 2 ^ 8 = (unat w * 256 + unat x) * 256 + unat y"
    by simp_all
  then have "of_nat (n div 2 ^ 24) = w" "of_nat (n div 2 ^ 16) = x"
    using b by (simp_all add: byte_eqI del: of_nat_add of_nat_mult of_nat_unat)
  moreover have "unat y = n div 2 ^ 8 mod 256"
    unfolding \<open>n div 2 ^ 8 = (unat w * 256 + unat x) * 256 + unat y\<close> using b by (simp only: mod_mult_self3) simp
  then have "of_nat (n div 2 ^ 8) = y" by (rule byte_eqI)
  moreover have "of_nat n = z"
    unfolding n_def using b by (intro byte_eqI) (simp only: mod_mult_self3, simp)
  ultimately show ?thesis
    unfolding append_uint32_def n u by (simp only: bs)
qed

lemma readFrameHeader_sound:
  assumes "readFrameHeader f pos = Inr (n, l, p)"
  shows "drop pos f = append_uint16 (of_nat (length n)) @ n @ append_uint32 l @ drop p f" "length n \<le> 65535" "l \<le> maxFrameBytes"
proof -
  from assms obtain b1 p1 b2 p2 where
    1: "ReadFull 2 f pos = Inr (b1, p1)" and 2: "ReadFull (unat (of_nat (be_uint b1) :: 16 word)) f p1 = Inr (n, p2)"
    and 3: "ReadFull 4 f p2 = Inr (b2, p)" and l: "l = of_nat (be_uint b2)"
    by (auto simp: readFrameHeader_def readUint16_def readUint32_def split: sum.splits if_splits)
  have drop: "drop q f = bs @ drop q' f" if "ReadFull k f q = Inr (bs, q')" for k q bs q'
    using that by (auto simp: ReadFull_def add.commute split: if_splits) (metis append_take_drop_id drop_drop)+
  have len: "length b1 = 2" "length b2 = 4" "length n = unat (of_nat (be_uint b1) :: 16 word)"
    using ReadFull_pos [OF 1] ReadFull_pos [OF 2] ReadFull_pos [OF 3] by auto
  then have "append_uint16 (of_nat (length n)) = b1" "append_uint32 l = b2"
    by (simp_all add: append_be_uint16 append_be_uint32 l)
  then show "drop pos f = append_uint16 (of_nat (length n)) @ n @ append_uint32 l @ drop p f"
    using drop [OF 1] drop [OF 2] drop [OF 3] by simp
  show "length n \<le> 65535" "l \<le> maxFrameBytes"
    using readFrameHeader_pos(3,4) [OF assms] by simp_all
qed

lemma readFrameHeader_EOF: "readFrameHeader f pos = Inl EOF \<Longrightarrow> length f \<le> pos"
  by (auto simp: readFrameHeader_def readUint16_def ReadFull_def unexpectEOF_def split: sum.splits if_splits)

lemma scan_sound:
  assumes "readFramePointers lenient f sz pos cur m ns = Inr r" "\<not> lenient" "sz = length f" "cur = pos" "pos \<le> length f"
  shows "\<exists>fs. list_all valid_frame fs \<and> drop pos f = frames_bytes fs"
  using assms
proof (induction lenient f sz pos cur m ns rule: readFramePointers.induct)
  case (1 lenient f sz pos cur m ns)
  show ?case
  proof (cases "readFrameHeader f pos")
    case (Inl e)
    with "1.prems"(1,2) have "e = EOF" by (subst (asm) readFramePointers.simps) (auto split: if_splits)
    with Inl have "drop pos f = frames_bytes []" using readFrameHeader_EOF by simp
    then show ?thesis by (intro exI [of _ "[]"]) simp
  next
    case (Inr h)
    obtain n l p where h: "h = (n, l, p)" by (cases h)
    note hd = readFrameHeader_sound [OF Inr [unfolded h]]
    have p: "p = pos + 6 + length n" "p \<le> length f" using readFrameHeader_pos(1,2) Inr h by auto
    have un: "unat (of_nat (length n) :: 16 word) = length n" using hd(2) by (simp add: unat_of_nat)
    let ?off = "cur + 2 + unat (of_nat (length n) :: 16 word) + 4"
    have inside: "\<not> ?off + unat l > sz"
      using "1.prems"(1,2) Inr h by (subst (asm) readFramePointers.simps) (auto simp: Let_def split: if_splits)
    then have rec: "readFramePointers lenient f sz (p + unat l) (?off + unat l) (m(n \<mapsto> \<lparr>f_offset = ?off, f_size = l\<rparr>)) (ns @ [n]) = Inr r"
      using "1.prems"(1) Inr h by (subst (asm) readFramePointers.simps) (simp add: Let_def)
    have "\<exists>fs. list_all valid_frame fs \<and> drop (p + unat l) f = frames_bytes fs"
      by (rule "1.IH" [OF Inr h [symmetric] refl refl refl inside rec]) (use "1.prems" p un inside in simp_all)
    then obtain fs where fs: "list_all valid_frame fs" "drop (p + unat l) f = frames_bytes fs" by blast
    let ?c = "take (unat l) (drop p f)"
    have c: "length ?c = unat l" "drop p f = ?c @ drop (p + unat l) f"
      using inside p un "1.prems" by (simp, metis append_take_drop_id drop_drop add.commute)
    have "valid_frame (n, ?c)"
      using hd(2,3) c(1) by (simp add: valid_frame_def maxFrameBytes_def word_le_nat_alt)
    moreover have "drop pos f = frame_bytes n ?c @ frames_bytes fs"
      using hd(1) c fs(2) by (simp add: frame_bytes_def)
    ultimately have "list_all valid_frame ((n, ?c) # fs) \<and> drop pos f = frames_bytes ((n, ?c) # fs)"
      using fs(1) by simp
    then show ?thesis by blast
  qed
qed

text \<open>
  C19: the strict reader accepts exactly the files that are a header of version 1 followed by whole frames within
  the size limits, nothing more and nothing less.
\<close>

theorem strict_open_accepts_exactly_layouts:
  "(\<exists>c. OpenContainerReadOnly disk = Inr c) \<longleftrightarrow> (\<exists>fs. list_all valid_frame fs \<and> disk = layout fs)"
proof
  assume "\<exists>c. OpenContainerReadOnly disk = Inr c"
  then obtain r where "parseContainerWithOpts False disk = Inr r"
    by (auto simp: OpenContainerReadOnly_def OpenContainerReadOnlyWithOpts_def split: sum.splits)
  then obtain buf p q v m ns where 1: "ReadFull 8 disk 0 = Inr (magic, p)" and 2: "ReadFull 4 disk p = Inr (buf, q)" "of_nat (be_uint buf) = (1 :: 32 word)"
    and scan: "readFramePointers False disk (length disk) 12 12 Map.empty [] = Inr (m, ns)"
    by (auto simp: parseContainerWithOpts_def checkHeader_def readUint32_def supportedVersions_def header_bytes(3) Let_def
        split: sum.splits if_splits)
  have "p = 8" "length buf = 4" "12 \<le> length disk"
    using ReadFull_pos [OF 1] ReadFull_pos [OF 2(1)] by auto
  moreover have "take 4 (drop 8 disk) = append_uint32 1"
    using 2 \<open>p = 8\<close> append_be_uint32 [OF \<open>length buf = 4\<close>] by (auto simp: ReadFull_def split: if_splits)
  moreover have "take 8 disk = magic" using 1 by (auto simp: ReadFull_def split: if_splits)
  ultimately have "take 12 disk = newFileHeader"
    using take_add [of 8 4 disk] by (simp add: header_bytes)
  moreover obtain fs where "list_all valid_frame fs" "drop 12 disk = frames_bytes fs"
    using scan_sound [OF scan] \<open>12 \<le> length disk\<close> by auto
  ultimately show "\<exists>fs. list_all valid_frame fs \<and> disk = layout fs"
    by (metis append_take_drop_id layout_def)
next
  assume "\<exists>fs. list_all valid_frame fs \<and> disk = layout fs"
  then show "\<exists>c. OpenContainerReadOnly disk = Inr c"
    by (auto simp: OpenContainerReadOnly_def OpenContainerReadOnlyWithOpts_def parse_layout)
qed

end
