(* ===== verification/Keys.thy ===== *)
theory Keys
  imports Jqval "HOL-Library.Product_Lexorder" "HOL-Library.List_Lexorder"
begin

text \<open>
  Key bindings and their dispatch, \<^verbatim>\<open>internal/ui/keys/binding.go\<close> and \<^verbatim>\<open>common.go\<close>. A handler maps
  canonical key names to bindings; an action is a function on the state of the component that owns the
  handler.
\<close>

section \<open>The terminal and text libraries\<close>

text \<open>
  What the interface code takes from other packages: the display width and the grapheme clusters of a
  text (\<^verbatim>\<open>uniseg\<close>), the name and shift bit of a key press (\<^verbatim>\<open>ultraviolet\<close>), upper and lower case of a
  rune, the fuzzy ranking of a pattern over targets as index and distance (\<^verbatim>\<open>fuzzysearch\<close>) and the
  order an unstable sort by distance leaves.
\<close>

record uiext =
  u_width :: "runes \<Rightarrow> nat"
  u_clusters :: "runes \<Rightarrow> (runes \<times> nat) list"
  u_keystroke :: "key_event \<Rightarrow> runes"
  u_shift :: "key_event \<Rightarrow> bool"
  u_is_upper :: "rune \<Rightarrow> bool"
  u_is_lower :: "rune \<Rightarrow> bool"
  u_to_lower :: "rune \<Rightarrow> rune"
  u_rank :: "runes \<Rightarrow> runes list \<Rightarrow> (nat \<times> int) list"
  u_sort :: "(nat \<times> int) list \<Rightarrow> (nat \<times> int) list"

text \<open>
  An instance over ASCII for concrete runs: a target matches when the pattern is one of its sublists
  at the start, at a distance of the runes that are left.
\<close>

definition demo_ui :: uiext where
  "demo_ui = \<lparr>u_width = length, u_clusters = map (\<lambda>r. ([r], 1)),
     u_keystroke = (\<lambda>ev. case k_code ev of KeyRune r \<Rightarrow> [r] | KeyUp \<Rightarrow> str ''up'' | KeyDown \<Rightarrow> str ''down''
       | KeyEnter \<Rightarrow> str ''enter'' | _ \<Rightarrow> []),
     u_shift = (\<lambda>_. False), u_is_upper = (\<lambda>r. 65 \<le> r \<and> r \<le> 90), u_is_lower = (\<lambda>r. 97 \<le> r \<and> r \<le> 122),
     u_to_lower = (\<lambda>r. if 65 \<le> r \<and> r \<le> 90 then r + 32 else r),
     u_rank = (\<lambda>p ts. map (\<lambda>(i, t). (i, int (length t) - int (length p)))
        (filter (\<lambda>(i, t). take (length p) t = p) (enumerate 0 ts))),
     u_sort = sort_key snd\<rparr>"

section \<open>Bindings and handlers\<close>

datatype category = CatThisView | CatGlobal | CatNavigation

record 'a binding =
  b_keys :: "runes list"
  b_context :: runes
  b_action :: "'a option"
  b_category :: category
  b_label :: runes
  b_priority :: int

text \<open>A binding literal of the source: keys, context and action.\<close>

definition bind_of :: "runes list \<Rightarrow> string \<Rightarrow> 'a option \<Rightarrow> category \<Rightarrow> 'a binding" where
  "bind_of ks ctxt a cat = \<lparr>b_keys = ks, b_context = str ctxt, b_action = a, b_category = cat, b_label = [], b_priority = 0\<rparr>"

definition WithPrefix :: "runes \<Rightarrow> 'a binding \<Rightarrow> 'a binding" where
  "WithPrefix p b = b\<lparr>b_context := p @ str '': '' @ b_context b\<rparr>"

definition WithAction :: "'a \<Rightarrow> 'a binding \<Rightarrow> 'a binding" where
  "WithAction a b = b\<lparr>b_action := Some a\<rparr>"

definition WithHint :: "runes \<Rightarrow> int \<Rightarrow> 'a binding \<Rightarrow> 'a binding" where
  "WithHint label priority b = b\<lparr>b_label := label, b_priority := priority\<rparr>"

definition HintBindings :: "uiext \<Rightarrow> 'a binding list \<Rightarrow> 'a binding list" where
  "HintBindings u bs = sort_key (\<lambda>b. (b_priority b, map (u_to_lower u) (b_label b))) (filter (\<lambda>b. b_priority b > 0) bs)"

record 'a handler =
  h_actions :: "runes \<rightharpoonup> nat"
  h_keybinds :: "'a binding list"

definition key_New :: "'a handler" where
  "key_New = \<lparr>h_actions = Map.empty, h_keybinds = []\<rparr>"

text \<open>A string that is a single upper-case rune names the shifted lower-case key.\<close>

definition canonicalizeBindKey :: "uiext \<Rightarrow> runes \<Rightarrow> runes" where
  "canonicalizeBindKey u s =
     (if s = str ''del'' then str ''delete''
      else case s of
        [r] \<Rightarrow> if u_is_upper u r then str ''shift+'' @ [u_to_lower u r] else s
      | _ \<Rightarrow> s)"

definition normalize :: "uiext \<Rightarrow> key_event \<Rightarrow> runes" where
  "normalize u ev =
     (if \<not> u_shift u ev \<and> k_text ev \<noteq> [] then
        (case k_text ev of
           [r] \<Rightarrow> if u_is_upper u r then str ''shift+'' @ [u_to_lower u r] else u_keystroke u ev
         | _ \<Rightarrow> u_keystroke u ev)
      else u_keystroke u ev)"

definition isBareLowercase :: "uiext \<Rightarrow> runes \<Rightarrow> bool" where
  "isBareLowercase u key = (case key of [r] \<Rightarrow> u_is_lower u r | _ \<Rightarrow> False)"

definition HintPill :: "uiext \<Rightarrow> 'a binding \<Rightarrow> runes \<times> runes" where
  "HintPill u b = (case b_keys b of
       [] \<Rightarrow> ([], b_label b)
     | k # _ \<Rightarrow>
        let key = canonicalizeBindKey u k
        in if isBareLowercase u key \<and> take (length key) (b_label b) = key
           then (key, drop (length key) (b_label b)) else (key, b_label b))"

definition Bind :: "uiext \<Rightarrow> 'a binding list \<Rightarrow> 'a handler \<Rightarrow> 'a handler" where
  "Bind u bs kh =
     (let idxOffset = length (h_keybinds kh)
      in kh\<lparr>h_actions := fold (\<lambda>(idx, b) m. fold (\<lambda>key m. m(canonicalizeBindKey u key \<mapsto> idxOffset + idx)) (b_keys b) m)
              (enumerate 0 bs) (h_actions kh),
           h_keybinds := h_keybinds kh @ bs\<rparr>)"

definition GetAction :: "uiext \<Rightarrow> 'a handler \<Rightarrow> key_event \<Rightarrow> 'a option" where
  "GetAction u kh ev =
     (case h_actions kh (normalize u ev) of
        Some idx \<Rightarrow> b_action (h_keybinds kh ! idx)
      | None \<Rightarrow> None)"

text \<open>\<^verbatim>\<open>Run\<close> on the state of the owning component: its new state and whether an action ran.\<close>

definition key_Run :: "uiext \<Rightarrow> ('s \<Rightarrow> 's) handler \<Rightarrow> key_event \<Rightarrow> 's \<Rightarrow> 's \<times> bool" where
  "key_Run u kh ev s = (case GetAction u kh ev of None \<Rightarrow> (s, False) | Some a \<Rightarrow> (a s, True))"

section \<open>The common bindings\<close>

text \<open>The key lists of the configuration (section \<^verbatim>\<open>keybinds\<close>) that the shared bindings and the list use.\<close>

record keyconf =
  kc_quit :: "runes list"
  kc_forceQuit :: "runes list"
  kc_next :: "runes list"
  kc_prev :: "runes list"
  kc_accept :: "runes list"
  kc_cancel :: "runes list"
  kc_clear :: "runes list"
  kc_search :: "runes list"
  kc_top :: "runes list"
  kc_pageUp :: "runes list"
  kc_halfPageUp :: "runes list"
  kc_up :: "runes list"
  kc_down :: "runes list"
  kc_halfPageDown :: "runes list"
  kc_pageDown :: "runes list"
  kc_bottom :: "runes list"

record 'a key_binds =
  kb_quit :: "'a binding"
  kb_forceQuit :: "'a binding"
  kb_focusTextInput :: "'a binding"
  kb_confirmTextInput :: "'a binding"
  kb_cancelTextInput :: "'a binding"
  kb_moveToTop :: "'a binding"
  kb_movePageUp :: "'a binding"
  kb_moveHalfPageUp :: "'a binding"
  kb_moveLineUp :: "'a binding"
  kb_moveLineDown :: "'a binding"
  kb_moveHalfPageDown :: "'a binding"
  kb_movePageDown :: "'a binding"
  kb_moveToBottom :: "'a binding"

definition doublePressKeys :: "runes list \<Rightarrow> runes list" where
  "doublePressKeys ks = map (\<lambda>k. k @ SP # k) ks"

definition KeyBindsFrom :: "keyconf \<Rightarrow> 'a \<Rightarrow> 'a key_binds" where
  "KeyBindsFrom cfg quit =
     \<lparr>kb_quit = bind_of (kc_quit cfg) ''quit component'' (Some quit) CatGlobal,
      kb_forceQuit = bind_of (doublePressKeys (kc_forceQuit cfg)) ''exit program'' None CatGlobal,
      kb_focusTextInput = bind_of (kc_next cfg) ''focus text input'' None CatThisView,
      kb_confirmTextInput = bind_of (kc_accept cfg) ''confirm text input'' None CatThisView,
      kb_cancelTextInput = bind_of (kc_cancel cfg) ''cancel text input'' None CatThisView,
      kb_moveToTop = bind_of (kc_top cfg) ''move to top'' None CatNavigation,
      kb_movePageUp = bind_of (kc_pageUp cfg) ''move one page up'' None CatNavigation,
      kb_moveHalfPageUp = bind_of (kc_halfPageUp cfg) ''move one page up'' None CatNavigation,
      kb_moveLineUp = bind_of (kc_up cfg) ''move one line up'' None CatNavigation,
      kb_moveLineDown = bind_of (kc_down cfg) ''move one line down'' None CatNavigation,
      kb_moveHalfPageDown = bind_of (kc_halfPageDown cfg) ''move half page down'' None CatNavigation,
      kb_movePageDown = bind_of (kc_pageDown cfg) ''move page down'' None CatNavigation,
      kb_moveToBottom = bind_of (kc_bottom cfg) ''move to bottom'' None CatNavigation\<rparr>"

text \<open>Key lists for concrete runs.\<close>

definition demo_keys :: keyconf where
  "demo_keys = \<lparr>kc_quit = [str ''q''], kc_forceQuit = [str ''ctrl+c''], kc_next = [str ''down''], kc_prev = [str ''up''],
     kc_accept = [str ''enter''], kc_cancel = [str ''esc''], kc_clear = [str ''ctrl+c''], kc_search = [str ''/''],
     kc_top = [str ''g''], kc_pageUp = [], kc_halfPageUp = [], kc_up = [str ''k''], kc_down = [str ''j''],
     kc_halfPageDown = [], kc_pageDown = [], kc_bottom = [str ''G'']\<rparr>"

section \<open>Dispatch\<close>

text \<open>The binding a canonical key resolves to: the last one bound that lists it.\<close>

definition bound_to :: "uiext \<Rightarrow> runes \<Rightarrow> 'a binding list \<Rightarrow> 'a binding option" where
  "bound_to u k bs = find (\<lambda>b. k \<in> canonicalizeBindKey u ` set (b_keys b)) (rev bs)"

definition kh_inv :: "uiext \<Rightarrow> 'a handler \<Rightarrow> bool" where
  "kh_inv u kh \<longleftrightarrow> (\<forall>k. map_option (\<lambda>i. h_keybinds kh ! i) (h_actions kh k) = bound_to u k (h_keybinds kh) \<and>
     (\<forall>i. h_actions kh k = Some i \<longrightarrow> i < length (h_keybinds kh)))"

lemma fold_keys: "fold (\<lambda>key m. m(f key \<mapsto> i)) ks m k = (if k \<in> f ` set ks then Some i else m k)"
  by (induction ks arbitrary: m) auto

lemma bound_to_snoc: "bound_to u k (bs @ [b]) = (if k \<in> canonicalizeBindKey u ` set (b_keys b) then Some b else bound_to u k bs)"
  by (simp add: bound_to_def)

lemma Bind_snoc: "Bind u (bs @ [b]) kh = Bind u [b] (Bind u bs kh)"
  by (simp add: Bind_def Let_def enumerate_append_eq)

lemma Bind_inv [wf_intros]: "kh_inv u kh \<Longrightarrow> kh_inv u (Bind u bs kh)"
proof (induction bs rule: rev_induct)
  case (snoc b bs)
  have "kh_inv u (Bind u [b] kh')" if "kh_inv u kh'" for kh' :: "'a handler"
    unfolding kh_inv_def
  proof (intro allI)
    fix k
    from that have "map_option (\<lambda>i. h_keybinds kh' ! i) (h_actions kh' k) = bound_to u k (h_keybinds kh')"
      "\<forall>i. h_actions kh' k = Some i \<longrightarrow> i < length (h_keybinds kh')"
      by (simp_all add: kh_inv_def)
    then show "map_option (\<lambda>i. h_keybinds (Bind u [b] kh') ! i) (h_actions (Bind u [b] kh') k) = bound_to u k (h_keybinds (Bind u [b] kh')) \<and>
        (\<forall>i. h_actions (Bind u [b] kh') k = Some i \<longrightarrow> i < length (h_keybinds (Bind u [b] kh')))"
      by (cases "h_actions kh' k") (auto simp: Bind_def Let_def fold_keys bound_to_snoc nth_append)
  qed
  with snoc show ?case by (simp add: Bind_snoc)
qed (simp add: Bind_def)

text \<open>A handler whose actions keep the invariant keeps it, whatever key is pressed.\<close>

definition actions_keep :: "('s \<Rightarrow> bool) \<Rightarrow> ('s \<Rightarrow> 's) handler \<Rightarrow> bool" where
  "actions_keep P kh \<longleftrightarrow> (\<forall>b \<in> set (h_keybinds kh). case b_action b of None \<Rightarrow> True | Some a \<Rightarrow> \<forall>s. P s \<longrightarrow> P (a s))"

lemma key_Run_keeps:
  assumes "kh_inv u kh" "actions_keep P kh" "P s"
  shows "P (fst (key_Run u kh ev s))"
proof (cases "GetAction u kh ev")
  case None
  then show ?thesis using assms by (simp add: key_Run_def)
next
  case (Some a)
  then obtain i where "h_actions kh (normalize u ev) = Some i" "b_action (h_keybinds kh ! i) = Some a"
    by (auto simp: GetAction_def split: option.splits)
  moreover from this have "i < length (h_keybinds kh)" using assms(1) by (simp add: kh_inv_def)
  ultimately have "case b_action (h_keybinds kh ! i) of None \<Rightarrow> True | Some a \<Rightarrow> \<forall>s. P s \<longrightarrow> P (a s)"
    using assms(2) nth_mem unfolding actions_keep_def by blast
  then have "\<forall>s. P s \<longrightarrow> P (a s)"
    using \<open>b_action (h_keybinds kh ! i) = Some a\<close> by simp
  then show ?thesis using Some assms(3) by (simp add: key_Run_def)
qed

lemma kh_inv_New: "kh_inv u key_New"
  by (simp add: kh_inv_def key_New_def bound_to_def)

text \<open>
  A key press runs the action of the last binding registered for its canonical key, over any sequence of
  registrations, and nothing when no binding lists it.
\<close>

theorem last_binding_of_a_key_wins:
  "GetAction u (fold (Bind u) bss key_New) ev =
     (case bound_to u (normalize u ev) (concat bss) of None \<Rightarrow> None | Some b \<Rightarrow> b_action b)"
proof -
  have "kh_inv u (fold (Bind u) bss kh) \<and> h_keybinds (fold (Bind u) bss kh) = h_keybinds kh @ concat bss"
    if "kh_inv u kh" for kh :: "'a handler"
    using that by (induction bss arbitrary: kh) (auto simp: Bind_inv, simp add: Bind_def Let_def)
  moreover have "kh_inv u key_New" and New: "h_keybinds key_New = []"
    by (simp_all add: kh_inv_def key_New_def bound_to_def)
  ultimately have inv: "kh_inv u (fold (Bind u) bss key_New)" "h_keybinds (fold (Bind u) bss key_New) = concat bss"
    by (metis append_Nil)+
  let ?kh = "fold (Bind u) bss key_New" and ?k = "normalize u ev"
  have "bound_to u ?k (concat bss) = map_option (\<lambda>i. concat bss ! i) (h_actions ?kh ?k)"
    using inv by (simp add: kh_inv_def)
  then show ?thesis
    unfolding GetAction_def inv(2) by (cases "h_actions ?kh ?k") auto
qed

end
