(* ===== verification/Canvas.thy ===== *)
theory Canvas
  imports Keys "HOL-Library.Sublist"
begin

text \<open>
  Cell helpers and box geometry: \<^verbatim>\<open>internal/ui/canvas/canvas.go\<close>, \<^verbatim>\<open>component.CenterRect\<close> and the
  button strip \<^verbatim>\<open>internal/ui/components/buttonstrip\<close>. Writing to the screen gives the list of cells
  written, in order; a style is an opaque number.
\<close>

record cell =
  cl_x :: int
  cl_y :: int
  cl_content :: runes
  cl_width :: nat
  cl_style :: nat
  cl_link :: runes

definition cell_at :: "int \<Rightarrow> int \<Rightarrow> runes \<Rightarrow> nat \<Rightarrow> cell" where
  "cell_at x y g st = \<lparr>cl_x = x, cl_y = y, cl_content = g, cl_width = 1, cl_style = st, cl_link = []\<rparr>"

section \<open>Text\<close>

fun placeText :: "(runes \<times> nat) list \<Rightarrow> int \<Rightarrow> int \<Rightarrow> nat \<Rightarrow> runes \<Rightarrow> int \<Rightarrow> cell list \<times> int" where
  "placeText [] col y st link maxX = ([], col)"
| "placeText ((g, w) # gs) col y st link maxX =
     (if w = 0 then placeText gs col y st link maxX
      else if col + int w > maxX then ([], col)
      else let r = placeText gs (col + int w) y st link maxX
           in (\<lparr>cl_x = col, cl_y = y, cl_content = g, cl_width = w, cl_style = st, cl_link = link\<rparr> # fst r, snd r))"

definition PlaceText :: "uiext \<Rightarrow> int \<Rightarrow> int \<Rightarrow> runes \<Rightarrow> nat \<Rightarrow> int \<Rightarrow> cell list \<times> int" where
  "PlaceText u x y s st maxX = placeText (u_clusters u s) x y st [] maxX"

definition PlaceLink :: "uiext \<Rightarrow> int \<Rightarrow> int \<Rightarrow> runes \<Rightarrow> nat \<Rightarrow> runes \<Rightarrow> int \<Rightarrow> cell list \<times> int" where
  "PlaceLink u x y s st link maxX = placeText (u_clusters u s) x y st link maxX"

definition FillRowAt :: "int \<Rightarrow> int \<Rightarrow> int \<Rightarrow> nat \<Rightarrow> cell list" where
  "FillRowAt x y w st = map (\<lambda>i. cell_at (x + int i) y [SP] st) [0..<nat w]"

definition FillRow :: "int \<Rightarrow> int \<Rightarrow> nat \<Rightarrow> cell list" where
  "FillRow y w st = FillRowAt 0 y w st"

fun fill_span :: "nat \<Rightarrow> int \<Rightarrow> int \<Rightarrow> nat \<Rightarrow> int \<Rightarrow> cell list \<times> int" where
  "fill_span 0 col y st maxX = ([], col)"
| "fill_span (Suc n) col y st maxX =
     (if col \<ge> maxX then ([], col)
      else let r = fill_span n (col + 1) y st maxX in (cell_at col y [SP] st # fst r, snd r))"

definition FillSpan :: "int \<Rightarrow> int \<Rightarrow> int \<Rightarrow> nat \<Rightarrow> int \<Rightarrow> cell list \<times> int" where
  "FillSpan x y n st maxX = fill_span (nat n) x y st maxX"

definition drawBand :: "uiext \<Rightarrow> int \<Rightarrow> int \<Rightarrow> runes \<Rightarrow> nat \<Rightarrow> int \<Rightarrow> cell list \<times> int" where
  "drawBand u x y t st maxX = PlaceText u x y t st maxX"

definition DrawPill :: "uiext \<Rightarrow> int \<Rightarrow> int \<Rightarrow> runes \<Rightarrow> runes \<Rightarrow> nat \<Rightarrow> nat \<Rightarrow> int \<Rightarrow> cell list \<times> int" where
  "DrawPill u x y chip line chipStyle lineStyle maxX =
     (let c = drawBand u x y chip chipStyle maxX
      in if line = [] then c
         else if snd c \<ge> maxX then c
         else let l = drawBand u (snd c + 1) y line lineStyle maxX
              in (fst c @ cell_at (snd c) y [SP] lineStyle # fst l, snd l))"

text \<open>The loop over the clusters from the end: the start of the longest tail within the budget.\<close>

fun tail_start :: "uiext \<Rightarrow> int \<Rightarrow> runes list \<Rightarrow> nat \<Rightarrow> nat \<Rightarrow> nat" where
  "tail_start u tailBudget cls 0 width = 0"
| "tail_start u tailBudget cls (Suc i) width =
     (if int (width + u_width u (cls ! i)) > tailBudget then Suc i
      else tail_start u tailBudget cls i (width + u_width u (cls ! i)))"

definition TruncateFront :: "uiext \<Rightarrow> runes \<Rightarrow> int \<Rightarrow> runes" where
  "TruncateFront u s maxW =
     (if maxW \<le> 0 then []
      else if int (u_width u s) \<le> maxW then s
      else if maxW < 3 then replicate (nat maxW) 46
      else
        let tailBudget = maxW - 3; clusters = map fst (u_clusters u s);
            start = tail_start u tailBudget clusters (length clusters) 0
        in str ''...'' @ concat (drop start clusters))"

section \<open>Boxes\<close>

record border_set =
  bs_top :: runes
  bs_bottom :: runes
  bs_left :: runes
  bs_right :: runes
  bs_topLeft :: runes
  bs_topRight :: runes
  bs_bottomLeft :: runes
  bs_bottomRight :: runes

definition RoundedSet :: border_set where
  "RoundedSet = \<lparr>bs_top = [9472], bs_bottom = [9472], bs_left = [9474], bs_right = [9474],
     bs_topLeft = [9581], bs_topRight = [9582], bs_bottomLeft = [9584], bs_bottomRight = [9583]\<rparr>"

definition putCell :: "int \<Rightarrow> int \<Rightarrow> runes \<Rightarrow> nat \<Rightarrow> cell list" where
  "putCell x y g st = (if g \<noteq> [] then [cell_at x y g st] else [])"

definition drawHEdges :: "border_set \<Rightarrow> int \<Rightarrow> int \<Rightarrow> int \<Rightarrow> int \<Rightarrow> nat \<Rightarrow> cell list" where
  "drawHEdges b left right tp bt st =
     (let hStart = (if bs_topLeft b \<noteq> [] \<or> bs_bottomLeft b \<noteq> [] then left + 1 else left);
          hEnd = (if bs_topRight b \<noteq> [] \<or> bs_bottomRight b \<noteq> [] then right - 1 else right)
      in concat (map (\<lambda>x. putCell x tp (bs_top b) st @ putCell x bt (bs_bottom b) st) [hStart..hEnd]))"

definition drawVEdges :: "border_set \<Rightarrow> int \<Rightarrow> int \<Rightarrow> int \<Rightarrow> int \<Rightarrow> nat \<Rightarrow> cell list" where
  "drawVEdges b left right tp bt st =
     (let vStart = (if bs_topLeft b \<noteq> [] \<or> bs_topRight b \<noteq> [] then tp + 1 else tp);
          vEnd = (if bs_bottomLeft b \<noteq> [] \<or> bs_bottomRight b \<noteq> [] then bt - 1 else bt)
      in concat (map (\<lambda>y. putCell left y (bs_left b) st @ putCell right y (bs_right b) st) [vStart..vEnd]))"

definition DrawBox :: "rect \<Rightarrow> border_set \<Rightarrow> nat \<Rightarrow> cell list" where
  "DrawBox r b st =
     (if rect_w r < 1 \<or> rect_h r < 1 then []
      else
        let left = rect_x r; right = rect_x r + rect_w r - 1; tp = rect_y r; bt = rect_y r + rect_h r - 1
        in putCell left tp (bs_topLeft b) st @ putCell right tp (bs_topRight b) st @
           putCell left bt (bs_bottomLeft b) st @ putCell right bt (bs_bottomRight b) st @
           drawHEdges b left right tp bt st @ drawVEdges b left right tp bt st)"

definition Pad :: "rect \<Rightarrow> int \<Rightarrow> int \<Rightarrow> int \<Rightarrow> int \<Rightarrow> rect" where
  "Pad r tp right bt left =
     (let w = rect_w r - left - right; h = rect_h r - tp - bt
      in \<lparr>rect_x = rect_x r + left, rect_y = rect_y r + tp,
          rect_w = (if w < 0 then 0 else w), rect_h = (if h < 0 then 0 else h)\<rparr>)"

text \<open>Go's division truncates; the dividends here are not negative.\<close>

definition CenterX :: "int \<Rightarrow> int \<Rightarrow> int" where
  "CenterX outerW contentW = (if contentW \<ge> outerW then 0 else (outerW - contentW) div 2)"

definition CenterY :: "int \<Rightarrow> int \<Rightarrow> int" where
  "CenterY outerH contentH = (if contentH \<ge> outerH then 0 else (outerH - contentH) div 2)"

definition PlaceVCentered :: "uiext \<Rightarrow> rect \<Rightarrow> runes \<Rightarrow> nat \<Rightarrow> cell list" where
  "PlaceVCentered u r t st =
     (if rect_w r < 1 \<or> rect_h r < 1 \<or> t = [] then []
      else
        let ls = split_lines t; startY = rect_y r + CenterY (rect_h r) (int (length ls))
        in concat (map (\<lambda>(i, l).
             let y = startY + int i
             in if y < rect_y r \<or> y \<ge> rect_y r + rect_h r then []
                else fst (PlaceText u (rect_x r) y l st (rect_x r + rect_w r))) (enumerate 0 ls)))"

definition CenterRect :: "rect \<Rightarrow> int \<Rightarrow> int \<Rightarrow> rect" where
  "CenterRect outer w h =
     (let w = (if w > rect_w outer then rect_w outer else w); h = (if h > rect_h outer then rect_h outer else h)
      in \<lparr>rect_x = rect_x outer + (rect_w outer - w) div 2, rect_y = rect_y outer + (rect_h outer - h) div 2,
          rect_w = w, rect_h = h\<rparr>)"

section \<open>Button strips\<close>

record strip =
  st_labels :: "runes list"
  st_x :: int
  st_maxX :: int

definition strip_Width :: "uiext \<Rightarrow> runes list \<Rightarrow> nat" where
  "strip_Width u labels = sum_list (map (\<lambda>l. 1 + u_width u l + 1) labels)"

definition StartX :: "uiext \<Rightarrow> strip \<Rightarrow> int" where
  "StartX u s = st_x s + CenterX (st_maxX s - st_x s) (int (strip_Width u (st_labels s)))"

fun hit_from :: "uiext \<Rightarrow> int \<Rightarrow> int \<Rightarrow> nat \<Rightarrow> runes list \<Rightarrow> int" where
  "hit_from u x col i [] = -1"
| "hit_from u x col i (l # ls) =
     (let chunk = int (1 + u_width u l + 1)
      in if x \<ge> col \<and> x < col + chunk then int i else hit_from u x (col + chunk) (i + 1) ls)"

definition HitTest :: "uiext \<Rightarrow> strip \<Rightarrow> int \<Rightarrow> int" where
  "HitTest u s x = hit_from u x (StartX u s) 0 (st_labels s)"

text \<open>The style of a button: 1 is bold and reverse.\<close>

fun strip_draw_from :: "uiext \<Rightarrow> int \<Rightarrow> int \<Rightarrow> int \<Rightarrow> nat \<Rightarrow> runes list \<Rightarrow> int \<Rightarrow> cell list" where
  "strip_draw_from u y selected col i [] maxX = []"
| "strip_draw_from u y selected col i (l # ls) maxX =
     (let r = PlaceText u col y (SP # l @ [SP]) (if int i = selected then 1 else 0) maxX
      in fst r @ strip_draw_from u y selected (snd r) (i + 1) ls maxX)"

definition strip_Draw :: "uiext \<Rightarrow> strip \<Rightarrow> int \<Rightarrow> int \<Rightarrow> cell list" where
  "strip_Draw u s y selected = strip_draw_from u y selected (StartX u s) 0 (st_labels s) (st_maxX s)"

definition strip_Hover :: "uiext \<Rightarrow> strip \<Rightarrow> int \<Rightarrow> int \<Rightarrow> int \<times> bool" where
  "strip_Hover u s x selected =
     (let idx = HitTest u s x in if idx < 0 \<or> idx = selected then (selected, False) else (idx, True))"

section \<open>Facts\<close>

lemma hit_from_bounds: "hit_from u x col i ls = -1 \<or> (int i \<le> hit_from u x col i ls \<and> hit_from u x col i ls < int (i + length ls))"
  by (induction u x col i ls rule: hit_from.induct) (auto simp: Let_def)

lemma HitTest_bounds: "HitTest u s x < int (length (st_labels s)) \<and> (HitTest u s x = -1 \<or> 0 \<le> HitTest u s x)"
  using hit_from_bounds [of u x "StartX u s" 0 "st_labels s"] by (auto simp: HitTest_def)

text \<open>What the width and cluster functions of the text library promise.\<close>

definition width_ok :: "uiext \<Rightarrow> bool" where
  "width_ok u \<longleftrightarrow> (\<forall>s t. u_width u (s @ t) \<le> u_width u s + u_width u t) \<and> u_width u [] = 0 \<and> u_width u [46] = 1 \<and>
     (\<forall>s. concat (map fst (u_clusters u s)) = s)"

lemma width_concat: "width_ok u \<Longrightarrow> u_width u (concat cls) \<le> sum_list (map (u_width u) cls)"
proof (induction cls)
  case (Cons c cls)
  then have "u_width u (c @ concat cls) \<le> u_width u c + u_width u (concat cls)" by (simp add: width_ok_def)
  with Cons show ?case by simp
qed (simp add: width_ok_def)

lemma tail_start_fits:
  "int width \<le> b \<Longrightarrow> i \<le> length cls \<Longrightarrow>
     int (width + sum_list (map (u_width u) (drop (tail_start u b cls i width) (take i cls)))) \<le> b \<and> tail_start u b cls i width \<le> i"
proof (induction u b cls i width rule: tail_start.induct)
  case (2 u b cls i width)
  show ?case
  proof (cases "int (width + u_width u (cls ! i)) > b")
    case False
    let ?k = "tail_start u b cls i (width + u_width u (cls ! i))"
    have IH: "int (width + u_width u (cls ! i) + sum_list (map (u_width u) (drop ?k (take i cls)))) \<le> b" "?k \<le> i"
      using 2 False by auto
    have "take (Suc i) cls = take i cls @ [cls ! i]" using 2(3) by (simp add: take_Suc_conv_app_nth)
    with IH False 2(3) show ?thesis by simp
  qed (use 2 in simp)
qed simp

text \<open>
  A text truncated to a width fits it, and what is shown is the whole text, or dots and a tail of it.
\<close>

theorem TruncateFront_fits:
  assumes "width_ok u"
  shows "int (u_width u (TruncateFront u s maxW)) \<le> max 0 maxW \<and>
    (TruncateFront u s maxW = s \<or> (\<exists>dots t. TruncateFront u s maxW = dots @ t \<and> set dots \<subseteq> {46} \<and> suffix t s))"
proof -
  have dots: "u_width u (replicate n 46) \<le> n" for n
  proof (induction n)
    case (Suc n)
    have "u_width u ([46] @ replicate n 46) \<le> u_width u [46] + u_width u (replicate n 46)"
      using assms unfolding width_ok_def by blast
    with Suc assms show ?case by (simp add: width_ok_def)
  qed (use assms in \<open>simp add: width_ok_def\<close>)
  consider "maxW \<le> 0" | "0 < maxW" "int (u_width u s) \<le> maxW" | "0 < maxW" "\<not> int (u_width u s) \<le> maxW" "maxW < 3"
    | "\<not> int (u_width u s) \<le> maxW" "3 \<le> maxW" by linarith
  then show ?thesis
  proof cases
    case 1
    then show ?thesis using assms by (auto simp: TruncateFront_def width_ok_def)
  next
    case 2
    then show ?thesis by (simp add: TruncateFront_def)
  next
    case 3
    then have eq: "TruncateFront u s maxW = replicate (nat maxW) 46" by (simp add: TruncateFront_def)
    have "\<exists>dots t. replicate (nat maxW) 46 = dots @ t \<and> set dots \<subseteq> {46 :: nat} \<and> suffix t s"
      by (rule exI [of _ "replicate (nat maxW) 46"], rule exI [of _ "[]"]) auto
    moreover have "int (u_width u (replicate (nat maxW) 46)) \<le> max 0 maxW"
      using dots [of "nat maxW"] 3(1) by simp
    ultimately show ?thesis unfolding eq by simp
  next
    case 4
    define cls where "cls = map fst (u_clusters u s)"
    define k where "k = tail_start u (maxW - 3) cls (length cls) 0"
    have eq: "TruncateFront u s maxW = str ''...'' @ concat (drop k cls)"
      using 4 by (simp add: TruncateFront_def Let_def k_def cls_def)
    have "int (sum_list (map (u_width u) (drop k cls))) \<le> maxW - 3"
      using tail_start_fits [of 0 "maxW - 3" "length cls" cls u] 4(2) by (simp add: k_def)
    then have "int (u_width u (concat (drop k cls))) \<le> maxW - 3"
      using width_concat [OF assms, of "drop k cls"] by linarith
    moreover have "u_width u (str ''...'' @ concat (drop k cls)) \<le> u_width u (str ''...'') + u_width u (concat (drop k cls))"
      using assms unfolding width_ok_def by blast
    moreover have "str ''...'' = replicate 3 46" by code_simp
    then have "u_width u (str ''...'') \<le> 3" using dots [of 3] by (simp only:)
    moreover have "suffix (concat (drop k cls)) s"
    proof -
      have "s = concat (take k cls) @ concat (drop k cls)"
        using assms by (simp add: width_ok_def cls_def flip: concat_append)
      then show ?thesis unfolding suffix_def by blast
    qed
    then have "\<exists>dots t. str ''...'' @ concat (drop k cls) = dots @ t \<and> set dots \<subseteq> {46} \<and> suffix t s"
      by (intro exI [of _ "str ''...''"] exI [of _ "concat (drop k cls)"]) simp
    ultimately show ?thesis
      unfolding eq using 4(2) by (intro conjI disjI2) (linarith, blast)
  qed
qed

theorem TruncateFront_fits_witness: "TruncateFront demo_ui (str ''ni_cncf_io'') 7 = str ''...f_io''"
proof -
  have "width_ok demo_ui" by (simp add: width_ok_def demo_ui_def comp_def)
  from TruncateFront_fits [OF this, of "str ''ni_cncf_io''" 7]
  have "int (length (TruncateFront demo_ui (str ''ni_cncf_io'') 7)) \<le> 7" by (simp add: demo_ui_def)
  then show ?thesis by code_simp
qed

end
