(* ===== verification/Filtermenu.thy ===== *)
theory Filtermenu
  imports Uiinput Canvas Log_Filter
begin

text \<open>
  The filter menu, \<^verbatim>\<open>internal/ui/components/filtermenu/filtermenu.go\<close>: rule rows with a type and a
  text field, the trailing placeholder row, the button row, keys and clicks. Writing the rules to the
  shared state, the posted message and the close are appended to \<open>fm_out\<close>.
\<close>

section \<open>State\<close>

datatype focus_zone = FocusRow | FocusButtons

record frow =
  fr_typ :: filter_type
  fr_input :: input

datatype fm_effect = SetFilters "rule list" | FilterApplied | CloseMenu

record filter_menu =
  fm_rect :: rect
  fm_rows :: "frow list"
  fm_focus :: focus_zone
  fm_cursorRow :: nat
  fm_selectedButton :: int
  fm_hasOnClose :: bool
  fm_out :: "fm_effect list"

definition btnApply :: int where [simp]: "btnApply = 0"
definition btnClear :: int where [simp]: "btnClear = 1"
definition btnCancel :: int where [simp]: "btnCancel = 2"

definition buttonLabels :: "runes list" where
  "buttonLabels = [str ''Apply'', str ''Clear'', str ''Cancel'']"

definition chipPadW :: int where "chipPadW = 11"

definition realTypes :: "filter_type list" where
  "realTypes = [Include, Exclude, HasField, LacksField]"

definition newRow :: "uiext \<Rightarrow> filter_type \<Rightarrow> runes \<Rightarrow> frow" where
  "newRow u t value = \<lparr>fr_typ = t, fr_input = in_SetValue (u_width u) value in_New\<rparr>"

definition upd_input :: "nat \<Rightarrow> (input \<Rightarrow> input) \<Rightarrow> filter_menu \<Rightarrow> filter_menu" where
  "upd_input i f m = m\<lparr>fm_rows := (fm_rows m)[i := (fm_rows m ! i)\<lparr>fr_input := f (fr_input (fm_rows m ! i))\<rparr>]\<rparr>"

definition fm_New :: "uiext \<Rightarrow> rule list \<Rightarrow> filter_menu" where
  "fm_New u rules =
     upd_input 0 in_Focus
       \<lparr>fm_rect = \<lparr>rect_x = 0, rect_y = 0, rect_w = 0, rect_h = 0\<rparr>,
        fm_rows = map (\<lambda>r. newRow u (r_type r) (r_value r)) rules @ [newRow u Unknown []],
        fm_focus = FocusRow, fm_cursorRow = 0, fm_selectedButton = 0, fm_hasOnClose = False, fm_out = []\<rparr>"

definition chipLabel :: "filter_type \<Rightarrow> runes" where
  "chipLabel t = (let label = str (Label t) in label @ replicate (nat chipPadW - length label) SP)"

section \<open>Rows\<close>

definition isPlaceholder :: "nat \<Rightarrow> filter_menu \<Rightarrow> bool" where
  "isPlaceholder i m \<longleftrightarrow> fr_typ (fm_rows m ! i) = Unknown \<and> in_value (fr_input (fm_rows m ! i)) = []"

definition focusActiveRowInput :: "filter_menu \<Rightarrow> filter_menu" where
  "focusActiveRowInput m =
     m\<lparr>fm_rows := map (\<lambda>(i, r). r\<lparr>fr_input :=
         (if fm_focus m = FocusRow \<and> i = fm_cursorRow m then in_Focus (fr_input r) else in_Blur (fr_input r))\<rparr>)
         (enumerate 0 (fm_rows m))\<rparr>"

definition moveRow :: "int \<Rightarrow> filter_menu \<Rightarrow> filter_menu" where
  "moveRow dir m =
     (if fm_focus m = FocusButtons then
        if dir < 0 then
          focusActiveRowInput (m\<lparr>fm_focus := FocusRow, fm_cursorRow := length (fm_rows m) - 1, fm_selectedButton := btnApply\<rparr>)
        else m
      else
        let next = int (fm_cursorRow m) + dir
        in if next \<ge> int (length (fm_rows m)) then
             focusActiveRowInput (m\<lparr>fm_focus := FocusButtons, fm_selectedButton := btnApply\<rparr>)
           else focusActiveRowInput (m\<lparr>fm_cursorRow := nat (if next < 0 then 0 else next)\<rparr>))"

definition moveButton :: "int \<Rightarrow> filter_menu \<Rightarrow> filter_menu" where
  "moveButton dir m =
     (if fm_focus m \<noteq> FocusButtons then m
      else m\<lparr>fm_selectedButton := min (max (fm_selectedButton m + dir) btnApply) btnCancel\<rparr>)"

definition clearRow :: "uiext \<Rightarrow> filter_menu \<Rightarrow> filter_menu" where
  "clearRow u m =
     (if fm_focus m \<noteq> FocusRow \<or> length (fm_rows m) = 0 then m
      else upd_input (fm_cursorRow m) (in_SetValue (u_width u) []) m)"

definition removeRowAt :: "nat \<Rightarrow> filter_menu \<Rightarrow> filter_menu" where
  "removeRowAt i m = m\<lparr>fm_rows := take i (fm_rows m) @ drop (i + 1) (fm_rows m)\<rparr>"

text \<open>The length of a string in bytes.\<close>

definition utf8_len :: "runes \<Rightarrow> nat" where
  "utf8_len s = sum_list (map (\<lambda>r. if r < 128 then 1 else if r < 2048 then 2 else if r < 65536 then 3 else 4) s)"

definition caret_to_end :: "uiext \<Rightarrow> input \<Rightarrow> input" where
  "caret_to_end u i = in_SetCursor (u_width u) (int (utf8_len (in_value i))) i"

definition deletePrev :: "uiext \<Rightarrow> filter_menu \<Rightarrow> filter_menu" where
  "deletePrev u m =
     (if fm_focus m \<noteq> FocusRow \<or> length (fm_rows m) = 0 then m
      else
        let i = fm_cursorRow m
        in if isPlaceholder i m then
             focusActiveRowInput
               (if i > 0 then upd_input (i - 1) (caret_to_end u) (m\<lparr>fm_cursorRow := i - 1\<rparr>) else m)
           else
             let m1 = removeRowAt i m
             in focusActiveRowInput
                  (if i > 0 then upd_input (i - 1) (caret_to_end u) (m1\<lparr>fm_cursorRow := i - 1\<rparr>)
                   else m1\<lparr>fm_cursorRow := 0\<rparr>))"

definition deleteHere :: "filter_menu \<Rightarrow> filter_menu" where
  "deleteHere m =
     (if fm_focus m \<noteq> FocusRow \<or> length (fm_rows m) = 0 then m
      else
        let i = fm_cursorRow m
        in if isPlaceholder i m then m
           else
             let m1 = removeRowAt i m
             in focusActiveRowInput
                  (if fm_cursorRow m1 \<ge> length (fm_rows m1) then m1\<lparr>fm_cursorRow := length (fm_rows m1) - 1\<rparr> else m1))"

definition commitPlaceholder :: "uiext \<Rightarrow> filter_type \<Rightarrow> filter_menu \<Rightarrow> filter_menu" where
  "commitPlaceholder u t m =
     m\<lparr>fm_rows := (fm_rows m)[fm_cursorRow m := (fm_rows m ! fm_cursorRow m)\<lparr>fr_typ := t\<rparr>] @ [newRow u Unknown []]\<rparr>"

fun type_index :: "filter_type \<Rightarrow> nat \<Rightarrow> filter_type list \<Rightarrow> nat" where
  "type_index t k [] = 0"
| "type_index t k (x # xs) = (if x = t then k else type_index t (k + 1) xs)"

definition cycleType :: "uiext \<Rightarrow> int \<Rightarrow> filter_menu \<Rightarrow> filter_menu" where
  "cycleType u dir m =
     (if fm_focus m \<noteq> FocusRow \<or> length (fm_rows m) = 0 then m
      else
        let i = fm_cursorRow m
        in if isPlaceholder i m then commitPlaceholder u (if dir < 0 then LacksField else Include) m
           else
             let cur = int (type_index (fr_typ (fm_rows m ! i)) 0 realTypes);
                 n = int (length realTypes);
                 next = nat ((cur + dir + n) mod n)
             in m\<lparr>fm_rows := (fm_rows m)[i := (fm_rows m ! i)\<lparr>fr_typ := realTypes ! next\<rparr>]\<rparr>)"

section \<open>Buttons\<close>

definition prunedRules :: "filter_menu \<Rightarrow> rule list" where
  "prunedRules m =
     map (\<lambda>r. \<lparr>r_type = fr_typ r, r_value = in_value (fr_input r)\<rparr>)
       (filter (\<lambda>r. \<not> (fr_typ r = Unknown \<or> in_value (fr_input r) = [])) (fm_rows m))"

definition fm_close :: "filter_menu \<Rightarrow> filter_menu" where
  "fm_close m = (if fm_hasOnClose m then m\<lparr>fm_out := fm_out m @ [CloseMenu]\<rparr> else m)"

definition fm_apply :: "filter_menu \<Rightarrow> filter_menu" where
  "fm_apply m = fm_close (m\<lparr>fm_out := fm_out m @ [SetFilters (prunedRules m), FilterApplied]\<rparr>)"

definition fm_Dismiss :: "filter_menu \<Rightarrow> filter_menu" where "fm_Dismiss m = fm_close m"

definition clearAll :: "uiext \<Rightarrow> filter_menu \<Rightarrow> filter_menu" where
  "clearAll u m =
     focusActiveRowInput (m\<lparr>fm_rows := [newRow u Unknown []], fm_cursorRow := 0, fm_focus := FocusButtons,
       fm_selectedButton := btnApply\<rparr>)"

definition pressButton :: "uiext \<Rightarrow> filter_menu \<Rightarrow> filter_menu" where
  "pressButton u m =
     (if fm_focus m \<noteq> FocusButtons then fm_apply m
      else if fm_selectedButton m = btnClear then clearAll u m
      else if fm_selectedButton m = btnCancel then fm_Dismiss m
      else fm_apply m)"

section \<open>Geometry\<close>

definition contentW :: "uiext \<Rightarrow> filter_menu \<Rightarrow> int" where
  "contentW u m =
     (let valueW = fold (\<lambda>r w. max w (int (u_width u (in_value (fr_input r))))) (fm_rows m) 10
      in chipPadW + 1 + valueW + 1)"

definition fm_PreferredSize :: "uiext \<Rightarrow> int \<Rightarrow> int \<Rightarrow> filter_menu \<Rightarrow> int \<times> int" where
  "fm_PreferredSize u maxW maxH m =
     (let w = contentW u m + 2 * (1 + 1); h = int (length (fm_rows m)) + 1 + 2 * 1 in (min w maxW, min h maxH))"

definition fm_inner :: "filter_menu \<Rightarrow> rect" where
  "fm_inner m = Pad (fm_rect m) 1 (1 + 1) 1 (1 + 1)"

definition fm_strip :: "rect \<Rightarrow> strip" where
  "fm_strip inner = \<lparr>st_labels = buttonLabels, st_x = rect_x inner, st_maxX = rect_x inner + rect_w inner\<rparr>"

definition fm_SetRect :: "rect \<Rightarrow> filter_menu \<Rightarrow> filter_menu" where "fm_SetRect r m = m\<lparr>fm_rect := r\<rparr>"

section \<open>Events\<close>

definition fm_keys :: "uiext \<Rightarrow> keyconf \<Rightarrow> (filter_menu \<Rightarrow> filter_menu) handler" where
  "fm_keys u cfg = Bind u
     [bind_of [str ''tab''] ''next rule type'' (Some (cycleType u 1)) CatThisView,
      bind_of [str ''shift+tab''] ''previous rule type'' (Some (cycleType u (-1))) CatThisView,
      bind_of [str ''down''] ''next row / buttons'' (Some (moveRow 1)) CatThisView,
      bind_of [str ''up''] ''previous row / content'' (Some (moveRow (-1))) CatThisView,
      bind_of (kc_clear cfg) ''clear rule value'' (Some (clearRow u)) CatThisView,
      bind_of (kc_accept cfg) ''press button'' (Some (pressButton u)) CatThisView,
      bind_of (kc_cancel cfg) ''cancel'' (Some fm_Dismiss) CatThisView] key_New"

definition fm_HandleKey :: "uiext \<Rightarrow> keyconf \<Rightarrow> key_event \<Rightarrow> filter_menu \<Rightarrow> filter_menu" where
  "fm_HandleKey u cfg ev m =
     (let r = key_Run u (fm_keys u cfg) ev m
      in if snd r then fst r
         else if fm_focus m = FocusButtons then
           (case k_code ev of KeyLeft \<Rightarrow> moveButton (-1) m | KeyRight \<Rightarrow> moveButton 1 m | _ \<Rightarrow> m)
         else if length (fm_rows m) > 0 \<and> in_value (fr_input (fm_rows m ! fm_cursorRow m)) = [] \<and> k_code ev = KeyBackspace
           then deletePrev u m
         else if length (fm_rows m) > 0 \<and> in_value (fr_input (fm_rows m ! fm_cursorRow m)) = [] \<and> k_code ev = KeyDelete
           then deleteHere m
         else
           let m1 = (if length (fm_rows m) > 0 \<and> isPlaceholder (fm_cursorRow m) m \<and> k_text ev \<noteq> []
                     then commitPlaceholder u Include m else m)
           in if length (fm_rows m1) > 0
              then upd_input (fm_cursorRow m1) (\<lambda>i. fst (in_HandleKey (u_width u) ev i)) m1 else m1)"

definition fm_OnMouseClick :: "uiext \<Rightarrow> int \<Rightarrow> int \<Rightarrow> filter_menu \<Rightarrow> filter_menu \<times> bool" where
  "fm_OnMouseClick u x y m =
     (let inner = fm_inner m; row = y - rect_y inner
      in if rect_w inner < 1 \<or> rect_h inner < 1 then (m, False)
         else if row \<ge> 0 \<and> row < int (length (fm_rows m)) then
           let m1 = focusActiveRowInput (m\<lparr>fm_focus := FocusRow, fm_cursorRow := nat row\<rparr>);
               lineX = rect_x inner + chipPadW + 1
           in (if x < lineX then cycleType u 1 m1
               else upd_input (nat row) (\<lambda>i. in_SetCursor (u_width u) (int (RuneIndexAtViewportX (u_width u) (x - lineX) i)) i) m1,
               True)
         else if row = int (length (fm_rows m)) then
           let idx = HitTest u (fm_strip inner) x
           in (if idx \<ge> 0 then pressButton u (m\<lparr>fm_focus := FocusButtons, fm_selectedButton := idx\<rparr>) else m, True)
         else (m, True))"

definition fm_OnMouseHover :: "uiext \<Rightarrow> int \<Rightarrow> int \<Rightarrow> filter_menu \<Rightarrow> filter_menu \<times> bool" where
  "fm_OnMouseHover u x y m =
     (let inner = fm_inner m
      in if rect_w inner < 1 \<or> rect_h inner < 1 then (m, False)
         else if y \<noteq> rect_y inner + int (length (fm_rows m)) then (m, False)
         else let r = strip_Hover u (fm_strip inner) x (fm_selectedButton m)
              in (m\<lparr>fm_selectedButton := fst r\<rparr>, snd r))"

end
