(* ===== verification/Listmodel.thy ===== *)
theory Listmodel
  imports Uiinput Keys
begin

text \<open>
  The fuzzy-filterable list every menu and tab uses, \<^verbatim>\<open>internal/ui/components/list\<close>
  (\<^verbatim>\<open>list.go\<close>, \<^verbatim>\<open>keybinds.go\<close>): items, filter, cursor and scroll offset, hit tests, keys and mouse,
  and the rows \<^verbatim>\<open>placeItems\<close> draws. What an operation does to the outside (posted messages, hooks run)
  is appended to \<open>l_out\<close>.
\<close>

section \<open>State\<close>

record segment =
  seg_text :: runes
  seg_fg :: "nat option"
  seg_bg :: "nat option"

definition PlainItem :: "runes \<Rightarrow> segment list" where
  "PlainItem t = [\<lparr>seg_text = t, seg_fg = None, seg_bg = None\<rparr>]"

definition ItemText :: "segment list \<Rightarrow> runes" where
  "ItemText item = concat (map seg_text item)"

datatype list_effect = GrabFocus | ReleaseFocus | RunConfirm | RunActivate | RequestQuit

record list_model =
  l_drawRect :: rect
  l_items :: "segment list list"
  l_itemTexts :: "runes list"
  l_fuzzied :: "(nat \<times> int) list option"
  l_cursor :: int
  l_yOffset :: int
  l_hoverRow :: int
  l_showItemIdx :: bool
  l_doubleClickActivate :: bool
  l_input :: input
  l_onFuzzyConfirm :: bool
  l_onActivate :: bool
  l_out :: "list_effect list"

definition list_New :: list_model where
  "list_New = \<lparr>l_drawRect = \<lparr>rect_x = 0, rect_y = 0, rect_w = 0, rect_h = 0\<rparr>, l_items = [], l_itemTexts = [],
     l_fuzzied = None, l_cursor = 0, l_yOffset = 0, l_hoverRow = -1, l_showItemIdx = False,
     l_doubleClickActivate = False,
     l_input = in_New\<lparr>in_placeholder := str ''fuzzyfind'', in_prompt := str ''> ''\<rparr>,
     l_onFuzzyConfirm = False, l_onActivate = False, l_out = []\<rparr>"

definition emit :: "list_effect \<Rightarrow> list_model \<Rightarrow> list_model" where
  "emit e m = m\<lparr>l_out := l_out m @ [e]\<rparr>"

definition WithItems :: "uiext \<Rightarrow> segment list list \<Rightarrow> list_model \<Rightarrow> list_model" where
  "WithItems u items m =
     m\<lparr>l_items := items, l_itemTexts := map ItemText items,
       l_input := in_SetValue (u_width u) [] (l_input m),
       l_cursor := clamp (l_cursor m) 0 (int (length items) - 1)\<rparr>"

definition VisibleLen :: "list_model \<Rightarrow> nat" where
  "VisibleLen m = (case l_fuzzied m of Some fs \<Rightarrow> length fs | None \<Rightarrow> length (l_items m))"

definition VisibleIndices :: "list_model \<Rightarrow> nat list" where
  "VisibleIndices m = (case l_fuzzied m of None \<Rightarrow> [0..<length (l_items m)] | Some fs \<Rightarrow> map fst fs)"

section \<open>Geometry\<close>

definition subRects :: "list_model \<Rightarrow> rect \<times> rect" where
  "subRects m =
     (let r = l_drawRect m
      in if rect_h r \<le> 2 then (r, \<lparr>rect_x = rect_x r, rect_y = rect_y r + rect_h r, rect_w = rect_w r, rect_h = 0\<rparr>)
         else (\<lparr>rect_x = rect_x r, rect_y = rect_y r, rect_w = rect_w r, rect_h = 2\<rparr>,
               \<lparr>rect_x = rect_x r, rect_y = rect_y r + 2, rect_w = rect_w r, rect_h = rect_h r - 2\<rparr>))"

definition RowAtY :: "int \<Rightarrow> list_model \<Rightarrow> int option" where
  "RowAtY y m =
     (let listRect = snd (subRects m); row = y - rect_y listRect; idx = l_yOffset m + row
      in if rect_h listRect < 1 then None
         else if row < 0 then None
         else if idx \<ge> int (VisibleLen m) then None
         else Some idx)"

definition SelectedRowY :: "list_model \<Rightarrow> int option" where
  "SelectedRowY m =
     (let listRect = snd (subRects m)
      in if VisibleLen m < 1 then None
         else if rect_h listRect < 1 then None
         else Some (rect_y listRect + (l_cursor m - l_yOffset m)))"

definition listAreaHeight :: "list_model \<Rightarrow> int" where
  "listAreaHeight m = (let h = rect_h (l_drawRect m) - 2 in if h < 1 then 1 else h)"

definition list_SetRect :: "rect \<Rightarrow> list_model \<Rightarrow> list_model" where
  "list_SetRect r m = m\<lparr>l_drawRect := r\<rparr>"

section \<open>Filter, cursor and scrolling\<close>

definition refilter :: "uiext \<Rightarrow> list_model \<Rightarrow> list_model" where
  "refilter u m =
     (let v = in_value (l_input m)
      in if v = [] then m\<lparr>l_fuzzied := None\<rparr>
         else
           let found = u_rank u v (l_itemTexts m)
           in if found = [] then m\<lparr>l_fuzzied := Some []\<rparr>
              else
                let sorted = u_sort u found
                in m\<lparr>l_fuzzied := Some sorted, l_cursor := clamp (l_cursor m) 0 (int (length sorted) - 1)\<rparr>)"

definition list_SetCursor :: "int \<Rightarrow> list_model \<Rightarrow> list_model" where
  "list_SetCursor idx m =
     (let n = VisibleLen m
      in if n = 0 then m
         else
           let c = clamp idx 0 (int n - 1); h = listAreaHeight m
           in if c < l_yOffset m then m\<lparr>l_cursor := c, l_yOffset := c\<rparr>
              else if c \<ge> l_yOffset m + h then m\<lparr>l_cursor := c, l_yOffset := c - h + 1\<rparr>
              else m\<lparr>l_cursor := c\<rparr>)"

definition MoveCursor :: "int \<Rightarrow> list_model \<Rightarrow> list_model" where
  "MoveCursor n m = list_SetCursor (l_cursor m + n) m"

definition list_ScrollViewport :: "int \<Rightarrow> list_model \<Rightarrow> list_model" where
  "list_ScrollViewport n m =
     (if n = 0 then m
      else
        let h = listAreaHeight m;
            maxOff = max 0 (int (VisibleLen m) - h);
            off = clamp (l_yOffset m + n) 0 maxOff
        in m\<lparr>l_yOffset := off,
             l_cursor := if l_cursor m < off then off
                         else if l_cursor m \<ge> off + h then off + h - 1 else l_cursor m\<rparr>)"

fun find_name :: "(nat \<Rightarrow> runes) \<Rightarrow> runes \<Rightarrow> nat \<Rightarrow> nat list \<Rightarrow> nat option" where
  "find_name texts name disp [] = None"
| "find_name texts name disp (orig # rest) =
     (if texts orig = name then Some disp else find_name texts name (disp + 1) rest)"

definition SelectByName :: "runes \<Rightarrow> list_model \<Rightarrow> list_model \<times> bool" where
  "SelectByName name m =
     (case find_name (\<lambda>i. l_itemTexts m ! i) name 0 (VisibleIndices m) of
        Some disp \<Rightarrow> (list_SetCursor (int disp) m, True)
      | None \<Rightarrow> (m, False))"

text \<open>
  \<^verbatim>\<open>GetCursor\<close>: the original index of the cursor row; \<open>None\<close> is the index panic of a cursor beyond
  the filtered rows.
\<close>

definition GetCursor :: "list_model \<Rightarrow> int option" where
  "GetCursor m =
     (case l_fuzzied m of
        Some (f # fs) \<Rightarrow>
          if 0 \<le> l_cursor m \<and> l_cursor m < int (length (f # fs)) then Some (int (fst ((f # fs) ! nat (l_cursor m)))) else None
      | _ \<Rightarrow> Some (l_cursor m))"

definition GetItemUnderCursor :: "list_model \<Rightarrow> runes option" where
  "GetItemUnderCursor m =
     (if length (l_items m) < 1 then Some []
      else case GetCursor m of
        None \<Rightarrow> None
      | Some i \<Rightarrow> if 0 \<le> i \<and> i < int (length (l_itemTexts m)) then Some (l_itemTexts m ! nat i) else None)"

definition AddItem :: "segment list \<Rightarrow> list_model \<Rightarrow> list_model" where
  "AddItem item m =
     (let m1 = m\<lparr>l_items := l_items m @ [item], l_itemTexts := l_itemTexts m @ [ItemText item]\<rparr>;
          h = listAreaHeight m1; n = int (length (l_items m1))
      in if n > h
         then m1\<lparr>l_yOffset := n - h, l_cursor := if l_cursor m1 < n - h then n - h else l_cursor m1\<rparr>
         else m1)"

definition SetItemAtIndex :: "nat \<Rightarrow> segment list \<Rightarrow> list_model \<Rightarrow> list_model option" where
  "SetItemAtIndex i v m =
     (if i < length (l_items m) \<and> i < length (l_itemTexts m)
      then Some (m\<lparr>l_items := (l_items m)[i := v], l_itemTexts := (l_itemTexts m)[i := ItemText v]\<rparr>)
      else None)"

definition SetItemUnderCursor :: "segment list \<Rightarrow> list_model \<Rightarrow> list_model option" where
  "SetItemUnderCursor v m =
     (if length (l_items m) < 1 then Some m
      else case GetCursor m of
        Some i \<Rightarrow> if i < 0 then None else SetItemAtIndex (nat i) v m
      | None \<Rightarrow> None)"

definition list_Clear :: "uiext \<Rightarrow> list_model \<Rightarrow> list_model" where
  "list_Clear u m = WithItems u [] m"

definition ClearFuzzy :: "uiext \<Rightarrow> list_model \<Rightarrow> list_model" where
  "ClearFuzzy u m = m\<lparr>l_input := in_SetValue (u_width u) [] (l_input m), l_fuzzied := None\<rparr>"

section \<open>Focus\<close>

definition list_Focus :: "list_model \<Rightarrow> list_model" where
  "list_Focus m = emit GrabFocus (m\<lparr>l_input := in_Focus (l_input m)\<rparr>)"

definition list_Unfocus :: "list_model \<Rightarrow> list_model" where
  "list_Unfocus m = emit ReleaseFocus (m\<lparr>l_input := in_Blur (l_input m)\<rparr>)"

definition list_Blur :: "list_model \<Rightarrow> list_model" where
  "list_Blur m = m\<lparr>l_input := in_Blur (l_input m)\<rparr>"

definition run_activate :: "list_model \<Rightarrow> list_model" where
  "run_activate m = (if l_onActivate m then emit RunActivate m else m)"

section \<open>Keys\<close>

definition alwaysHandle :: "uiext \<Rightarrow> keyconf \<Rightarrow> (list_model \<Rightarrow> list_model) handler" where
  "alwaysHandle u cfg =
     (let kbs = KeyBindsFrom cfg (emit RequestQuit)
      in Bind u
        [WithAction (\<lambda>m. let m1 = list_Unfocus m in if l_onFuzzyConfirm m1 then emit RunConfirm m1 else m1) (kb_confirmTextInput kbs),
         bind_of (kc_prev cfg) ''move cursor to the previous item'' (Some (MoveCursor (-1))) CatNavigation,
         bind_of (kc_next cfg) ''move cursor to the next item'' (Some (MoveCursor 1)) CatNavigation] key_New)"

definition regularKeys :: "uiext \<Rightarrow> keyconf \<Rightarrow> (list_model \<Rightarrow> list_model) handler" where
  "regularKeys u cfg =
     (let kbs = KeyBindsFrom cfg (emit RequestQuit)
      in Bind u
        [WithAction (list_SetCursor 0) (kb_moveToTop kbs),
         WithAction (\<lambda>m. MoveCursor (- listAreaHeight m) m) (kb_movePageUp kbs),
         WithAction (\<lambda>m. MoveCursor ((- listAreaHeight m) div 2) m) (kb_moveHalfPageUp kbs),
         WithAction (MoveCursor (-1)) (kb_moveLineUp kbs),
         WithAction (MoveCursor 1) (kb_moveLineDown kbs),
         WithAction (\<lambda>m. MoveCursor (listAreaHeight m div 2) m) (kb_moveHalfPageDown kbs),
         WithAction (\<lambda>m. MoveCursor (listAreaHeight m) m) (kb_movePageDown kbs),
         WithAction (\<lambda>m. list_SetCursor (int (VisibleLen m) - 1) m) (kb_moveToBottom kbs),
         bind_of (kc_search cfg) ''focus fuzzy finder'' (Some list_Focus) CatThisView] key_New)"

definition textInputKeys :: "uiext \<Rightarrow> keyconf \<Rightarrow> (list_model \<Rightarrow> list_model) handler" where
  "textInputKeys u cfg =
     (let kbs = KeyBindsFrom cfg (emit RequestQuit)
      in Bind u
        [WithAction list_Unfocus (kb_cancelTextInput kbs),
         bind_of (kc_clear cfg) ''clear fuzzy filter'' (Some (ClearFuzzy u)) CatThisView] key_New)"

definition list_HandleKey :: "uiext \<Rightarrow> keyconf \<Rightarrow> key_event \<Rightarrow> list_model \<Rightarrow> list_model \<times> bool" where
  "list_HandleKey u cfg ev m =
     (let a = key_Run u (alwaysHandle u cfg) ev m
      in if snd a then a
         else if in_focused (l_input m) then
           let t = key_Run u (textInputKeys u cfg) ev m
           in if snd t then t
              else
                let k = in_HandleKey (u_width u) ev (l_input m); m1 = m\<lparr>l_input := fst k\<rparr>
                in (if snd k then refilter u m1 else m1, True)
         else key_Run u (regularKeys u cfg) ev m)"

section \<open>Mouse and paste\<close>

definition list_OnPaste :: "uiext \<Rightarrow> runes \<Rightarrow> list_model \<Rightarrow> list_model" where
  "list_OnPaste u content m = refilter u (m\<lparr>l_input := InsertText (u_width u) content (l_input m)\<rparr>)"

definition in_header :: "int \<Rightarrow> list_model \<Rightarrow> bool" where
  "in_header y m = (let ti = fst (subRects m) in rect_h ti \<ge> 1 \<and> y \<ge> rect_y ti \<and> y < rect_y ti + rect_h ti)"

definition header_caret :: "uiext \<Rightarrow> int \<Rightarrow> list_model \<Rightarrow> list_model" where
  "header_caret u x m =
     (let ti = fst (subRects m); m1 = (if in_focused (l_input m) then m else list_Focus m)
      in m1\<lparr>l_input := in_SetCursor (u_width u) (int (RuneIndexAtViewportX (u_width u) (x - rect_x ti) (l_input m1))) (l_input m1)\<rparr>)"

definition list_OnMouseClick :: "uiext \<Rightarrow> int \<Rightarrow> int \<Rightarrow> list_model \<Rightarrow> list_model \<times> bool" where
  "list_OnMouseClick u x y m =
     (if in_header y m then (header_caret u x m, True)
      else case RowAtY y m of
        None \<Rightarrow> (m, False)
      | Some idx \<Rightarrow>
          (if \<not> l_doubleClickActivate m \<and> idx = l_cursor m then run_activate m else list_SetCursor idx m, True))"

definition list_OnMouseDoubleClick :: "uiext \<Rightarrow> int \<Rightarrow> int \<Rightarrow> list_model \<Rightarrow> list_model \<times> bool" where
  "list_OnMouseDoubleClick u x y m =
     (if in_header y m then list_OnMouseClick u x y m
      else case RowAtY y m of
        None \<Rightarrow> (m, False)
      | Some idx \<Rightarrow> (run_activate (list_SetCursor idx m), True))"

definition list_OnMousePaste :: "uiext \<Rightarrow> int \<Rightarrow> int \<Rightarrow> runes \<Rightarrow> list_model \<Rightarrow> list_model \<times> bool" where
  "list_OnMousePaste u x y content m =
     (if \<not> in_header y m then (m, False)
      else
        let m1 = header_caret u x m
        in (refilter u (m1\<lparr>l_input := InsertText (u_width u) content (l_input m1)\<rparr>), True))"

definition list_OnMouseScroll :: "int \<Rightarrow> list_model \<Rightarrow> list_model \<times> bool" where
  "list_OnMouseScroll ls m = (list_ScrollViewport ls m, True)"

definition list_ClearMouseHover :: "list_model \<Rightarrow> list_model \<times> bool" where
  "list_ClearMouseHover m = (if l_hoverRow m < 0 then (m, False) else (m\<lparr>l_hoverRow := -1\<rparr>, True))"

definition list_OnMouseHover :: "int \<Rightarrow> list_model \<Rightarrow> list_model \<times> bool" where
  "list_OnMouseHover y m =
     (case RowAtY y m of
        None \<Rightarrow> list_ClearMouseHover m
      | Some idx \<Rightarrow> if l_hoverRow m = idx then (m, False) else (m\<lparr>l_hoverRow := idx\<rparr>, True))"

section \<open>Drawing the items\<close>

text \<open>One drawn cell: its column in the row, the grapheme, its width and its two colours.\<close>

record drawn_cell =
  dc_col :: nat
  dc_content :: runes
  dc_width :: nat
  dc_fg :: "nat option"
  dc_bg :: "nat option"

fun place_graphemes :: "nat \<Rightarrow> nat option \<Rightarrow> nat option \<Rightarrow> (runes \<times> nat) list \<Rightarrow> nat \<Rightarrow> drawn_cell list \<times> nat" where
  "place_graphemes w fg bg [] col = ([], col)"
| "place_graphemes w fg bg ((g, gw) # gs) col =
     (if gw = 0 then place_graphemes w fg bg gs col
      else if col + gw > w then ([], col)
      else let r = place_graphemes w fg bg gs (col + gw)
           in (\<lparr>dc_col = col, dc_content = g, dc_width = gw, dc_fg = fg, dc_bg = bg\<rparr> # fst r, snd r))"

fun place_segments :: "uiext \<Rightarrow> nat \<Rightarrow> nat option \<Rightarrow> segment list \<Rightarrow> nat \<Rightarrow> drawn_cell list" where
  "place_segments u w baseBg [] col = []"
| "place_segments u w baseBg (s # ss) col =
     (let bg = (case seg_bg s of None \<Rightarrow> baseBg | Some c \<Rightarrow> Some c);
          r = place_graphemes w (seg_fg s) bg (u_clusters u (seg_text s)) col
      in fst r @ (if snd r \<ge> w then [] else place_segments u w baseBg ss (snd r)))"

fun decimal :: "nat \<Rightarrow> runes" where
  "decimal n = (if n < 10 then [48 + n] else decimal (n div 10) @ [48 + n mod 10])"

definition index_prefix :: "nat \<Rightarrow> runes" where
  "index_prefix n = (let d = decimal n in replicate (3 - length d) SP @ d @ str ''. '')"

record drawn_row =
  dr_row :: nat
  dr_item :: nat
  dr_bg :: "nat option"
  dr_cells :: "drawn_cell list"
  dr_reverse :: bool
  dr_hover :: "nat option"

definition place_row :: "uiext \<Rightarrow> nat option \<Rightarrow> nat option \<Rightarrow> nat \<Rightarrow> list_model \<Rightarrow> segment list list \<Rightarrow> nat \<Rightarrow> nat \<Rightarrow> drawn_row" where
  "place_row u everySecondBg hoverBg w m items row idx =
     (let baseBg = (if odd idx then everySecondBg else None);
          pre = (if l_showItemIdx m then place_graphemes w None baseBg (u_clusters u (index_prefix (idx + 1))) 0 else ([], 0))
      in \<lparr>dr_row = row, dr_item = idx, dr_bg = baseBg,
          dr_cells = fst pre @ place_segments u w baseBg (items ! idx) (snd pre),
          dr_reverse = (int idx = l_cursor m),
          dr_hover = (if int idx = l_hoverRow m \<and> int idx \<noteq> l_cursor m then hoverBg else None)\<rparr>)"

text \<open>
  The row loop of \<^verbatim>\<open>placeItems\<close>; a negative offset would index the items out of range, the invariant
  excludes it.
\<close>

fun place_rows :: "(nat \<Rightarrow> nat \<Rightarrow> drawn_row) \<Rightarrow> nat \<Rightarrow> nat \<Rightarrow> nat \<Rightarrow> nat \<Rightarrow> drawn_row list" where
  "place_rows f n off row 0 = []"
| "place_rows f n off row (Suc h) =
     (if off + row \<ge> n then [] else f row (off + row) # place_rows f n off (Suc row) h)"

definition shown_items :: "list_model \<Rightarrow> segment list list" where
  "shown_items m = (case l_fuzzied m of None \<Rightarrow> l_items m | Some fs \<Rightarrow> map (\<lambda>f. l_items m ! fst f) fs)"

definition placeItems :: "uiext \<Rightarrow> nat option \<Rightarrow> nat option \<Rightarrow> list_model \<Rightarrow> drawn_row list" where
  "placeItems u everySecondBg hoverBg m =
     (let listRect = snd (subRects m); items = shown_items m
      in if rect_w listRect < 1 \<or> rect_h listRect < 1 then []
         else place_rows (place_row u everySecondBg hoverBg (nat (rect_w listRect)) m items) (length items)
                (nat (l_yOffset m)) 0 (nat (rect_h listRect)))"

end
