(* ===== verification/Listmodel_Correct.thy ===== *)
theory Listmodel_Correct
  imports Listmodel "HOL-Library.Multiset"
begin

text \<open>
  The list: no event leads to an index panic, what the cursor operations promise of the scroll window,
  hit tests agree with what is drawn, and two defects as concrete runs.
\<close>

section \<open>What is relied on\<close>

text \<open>
  The ranking gives each target at most once, by an index into the targets; the sort permutes.
\<close>

definition rank_ok :: "uiext \<Rightarrow> bool" where
  "rank_ok u \<longleftrightarrow> (\<forall>p ts. distinct (map fst (u_rank u p ts)) \<and> (\<forall>r \<in> set (u_rank u p ts). fst r < length ts)) \<and>
     (\<forall>rs. mset (u_sort u rs) = mset rs)"

lemma rank_ok_sorted:
  assumes "rank_ok u"
  shows "length (u_sort u (u_rank u p ts)) \<le> length ts" "r \<in> set (u_sort u (u_rank u p ts)) \<Longrightarrow> fst r < length ts"
proof -
  have m: "mset (u_sort u (u_rank u p ts)) = mset (u_rank u p ts)" using assms by (simp add: rank_ok_def)
  have "set (map fst (u_rank u p ts)) \<subseteq> {..<length ts}" "distinct (map fst (u_rank u p ts))"
    using assms by (auto simp: rank_ok_def)
  then have "length (u_rank u p ts) \<le> length ts"
    by (metis card_mono distinct_card finite_lessThan card_lessThan length_map)
  then show "length (u_sort u (u_rank u p ts)) \<le> length ts" using m by (metis size_mset)
  show "fst r < length ts" if "r \<in> set (u_sort u (u_rank u p ts))"
    using assms that mset_eq_setD [OF m] by (auto simp: rank_ok_def)
qed

lemma rank_ok_demo: "rank_ok demo_ui"
proof -
  have "distinct (map fst (map (\<lambda>(i, t). (i, int (length t) - int (length p))) (filter P (enumerate 0 ts))))"
    for p :: runes and P and ts :: "runes list"
  proof -
    have "map fst (map (\<lambda>(i, t). (i, int (length t) - int (length p))) (filter P (enumerate 0 ts)))
        = map fst (filter P (enumerate 0 ts))" by auto
    moreover have "distinct (map fst (enumerate 0 ts))" by (simp add: enumerate_eq_zip)
    ultimately show ?thesis by (metis distinct_map_filter)
  qed
  then show ?thesis
    by (auto simp: rank_ok_def demo_ui_def in_set_enumerate_eq)
qed

section \<open>No index panic\<close>

fun filter_ok :: "(nat \<times> int) list option \<Rightarrow> nat \<Rightarrow> int \<Rightarrow> bool" where
  "filter_ok None n c = True"
| "filter_ok (Some fs) n c \<longleftrightarrow> list_all (\<lambda>f. fst f < n) fs \<and> length fs \<le> n \<and> (fs = [] \<or> c < int (length fs))"

definition list_inv :: "list_model \<Rightarrow> bool" where
  "list_inv m \<longleftrightarrow> length (l_itemTexts m) = length (l_items m) \<and> in_inv (l_input m) \<and>
     0 \<le> l_yOffset m \<and> 0 \<le> l_cursor m \<and> l_cursor m < max 1 (int (length (l_items m))) \<and>
     filter_ok (l_fuzzied m) (length (l_items m)) (l_cursor m)"

lemma filter_ok_less: "filter_ok fz n c \<Longrightarrow> c' \<le> c \<Longrightarrow> filter_ok fz n c'"
  by (cases fz) auto

lemma list_inv_input: "list_inv m \<Longrightarrow> in_inv i \<Longrightarrow> list_inv (m\<lparr>l_input := i\<rparr>)"
  by (simp add: list_inv_def)

lemma list_inv_out [simp]:
  "list_inv (emit e m) = list_inv m" "list_inv (m\<lparr>l_hoverRow := x\<rparr>) = list_inv m" "list_inv (m\<lparr>l_drawRect := r\<rparr>) = list_inv m"
  by (simp_all add: list_inv_def emit_def)

lemma listAreaHeight_ge: "1 \<le> listAreaHeight m"
  by (simp add: listAreaHeight_def Let_def)

lemma clamp_visible:
  assumes "list_inv m" "VisibleLen m \<noteq> 0"
  shows "filter_ok (l_fuzzied m) (length (l_items m)) (clamp i 0 (int (VisibleLen m) - 1))"
    and "0 \<le> clamp i 0 (int (VisibleLen m) - 1)" "clamp i 0 (int (VisibleLen m) - 1) < max 1 (int (length (l_items m)))"
  using assms by (cases "l_fuzzied m"; auto simp: list_inv_def VisibleLen_def clamp_def)+

lemma list_SetCursor_inv [wf_intros]:
  assumes "list_inv m"
  shows "list_inv (list_SetCursor i m)"
proof (cases "VisibleLen m = 0")
  case False
  from clamp_visible [OF assms this, of i] assms listAreaHeight_ge [of m] show ?thesis
    by (simp add: list_SetCursor_def list_inv_def Let_def)
qed (use assms in \<open>simp add: list_SetCursor_def\<close>)

lemma list_ScrollViewport_inv [wf_intros]:
  assumes "list_inv m"
  shows "list_inv (list_ScrollViewport n m)"
proof -
  define off where "off = clamp (l_yOffset m + n) 0 (max 0 (int (VisibleLen m) - listAreaHeight m))"
  define c where "c = (if l_cursor m < off then off else if l_cursor m \<ge> off + listAreaHeight m then off + listAreaHeight m - 1 else l_cursor m)"
  have h: "1 \<le> listAreaHeight m" by (rule listAreaHeight_ge)
  have off: "0 \<le> off" "off \<le> max 0 (int (VisibleLen m) - listAreaHeight m)" by (auto simp: off_def clamp_def)
  have vis: "c \<le> l_cursor m \<or> c < int (VisibleLen m)" "0 \<le> c"
    using off h assms by (auto simp: c_def list_inv_def max_def split: if_splits)
  have "filter_ok (l_fuzzied m) (length (l_items m)) c" "c < max 1 (int (length (l_items m)))"
    using vis assms by (cases "l_fuzzied m"; auto simp: list_inv_def VisibleLen_def)+
  moreover have "list_ScrollViewport n m = (if n = 0 then m else m\<lparr>l_yOffset := off, l_cursor := c\<rparr>)"
    by (simp add: list_ScrollViewport_def Let_def off_def c_def)
  ultimately show ?thesis
    using assms off(1) vis(2) by (simp add: list_inv_def)
qed

lemma refilter_inv [wf_intros]:
  assumes "rank_ok u" "list_inv m"
  shows "list_inv (refilter u m)"
proof (cases "in_value (l_input m) = [] \<or> u_rank u (in_value (l_input m)) (l_itemTexts m) = []")
  case True
  then show ?thesis using assms(2) by (auto simp: refilter_def list_inv_def Let_def)
next
  case False
  define found where "found = u_rank u (in_value (l_input m)) (l_itemTexts m)"
  define fs where "fs = u_sort u found"
  have "fs \<noteq> []" using False assms(1) by (metis found_def fs_def mset_zero_iff rank_ok_def)
  moreover have "length fs \<le> length (l_items m)" "list_all (\<lambda>f. fst f < length (l_items m)) fs"
    using assms(2) rank_ok_sorted [OF assms(1), where p = "in_value (l_input m)" and ts = "l_itemTexts m"]
    by (auto simp: list_inv_def fs_def found_def list_all_iff)
  moreover have "refilter u m = m\<lparr>l_fuzzied := Some fs, l_cursor := clamp (l_cursor m) 0 (int (length fs) - 1)\<rparr>"
    using False by (simp add: refilter_def Let_def fs_def found_def)
  ultimately show ?thesis
    using assms(2) by (cases fs) (auto simp: list_inv_def clamp_def)
qed

lemma list_Focus_inv [wf_intros]: "list_inv m \<Longrightarrow> list_inv (list_Focus m)"
  and list_Unfocus_inv [wf_intros]: "list_inv m \<Longrightarrow> list_inv (list_Unfocus m)"
  and list_Blur_inv [wf_intros]: "list_inv m \<Longrightarrow> list_inv (list_Blur m)"
  and ClearFuzzy_inv [wf_intros]: "list_inv m \<Longrightarrow> list_inv (ClearFuzzy u m)"
  and run_activate_inv [wf_intros]: "list_inv m \<Longrightarrow> list_inv (run_activate m)"
  by (auto simp: list_Focus_def list_Unfocus_def list_Blur_def ClearFuzzy_def run_activate_def list_inv_def emit_def
      in_Focus_def in_Blur_def in_SetValue_inv)

lemma MoveCursor_inv [wf_intros]: "list_inv m \<Longrightarrow> list_inv (MoveCursor n m)"
  by (simp add: MoveCursor_def list_SetCursor_inv)

lemma paste_inv [wf_intros]: "rank_ok u \<Longrightarrow> list_inv m \<Longrightarrow> list_inv (list_OnPaste u s m)"
  unfolding list_OnPaste_def
  by (intro refilter_inv list_inv_input InsertText_inv) (auto simp: list_inv_def)

lemma header_caret_inv [wf_intros]: "list_inv m \<Longrightarrow> list_inv (header_caret u x m)"
  by (auto simp: header_caret_def Let_def intro!: list_inv_input in_SetCursor_inv list_Focus_inv)

lemma list_handlers_inv: "kh_inv u (alwaysHandle u cfg)" "kh_inv u (regularKeys u cfg)" "kh_inv u (textInputKeys u cfg)"
  by (simp_all add: alwaysHandle_def regularKeys_def textInputKeys_def Let_def Bind_inv kh_inv_New)

lemma list_handlers_keep:
  "actions_keep list_inv (alwaysHandle u cfg)" "actions_keep list_inv (regularKeys u cfg)" "actions_keep list_inv (textInputKeys u cfg)"
  by (auto simp: actions_keep_def alwaysHandle_def regularKeys_def textInputKeys_def Bind_def Let_def key_New_def
      WithAction_def bind_of_def KeyBindsFrom_def intro!: wf_intros split: option.splits)

lemma list_HandleKey_inv [wf_intros]:
  assumes "rank_ok u" "list_inv m"
  shows "list_inv (fst (list_HandleKey u cfg ev m))"
proof -
  have "in_inv (l_input m)" using assms(2) by (simp add: list_inv_def)
  then have "in_inv (fst (in_HandleKey (u_width u) ev (l_input m)))" by (rule in_HandleKey_inv)
  then show ?thesis
    using assms key_Run_keeps [OF list_handlers_inv(1) list_handlers_keep(1), of m u cfg ev]
      key_Run_keeps [OF list_handlers_inv(2) list_handlers_keep(2), of m u cfg ev]
      key_Run_keeps [OF list_handlers_inv(3) list_handlers_keep(3), of m u cfg ev]
    by (auto simp: list_HandleKey_def Let_def intro!: refilter_inv list_inv_input)
qed

lemma list_mouse_inv [wf_intros]:
  assumes "rank_ok u" "list_inv m"
  shows "list_inv (fst (list_OnMouseClick u x y m))" "list_inv (fst (list_OnMouseDoubleClick u x y m))"
    "list_inv (fst (list_OnMousePaste u x y s m))" "list_inv (fst (list_OnMouseHover y m))"
proof -
  show click: "list_inv (fst (list_OnMouseClick u x y m))"
    using assms(2) by (auto simp: list_OnMouseClick_def intro!: wf_intros split: option.splits)
  show "list_inv (fst (list_OnMouseDoubleClick u x y m))"
    using assms(2) click by (auto simp: list_OnMouseDoubleClick_def intro!: wf_intros split: option.splits)
  have "in_inv (l_input (header_caret u x m))"
    using header_caret_inv [OF assms(2), of u x] by (simp add: list_inv_def)
  then show "list_inv (fst (list_OnMousePaste u x y s m))"
    using assms by (auto simp: list_OnMousePaste_def Let_def intro!: refilter_inv list_inv_input InsertText_inv header_caret_inv)
  show "list_inv (fst (list_OnMouseHover y m))"
    using assms(2) by (auto simp: list_OnMouseHover_def list_ClearMouseHover_def split: option.splits)
qed

text \<open>What happens to a list while it is on screen.\<close>

datatype list_event =
    LKey key_event | LPaste runes | LClick int int | LDoubleClick int int | LMousePaste int int runes
  | LScroll int | LHover int | LResize rect | LBlur

fun list_step :: "uiext \<Rightarrow> keyconf \<Rightarrow> list_event \<Rightarrow> list_model \<Rightarrow> list_model" where
  "list_step u cfg (LKey ev) m = fst (list_HandleKey u cfg ev m)"
| "list_step u cfg (LPaste s) m = list_OnPaste u s m"
| "list_step u cfg (LClick x y) m = fst (list_OnMouseClick u x y m)"
| "list_step u cfg (LDoubleClick x y) m = fst (list_OnMouseDoubleClick u x y m)"
| "list_step u cfg (LMousePaste x y s) m = fst (list_OnMousePaste u x y s m)"
| "list_step u cfg (LScroll n) m = fst (list_OnMouseScroll n m)"
| "list_step u cfg (LHover y) m = fst (list_OnMouseHover y m)"
| "list_step u cfg (LResize r) m = list_SetRect r m"
| "list_step u cfg LBlur m = list_Blur m"

lemma list_step_inv: "rank_ok u \<Longrightarrow> list_inv m \<Longrightarrow> list_inv (list_step u cfg ev m)"
  by (cases ev) (auto simp: list_OnMouseScroll_def list_SetRect_def intro!: wf_intros)

interpretation list_machine: event_machine "\<lambda>m. rank_ok u \<longrightarrow> list_inv m" "list_step u cfg" for u cfg
  by unfold_locales (simp add: list_step_inv)

lemma list_New_inv: "list_inv (WithItems u items list_New)"
  by (auto simp: list_inv_def list_New_def WithItems_def clamp_def intro: in_SetValue_inv)

lemma list_inv_no_panic:
  assumes "list_inv m"
  shows "(\<exists>i. GetCursor m = Some i \<and> 0 \<le> i \<and> i < max 1 (int (length (l_items m)))) \<and> GetItemUnderCursor m \<noteq> None"
proof -
  obtain i where i: "GetCursor m = Some i" "0 \<le> i" "i < max 1 (int (length (l_items m)))"
  proof (cases "l_fuzzied m = None \<or> l_fuzzied m = Some []")
    case True
    then show ?thesis using assms that [of "l_cursor m"] by (auto simp: GetCursor_def list_inv_def)
  next
    case False
    then obtain f fs where fs: "l_fuzzied m = Some (f # fs)" by (metis list.exhaust option.exhaust)
    with assms have c: "0 \<le> l_cursor m" "l_cursor m < int (length (f # fs))" "\<forall>g \<in> set (f # fs). fst g < length (l_items m)"
      by (simp_all add: list_inv_def list_all_iff)
    then have "fst ((f # fs) ! nat (l_cursor m)) < length (l_items m)"
      by (metis nat_less_iff nth_mem)
    with c fs show ?thesis using that by (simp add: GetCursor_def)
  qed
  then show ?thesis
    using assms by (cases "l_items m") (auto simp: GetItemUnderCursor_def list_inv_def)
qed

text \<open>
  C32: whatever keys, clicks, pastes, scrolls and resizes reach a list of any items, its cursor always
  resolves to an item and no read of the cursor's item goes out of range.
\<close>

theorem list_cursor_always_resolves:
  assumes "rank_ok u"
  shows "(\<exists>i. GetCursor (fold (list_step u cfg) evs (WithItems u items list_New)) = Some i) \<and>
    GetItemUnderCursor (fold (list_step u cfg) evs (WithItems u items list_New)) \<noteq> None"
  using list_machine.run_inv [of u "WithItems u items list_New" cfg evs] assms list_New_inv list_inv_no_panic by blast

theorem list_cursor_always_resolves_witness:
  "GetItemUnderCursor (fold (list_step demo_ui demo_keys) [LClick 0 0, LPaste (str ''b''), LScroll 3]
     (WithItems demo_ui [PlainItem (str ''a''), PlainItem (str ''b'')] list_New)) \<noteq> None"
  using list_cursor_always_resolves [OF rank_ok_demo] by blast

section \<open>The scroll window\<close>

lemma SetCursor_window:
  fixes i :: int
  assumes "VisibleLen m > 0" "c = clamp i 0 (int (VisibleLen m) - 1)"
  shows "\<exists>off. list_SetCursor i m = m\<lparr>l_cursor := c, l_yOffset := off\<rparr> \<and> off \<le> c \<and> c < off + listAreaHeight m \<and> 0 \<le> c \<and> c < int (VisibleLen m)"
proof -
  define off where "off = (if c < l_yOffset m then c else if c \<ge> l_yOffset m + listAreaHeight m then c - listAreaHeight m + 1 else l_yOffset m)"
  have "list_SetCursor i m = m\<lparr>l_cursor := c, l_yOffset := off\<rparr>"
    using assms by (simp add: list_SetCursor_def Let_def off_def)
  moreover have "0 \<le> c" "c < int (VisibleLen m)" using assms by (auto simp: clamp_def)
  moreover have "off \<le> c" "c < off + listAreaHeight m" using listAreaHeight_ge [of m] by (auto simp: off_def)
  ultimately show ?thesis by blast
qed

text \<open>
  A cursor move (absolute, and so also relative) lands on the nearest visible row to its target and puts that
  row on screen: \<^verbatim>\<open>SelectedRowY\<close> is inside the items area, and a click on it hits the cursor row.
\<close>

theorem SetCursor_puts_the_row_on_screen:
  assumes "VisibleLen m > 0" "rect_h (l_drawRect m) > 2"
  shows "l_cursor (list_SetCursor i m) = clamp i 0 (int (VisibleLen m) - 1) \<and>
    (case SelectedRowY (list_SetCursor i m) of None \<Rightarrow> False
     | Some y \<Rightarrow> rect_y (l_drawRect m) + 2 \<le> y \<and> y < rect_y (l_drawRect m) + rect_h (l_drawRect m) \<and>
         RowAtY y (list_SetCursor i m) = Some (l_cursor (list_SetCursor i m)))"
proof -
  from SetCursor_window [OF assms(1) refl, of i] obtain off where
    eq: "list_SetCursor i m = m\<lparr>l_cursor := clamp i 0 (int (VisibleLen m) - 1), l_yOffset := off\<rparr>" and
    off: "off \<le> clamp i 0 (int (VisibleLen m) - 1)" "clamp i 0 (int (VisibleLen m) - 1) < off + listAreaHeight m"
      "clamp i 0 (int (VisibleLen m) - 1) < int (VisibleLen m)" by blast
  have vl: "VisibleLen (m\<lparr>l_cursor := c, l_yOffset := off\<rparr>) = VisibleLen m"
    "subRects (m\<lparr>l_cursor := c, l_yOffset := off\<rparr>) = subRects m" for c
    by (simp_all add: VisibleLen_def subRects_def split: option.splits)
  have h: "listAreaHeight m = rect_h (l_drawRect m) - 2" "snd (subRects m) = \<lparr>rect_x = rect_x (l_drawRect m), rect_y = rect_y (l_drawRect m) + 2,
      rect_w = rect_w (l_drawRect m), rect_h = rect_h (l_drawRect m) - 2\<rparr>"
    using assms(2) by (simp_all add: listAreaHeight_def subRects_def Let_def)
  show ?thesis
    unfolding eq using assms off by (simp add: SelectedRowY_def RowAtY_def vl h Let_def)
qed

theorem SetCursor_puts_the_row_on_screen_witness:
  "SelectedRowY (list_SetCursor 7 (list_SetRect \<lparr>rect_x = 0, rect_y = 5, rect_w = 10, rect_h = 4\<rparr>
     (WithItems demo_ui (replicate 9 (PlainItem [])) list_New))) = Some 8"
proof -
  let ?m = "list_SetRect \<lparr>rect_x = 0, rect_y = 5, rect_w = 10, rect_h = 4\<rparr> (WithItems demo_ui (replicate 9 (PlainItem [])) list_New)"
  have "VisibleLen ?m > 0" "rect_h (l_drawRect ?m) > 2"
    by (simp_all add: VisibleLen_def list_SetRect_def WithItems_def list_New_def)
  from SetCursor_puts_the_row_on_screen [OF this, of 7] have "SelectedRowY (list_SetCursor 7 ?m) \<noteq> None"
    by (auto split: option.splits)
  then show ?thesis
    by (simp add: list_SetCursor_def SelectedRowY_def subRects_def listAreaHeight_def VisibleLen_def clamp_def Let_def
        list_SetRect_def WithItems_def list_New_def)
qed

text \<open>
  A wheel scroll keeps the offset between the top and the last full page and the cursor on screen, and
  moves the cursor only when it would leave the screen.
\<close>

theorem ScrollViewport_keeps_cursor_on_screen:
  assumes "n \<noteq> 0"
  shows "let m' = list_ScrollViewport n m in
    0 \<le> l_yOffset m' \<and> l_yOffset m' \<le> max 0 (int (VisibleLen m) - listAreaHeight m) \<and>
    l_yOffset m' \<le> l_cursor m' \<and> l_cursor m' < l_yOffset m' + listAreaHeight m' \<and>
    (if l_yOffset m' \<le> l_cursor m \<and> l_cursor m < l_yOffset m' + listAreaHeight m then l_cursor m' = l_cursor m
     else l_cursor m' = l_yOffset m' \<or> l_cursor m' = l_yOffset m' + listAreaHeight m - 1)"
proof -
  define h where "h = listAreaHeight m"
  define off where "off = clamp (l_yOffset m + n) 0 (max 0 (int (VisibleLen m) - h))"
  have bounds: "0 \<le> off \<and> off \<le> max 0 (int (VisibleLen m) - h)" "1 \<le> h"
    unfolding off_def h_def by (rule clamp_bounds, simp) (rule listAreaHeight_ge)
  have eq: "list_ScrollViewport n m = m\<lparr>l_yOffset := off,
      l_cursor := if l_cursor m < off then off else if l_cursor m \<ge> off + h then off + h - 1 else l_cursor m\<rparr>"
    using assms by (simp add: list_ScrollViewport_def Let_def off_def h_def)
  have h': "listAreaHeight (m\<lparr>l_yOffset := a, l_cursor := b\<rparr>) = h" for a b
    by (simp add: h_def listAreaHeight_def)
  show ?thesis
    unfolding eq Let_def h' using bounds by (auto simp flip: h_def)
qed

theorem ScrollViewport_keeps_cursor_on_screen_witness:
  "l_cursor (list_ScrollViewport 3 (WithItems demo_ui (replicate 9 (PlainItem [])) list_New)) = 3"
proof -
  let ?m = "WithItems demo_ui (replicate 9 (PlainItem [])) list_New"
  from ScrollViewport_keeps_cursor_on_screen [of 3 ?m]
  have "l_yOffset (list_ScrollViewport 3 ?m) \<le> l_cursor (list_ScrollViewport 3 ?m)"
    by (simp add: Let_def)
  then show ?thesis
    by (simp add: list_ScrollViewport_def listAreaHeight_def VisibleLen_def clamp_def Let_def WithItems_def list_New_def)
qed

section \<open>Drawing\<close>

lemma place_rows_set: "r \<in> set (place_rows f n off row h) \<longleftrightarrow> (\<exists>j. row \<le> j \<and> j < row + h \<and> off + j < n \<and> r = f j (off + j))"
proof (induction h arbitrary: row)
  case (Suc h)
  have split: "(\<exists>j. row \<le> j \<and> j < row + Suc h \<and> P j) \<longleftrightarrow> P row \<or> (\<exists>j. Suc row \<le> j \<and> j < Suc row + h \<and> P j)" for P
  proof
    assume "\<exists>j. row \<le> j \<and> j < row + Suc h \<and> P j"
    then obtain j where "row \<le> j" "j < row + Suc h" "P j" by blast
    then show "P row \<or> (\<exists>j. Suc row \<le> j \<and> j < Suc row + h \<and> P j)"
      by (cases "j = row") (simp, intro disjI2 exI [of _ j], simp)
  next
    assume "P row \<or> (\<exists>j. Suc row \<le> j \<and> j < Suc row + h \<and> P j)"
    then show "\<exists>j. row \<le> j \<and> j < row + Suc h \<and> P j"
    proof
      assume "P row"
      then show ?thesis by (intro exI [of _ row]) simp
    next
      assume "\<exists>j. Suc row \<le> j \<and> j < Suc row + h \<and> P j"
      then obtain j where "Suc row \<le> j" "j < Suc row + h" "P j" by blast
      then show ?thesis by (intro exI [of _ j]) simp
    qed
  qed
  show ?case
    unfolding split by (auto simp: Suc [of "Suc row"])
qed simp

text \<open>
  The hit test agrees with the screen: a row of the items area is drawn with the item of display index
  \<open>idx\<close> exactly when \<^verbatim>\<open>RowAtY\<close> maps that screen row to \<open>idx\<close>.
\<close>

theorem RowAtY_hits_what_is_drawn:
  assumes "0 \<le> l_yOffset m" "rect_h (l_drawRect m) > 2" "rect_w (l_drawRect m) \<ge> 1" "y < rect_y (l_drawRect m) + rect_h (l_drawRect m)"
  shows "(\<exists>r \<in> set (placeItems u alt hov m). rect_y (l_drawRect m) + 2 + int (dr_row r) = y \<and> dr_item r = idx)
    \<longleftrightarrow> RowAtY y m = Some (int idx)"
proof -
  have n: "length (shown_items m) = VisibleLen m" by (simp add: shown_items_def VisibleLen_def split: option.splits)
  define f where "f = place_row u alt hov (nat (rect_w (l_drawRect m))) m (shown_items m)"
  have f: "dr_row (f j i) = j" "dr_item (f j i) = i" for j i by (simp_all add: f_def place_row_def Let_def)
  have pl: "placeItems u alt hov m = place_rows f (VisibleLen m) (nat (l_yOffset m)) 0 (nat (rect_h (l_drawRect m) - 2))"
    using assms(2,3) by (simp add: placeItems_def subRects_def Let_def n f_def)
  have "(\<exists>r \<in> set (placeItems u alt hov m). rect_y (l_drawRect m) + 2 + int (dr_row r) = y \<and> dr_item r = idx)
      \<longleftrightarrow> (\<exists>j < nat (rect_h (l_drawRect m) - 2). nat (l_yOffset m) + j < VisibleLen m \<and>
             rect_y (l_drawRect m) + 2 + int j = y \<and> nat (l_yOffset m) + j = idx)"
    unfolding pl Bex_def place_rows_set by (metis (no_types, opaque_lifting) add_0 f le0)
  also have "\<dots> \<longleftrightarrow> RowAtY y m = Some (int idx)"
  proof
    assume "RowAtY y m = Some (int idx)"
    then have "0 \<le> y - (rect_y (l_drawRect m) + 2)" "l_yOffset m + (y - (rect_y (l_drawRect m) + 2)) = int idx" "idx < VisibleLen m"
      using assms(2) by (auto simp: RowAtY_def subRects_def Let_def split: if_splits)
    then show "\<exists>j < nat (rect_h (l_drawRect m) - 2). nat (l_yOffset m) + j < VisibleLen m \<and>
             rect_y (l_drawRect m) + 2 + int j = y \<and> nat (l_yOffset m) + j = idx"
      using assms by (intro exI [of _ "nat (y - (rect_y (l_drawRect m) + 2))"]) auto
  next
    assume "\<exists>j < nat (rect_h (l_drawRect m) - 2). nat (l_yOffset m) + j < VisibleLen m \<and>
             rect_y (l_drawRect m) + 2 + int j = y \<and> nat (l_yOffset m) + j = idx"
    then obtain j where j: "nat (l_yOffset m) + j < VisibleLen m" "y = rect_y (l_drawRect m) + 2 + int j" "nat (l_yOffset m) + j = idx"
      by blast
    then have "l_yOffset m + int j = int idx" "int idx < int (VisibleLen m)" using assms(1) by auto
    then show "RowAtY y m = Some (int idx)"
      using assms(2) by (simp add: RowAtY_def subRects_def Let_def j(2))
  qed
  finally show ?thesis .
qed

theorem RowAtY_hits_what_is_drawn_witness:
  "RowAtY 8 (list_SetRect \<lparr>rect_x = 0, rect_y = 5, rect_w = 10, rect_h = 6\<rparr>
     (WithItems demo_ui (replicate 9 (PlainItem [])) list_New)) = Some 1"
proof -
  let ?m = "list_SetRect \<lparr>rect_x = 0, rect_y = 5, rect_w = 10, rect_h = 6\<rparr> (WithItems demo_ui (replicate 9 (PlainItem [])) list_New)"
  have "(\<exists>r \<in> set (placeItems demo_ui None None ?m). rect_y (l_drawRect ?m) + 2 + int (dr_row r) = 8 \<and> dr_item r = 1)
      \<longleftrightarrow> RowAtY 8 ?m = Some (int 1)"
    by (rule RowAtY_hits_what_is_drawn) (simp_all add: list_SetRect_def WithItems_def list_New_def)
  moreover have "RowAtY 8 ?m = Some (int 1)" by code_simp
  ultimately show ?thesis by simp
qed

text \<open>Cells that lie side by side between two columns, in order.\<close>

fun cells_between :: "nat \<Rightarrow> nat \<Rightarrow> drawn_cell list \<Rightarrow> bool" where
  "cells_between lo hi [] \<longleftrightarrow> lo \<le> hi"
| "cells_between lo hi (c # cs) \<longleftrightarrow> lo \<le> dc_col c \<and> cells_between (dc_col c + dc_width c) hi cs"

lemma cells_between_le: "cells_between lo hi cs \<Longrightarrow> lo \<le> hi"
  by (induction cs arbitrary: lo) fastforce+

lemma cells_between_append: "cells_between lo mid cs \<Longrightarrow> cells_between mid hi ds \<Longrightarrow> cells_between lo hi (cs @ ds)"
proof (induction cs arbitrary: lo)
  case Nil
  then show ?case by (cases ds) auto
qed simp

lemma place_graphemes_between:
  "col \<le> w \<Longrightarrow> snd (place_graphemes w fg bg gs col) \<le> w \<and>
     cells_between col (snd (place_graphemes w fg bg gs col)) (fst (place_graphemes w fg bg gs col))"
  by (induction w fg bg gs col rule: place_graphemes.induct) (auto simp: Let_def)

lemma place_segments_between: "col \<le> w \<Longrightarrow> cells_between col w (place_segments u w bg ss col)"
proof (induction ss arbitrary: col)
  case (Cons s ss)
  define r where "r = place_graphemes w (seg_fg s) (case seg_bg s of None \<Rightarrow> bg | Some c \<Rightarrow> Some c) (u_clusters u (seg_text s)) col"
  have r: "snd r \<le> w" "cells_between col (snd r) (fst r)"
    using place_graphemes_between [OF Cons.prems] by (simp_all add: r_def)
  have "cells_between (snd r) w (if snd r \<ge> w then [] else place_segments u w bg ss (snd r))"
    using r(1) Cons.IH by simp
  from cells_between_append [OF r(2) this] show ?case
    by (simp add: Let_def flip: r_def split: if_splits)
qed simp

text \<open>
  In every drawn row the cells (index prefix included) follow each other without overlap and none passes the right
  edge, whatever the widths of the graphemes.
\<close>

theorem drawn_cells_fit_the_row:
  "list_all (\<lambda>r. cells_between 0 (nat (rect_w (l_drawRect m))) (dr_cells r)) (placeItems u alt hov m)"
proof -
  have "cells_between 0 w (dr_cells (place_row u alt hov w m items row i))" for w items row i
    using place_graphemes_between [of 0 w] cells_between_append [OF _ place_segments_between]
    by (auto simp: place_row_def Let_def place_segments_between)
  then show ?thesis
    by (auto simp: placeItems_def Let_def list_all_iff place_rows_set subRects_def)
qed

section \<open>Two defects\<close>

definition scrolled_list :: list_model where
  "scrolled_list = list_step demo_ui demo_keys (LPaste (str ''b''))
     (list_SetCursor 20 (list_SetRect \<lparr>rect_x = 0, rect_y = 0, rect_w = 10, rect_h = 6\<rparr>
       (WithItems demo_ui (replicate 20 (PlainItem (str ''a'')) @ [PlainItem (str ''b'')]) list_New)))"

text \<open>
  A defect: \<^verbatim>\<open>refilter\<close> clamps the cursor but not the scroll offset, so a filter typed after scrolling down
  may match a row and show none, and the anchor of the selected row lies above the list.
\<close>

theorem filter_after_scroll_shows_nothing:
  "VisibleLen scrolled_list = 1 \<and> GetCursor scrolled_list = Some 20 \<and> placeItems demo_ui None None scrolled_list = [] \<and>
   SelectedRowY scrolled_list = Some (- 15)"
  by code_simp

text \<open>
  A defect: \<^verbatim>\<open>WithItems\<close> empties the filter input but keeps the old matches, so a list that is reloaded with
  fewer items while a filter is applied reads an item out of range.
\<close>

theorem reload_under_filter_panics:
  "GetItemUnderCursor (WithItems demo_ui [PlainItem (str ''a''), PlainItem (str ''b'')]
     (list_step demo_ui demo_keys (LPaste (str ''f''))
       (WithItems demo_ui [PlainItem (str ''a''), PlainItem (str ''b''), PlainItem (str ''foo'')] list_New))) = None"
  by code_simp

end
