(* ===== verification/Filtermenu_Correct.thy ===== *)
theory Filtermenu_Correct
  imports Filtermenu Listmodel_Correct
begin

text \<open>
  The filter menu: whatever is pressed or clicked its rows are real rules followed by one blank placeholder and
  the cursor is on one of them; opening and applying gives back the rules; a typed text becomes a rule.
\<close>

section \<open>The invariant\<close>

definition row_ok :: "frow \<Rightarrow> bool" where
  "row_ok r \<longleftrightarrow> in_inv (fr_input r) \<and> in_maxLen (fr_input r) \<le> 0"

definition rows_ok :: "frow list \<Rightarrow> bool" where
  "rows_ok rs \<longleftrightarrow> rs \<noteq> [] \<and> list_all row_ok rs \<and>
     (\<forall>i < length rs. fr_typ (rs ! i) = Unknown \<longleftrightarrow> i = length rs - 1) \<and> in_value (fr_input (last rs)) = []"

definition focus_ok :: "filter_menu \<Rightarrow> bool" where
  "focus_ok m \<longleftrightarrow> fm_focus m = FocusRow \<longrightarrow>
     (\<forall>i < length (fm_rows m). in_focused (fr_input (fm_rows m ! i)) \<longleftrightarrow> i = fm_cursorRow m)"

definition fm_inv :: "filter_menu \<Rightarrow> bool" where
  "fm_inv m \<longleftrightarrow> rows_ok (fm_rows m) \<and> fm_cursorRow m < length (fm_rows m) \<and>
     0 \<le> fm_selectedButton m \<and> fm_selectedButton m \<le> 2 \<and> focus_ok m"

lemma rows_ok_snoc:
  "rows_ok (rs @ [p]) \<longleftrightarrow> list_all row_ok rs \<and> list_all (\<lambda>r. fr_typ r \<noteq> Unknown) rs \<and> row_ok p \<and>
     fr_typ p = Unknown \<and> in_value (fr_input p) = []"
  by (auto simp: rows_ok_def nth_append less_Suc_eq list_all_length)

lemma rows_ok_split:
  assumes "rows_ok rs"
  obtains real p where "rs = real @ [p]" "list_all row_ok real" "list_all (\<lambda>r. fr_typ r \<noteq> Unknown) real" "row_ok p"
    "fr_typ p = Unknown" "in_value (fr_input p) = []"
proof -
  have "rs = butlast rs @ [last rs]" using assms by (simp add: rows_ok_def)
  with assms that show ?thesis by (metis rows_ok_snoc)
qed

lemma newRow_ok [simp]: "row_ok (newRow u t v)" "fr_typ (newRow u t v) = t" "in_value (fr_input (newRow u t v)) = v"
  by (simp_all add: newRow_def row_ok_def in_SetValue_inv in_SetValue_unlimited in_New_def)

text \<open>Replacing a row other than the placeholder by a real one, or the placeholder by a blank one.\<close>

lemma rows_ok_update:
  assumes "rows_ok rs" "i < length rs" "row_ok r" "fr_typ r = Unknown \<longleftrightarrow> i = length rs - 1"
    and "i = length rs - 1 \<Longrightarrow> in_value (fr_input r) = []"
  shows "rows_ok (rs[i := r])"
proof -
  have "last (rs[i := r]) = (if i = length rs - 1 then r else last rs)"
    using assms(1,2) by (auto simp: rows_ok_def last_list_update)
  then show ?thesis
    using assms by (auto simp: rows_ok_def list_all_length nth_list_update)
qed

lemma isPlaceholder_iff:
  assumes "rows_ok (fm_rows m)" "i < length (fm_rows m)"
  shows "isPlaceholder i m \<longleftrightarrow> i = length (fm_rows m) - 1"
proof -
  have "in_value (fr_input (fm_rows m ! (length (fm_rows m) - 1))) = []"
    using assms(1) by (metis last_conv_nth rows_ok_def)
  with assms show ?thesis by (auto simp: isPlaceholder_def rows_ok_def)
qed

section \<open>Operations\<close>

lemma focusActive_simps [simp]:
  "length (fm_rows (focusActiveRowInput m)) = length (fm_rows m)" "fm_focus (focusActiveRowInput m) = fm_focus m"
  "fm_cursorRow (focusActiveRowInput m) = fm_cursorRow m" "fm_selectedButton (focusActiveRowInput m) = fm_selectedButton m"
  "fm_out (focusActiveRowInput m) = fm_out m" "fm_hasOnClose (focusActiveRowInput m) = fm_hasOnClose m"
  by (simp_all add: focusActiveRowInput_def)

lemma focusActive_nth:
  "i < length (fm_rows m) \<Longrightarrow> fm_rows (focusActiveRowInput m) ! i = (fm_rows m ! i)\<lparr>fr_input :=
     (if fm_focus m = FocusRow \<and> i = fm_cursorRow m then in_Focus (fr_input (fm_rows m ! i)) else in_Blur (fr_input (fm_rows m ! i)))\<rparr>"
  by (simp add: focusActiveRowInput_def nth_enumerate_eq)

lemma focus_simps [simp]:
  "in_inv (in_Focus i) = in_inv i" "in_inv (in_Blur i) = in_inv i" "in_value (in_Focus i) = in_value i" "in_value (in_Blur i) = in_value i"
  "in_maxLen (in_Focus i) = in_maxLen i" "in_maxLen (in_Blur i) = in_maxLen i" "in_focused (in_Focus i)" "\<not> in_focused (in_Blur i)"
  by (simp_all add: in_Focus_def in_Blur_def)

lemma focusActive_inv:
  assumes "rows_ok (fm_rows m)" "fm_cursorRow m < length (fm_rows m)" "0 \<le> fm_selectedButton m" "fm_selectedButton m \<le> 2"
  shows "fm_inv (focusActiveRowInput m)"
proof -
  have "rows_ok (fm_rows (focusActiveRowInput m))"
    using assms(1) last_conv_nth [of "fm_rows m"] last_conv_nth [of "fm_rows (focusActiveRowInput m)"]
    by (auto simp: rows_ok_def list_all_length focusActive_nth row_ok_def simp flip: length_greater_0_conv)
  then show ?thesis
    using assms by (auto simp: fm_inv_def focus_ok_def focusActive_nth)
qed

lemma upd_input_simps [simp]:
  "length (fm_rows (upd_input i f m)) = length (fm_rows m)" "fm_focus (upd_input i f m) = fm_focus m"
  "fm_cursorRow (upd_input i f m) = fm_cursorRow m" "fm_selectedButton (upd_input i f m) = fm_selectedButton m"
  "fm_out (upd_input i f m) = fm_out m" "fm_hasOnClose (upd_input i f m) = fm_hasOnClose m"
  by (simp_all add: upd_input_def)

lemma upd_input_rows:
  assumes "rows_ok (fm_rows m)" "i < length (fm_rows m)"
    and f: "\<And>j. in_inv j \<Longrightarrow> in_inv (f j)" "\<And>j. in_maxLen (f j) = in_maxLen j"
    and ph: "i = length (fm_rows m) - 1 \<Longrightarrow> in_value (f (fr_input (fm_rows m ! i))) = []"
  shows "rows_ok (fm_rows (upd_input i f m))"
proof -
  have "row_ok (fm_rows m ! i)" "fr_typ (fm_rows m ! i) = Unknown \<longleftrightarrow> i = length (fm_rows m) - 1"
    using assms(1,2) by (auto simp: rows_ok_def list_all_length)
  then show ?thesis
    unfolding upd_input_def using assms by (simp add: rows_ok_update row_ok_def)
qed

lemma upd_input_inv:
  assumes "fm_inv m" "i < length (fm_rows m)"
    and "\<And>j. in_inv j \<Longrightarrow> in_inv (f j)" "\<And>j. in_maxLen (f j) = in_maxLen j" "\<And>j. in_focused (f j) = in_focused j"
    and "i = length (fm_rows m) - 1 \<Longrightarrow> in_value (f (fr_input (fm_rows m ! i))) = []"
  shows "fm_inv (upd_input i f m)"
proof -
  have "rows_ok (fm_rows (upd_input i f m))" using assms by (auto simp: fm_inv_def intro: upd_input_rows)
  moreover have "focus_ok (upd_input i f m)"
    using assms by (auto simp: fm_inv_def focus_ok_def upd_input_def nth_list_update)
  ultimately show ?thesis using assms(1) by (simp add: fm_inv_def)
qed

lemma clampView_frame2 [simp]:
  "in_focused (clampView sw i) = in_focused i" "in_maxLen (clampView sw i) = in_maxLen i" "in_value (clampView sw i) = in_value i"
  by (simp_all add: clampView_def Let_def)

lemma input_frames [simp]:
  "in_focused (in_SetValue sw s i) = in_focused i" "in_focused (in_SetCursor sw n i) = in_focused i"
  "in_maxLen (in_SetCursor sw n i) = in_maxLen i" "in_value (in_SetCursor sw n i) = in_value i"
  by (simp_all add: in_SetValue_def in_SetCursor_def Let_def)

lemma in_HandleKey_focused [simp]: "in_focused (fst (in_HandleKey sw ev i)) = in_focused i"
proof -
  have ins: "in_focused (InsertText sw s i) = in_focused i" for s
    unfolding InsertText_def by (induction s arbitrary: i) (auto simp: insertRune_def)
  show ?thesis by (simp add: in_HandleKey_def Let_def ins split: key_code.split)
qed

lemma moveRow_inv [wf_intros]: "fm_inv m \<Longrightarrow> fm_inv (moveRow dir m)"
  by (auto simp: moveRow_def Let_def fm_inv_def [of m] rows_ok_def intro!: focusActive_inv)

lemma moveButton_inv [wf_intros]: "fm_inv m \<Longrightarrow> fm_inv (moveButton dir m)"
  by (auto simp: moveButton_def fm_inv_def focus_ok_def)

lemma fm_inv_cursor: "fm_inv m \<Longrightarrow> fm_cursorRow m < length (fm_rows m)"
  by (simp add: fm_inv_def)

lemma in_SetValue_Nil [simp]: "in_value (in_SetValue sw [] i) = []"
  by (simp add: in_SetValue_def Let_def)

lemma clearRow_inv [wf_intros]: "fm_inv m \<Longrightarrow> fm_inv (clearRow u m)"
  unfolding clearRow_def
  by (auto intro!: upd_input_inv in_SetValue_inv dest: fm_inv_cursor)

lemma caret_to_end_inv: "in_inv i \<Longrightarrow> in_inv (caret_to_end u i)" and caret_to_end_frame [simp]:
  "in_maxLen (caret_to_end u i) = in_maxLen i" "in_focused (caret_to_end u i) = in_focused i" "in_value (caret_to_end u i) = in_value i"
  by (simp_all add: caret_to_end_def in_SetCursor_inv)

lemma removeRowAt_rows:
  assumes "rows_ok (fm_rows m)" "i < length (fm_rows m) - 1"
  shows "rows_ok (fm_rows (removeRowAt i m))" "length (fm_rows (removeRowAt i m)) = length (fm_rows m) - 1"
proof -
  obtain real p where s: "fm_rows m = real @ [p]" "list_all row_ok real" "list_all (\<lambda>r. fr_typ r \<noteq> Unknown) real" "row_ok p"
    "fr_typ p = Unknown" "in_value (fr_input p) = []" using rows_ok_split [OF assms(1)] by metis
  have i: "i < length real" using assms(2) s(1) by simp
  then have "fm_rows (removeRowAt i m) = (take i real @ drop (Suc i) real) @ [p]"
    by (simp add: removeRowAt_def s(1))
  then show "rows_ok (fm_rows (removeRowAt i m))"
    using s by (simp add: rows_ok_snoc del: append_assoc) (auto simp: list_all_iff dest: in_set_takeD in_set_dropD)
  show "length (fm_rows (removeRowAt i m)) = length (fm_rows m) - 1"
    using assms(2) by (simp add: removeRowAt_def)
qed

lemma removeRowAt_frame [simp]:
  "fm_focus (removeRowAt i m) = fm_focus m" "fm_cursorRow (removeRowAt i m) = fm_cursorRow m"
  "fm_selectedButton (removeRowAt i m) = fm_selectedButton m"
  by (simp_all add: removeRowAt_def)

lemma deletePrev_inv [wf_intros]:
  assumes "fm_inv m"
  shows "fm_inv (deletePrev u m)"
proof (cases "fm_focus m \<noteq> FocusRow \<or> length (fm_rows m) = 0")
  case False
  let ?i = "fm_cursorRow m"
  have inv: "rows_ok (fm_rows m)" "?i < length (fm_rows m)" "0 \<le> fm_selectedButton m" "fm_selectedButton m \<le> 2"
    using assms by (simp_all add: fm_inv_def)
  have caret: "rows_ok (fm_rows (upd_input j (caret_to_end u) m'))"
    if "rows_ok (fm_rows m')" "j < length (fm_rows m')" for j m'
    using that by (intro upd_input_rows) (auto simp: caret_to_end_inv rows_ok_def last_conv_nth)
  show ?thesis
  proof (cases "isPlaceholder ?i m")
    case True
    then show ?thesis
      using False inv by (auto simp: deletePrev_def Let_def intro!: focusActive_inv caret)
  next
    case np: False
    then have lt: "?i < length (fm_rows m) - 1"
      using isPlaceholder_iff [OF inv(1,2)] inv(2) by linarith
    with np False inv removeRowAt_rows [OF inv(1) lt] show ?thesis
      by (auto simp: deletePrev_def Let_def intro!: focusActive_inv caret)
  qed
qed (use assms in \<open>auto simp: deletePrev_def\<close>)

lemma deleteHere_inv [wf_intros]:
  assumes "fm_inv m"
  shows "fm_inv (deleteHere m)"
proof (cases "fm_focus m \<noteq> FocusRow \<or> length (fm_rows m) = 0 \<or> isPlaceholder (fm_cursorRow m) m")
  case False
  have inv: "rows_ok (fm_rows m)" "fm_cursorRow m < length (fm_rows m)" "0 \<le> fm_selectedButton m" "fm_selectedButton m \<le> 2"
    using assms by (simp_all add: fm_inv_def)
  have lt: "fm_cursorRow m < length (fm_rows m) - 1"
    using isPlaceholder_iff [OF inv(1,2)] inv(2) False by linarith
  with False inv removeRowAt_rows [OF inv(1) lt] show ?thesis
    by (auto simp: deleteHere_def Let_def intro!: focusActive_inv)
qed (use assms in \<open>auto simp: deleteHere_def\<close>)

lemma commitPlaceholder_inv [wf_intros]:
  assumes "fm_inv m" "isPlaceholder (fm_cursorRow m) m" "t \<noteq> Unknown"
  shows "fm_inv (commitPlaceholder u t m)"
proof -
  have inv: "rows_ok (fm_rows m)" "fm_cursorRow m < length (fm_rows m)" "focus_ok m"
    using assms(1) by (simp_all add: fm_inv_def)
  have i: "fm_cursorRow m = length (fm_rows m) - 1" using isPlaceholder_iff [OF inv(1,2)] assms(2) by simp
  obtain real p where s: "fm_rows m = real @ [p]" "list_all row_ok real" "list_all (\<lambda>r. fr_typ r \<noteq> Unknown) real" "row_ok p"
    using rows_ok_split [OF inv(1)] by metis
  have rows: "fm_rows (commitPlaceholder u t m) = (real @ [p\<lparr>fr_typ := t\<rparr>]) @ [newRow u Unknown []]"
    using i by (simp add: commitPlaceholder_def s(1) nth_append list_update_append)
  have ok: "rows_ok (fm_rows (commitPlaceholder u t m))"
  proof -
    have "row_ok (p\<lparr>fr_typ := t\<rparr>)" using s(4) by (simp add: row_ok_def)
    then show ?thesis unfolding rows rows_ok_snoc using s assms(3) by simp
  qed
  have foc: "focus_ok (commitPlaceholder u t m)"
    using inv(2,3) i unfolding focus_ok_def rows
    by (auto simp: s(1) nth_append commitPlaceholder_def less_Suc_eq newRow_def in_SetValue_def in_New_def Let_def)
  show ?thesis
    using assms(1) ok foc by (simp add: fm_inv_def) (simp add: commitPlaceholder_def)
qed

lemma cycleType_inv [wf_intros]:
  assumes "fm_inv m"
  shows "fm_inv (cycleType u dir m)"
proof (cases "fm_focus m \<noteq> FocusRow \<or> length (fm_rows m) = 0 \<or> isPlaceholder (fm_cursorRow m) m")
  case True
  then show ?thesis using assms by (auto simp: cycleType_def Let_def intro!: commitPlaceholder_inv)
next
  case False
  let ?i = "fm_cursorRow m"
  have inv: "rows_ok (fm_rows m)" "?i < length (fm_rows m)" "focus_ok m" using assms by (simp_all add: fm_inv_def)
  have np: "?i \<noteq> length (fm_rows m) - 1" using False isPlaceholder_iff [OF inv(1,2)] by simp
  define nx where "nx = nat ((int (type_index (fr_typ (fm_rows m ! ?i)) 0 realTypes) + dir + 4) mod 4)"
  have "nx < length realTypes" by (simp add: nx_def realTypes_def nat_less_iff)
  then have real: "realTypes ! nx \<noteq> Unknown" by (auto simp: realTypes_def less_Suc_eq numeral_eq_Suc)
  have eq: "cycleType u dir m = m\<lparr>fm_rows := (fm_rows m)[?i := (fm_rows m ! ?i)\<lparr>fr_typ := realTypes ! nx\<rparr>]\<rparr>"
    using False by (simp add: cycleType_def Let_def nx_def realTypes_def)
  have "row_ok (fm_rows m ! ?i)" using inv(1,2) by (auto simp: rows_ok_def list_all_length)
  then have "rows_ok ((fm_rows m)[?i := (fm_rows m ! ?i)\<lparr>fr_typ := realTypes ! nx\<rparr>])"
    using real np inv by (intro rows_ok_update) (auto simp: row_ok_def)
  with assms show ?thesis
    unfolding eq by (auto simp: fm_inv_def focus_ok_def nth_list_update)
qed

section \<open>Events\<close>

lemma fm_out_inv [simp]: "fm_inv (m\<lparr>fm_out := x\<rparr>) = fm_inv m" "fm_inv (m\<lparr>fm_rect := r\<rparr>) = fm_inv m"
  by (simp_all add: fm_inv_def focus_ok_def)

lemma buttons_inv [wf_intros]:
  "fm_inv m \<Longrightarrow> fm_inv (fm_Dismiss m)" "fm_inv m \<Longrightarrow> fm_inv (fm_apply m)" "fm_inv m \<Longrightarrow> fm_inv (pressButton u m)"
proof -
  assume m: "fm_inv m"
  show d: "fm_inv (fm_Dismiss m)" using m by (simp add: fm_Dismiss_def fm_close_def)
  show a: "fm_inv (fm_apply m)" using m by (simp add: fm_apply_def fm_close_def)
  have "rows_ok [newRow u Unknown []]" using rows_ok_snoc [of "[]"] by simp
  then have "fm_inv (clearAll u m)"
    unfolding clearAll_def by (intro focusActive_inv) simp_all
  with d a show "fm_inv (pressButton u m)" by (simp add: pressButton_def)
qed

lemma fm_keys_ok: "kh_inv u (fm_keys u cfg)" "actions_keep fm_inv (fm_keys u cfg)"
  by (auto simp: fm_keys_def Bind_inv kh_inv_New)
     (auto simp: actions_keep_def Bind_def Let_def key_New_def bind_of_def intro!: wf_intros split: option.splits)

lemma in_HandleKey_blank:
  "in_value i = [] \<Longrightarrow> k_text ev = [] \<Longrightarrow> in_value (fst (in_HandleKey sw ev i)) = []"
  by (auto simp: in_HandleKey_def Let_def split: key_code.split)

lemma fm_HandleKey_inv [wf_intros]:
  assumes "fm_inv m"
  shows "fm_inv (fm_HandleKey u cfg ev m)"
proof -
  let ?m1 = "if length (fm_rows m) > 0 \<and> isPlaceholder (fm_cursorRow m) m \<and> k_text ev \<noteq> [] then commitPlaceholder u Include m else m"
  have m1: "fm_inv ?m1" using assms by (auto intro: commitPlaceholder_inv)
  have ph: "in_value (fr_input (fm_rows ?m1 ! fm_cursorRow ?m1)) = [] \<and> k_text ev = []"
    if "fm_cursorRow ?m1 = length (fm_rows ?m1) - 1"
  proof (cases "length (fm_rows m) > 0 \<and> isPlaceholder (fm_cursorRow m) m \<and> k_text ev \<noteq> []")
    case True
    with that have "fm_cursorRow m = length (fm_rows m)" by (simp add: commitPlaceholder_def)
    then show ?thesis using fm_inv_cursor [OF assms] by simp
  next
    case False
    with that have "fm_cursorRow m = length (fm_rows m) - 1" by (simp split: if_splits)
    with assms have "isPlaceholder (fm_cursorRow m) m" using isPlaceholder_iff by (simp add: fm_inv_def)
    then show ?thesis using False fm_inv_cursor [OF assms] by (auto simp: isPlaceholder_def)
  qed
  have "fm_inv (upd_input (fm_cursorRow ?m1) (\<lambda>i. fst (in_HandleKey (u_width u) ev i)) ?m1)"
    using m1 ph fm_inv_cursor [OF m1]
    by (intro upd_input_inv in_HandleKey_inv in_HandleKey_maxLen in_HandleKey_focused in_HandleKey_blank) blast+
  then show ?thesis
    using assms m1 key_Run_keeps [OF fm_keys_ok assms, of u cfg ev]
    by (auto simp: fm_HandleKey_def Let_def intro: deletePrev_inv deleteHere_inv moveButton_inv split: key_code.split)
qed

lemma fm_OnMouseClick_inv [wf_intros]:
  assumes "fm_inv m"
  shows "fm_inv (fst (fm_OnMouseClick u x y m))"
proof -
  have inv: "rows_ok (fm_rows m)" "0 \<le> fm_selectedButton m" "fm_selectedButton m \<le> 2" using assms by (simp_all add: fm_inv_def)
  have row: "fm_inv (focusActiveRowInput (m\<lparr>fm_focus := FocusRow, fm_cursorRow := nat row\<rparr>))"
    if "0 \<le> row" "row < int (length (fm_rows m))" for row
    using inv that by (intro focusActive_inv) auto
  have caret: "fm_inv (upd_input i (\<lambda>j. in_SetCursor sw (g j) j) m1)" if "fm_inv m1" "i < length (fm_rows m1)" for i sw g m1
    using that by (intro upd_input_inv) (auto simp: in_SetCursor_inv fm_inv_def rows_ok_def last_conv_nth)
  have button: "fm_inv (m\<lparr>fm_focus := FocusButtons, fm_selectedButton := idx\<rparr>)" if "0 \<le> idx" "idx < 3" for idx
    using assms that by (simp add: fm_inv_def focus_ok_def)
  have "HitTest u (fm_strip (fm_inner m)) x < 3"
    using HitTest_bounds [of u "fm_strip (fm_inner m)" x] by (simp add: fm_strip_def buttonLabels_def)
  then show ?thesis
    using assms row by (auto simp: fm_OnMouseClick_def Let_def intro!: cycleType_inv caret buttons_inv button)
qed

lemma fm_OnMouseHover_inv [wf_intros]:
  assumes "fm_inv m"
  shows "fm_inv (fst (fm_OnMouseHover u x y m))"
proof -
  have "HitTest u (fm_strip (fm_inner m)) x < 3"
    using HitTest_bounds [of u "fm_strip (fm_inner m)" x] by (simp add: fm_strip_def buttonLabels_def)
  then show ?thesis
    using assms by (auto simp: fm_OnMouseHover_def strip_Hover_def Let_def fm_inv_def focus_ok_def)
qed

datatype fm_event = FmKey key_event | FmClick int int | FmHover int int | FmResize rect

fun fm_step :: "uiext \<Rightarrow> keyconf \<Rightarrow> fm_event \<Rightarrow> filter_menu \<Rightarrow> filter_menu" where
  "fm_step u cfg (FmKey ev) m = fm_HandleKey u cfg ev m"
| "fm_step u cfg (FmClick x y) m = fst (fm_OnMouseClick u x y m)"
| "fm_step u cfg (FmHover x y) m = fst (fm_OnMouseHover u x y m)"
| "fm_step u cfg (FmResize r) m = fm_SetRect r m"

lemma fm_step_inv: "fm_inv m \<Longrightarrow> fm_inv (fm_step u cfg e m)"
  by (cases e) (auto simp: fm_SetRect_def intro: wf_intros)

interpretation filter_menu: event_machine fm_inv "fm_step u cfg" for u cfg
  by unfold_locales (rule fm_step_inv)

section \<open>Properties\<close>

definition real_rule :: "rule \<Rightarrow> bool" where
  "real_rule r \<longleftrightarrow> r_type r \<noteq> Unknown \<and> r_value r \<noteq> []"

lemma fm_New_rows: "fm_rows (fm_New u rules) = (map (\<lambda>r. newRow u (r_type r) (r_value r)) rules @ [newRow u Unknown []])
    [0 := (\<lambda>r. r\<lparr>fr_input := in_Focus (fr_input r)\<rparr>) ((map (\<lambda>r. newRow u (r_type r) (r_value r)) rules @ [newRow u Unknown []]) ! 0)]"
  by (simp add: fm_New_def upd_input_def)

lemma newRow_unfocused [simp]: "\<not> in_focused (fr_input (newRow u t v))"
  by (simp add: newRow_def in_New_def)

lemma fm_New_inv:
  assumes "list_all real_rule rules"
  shows "fm_inv (fm_New u rules)"
proof -
  let ?rs = "map (\<lambda>r. newRow u (r_type r) (r_value r)) rules @ [newRow u Unknown []]"
  have rs: "rows_ok ?rs" using assms by (simp add: rows_ok_snoc list_all_iff real_rule_def)
  have "rows_ok (fm_rows (fm_New u rules))"
    unfolding fm_New_def by (intro upd_input_rows) (use rs in \<open>auto simp: nth_append\<close>)
  moreover have "focus_ok (fm_New u rules)"
    by (auto simp: focus_ok_def fm_New_rows nth_list_update nth_append) (simp_all add: fm_New_def)
  ultimately show ?thesis by (simp add: fm_inv_def) (simp add: fm_New_def)
qed

text \<open>
  C33: whatever is typed, pressed, clicked or hovered after the menu is opened on any rules, its rows stay real rules
  followed by exactly one blank placeholder, the cursor stays on a row, the selected button exists, and while a
  row is edited exactly its field has the focus.
\<close>

theorem filter_menu_run_invariant:
  assumes "list_all real_rule rules"
  shows "fm_inv (fold (fm_step u cfg) es (fm_New u rules))"
  by (rule filter_menu.run_inv) (rule fm_New_inv [OF assms])

theorem filter_menu_run_invariant_witness:
  "fm_inv (fold (fm_step demo_ui demo_keys) [FmClick 0 0, FmHover 1 1] (fm_New demo_ui [\<lparr>r_type = Include, r_value = str ''a''\<rparr>]))"
  by (rule filter_menu_run_invariant) (simp add: real_rule_def)

text \<open>The rules a row list stands for: only types and values count.\<close>

definition row_view :: "frow \<Rightarrow> rule" where
  "row_view r = \<lparr>r_type = fr_typ r, r_value = in_value (fr_input r)\<rparr>"

lemma prunedRules_view: "prunedRules m = filter real_rule (map row_view (fm_rows m))"
  by (simp add: prunedRules_def filter_map comp_def row_view_def [abs_def] real_rule_def)

lemma row_view_newRow [simp]: "row_view (newRow u t v) = \<lparr>r_type = t, r_value = v\<rparr>"
  by (simp add: row_view_def)

lemma view_focusActive [simp]: "map row_view (fm_rows (focusActiveRowInput m)) = map row_view (fm_rows m)"
  by (rule nth_equalityI) (simp_all add: focusActive_nth row_view_def)

lemma view_moveRow [simp]: "map row_view (fm_rows (moveRow d m)) = map row_view (fm_rows m)"
  by (simp add: moveRow_def Let_def)

lemma view_New: "map row_view (fm_rows (fm_New u rules)) = rules @ [\<lparr>r_type = Unknown, r_value = []\<rparr>]"
proof -
  let ?rs = "map (\<lambda>r. newRow u (r_type r) (r_value r)) rules @ [newRow u Unknown []]"
  have same: "map row_view (rs[0 := g (rs ! 0)]) = map row_view rs" if "rs \<noteq> []" "\<And>r. row_view (g r) = row_view r" for rs g
    using that by (metis length_greater_0_conv list_update_id map_update nth_map)
  have "map row_view (fm_rows (fm_New u rules)) = map row_view ?rs"
    unfolding fm_New_rows by (rule same) (simp_all add: row_view_def)
  moreover have "\<lparr>r_type = r_type x, r_value = r_value x\<rparr> = x" for x :: rule by (cases x) simp
  ultimately show ?thesis by (simp add: comp_def)
qed

text \<open>
  Opening the menu on a rule set and applying it unchanged writes back exactly the rules of it that can apply (a
  known type and a value), in order.
\<close>

theorem open_then_apply_gives_the_rules:
  "fm_out (fm_apply (fm_New u rules)) = [SetFilters (filter real_rule rules), FilterApplied]"
proof -
  have "prunedRules (fm_New u rules) = filter real_rule rules"
    unfolding prunedRules_view view_New by (simp add: real_rule_def)
  then show ?thesis by (simp add: fm_apply_def fm_close_def) (simp add: fm_New_def)
qed

lemma move_down:
  assumes "k \<le> length rules"
  shows "fm_cursorRow ((moveRow 1 ^^ k) (fm_New u rules)) = k \<and> fm_focus ((moveRow 1 ^^ k) (fm_New u rules)) = FocusRow \<and>
    map row_view (fm_rows ((moveRow 1 ^^ k) (fm_New u rules))) = rules @ [\<lparr>r_type = Unknown, r_value = []\<rparr>] \<and>
    fm_out ((moveRow 1 ^^ k) (fm_New u rules)) = [] \<and> \<not> fm_hasOnClose ((moveRow 1 ^^ k) (fm_New u rules))"
  using assms
proof (induction k)
  case 0
  then show ?case using view_New by (simp add: view_New) (simp add: fm_New_def)
next
  case (Suc k)
  define m where "m = (moveRow 1 ^^ k) (fm_New u rules)"
  have IH: "fm_cursorRow m = k" "fm_focus m = FocusRow" "fm_out m = []" "\<not> fm_hasOnClose m"
    and view: "map row_view (fm_rows m) = rules @ [\<lparr>r_type = Unknown, r_value = []\<rparr>]" using Suc by (simp_all add: m_def)
  from view have "length (fm_rows m) = length rules + 1"
    by (metis length_map length_append_singleton add.commute plus_1_eq_Suc)
  then have "moveRow 1 m = focusActiveRowInput (m\<lparr>fm_cursorRow := Suc k\<rparr>)"
    using IH Suc.prems by (simp add: moveRow_def Let_def nat_add_distrib)
  moreover have "(moveRow 1 ^^ Suc k) (fm_New u rules) = moveRow 1 m" by (simp add: m_def)
  ultimately show ?case using IH view view_moveRow [of 1 m] by simp
qed

text \<open>
  Typing a text on the placeholder row turns it into an include rule: moving down past the rules, typing
  and applying writes the old rules followed by the new one.
\<close>

theorem typed_text_becomes_an_include_rule:
  assumes "list_all real_rule rules" "GetAction u (fm_keys u cfg) ev = None"
    and "k_code ev = KeyRune r" "\<not> k_ctrl ev" "\<not> k_alt ev" "k_text ev \<noteq> []"
  shows "fm_out (fm_apply (fm_HandleKey u cfg ev ((moveRow 1 ^^ length rules) (fm_New u rules))))
    = [SetFilters (rules @ [\<lparr>r_type = Include, r_value = k_text ev\<rparr>]), FilterApplied]"
proof -
  define m where "m = (moveRow 1 ^^ length rules) (fm_New u rules)"
  have inv: "fm_inv m"
  proof -
    have "fm_inv ((moveRow 1 ^^ k) (fm_New u rules))" for k
      by (induction k) (simp_all add: fm_New_inv [OF assms(1)] moveRow_inv)
    then show ?thesis by (simp add: m_def)
  qed
  have m: "fm_cursorRow m = length rules" "fm_focus m = FocusRow" "fm_out m = []" "\<not> fm_hasOnClose m"
    "map row_view (fm_rows m) = rules @ [\<lparr>r_type = Unknown, r_value = []\<rparr>]"
    using move_down [of "length rules" rules u] by (simp_all add: m_def)
  obtain real p where s: "fm_rows m = real @ [p]" "row_ok p" "fr_typ p = Unknown" "in_value (fr_input p) = []"
    using rows_ok_split [of "fm_rows m"] inv unfolding fm_inv_def by metis
  have real: "map row_view real = rules" using m(5) s(1) by simp
  then have len: "length real = length rules" by (metis length_map)
  have ph: "isPlaceholder (length rules) m" using s len by (simp add: isPlaceholder_def nth_append)
  let ?i = "fst (in_HandleKey (u_width u) ev (fr_input p))"
  have key: "in_HandleKey (u_width u) ev (fr_input p) = (InsertText (u_width u) (k_text ev) (fr_input p), True)"
    using assms(3-6) by (simp add: in_HandleKey_def Let_def)
  have val: "in_value ?i = k_text ev"
    unfolding key fst_conv using s(2,4) by (intro field.paste_empty) (simp_all add: row_ok_def)
  have eq: "fm_HandleKey u cfg ev m = upd_input (length rules) (\<lambda>i. fst (in_HandleKey (u_width u) ev i)) (commitPlaceholder u Include m)"
    using assms(2,3,6) m(1,2) s(1) ph
    by (simp add: fm_HandleKey_def key_Run_def Let_def) (simp add: commitPlaceholder_def)
  have rows: "fm_rows (fm_HandleKey u cfg ev m) = real @ [\<lparr>fr_typ = Include, fr_input = ?i\<rparr>, newRow u Unknown []]"
    unfolding eq using len s(1) m(1)
    by (cases p) (simp add: upd_input_def commitPlaceholder_def nth_append list_update_append)
  have "prunedRules (fm_HandleKey u cfg ev m) = rules @ [\<lparr>r_type = Include, r_value = k_text ev\<rparr>]"
    unfolding prunedRules_view rows using assms(1,6) real val
    by (simp add: row_view_def [of "\<lparr>fr_typ = Include, fr_input = ?i\<rparr>"] real_rule_def) (simp add: filter_True list_all_iff real_rule_def)
  moreover have "fm_out (fm_HandleKey u cfg ev m) = []" "\<not> fm_hasOnClose (fm_HandleKey u cfg ev m)"
    unfolding eq using m(3,4) by (simp_all add: commitPlaceholder_def)
  ultimately show ?thesis by (simp add: fm_apply_def fm_close_def m_def)
qed

theorem typed_text_becomes_an_include_rule_witness:
  "fm_out (fm_apply (fm_HandleKey demo_ui demo_keys \<lparr>k_code = KeyRune 120, k_alt = False, k_ctrl = False, k_text = [120]\<rparr>
     ((moveRow 1 ^^ length [\<lparr>r_type = Exclude, r_value = str ''a''\<rparr>]) (fm_New demo_ui [\<lparr>r_type = Exclude, r_value = str ''a''\<rparr>]))))
   = [SetFilters ([\<lparr>r_type = Exclude, r_value = str ''a''\<rparr>] @ [\<lparr>r_type = Include, r_value = [120]\<rparr>]), FilterApplied]"
proof -
  have "h_actions (fm_keys demo_ui demo_keys) [120] = None" by code_simp
  then have "GetAction demo_ui (fm_keys demo_ui demo_keys) \<lparr>k_code = KeyRune 120, k_alt = False, k_ctrl = False, k_text = [120]\<rparr> = None"
    by (simp add: GetAction_def normalize_def demo_ui_def [abs_def]) 
  from typed_text_becomes_an_include_rule [OF _ this, of "[\<lparr>r_type = Exclude, r_value = str ''a''\<rparr>]" 120]
  show ?thesis by (simp add: real_rule_def)
qed

end
