(* ===== verification/Contextmenu.thy ===== *)
theory Contextmenu
  imports Listmodel_Correct Canvas
begin

text \<open>
  The context menu, \<^verbatim>\<open>internal/ui/components/contextmenu/contextmenu.go\<close>: a list of labelled actions in a
  box, its placement, and what activating and dismissing do. Run actions and closes are appended to \<open>cm_out\<close>.
\<close>

section \<open>State and placement\<close>

record menu_item =
  mi_label :: runes
  mi_hasAction :: bool

datatype cm_effect = RunAction nat | CloseContext bool

record context_menu =
  cm_drawRect :: rect
  cm_list :: list_model
  cm_items :: "menu_item list"
  cm_anchored :: bool
  cm_anchorX :: int
  cm_anchorY :: int
  cm_suppressCloseRelease :: bool
  cm_hasOnClose :: bool
  cm_out :: "cm_effect list"

definition cm_New :: "uiext \<Rightarrow> menu_item list \<Rightarrow> context_menu" where
  "cm_New u items =
     \<lparr>cm_drawRect = \<lparr>rect_x = 0, rect_y = 0, rect_w = 0, rect_h = 0\<rparr>,
      cm_list = (WithItems u (map (\<lambda>it. PlainItem (mi_label it)) items) list_New)\<lparr>l_onFuzzyConfirm := True, l_onActivate := True\<rparr>,
      cm_items = items, cm_anchored = False, cm_anchorX = 0, cm_anchorY = 0, cm_suppressCloseRelease = False,
      cm_hasOnClose = False, cm_out = []\<rparr>"

definition WithAnchor :: "int \<Rightarrow> int \<Rightarrow> context_menu \<Rightarrow> context_menu" where
  "WithAnchor x y m = m\<lparr>cm_anchored := True, cm_anchorX := x, cm_anchorY := y\<rparr>"

definition WithSuppressCloseRelease :: "bool \<Rightarrow> context_menu \<Rightarrow> context_menu" where
  "WithSuppressCloseRelease b m = m\<lparr>cm_suppressCloseRelease := b\<rparr>"

definition SetOnClose :: "context_menu \<Rightarrow> context_menu" where
  "SetOnClose m = m\<lparr>cm_hasOnClose := True\<rparr>"

definition Position :: "rect \<Rightarrow> int \<Rightarrow> int \<Rightarrow> context_menu \<Rightarrow> rect" where
  "Position outer w h m =
     (if \<not> cm_anchored m then CenterRect outer w h
      else
        let w = min w (rect_w outer); h = min h (rect_h outer);
            x = (if cm_anchorX m + w > rect_x outer + rect_w outer then rect_x outer + rect_w outer - w else cm_anchorX m);
            y = (if cm_anchorY m + h > rect_y outer + rect_h outer then cm_anchorY m - 1 - h else cm_anchorY m)
        in \<lparr>rect_x = max x (rect_x outer), rect_y = max y (rect_y outer), rect_w = w, rect_h = h\<rparr>)"

definition cm_PreferredSize :: "uiext \<Rightarrow> int \<Rightarrow> int \<Rightarrow> context_menu \<Rightarrow> int \<times> int" where
  "cm_PreferredSize u maxW maxH m =
     (let contentW = fold (\<lambda>it w. max w (int (u_width u (mi_label it)))) (cm_items m) (int (length ''> fuzzyfind''));
          w = contentW + 2 * (1 + 1); h = 2 + int (VisibleLen (cm_list m)) + 2 * 1
      in (min w maxW, min h maxH))"

definition cm_SetRect :: "rect \<Rightarrow> context_menu \<Rightarrow> context_menu" where
  "cm_SetRect r m = m\<lparr>cm_drawRect := r, cm_list := list_SetRect (Pad r 1 (1 + 1) 1 (1 + 1)) (cm_list m)\<rparr>"

section \<open>Activation and close\<close>

definition cm_close :: "bool \<Rightarrow> context_menu \<Rightarrow> context_menu" where
  "cm_close releaseFocus m = (if cm_hasOnClose m then m\<lparr>cm_out := cm_out m @ [CloseContext releaseFocus]\<rparr> else m)"

definition cm_Dismiss :: "context_menu \<Rightarrow> context_menu" where "cm_Dismiss m = cm_close True m"

text \<open>An index panic of \<^verbatim>\<open>GetCursor\<close> would end the program; \<open>Listmodel_Correct\<close> excludes it.\<close>

definition activateFocused :: "context_menu \<Rightarrow> context_menu" where
  "activateFocused m =
     cm_close (\<not> cm_suppressCloseRelease m)
       (case GetCursor (cm_list m) of
          None \<Rightarrow> m
        | Some idx \<Rightarrow>
            if idx \<ge> 0 \<and> idx < int (length (cm_items m)) \<and> mi_hasAction (cm_items m ! nat idx)
            then m\<lparr>cm_out := cm_out m @ [RunAction (nat idx)]\<rparr> else m)"

text \<open>
  An operation of the inner list, followed by the hook it ran: both hooks of the list are
  \<^verbatim>\<open>activateFocused\<close>, and the list calls them last.
\<close>

definition on_list :: "(list_model \<Rightarrow> list_model) \<Rightarrow> context_menu \<Rightarrow> context_menu" where
  "on_list f m =
     (let l = f (cm_list m); new = drop (length (l_out (cm_list m))) (l_out l); m1 = m\<lparr>cm_list := l\<rparr>
      in if RunConfirm \<in> set new \<or> RunActivate \<in> set new then activateFocused m1 else m1)"

definition cm_Focus :: "context_menu \<Rightarrow> context_menu" where "cm_Focus m = on_list list_Focus m"

definition cm_keys :: "uiext \<Rightarrow> keyconf \<Rightarrow> (context_menu \<Rightarrow> context_menu) handler" where
  "cm_keys u cfg = Bind u [bind_of (kc_cancel cfg) ''close context menu'' (Some cm_Dismiss) CatThisView] key_New"

definition cm_HandleKey :: "uiext \<Rightarrow> keyconf \<Rightarrow> key_event \<Rightarrow> context_menu \<Rightarrow> context_menu" where
  "cm_HandleKey u cfg ev m =
     (let r = key_Run u (cm_keys u cfg) ev m
      in if snd r then fst r else on_list (\<lambda>l. fst (list_HandleKey u cfg ev l)) m)"

definition cm_OnMouseClick :: "uiext \<Rightarrow> int \<Rightarrow> int \<Rightarrow> context_menu \<Rightarrow> context_menu" where
  "cm_OnMouseClick u x y m =
     (let ti = fst (subRects (cm_list m))
      in if y \<ge> rect_y ti \<and> y < rect_y ti + rect_h ti then on_list (\<lambda>l. fst (list_OnMouseClick u x y l)) m
         else case RowAtY y (cm_list m) of
           None \<Rightarrow> m
         | Some idx \<Rightarrow> activateFocused (m\<lparr>cm_list := list_SetCursor idx (cm_list m)\<rparr>))"

definition cm_OnPaste :: "uiext \<Rightarrow> runes \<Rightarrow> context_menu \<Rightarrow> context_menu" where
  "cm_OnPaste u s m = on_list (list_OnPaste u s) m"

definition cm_OnMousePaste :: "uiext \<Rightarrow> int \<Rightarrow> int \<Rightarrow> runes \<Rightarrow> context_menu \<Rightarrow> context_menu" where
  "cm_OnMousePaste u x y s m = on_list (\<lambda>l. fst (list_OnMousePaste u x y s l)) m"

definition cm_OnMouseScroll :: "int \<Rightarrow> context_menu \<Rightarrow> context_menu" where
  "cm_OnMouseScroll n m = on_list (\<lambda>l. fst (list_OnMouseScroll n l)) m"

definition cm_OnMouseHover :: "int \<Rightarrow> context_menu \<Rightarrow> context_menu" where
  "cm_OnMouseHover y m = on_list (\<lambda>l. fst (list_OnMouseHover y l)) m"

section \<open>Properties\<close>

text \<open>A rectangle within another.\<close>

definition inside :: "rect \<Rightarrow> rect \<Rightarrow> bool" where
  "inside r outer \<longleftrightarrow> rect_x outer \<le> rect_x r \<and> rect_x r + rect_w r \<le> rect_x outer + rect_w outer \<and>
     rect_y outer \<le> rect_y r \<and> rect_y r + rect_h r \<le> rect_y outer + rect_h outer"

lemma CenterRect_inside: "0 \<le> w \<Longrightarrow> 0 \<le> h \<Longrightarrow> 0 \<le> rect_w outer \<Longrightarrow> 0 \<le> rect_h outer \<Longrightarrow> inside (CenterRect outer w h) outer"
  by (auto simp: CenterRect_def inside_def Let_def)

text \<open>
  The menu box lies within the screen, centred or anchored, for an anchor on the screen or the row just below
  it; an anchored box never covers the line above its anchor when there is room for it below or above.
\<close>

theorem menu_box_is_on_screen:
  assumes "0 \<le> w" "0 \<le> h" "0 \<le> rect_w outer" "0 \<le> rect_h outer"
    and "cm_anchorY m \<le> rect_y outer + rect_h outer"
  shows "inside (Position outer w h m) outer \<and>
    (cm_anchored m \<and> rect_y outer \<le> cm_anchorY m - 1 \<and>
       (cm_anchorY m + h \<le> rect_y outer + rect_h outer \<or> rect_y outer + h \<le> cm_anchorY m - 1) \<longrightarrow>
     rect_y (Position outer w h m) > cm_anchorY m - 1 \<or>
     rect_y (Position outer w h m) + rect_h (Position outer w h m) \<le> cm_anchorY m - 1)"
proof (cases "cm_anchored m")
  case False
  then show ?thesis using assms CenterRect_inside by (simp add: Position_def)
next
  case True
  define w' where "w' = min w (rect_w outer)"
  define h' where "h' = min h (rect_h outer)"
  have b: "0 \<le> w'" "w' \<le> rect_w outer" "0 \<le> h'" "h' \<le> rect_h outer" "h' \<le> h" using assms by (auto simp: w'_def h'_def)
  show ?thesis
    using True assms(5) b
    by (simp add: Position_def inside_def Let_def flip: w'_def h'_def) linarith
qed

theorem menu_box_is_on_screen_witness:
  "inside (Position \<lparr>rect_x = 0, rect_y = 0, rect_w = 80, rect_h = 24\<rparr> 20 6 (WithAnchor 75 22 (cm_New demo_ui [])))
     \<lparr>rect_x = 0, rect_y = 0, rect_w = 80, rect_h = 24\<rparr>"
  using menu_box_is_on_screen [of 20 6 "\<lparr>rect_x = 0, rect_y = 0, rect_w = 80, rect_h = 24\<rparr>" "WithAnchor 75 22 (cm_New demo_ui [])"]
  by (simp add: WithAnchor_def)

definition demo_menu :: context_menu where
  "demo_menu = cm_Focus (SetOnClose (cm_New demo_ui
     [\<lparr>mi_label = str ''delete'', mi_hasAction = True\<rparr>, \<lparr>mi_label = str ''rename'', mi_hasAction = True\<rparr>]))"

text \<open>
  A defect: a filter that matches nothing leaves the cursor's old item index in force, so Enter on the
  empty menu runs the action of an item that is not shown.
\<close>

theorem enter_on_an_empty_menu_runs_a_hidden_action:
  "VisibleLen (cm_list (cm_OnPaste demo_ui (str ''zz'') demo_menu)) = 0 \<and>
   cm_out (cm_HandleKey demo_ui demo_keys \<lparr>k_code = KeyEnter, k_alt = False, k_ctrl = False, k_text = []\<rparr>
     (cm_OnPaste demo_ui (str ''zz'') demo_menu)) = [RunAction 0, CloseContext True]"
  by code_simp

end
