(* ===== verification/Tabs.thy ===== *)
theory Tabs
  imports Keys
begin

text \<open>
  The tab bar and the routing of input to the active tab, \<^verbatim>\<open>internal/ui/components/tabs/tabs.go\<close>. A component is a value
  of any type with the operations of \<open>tab_ops\<close>; an optional interface that one does not have is \<open>None\<close>. The width of a
  text and the product of a gap and the configured alignment, a float, are parameters.
\<close>

section \<open>Data\<close>

record 'c tab =
  t_Title :: runes
  t_Component :: 'c
  t_TitleFunc :: "('c \<Rightarrow> runes) option"

record 'c tab_ops =
  to_Init :: "'c \<Rightarrow> 'c"
  to_SetRect :: "rect \<Rightarrow> 'c \<Rightarrow> 'c"
  to_Click :: "'c \<Rightarrow> (int \<Rightarrow> int \<Rightarrow> 'c \<times> bool) option"
  to_DoubleClick :: "'c \<Rightarrow> (int \<Rightarrow> int \<Rightarrow> 'c \<times> bool) option"
  to_Hover :: "'c \<Rightarrow> (int \<Rightarrow> int \<Rightarrow> 'c \<times> bool) option"
  to_ClearHover :: "'c \<Rightarrow> 'c \<times> bool"
  to_Key :: "'c \<Rightarrow> (key_event \<Rightarrow> 'c \<times> bool) option"

record 'c tabs =
  tb_drawRect :: rect
  tb_tabs :: "'c tab list"
  tb_active :: nat
  tb_prevActive :: nat
  tb_hover :: int
  tb_left :: "(nat \<times> nat) list"

text \<open>\<open>tb_left\<close> collects the calls of the \<open>onLeave\<close> hook.\<close>

record tab_geometry =
  tg_width :: "runes \<Rightarrow> nat"
  tg_align :: "int \<Rightarrow> int"

definition TabSeparator :: runes where "TabSeparator = [124]"

definition tabPadding :: nat where "tabPadding = 2"

definition GetTitle :: "'c tab \<Rightarrow> runes" where
  "GetTitle t = (case t_TitleFunc t of Some f \<Rightarrow> f (t_Component t) | None \<Rightarrow> t_Title t)"

definition tabs_New :: "'c tab list \<Rightarrow> 'c tabs" where
  "tabs_New ts = \<lparr>tb_drawRect = \<lparr>rect_x = 0, rect_y = 0, rect_w = 0, rect_h = 0\<rparr>, tb_tabs = ts, tb_active = 0, tb_prevActive = 0,
     tb_hover = -1, tb_left = []\<rparr>"

definition map_components :: "('c \<Rightarrow> 'c) \<Rightarrow> 'c tabs \<Rightarrow> 'c tabs" where
  "map_components f m = m\<lparr>tb_tabs := map (\<lambda>t. t\<lparr>t_Component := f (t_Component t)\<rparr>) (tb_tabs m)\<rparr>"

definition tabs_Init :: "'c tab_ops \<Rightarrow> 'c tabs \<Rightarrow> 'c tabs" where "tabs_Init ops m = map_components (to_Init ops) m"

definition tabs_SetRect :: "'c tab_ops \<Rightarrow> rect \<Rightarrow> 'c tabs \<Rightarrow> 'c tabs" where
  "tabs_SetRect ops r m =
     (let contentR = (if rect_h r < 2 then r\<lparr>rect_h := 0\<rparr> else r\<lparr>rect_y := rect_y r + 1, rect_h := rect_h r - 1\<rparr>)
      in map_components (to_SetRect ops contentR) (m\<lparr>tb_drawRect := r\<rparr>))"

section \<open>Geometry\<close>

definition alignStart :: "tab_geometry \<Rightarrow> int \<Rightarrow> int \<Rightarrow> int" where
  "alignStart G rowWidth contentWidth =
     (if contentWidth \<ge> rowWidth then 0
      else let gap = rowWidth - contentWidth; start = tg_align G gap
        in if start < 0 then 0 else if start > gap then gap else start)"

definition chunk_width :: "tab_geometry \<Rightarrow> 'c tab \<Rightarrow> int" where
  "chunk_width G t = int (tabPadding + tg_width G (GetTitle t) + tabPadding)"

definition totalWidth :: "tab_geometry \<Rightarrow> 'c tab list \<Rightarrow> int" where
  "totalWidth G ts = sum_list (map (chunk_width G) ts) + int (tg_width G TabSeparator) * int (length ts - 1)"

text \<open>The spans of the tabs from a column on, as (start, end); a separator goes before every tab but the first.\<close>

fun spans_from :: "tab_geometry \<Rightarrow> int \<Rightarrow> 'c tab list \<Rightarrow> (int \<times> int) list" where
  "spans_from G col [] = []"
| "spans_from G col (t # ts) = (col, col + chunk_width G t) # spans_from G (col + chunk_width G t + int (tg_width G TabSeparator)) ts"

definition tabSpans :: "tab_geometry \<Rightarrow> int \<Rightarrow> int \<Rightarrow> 'c tabs \<Rightarrow> (int \<times> int) list" where
  "tabSpans G barX w m = spans_from G (barX + alignStart G w (totalWidth G (tb_tabs m))) (tb_tabs m)"

fun find_span :: "int \<Rightarrow> int \<Rightarrow> (int \<times> int) list \<Rightarrow> int" where
  "find_span x i [] = -1"
| "find_span x i ((s, e) # sp) = (if s \<le> x \<and> x < e then i else find_span x (i + 1) sp)"

definition TabAtX :: "tab_geometry \<Rightarrow> int \<Rightarrow> 'c tabs \<Rightarrow> int" where
  "TabAtX G x m = find_span x 0 (tabSpans G (rect_x (tb_drawRect m)) (rect_w (tb_drawRect m)) m)"

section \<open>Selecting and routing\<close>

definition tabs_Select :: "int \<Rightarrow> 'c tabs \<Rightarrow> 'c tabs" where
  "tabs_Select idx m =
     (let target = nat (clamp idx 0 (int (length (tb_tabs m)) - 1))
      in if target = tb_active m then m
         else m\<lparr>tb_prevActive := tb_active m, tb_active := target, tb_left := tb_left m @ [(tb_active m, target)]\<rparr>)"

definition SelectPrevActive :: "'c tabs \<Rightarrow> 'c tabs" where "SelectPrevActive m = tabs_Select (int (tb_prevActive m)) m"

definition SelectPrev :: "'c tabs \<Rightarrow> 'c tabs" where "SelectPrev m = tabs_Select (int (tb_active m) - 1) m"

definition SelectNext :: "'c tabs \<Rightarrow> 'c tabs" where "SelectNext m = tabs_Select (int (tb_active m) + 1) m"

definition GetActiveTab :: "'c tabs \<Rightarrow> 'c tab option" where
  "GetActiveTab m = (if tb_active m < length (tb_tabs m) then Some (tb_tabs m ! tb_active m) else None)"

definition Titles :: "'c tabs \<Rightarrow> runes list" where "Titles m = map GetTitle (tb_tabs m)"

definition ReplaceComponent :: "nat \<Rightarrow> 'c \<Rightarrow> 'c tabs \<Rightarrow> 'c tabs option" where
  "ReplaceComponent i c m =
     (if i < length (tb_tabs m) then Some (m\<lparr>tb_tabs := (tb_tabs m)[i := (tb_tabs m ! i)\<lparr>t_Component := c\<rparr>]\<rparr>) else None)"

text \<open>An operation of the active component, with what it reports; \<open>None\<close> is an index out of range.\<close>

definition on_active :: "('c \<Rightarrow> ('c \<times> bool) option) \<Rightarrow> 'c tabs \<Rightarrow> ('c tabs \<times> bool) option" where
  "on_active f m =
     (case GetActiveTab m of
        None \<Rightarrow> None
      | Some t \<Rightarrow>
          (case f (t_Component t) of
             None \<Rightarrow> Some (m, False)
           | Some (c, b) \<Rightarrow> Some (m\<lparr>tb_tabs := (tb_tabs m)[tb_active m := t\<lparr>t_Component := c\<rparr>]\<rparr>, b)))"

definition tabs_OnMouseClick :: "tab_geometry \<Rightarrow> 'c tab_ops \<Rightarrow> int \<Rightarrow> int \<Rightarrow> bool \<Rightarrow> 'c tabs \<Rightarrow> ('c tabs \<times> bool) option" where
  "tabs_OnMouseClick G ops x y isDouble m =
     (if rect_w (tb_drawRect m) < 1 \<or> rect_h (tb_drawRect m) < 1 then Some (m, False)
      else if y = rect_y (tb_drawRect m) then
        Some (if TabAtX G x m \<ge> 0 then (tabs_Select (TabAtX G x m) m, True) else (m, False))
      else on_active (\<lambda>c. case (if isDouble then to_DoubleClick ops c else None) of
             Some f \<Rightarrow> Some (f x y) | None \<Rightarrow> map_option (\<lambda>f. f x y) (to_Click ops c)) m)"

definition setHoverTab :: "int \<Rightarrow> 'c tabs \<Rightarrow> 'c tabs \<times> bool" where
  "setHoverTab idx m = (if tb_hover m = idx then (m, False) else (m\<lparr>tb_hover := idx\<rparr>, True))"

definition clear_one :: "'c tab_ops \<Rightarrow> 'c \<Rightarrow> 'c \<times> bool" where
  "clear_one ops c = (if to_Hover ops c = None then (c, False) else to_ClearHover ops c)"

definition clearContentHover :: "'c tab_ops \<Rightarrow> 'c tabs \<Rightarrow> 'c tabs \<times> bool" where
  "clearContentHover ops m =
     (map_components (\<lambda>c. fst (clear_one ops c)) m, list_ex (\<lambda>t. snd (clear_one ops (t_Component t))) (tb_tabs m))"

definition tabs_OnMouseHover :: "tab_geometry \<Rightarrow> 'c tab_ops \<Rightarrow> int \<Rightarrow> int \<Rightarrow> 'c tabs \<Rightarrow> ('c tabs \<times> bool) option" where
  "tabs_OnMouseHover G ops x y m =
     (if rect_w (tb_drawRect m) < 1 \<or> rect_h (tb_drawRect m) < 1 then Some (m, False)
      else if y = rect_y (tb_drawRect m) then
        (let c = clearContentHover ops m; h = setHoverTab (TabAtX G x (fst c)) (fst c) in Some (fst h, snd c \<or> snd h))
      else
        let h = setHoverTab (-1) m
        in map_option (\<lambda>r. (fst r, snd h \<or> snd r)) (on_active (\<lambda>c. map_option (\<lambda>f. f x y) (to_Hover ops c)) (fst h)))"

definition tabs_ClearMouseHover :: "'c tab_ops \<Rightarrow> 'c tabs \<Rightarrow> 'c tabs \<times> bool" where
  "tabs_ClearMouseHover ops m =
     (let h = setHoverTab (-1) m; c = clearContentHover ops (fst h) in (fst c, snd h \<or> snd c))"

definition tabs_HandleKey :: "'c tab_ops \<Rightarrow> key_event \<Rightarrow> 'c tabs \<Rightarrow> ('c tabs \<times> bool) option" where
  "tabs_HandleKey ops ev m = on_active (\<lambda>c. map_option (\<lambda>f. f ev) (to_Key ops c)) m"

section \<open>The bar\<close>

lemma spans_sorted:
  "(s, e) \<in> set (spans_from G col ts) \<Longrightarrow> col \<le> s \<and> s \<le> e"
  by (induction ts arbitrary: col) (fastforce simp: chunk_width_def)+

lemma find_span_nth:
  "i < length ts \<Longrightarrow> fst (spans_from G col ts ! i) \<le> x \<Longrightarrow> x < snd (spans_from G col ts ! i) \<Longrightarrow>
     find_span x k (spans_from G col ts) = k + int i"
proof (induction ts arbitrary: col i k)
  case (Cons t ts)
  let ?c = "col + chunk_width G t + int (tg_width G TabSeparator)"
  show ?case
  proof (cases i)
    case (Suc j)
    have "length (spans_from G c ts) = length ts" for c by (induction ts arbitrary: c) auto
    then have "spans_from G ?c ts ! j \<in> set (spans_from G ?c ts)" using Cons.prems(1) Suc by simp
    then have "?c \<le> x" using spans_sorted [of "fst (spans_from G ?c ts ! j)" "snd (spans_from G ?c ts ! j)"] Cons.prems(2) Suc by fastforce
    then show ?thesis using Cons.IH [of j ?c "k + 1"] Cons.prems Suc by (simp add: chunk_width_def)
  qed (use Cons.prems in simp)
qed simp

text \<open>A click on a tab as it is drawn selects it, and the active tab is one of the tabs after any input.\<close>

lemma click_selects_the_drawn_tab:
  assumes "i < length (tb_tabs m)" "1 \<le> rect_w (tb_drawRect m)" "1 \<le> rect_h (tb_drawRect m)"
    and "(s, e) = tabSpans G (rect_x (tb_drawRect m)) (rect_w (tb_drawRect m)) m ! i" "s \<le> x" "x < e"
  shows "\<exists>m'. tabs_OnMouseClick G ops x (rect_y (tb_drawRect m)) dbl m = Some (m', True) \<and> tb_active m' = i"
proof -
  have "TabAtX G x m = int i"
    using find_span_nth [of i "tb_tabs m" G _ x 0] assms(1,4-6) by (simp add: TabAtX_def tabSpans_def prod_eq_iff)
  then show ?thesis using assms(1-3) by (auto simp: tabs_OnMouseClick_def tabs_Select_def Let_def clamp_def)
qed

definition tabs_inv :: "'c tabs \<Rightarrow> bool" where
  "tabs_inv m \<longleftrightarrow> tb_active m < length (tb_tabs m) \<and> tb_prevActive m < length (tb_tabs m)"

lemma Select_inv: "tabs_inv m \<Longrightarrow> tabs_inv (tabs_Select i m)"
  by (auto simp: tabs_inv_def tabs_Select_def Let_def clamp_def)

datatype tab_input = TSelect int | TPrev | TNext | TBack | TClick int int bool | THover int int | TClear | TKey key_event | TRect rect

fun tab_step :: "tab_geometry \<Rightarrow> 'c tab_ops \<Rightarrow> tab_input \<Rightarrow> 'c tabs option \<Rightarrow> 'c tabs option" where
  "tab_step G ops ev None = None"
| "tab_step G ops (TSelect i) (Some m) = Some (tabs_Select i m)"
| "tab_step G ops TPrev (Some m) = Some (SelectPrev m)"
| "tab_step G ops TNext (Some m) = Some (SelectNext m)"
| "tab_step G ops TBack (Some m) = Some (SelectPrevActive m)"
| "tab_step G ops (TClick x y d) (Some m) = map_option fst (tabs_OnMouseClick G ops x y d m)"
| "tab_step G ops (THover x y) (Some m) = map_option fst (tabs_OnMouseHover G ops x y m)"
| "tab_step G ops TClear (Some m) = Some (fst (tabs_ClearMouseHover ops m))"
| "tab_step G ops (TKey ev) (Some m) = map_option fst (tabs_HandleKey ops ev m)"
| "tab_step G ops (TRect r) (Some m) = Some (tabs_SetRect ops r m)"

definition tabs_ok :: "'c tabs option \<Rightarrow> bool" where "tabs_ok r \<longleftrightarrow> (\<exists>m. r = Some m \<and> tabs_inv m)"

lemma tabs_inv_frames [simp]:
  "tabs_inv (map_components f m) = tabs_inv m" "tabs_inv (m\<lparr>tb_drawRect := r\<rparr>) = tabs_inv m" "tabs_inv (m\<lparr>tb_hover := h\<rparr>) = tabs_inv m"
  by (simp_all add: tabs_inv_def map_components_def)

lemma on_active_ok: "tabs_inv m \<Longrightarrow> \<exists>m' b. on_active f m = Some (m', b) \<and> tabs_inv m'"
  by (auto simp: on_active_def GetActiveTab_def tabs_inv_def split: option.split)

lemma hover_inv [simp]:
  "tabs_inv m \<Longrightarrow> tabs_inv (fst (setHoverTab i m))" "tabs_inv m \<Longrightarrow> tabs_inv (fst (clearContentHover ops m))"
  by (simp_all add: setHoverTab_def clearContentHover_def)

lemma tab_step_ok: "tabs_ok r \<Longrightarrow> tabs_ok (tab_step G ops ev r)"
proof -
  assume "tabs_ok r"
  then obtain m where r: "r = Some m" and m: "tabs_inv m" by (auto simp: tabs_ok_def)
  have a: "tabs_ok (map_option fst (on_active f m'))" "tabs_ok (map_option (fst \<circ> g) (on_active f m'))"
    if "tabs_inv m'" "\<And>p. fst (g p) = fst p" for f m' and g :: "'a tabs \<times> bool \<Rightarrow> 'a tabs \<times> bool"
    using on_active_ok [OF that(1), of f] that(2) by (auto simp: tabs_ok_def)
  have h: "tabs_ok (map_option fst (tabs_OnMouseHover G ops x y m))" for x y
    using m a(2) [OF hover_inv(1) [OF m]]
    by (auto simp: tabs_OnMouseHover_def Let_def tabs_ok_def option.map_comp comp_def)
  show ?thesis
    using m Select_inv a(1) [OF m, of id] h
    by (cases ev) (auto simp: r tabs_ok_def SelectPrev_def SelectNext_def SelectPrevActive_def tabs_OnMouseClick_def tabs_HandleKey_def
        tabs_SetRect_def tabs_ClearMouseHover_def Let_def)
qed

interpretation tabs: event_machine tabs_ok "tab_step G ops" for G ops
  by unfold_locales (rule tab_step_ok)

lemma tabs_run: "ts \<noteq> [] \<Longrightarrow> tabs_ok (fold (tab_step G ops) evs (Some (tabs_New ts)))"
  by (rule tabs.run_inv) (simp add: tabs_ok_def tabs_inv_def tabs_New_def)

end
