(* ===== verification/Snapio.thy ===== *)
theory Snapio
  imports Container_Writer
begin

text \<open>
  What a snapshot file holds, \<^verbatim>\<open>internal/snapshot/io.go\<close>: one frame of compressed logs per instance and
  a state frame, written to and read from a container. The JSON library, gzip, the UUID generator and the parser of
  CRNs are fields of the record \<open>snapio\<close>; strings are their bytes.
\<close>

section \<open>Data\<close>

record inst_snap =
  is_crn :: bytes
  is_state :: int
  is_logCount :: int
  is_logsSize :: "64 word"
  is_startTime :: int
  is_lastUpdate :: int
  is_message :: bytes

record snap =
  sn_id :: bytes
  sn_query :: bytes
  sn_search :: bytes
  sn_jq :: bytes
  sn_filters :: "(nat \<times> bytes) list"
  sn_instances :: "inst_snap list"

text \<open>\<open>si_next\<close> decodes the next element of a JSON array: the element and the rest, or an error.\<close>

record 'l snapio =
  si_marshal_data :: "'l \<Rightarrow> bytes option"
  si_marshal_logs :: "'l list \<Rightarrow> bytes option"
  si_unmarshal_logs :: "bytes \<Rightarrow> 'l list option"
  si_open_array :: "bytes \<Rightarrow> bytes option"
  si_next :: "bytes \<Rightarrow> ('l \<times> bytes) option option"
  si_marshal_state :: "snap \<Rightarrow> bytes option"
  si_unmarshal_state :: "bytes \<Rightarrow> snap option"
  si_gzip :: "bytes \<Rightarrow> bytes option"
  si_gunzip :: "bytes \<Rightarrow> bytes option"
  si_uuid :: bytes
  si_crn_ok :: "bytes \<Rightarrow> bool"

datatype s_error =
    CopyFrame bytes c_error | ReadSrcFrame bytes c_error | EmptyFrame bytes s_error
  | MarshalLogs | SizeOverflow | CompressLogs | PrepareLogs bytes s_error | WriteLogFrame bytes c_error
  | ZeroLogsWithSize bytes | LogsWithoutSize bytes | MarshalState | CompressState | FrameError c_error
  | BadGzip | UnmarshalLogs bytes | ReadLogs bytes s_error | UnmarshalState | InstanceNotFound bytes | BadJSON
  | InvalidCRN bytes | DuplicateCRN bytes | TotalOverflow

definition bs :: "string \<Rightarrow> bytes" where
  "bs s = map (\<lambda>c. of_nat (of_char c)) s"

definition frameState :: bytes where "frameState = bs ''state''"
definition frameInstancePrefix :: bytes where "frameInstancePrefix = bs ''i_''"

section \<open>Validation\<close>

fun validateLogSizes :: "inst_snap list \<Rightarrow> s_error option" where
  "validateLogSizes [] = None"
| "validateLogSizes (i # is) =
     (if is_logCount i = 0 \<and> is_logsSize i \<noteq> 0 then Some (ZeroLogsWithSize (is_crn i))
      else if is_logCount i \<noteq> 0 \<and> is_logsSize i = 0 then Some (LogsWithoutSize (is_crn i))
      else validateLogSizes is)"

fun validate_crns :: "(bytes \<Rightarrow> bool) \<Rightarrow> bytes set \<Rightarrow> inst_snap list \<Rightarrow> s_error option" where
  "validate_crns ok seen [] = None"
| "validate_crns ok seen (i # is) =
     (if \<not> ok (is_crn i) then Some (InvalidCRN (is_crn i))
      else if is_crn i \<in> seen then Some (DuplicateCRN (is_crn i))
      else validate_crns ok (insert (is_crn i) seen) is)"

definition ValidateInstanceSnapshotCRNs :: "'l snapio \<Rightarrow> inst_snap list \<Rightarrow> s_error option" where
  "ValidateInstanceSnapshotCRNs J is = validate_crns (si_crn_ok J) {} is"

section \<open>Writing\<close>

definition gzipLogsJSON :: "'l snapio \<Rightarrow> 'l list \<Rightarrow> s_error + bytes" where
  "gzipLogsJSON J logs =
     (case si_marshal_logs J logs of
        None \<Rightarrow> Inl MarshalLogs
      | Some data \<Rightarrow> (case si_gzip J data of None \<Rightarrow> Inl CompressLogs | Some z \<Rightarrow> Inr z))"

text \<open>The size loop, on \<^verbatim>\<open>uint64\<close> with its overflow check.\<close>

fun logs_size :: "'l snapio \<Rightarrow> 64 word \<Rightarrow> 'l list \<Rightarrow> s_error + 64 word" where
  "logs_size J acc [] = Inr acc"
| "logs_size J acc (l # ls) =
     (case si_marshal_data J l of
        None \<Rightarrow> Inl MarshalLogs
      | Some data \<Rightarrow>
          let lineSize = of_nat (length data) + 1
          in if acc > not 0 - lineSize then Inl SizeOverflow else logs_size J (acc + lineSize) ls)"

definition PrepareInstanceFrame :: "'l snapio \<Rightarrow> 'l list \<Rightarrow> s_error + bytes \<times> 64 word" where
  "PrepareInstanceFrame J logs =
     (case logs_size J 0 logs of
        Inl e \<Rightarrow> Inl e
      | Inr bytes_n \<Rightarrow> (case gzipLogsJSON J logs of Inl e \<Rightarrow> Inl e | Inr z \<Rightarrow> Inr (z, bytes_n)))"

definition CompressInstanceLogs :: "'l snapio \<Rightarrow> 'l list \<Rightarrow> s_error + bytes \<times> 64 word" where
  "CompressInstanceLogs J logs = PrepareInstanceFrame J logs"

text \<open>The writer's state and the outcome of each write, by frame name (\<open>AppendFrame\<close>).\<close>

type_synonym wstate = "container \<times> bytes"
type_synonym outcomes = "bytes \<Rightarrow> nat option"

definition WriteCompressedInstanceFrame :: "outcomes \<Rightarrow> bytes \<Rightarrow> bytes \<Rightarrow> wstate \<Rightarrow> s_error option \<times> wstate" where
  "WriteCompressedInstanceFrame out inst compressed st =
     (let name = frameInstancePrefix @ inst; r = AppendFrame (out name) name compressed st
      in (map_option (WriteLogFrame inst) (fst r), snd r))"

definition SaveInstanceFrameWithSize ::
  "'l snapio \<Rightarrow> outcomes \<Rightarrow> bytes \<Rightarrow> 'l list \<Rightarrow> wstate \<Rightarrow> (s_error + 64 word) \<times> wstate" where
  "SaveInstanceFrameWithSize J out inst logs st =
     (case PrepareInstanceFrame J logs of
        Inl e \<Rightarrow> (Inl (PrepareLogs inst e), st)
      | Inr (compressed, bytes_n) \<Rightarrow>
          (let name = frameInstancePrefix @ inst; r = AppendFrame (out name) name compressed st
           in (case fst r of Some e \<Rightarrow> Inl (WriteLogFrame inst e) | None \<Rightarrow> Inr bytes_n, snd r)))"

definition SaveInstanceFrame :: "'l snapio \<Rightarrow> outcomes \<Rightarrow> bytes \<Rightarrow> 'l list \<Rightarrow> wstate \<Rightarrow> s_error option \<times> wstate" where
  "SaveInstanceFrame J out inst logs st =
     (let r = SaveInstanceFrameWithSize J out inst logs st
      in (case fst r of Inl e \<Rightarrow> Some e | Inr _ \<Rightarrow> None, snd r))"

definition SaveStateFrame :: "'l snapio \<Rightarrow> outcomes \<Rightarrow> snap \<Rightarrow> wstate \<Rightarrow> s_error option \<times> wstate" where
  "SaveStateFrame J out s st =
     (case validateLogSizes (sn_instances s) of
        Some e \<Rightarrow> (Some e, st)
      | None \<Rightarrow>
          let s1 = (if sn_id s = [] then s\<lparr>sn_id := si_uuid J\<rparr> else s)
          in case si_marshal_state J s1 of
               None \<Rightarrow> (Some MarshalState, st)
             | Some data \<Rightarrow>
                 (case si_gzip J data of
                    None \<Rightarrow> (Some CompressState, st)
                  | Some z \<Rightarrow> (let r = AppendFrame (out frameState) frameState z st in (map_option FrameError (fst r), snd r))))"

text \<open>The loop of \<^verbatim>\<open>CopyWithState\<close> over the declared instances; the source does not change.\<close>

fun copy_instances :: "'l snapio \<Rightarrow> outcomes \<Rightarrow> wstate option \<Rightarrow> inst_snap list \<Rightarrow> wstate \<Rightarrow> s_error option \<times> wstate" where
  "copy_instances J out src [] st = (None, st)"
| "copy_instances J out src (i # is) st =
     (let name = frameInstancePrefix @ is_crn i;
          empty_frame =
            (let r = SaveInstanceFrame J out (is_crn i) [] st
             in case fst r of
                  Some e \<Rightarrow> (Some (EmptyFrame (is_crn i) e), snd r)
                | None \<Rightarrow> copy_instances J out src is (snd r))
      in case src of
           None \<Rightarrow> empty_frame
         | Some (sc, sf) \<Rightarrow>
             (case ReadFrame sc sf name of
                Inr data \<Rightarrow>
                  (let r = AppendFrame (out name) name data st
                   in case fst r of
                        Some e \<Rightarrow> (Some (CopyFrame (is_crn i) e), snd r)
                      | None \<Rightarrow> copy_instances J out src is (snd r))
              | Inl e \<Rightarrow>
                  if e \<noteq> ErrFrameDoesNotExist then (Some (ReadSrcFrame (is_crn i) e), st) else empty_frame))"

definition CopyWithState :: "'l snapio \<Rightarrow> outcomes \<Rightarrow> wstate option \<Rightarrow> snap \<Rightarrow> wstate \<Rightarrow> s_error option \<times> wstate" where
  "CopyWithState J out src s st =
     (let r = copy_instances J out src (sn_instances s) st
      in case fst r of Some e \<Rightarrow> r | None \<Rightarrow> SaveStateFrame J out s (snd r))"

fun ensure_frames :: "'l snapio \<Rightarrow> outcomes \<Rightarrow> bytes set \<Rightarrow> inst_snap list \<Rightarrow> wstate \<Rightarrow> s_error option \<times> wstate" where
  "ensure_frames J out existing [] st = (None, st)"
| "ensure_frames J out existing (i # is) st =
     (let name = frameInstancePrefix @ is_crn i
      in if name \<in> existing then ensure_frames J out existing is st
         else let r = SaveInstanceFrame J out (is_crn i) [] st
              in case fst r of
                   Some e \<Rightarrow> (Some (EmptyFrame (is_crn i) e), snd r)
                 | None \<Rightarrow> ensure_frames J out (insert name existing) is (snd r))"

definition EnsureInstanceFrames :: "'l snapio \<Rightarrow> outcomes \<Rightarrow> inst_snap list \<Rightarrow> wstate \<Rightarrow> s_error option \<times> wstate" where
  "EnsureInstanceFrames J out is st = ensure_frames J out (set (GetFrameNames (fst st))) is st"

section \<open>Reading\<close>

definition gunzipRead :: "'l snapio \<Rightarrow> wstate \<Rightarrow> bytes \<Rightarrow> s_error + bytes" where
  "gunzipRead J st name =
     (case ReadFrame (fst st) (snd st) name of
        Inl e \<Rightarrow> Inl (FrameError e)
      | Inr raw \<Rightarrow> (case si_gunzip J raw of None \<Rightarrow> Inl BadGzip | Some d \<Rightarrow> Inr d))"

definition LoadInstanceLogs :: "'l snapio \<Rightarrow> wstate \<Rightarrow> bytes \<Rightarrow> s_error + 'l list" where
  "LoadInstanceLogs J st inst =
     (case gunzipRead J st (frameInstancePrefix @ inst) of
        Inl e \<Rightarrow> Inl (ReadLogs inst e)
      | Inr data \<Rightarrow> (case si_unmarshal_logs J data of None \<Rightarrow> Inl (UnmarshalLogs inst) | Some ls \<Rightarrow> Inr ls))"

definition LoadState :: "'l snapio \<Rightarrow> wstate \<Rightarrow> s_error + snap" where
  "LoadState J st =
     (case gunzipRead J st frameState of
        Inl e \<Rightarrow> Inl e
      | Inr data \<Rightarrow>
         (case si_unmarshal_state J data of
            None \<Rightarrow> Inl UnmarshalState
          | Some s \<Rightarrow> (case validateLogSizes (sn_instances s) of Some e \<Rightarrow> Inl e | None \<Rightarrow> Inr s)))"

definition InstanceCRNs :: "container \<Rightarrow> bytes list" where
  "InstanceCRNs c =
     map (drop (length frameInstancePrefix))
       (filter (\<lambda>n. take (length frameInstancePrefix) n = frameInstancePrefix) (GetFrameNames c))"

definition NonEmptyInstanceCRNs :: "'l snapio \<Rightarrow> wstate \<Rightarrow> s_error + bytes list" where
  "NonEmptyInstanceCRNs J st =
     (case LoadState J st of
        Inl e \<Rightarrow> Inl e
      | Inr s \<Rightarrow>
          let counts = fold (\<lambda>i m. m(is_crn i := is_logCount i)) (sn_instances s) (\<lambda>_. 0)
          in Inr (filter (\<lambda>n. counts n > 0) (InstanceCRNs (fst st))))"

text \<open>
  The decoding loop of \<^verbatim>\<open>StreamInstanceLogs\<close>: \<open>fuel\<close> bounds the elements (the length of the data is enough,
  an element takes at least a byte); the callback threads a state and may stop with an error.
\<close>

fun stream_logs :: "'l snapio \<Rightarrow> ('l \<Rightarrow> 'a \<Rightarrow> s_error + 'a) \<Rightarrow> nat \<Rightarrow> bytes \<Rightarrow> 'a \<Rightarrow> s_error + 'a" where
  "stream_logs J fn 0 data acc = Inl BadJSON"
| "stream_logs J fn (Suc fuel) data acc =
     (case si_next J data of
        None \<Rightarrow> Inl BadJSON
      | Some None \<Rightarrow> Inr acc
      | Some (Some (l, rest)) \<Rightarrow>
          (case fn l acc of Inl e \<Rightarrow> Inl e | Inr acc' \<Rightarrow> stream_logs J fn fuel rest acc'))"

definition StreamInstanceLogs :: "'l snapio \<Rightarrow> wstate \<Rightarrow> bytes \<Rightarrow> ('l \<Rightarrow> 'a \<Rightarrow> s_error + 'a) \<Rightarrow> 'a \<Rightarrow> s_error + 'a" where
  "StreamInstanceLogs J st inst fn acc =
     (case ReadFrame (fst st) (snd st) (frameInstancePrefix @ inst) of
        Inl e \<Rightarrow> if e = ErrFrameDoesNotExist then Inl (InstanceNotFound inst) else Inl (FrameError e)
      | Inr raw \<Rightarrow>
         (case si_gunzip J raw of
            None \<Rightarrow> Inl BadGzip
          | Some d \<Rightarrow>
             (case si_open_array J d of
                None \<Rightarrow> Inl BadJSON
              | Some elems \<Rightarrow> stream_logs J fn (length elems + 1) elems acc)))"

section \<open>Summaries\<close>

record summary =
  su_id :: bytes
  su_query :: bytes
  su_search :: bytes
  su_jq :: bytes
  su_instances :: "inst_snap list"
  su_totalLogs :: int
  su_totalSize :: "64 word"

fun sum_sizes :: "inst_snap list \<Rightarrow> int \<Rightarrow> 64 word \<Rightarrow> (int \<times> 64 word) option" where
  "sum_sizes [] n bytes_n = Some (n, bytes_n)"
| "sum_sizes (i # is) n bytes_n =
     (if bytes_n > not 0 - is_logsSize i then None
      else sum_sizes is (n + is_logCount i) (bytes_n + is_logsSize i))"

text \<open>\<^verbatim>\<open>Summarize\<close> of a file given by its contents.\<close>

definition Summarize :: "'l snapio \<Rightarrow> bytes \<Rightarrow> s_error + summary" where
  "Summarize J disk =
     (case OpenContainerReadOnly disk of
        Inl e \<Rightarrow> Inl (FrameError e)
      | Inr c \<Rightarrow>
         (case LoadState J (c, disk) of
            Inl e \<Rightarrow> Inl e
          | Inr s \<Rightarrow>
             (case sum_sizes (sn_instances s) 0 0 of
                None \<Rightarrow> Inl TotalOverflow
              | Some (n, bytes_n) \<Rightarrow>
                  Inr \<lparr>su_id = sn_id s, su_query = sn_query s, su_search = sn_search s, su_jq = sn_jq s,
                       su_instances = sn_instances s, su_totalLogs = n, su_totalSize = bytes_n\<rparr>)))"

end
