(* ===== verification/Snapfiles.thy ===== *)
theory Snapfiles
  imports Snapio "HOL-Library.List_Lexorder"
begin

text \<open>
  The managed snapshot directory, \<^verbatim>\<open>internal/snapshot\<close> (\<^verbatim>\<open>snapshot.go\<close>, \<^verbatim>\<open>rename.go\<close>, \<^verbatim>\<open>inuse.go\<close>,
  \<^verbatim>\<open>manage.go\<close>): file names, publishing a finished file under a fresh automatic name, which sessions hold
  a file, listing, resolving, retention and stale files. A directory is a list of named nodes; a path is its base name.
\<close>

section \<open>The directory\<close>

record fnode =
  fn_data :: bytes
  fn_mtime :: int
  fn_isDir :: bool

type_synonym dir = "(bytes \<times> fnode) list"

text \<open>\<^verbatim>\<open>os.ReadDir\<close> lists by name.\<close>

definition ReadDir :: "dir \<Rightarrow> (bytes \<times> fnode) list" where "ReadDir d = sort_key fst d"

definition remove_file :: "bytes \<Rightarrow> dir \<Rightarrow> dir" where "remove_file n d = filter (\<lambda>e. fst e \<noteq> n) d"

definition write_file :: "bytes \<Rightarrow> fnode \<Rightarrow> dir \<Rightarrow> dir" where "write_file n f d = remove_file n d @ [(n, f)]"

text \<open>
  What is read from outside: the time library's stamp of a time and its check that a text is such a stamp, process
  liveness, lower case, the newest-first order an unstable sort gives, and the operations that fail.
\<close>

record snap_entry =
  e_name :: bytes
  e_path :: bytes
  e_auto :: bool
  e_modTime :: int
  e_size :: nat

record snaplib =
  sl_format :: "int \<Rightarrow> bytes"
  sl_stamp_ok :: "bytes \<Rightarrow> bool"
  sl_alive :: "int \<Rightarrow> bool"
  sl_lower :: "bytes \<Rightarrow> bytes"
  sl_newest :: "snap_entry list \<Rightarrow> snap_entry list"
  sl_rm_fails :: "bytes \<Rightarrow> bool"
  sl_link_fails :: "bytes \<Rightarrow> bool"

section \<open>Strings\<close>

definition HasSuffix :: "bytes \<Rightarrow> bytes \<Rightarrow> bool" where
  "HasSuffix s suf \<longleftrightarrow> length suf \<le> length s \<and> drop (length s - length suf) s = suf"

definition HasPrefix :: "bytes \<Rightarrow> bytes \<Rightarrow> bool" where
  "HasPrefix s pre \<longleftrightarrow> take (length pre) s = pre"

definition CutSuffix :: "bytes \<Rightarrow> bytes \<Rightarrow> bytes option" where
  "CutSuffix s suf = (if HasSuffix s suf then Some (take (length s - length suf) s) else None)"

definition CutPrefix :: "bytes \<Rightarrow> bytes \<Rightarrow> bytes option" where
  "CutPrefix s pre = (if HasPrefix s pre then Some (drop (length pre) s) else None)"

definition TrimSuffix :: "bytes \<Rightarrow> bytes \<Rightarrow> bytes" where
  "TrimSuffix s suf = (case CutSuffix s suf of None \<Rightarrow> s | Some r \<Rightarrow> r)"

fun split_on :: "byte \<Rightarrow> bytes \<Rightarrow> bytes list" where
  "split_on sep [] = [[]]"
| "split_on sep (c # cs) =
     (if c = sep then [] # split_on sep cs
      else (case split_on sep cs of p # ps \<Rightarrow> (c # p) # ps | [] \<Rightarrow> [[c]]))"

text \<open>White space of ASCII at the ends.\<close>

definition is_ws :: "byte \<Rightarrow> bool" where "is_ws c \<longleftrightarrow> c \<in> {9, 10, 11, 12, 13, 32}"

definition TrimSpace :: "bytes \<Rightarrow> bytes" where
  "TrimSpace s = rev (dropWhile is_ws (rev (dropWhile is_ws s)))"

text \<open>Decimal numbers: \<^verbatim>\<open>strconv\<close>.\<close>

fun dec :: "nat \<Rightarrow> bytes" where
  "dec n = (if n < 10 then [of_nat (48 + n)] else dec (n div 10) @ [of_nat (48 + n mod 10)])"

declare dec.simps [simp del]

definition is_digit :: "byte \<Rightarrow> bool" where "is_digit c \<longleftrightarrow> 48 \<le> unat c \<and> unat c \<le> 57"

definition digits_val :: "bytes \<Rightarrow> nat option" where
  "digits_val s = (if s \<noteq> [] \<and> list_all is_digit s then Some (fold (\<lambda>c n. 10 * n + (unat c - 48)) s 0) else None)"

definition ParseUint :: "bytes \<Rightarrow> nat option" where
  "ParseUint s = (case digits_val s of Some n \<Rightarrow> if n < 2 ^ 64 then Some n else None | None \<Rightarrow> None)"

definition itoa :: "int \<Rightarrow> bytes" where
  "itoa n = (if n < 0 then 45 # dec (nat (- n)) else dec (nat n))"

definition Atoi :: "bytes \<Rightarrow> int option" where
  "Atoi s =
     (case s of
        c # cs \<Rightarrow>
          if c = 43 then (case digits_val cs of Some n \<Rightarrow> if n < 2 ^ 63 then Some (int n) else None | None \<Rightarrow> None)
          else if c = 45 then (case digits_val cs of Some n \<Rightarrow> if n \<le> 2 ^ 63 then Some (- int n) else None | None \<Rightarrow> None)
          else (case digits_val s of Some n \<Rightarrow> if n < 2 ^ 63 then Some (int n) else None | None \<Rightarrow> None)
      | [] \<Rightarrow> None)"

text \<open>\<^verbatim>\<open>strings.LastIndex\<close> of a byte: the text before and after the last one.\<close>

definition cut_last :: "byte \<Rightarrow> bytes \<Rightarrow> (bytes \<times> bytes) option" where
  "cut_last c s =
     (if c \<in> set s
      then let after = rev (takeWhile (\<lambda>x. x \<noteq> c) (rev s)) in Some (take (length s - length after - 1) s, after)
      else None)"

section \<open>Names\<close>

definition FileExt :: bytes where "FileExt = bs ''.lognav''"
definition WipSuffix :: bytes where "WipSuffix = FileExt @ bs ''.wip''"
definition autoPrefix :: bytes where "autoPrefix = bs ''auto-''"

definition autoSnapshotName :: "snaplib \<Rightarrow> int \<Rightarrow> nat \<Rightarrow> bytes" where
  "autoSnapshotName L now candidate =
     autoPrefix @ sl_format L now @ (if candidate > 1 then 45 # dec candidate else []) @ FileExt"

definition isAutoSnapshotName :: "snaplib \<Rightarrow> bytes \<Rightarrow> bool" where
  "isAutoSnapshotName L name =
     (case CutSuffix name FileExt of
        None \<Rightarrow> False
      | Some stem \<Rightarrow>
         (case CutPrefix stem autoPrefix of
            None \<Rightarrow> False
          | Some rest \<Rightarrow>
             (case split_on 45 rest of
                [a, b] \<Rightarrow> sl_stamp_ok L (a @ 45 # b)
              | [a, b, c] \<Rightarrow>
                  sl_stamp_ok L (a @ 45 # b) \<and>
                  (case ParseUint c of Some n \<Rightarrow> n \<ge> 2 \<and> dec n = c | None \<Rightarrow> False)
              | _ \<Rightarrow> False)))"

text \<open>The names \<^verbatim>\<open>CreateWip\<close> gives out: a dot, a random token, the PID.\<close>

definition wip_name :: "bytes \<Rightarrow> int \<Rightarrow> bytes" where
  "wip_name token pid = 46 # token @ 95 # itoa pid @ WipSuffix"

definition CreateWip :: "bytes \<Rightarrow> int \<Rightarrow> dir \<Rightarrow> (bytes \<times> dir) option" where
  "CreateWip token pid d =
     (if pid \<le> 0 then None
      else if wip_name token pid \<in> fst ` set d then None
      else Some (wip_name token pid, d @ [(wip_name token pid, \<lparr>fn_data = [], fn_mtime = 0, fn_isDir = False\<rparr>)]))"

definition pidFromStampedName :: "bytes \<Rightarrow> bytes \<Rightarrow> int option" where
  "pidFromStampedName name suf =
     (case CutSuffix name suf of
        None \<Rightarrow> None
      | Some base \<Rightarrow>
         (case cut_last 95 base of
            None \<Rightarrow> None
          | Some (attempt, after) \<Rightarrow>
              if after = [] then None
              else (case Atoi after of
                      Some pid \<Rightarrow> if pid \<le> 0 \<or> itoa pid \<noteq> after then None else Some pid
                    | None \<Rightarrow> None)))"

definition wipPID :: "bytes \<Rightarrow> int option" where
  "wipPID name =
     (if \<not> HasPrefix name [46] then None
      else (case CutSuffix name WipSuffix of
              None \<Rightarrow> None
            | Some base \<Rightarrow>
               (case cut_last 95 base of
                  None \<Rightarrow> None
                | Some (attempt, after) \<Rightarrow>
                    if length attempt \<le> 1 \<or> after = [] then None else pidFromStampedName name WipSuffix)))"

definition live_wip :: "snaplib \<Rightarrow> bytes \<Rightarrow> bool" where
  "live_wip L name = (case wipPID name of Some pid \<Rightarrow> sl_alive L pid | None \<Rightarrow> False)"

definition CleanStaleWip :: "snaplib \<Rightarrow> dir \<Rightarrow> dir" where
  "CleanStaleWip L d =
     fold (\<lambda>(name, f) d. if fn_isDir f \<or> \<not> HasSuffix name WipSuffix then d
                         else if live_wip L name then d
                         else if sl_rm_fails L name then d else remove_file name d) (ReadDir d) d"

section \<open>Publishing\<close>

datatype rename_result = Renamed dir | DestExists | RenameFailed | CleanupFailed dir

definition RenameNoClobber :: "snaplib \<Rightarrow> bytes \<Rightarrow> bytes \<Rightarrow> dir \<Rightarrow> rename_result" where
  "RenameNoClobber L src dst d =
     (case map_of d src of
        None \<Rightarrow> RenameFailed
      | Some f \<Rightarrow>
          if map_of d dst \<noteq> None then DestExists
          else if sl_link_fails L dst then RenameFailed
          else
            let d1 = d @ [(dst, f)]
            in if sl_rm_fails L src then CleanupFailed d1 else Renamed (remove_file src d1))"

datatype publish_error = BeforeFailed | PublishFailed | SuffixOverflow

text \<open>
  \<open>attempt\<close> is the \<^verbatim>\<open>beforeAttempt\<close> callback: it changes the directory (claims the candidate) or fails.
  The result has the published name and whether the source is still there.
\<close>

function publish_from ::
  "snaplib \<Rightarrow> (bytes \<Rightarrow> dir \<Rightarrow> dir option) \<Rightarrow> bytes \<Rightarrow> int \<Rightarrow> nat \<Rightarrow> dir \<Rightarrow> (publish_error + bytes \<times> bool) \<times> dir" where
  "publish_from L attempt wip startedAt candidate d =
     (let finalPath = autoSnapshotName L startedAt candidate
      in case attempt finalPath d of
           None \<Rightarrow> (Inl BeforeFailed, d)
         | Some d1 \<Rightarrow>
            (case RenameNoClobber L wip finalPath d1 of
               Renamed d2 \<Rightarrow> (Inr (finalPath, False), d2)
             | CleanupFailed d2 \<Rightarrow> (Inr (finalPath, True), d2)
             | RenameFailed \<Rightarrow> (Inl PublishFailed, d1)
             | DestExists \<Rightarrow>
                 if candidate \<ge> 2 ^ 64 - 1 then (Inl SuffixOverflow, d1)
                 else publish_from L attempt wip startedAt (candidate + 1) d1))"
  by pat_completeness auto
termination
  by (relation "measure (\<lambda>(L, b, w, s, c, d). 2 ^ 64 - c)") (auto simp: not_le diff_less_mono2)

declare publish_from.simps [simp del]

definition PublishAutoSnapshot ::
  "snaplib \<Rightarrow> bytes \<Rightarrow> int \<Rightarrow> (bytes \<Rightarrow> dir \<Rightarrow> dir option) \<Rightarrow> dir \<Rightarrow> (publish_error + bytes \<times> bool) \<times> dir" where
  "PublishAutoSnapshot L wip startedAt attempt d = publish_from L attempt wip startedAt 1 d"

section \<open>Who holds a file\<close>

definition inUseExt :: bytes where "inUseExt = bs ''.inuse''"
definition inUseTmpExt :: bytes where "inUseTmpExt = bs ''.inuse.tmp''"

definition ownInUsePath :: "int \<Rightarrow> bytes" where "ownInUsePath pid = itoa pid @ inUseExt"

definition SetOwnInUse :: "int \<Rightarrow> bytes \<Rightarrow> dir \<Rightarrow> dir" where
  "SetOwnInUse pid path d =
     (if path = [] then remove_file (ownInUsePath pid) d
      else write_file (ownInUsePath pid) \<lparr>fn_data = path @ [10], fn_mtime = 0, fn_isDir = False\<rparr> d)"

definition InitOwn :: "int \<Rightarrow> dir \<Rightarrow> dir" where "InitOwn pid d = SetOwnInUse pid [] d"

definition inUsePID :: "bytes \<Rightarrow> int option" where
  "inUsePID name =
     (case CutSuffix name inUseTmpExt of
        Some base \<Rightarrow> Atoi base
      | None \<Rightarrow> (case CutSuffix name inUseExt of Some base \<Rightarrow> Atoi base | None \<Rightarrow> None))"

definition CleanStaleInUse :: "snaplib \<Rightarrow> dir \<Rightarrow> dir" where
  "CleanStaleInUse L d =
     fold (\<lambda>(name, f) d. case inUsePID name of
         None \<Rightarrow> d
       | Some pid \<Rightarrow> if sl_alive L pid then d else if sl_rm_fails L name then d else remove_file name d) (ReadDir d) d"

type_synonym inuse_index = "bytes \<Rightarrow> int list"

definition add_lines :: "int \<Rightarrow> bytes \<Rightarrow> inuse_index \<Rightarrow> inuse_index" where
  "add_lines pid data ix =
     fold (\<lambda>l ix. let l = TrimSpace l in if l = [] \<or> pid \<in> set (ix l) then ix else ix(l := ix l @ [pid])) (split_on 10 data) ix"

definition HoldersIndex :: "snaplib \<Rightarrow> dir \<Rightarrow> inuse_index" where
  "HoldersIndex L d =
     fold (\<lambda>(name, f) ix.
       if \<not> HasSuffix name inUseExt \<or> HasSuffix name inUseTmpExt then ix
       else case inUsePID name of
         None \<Rightarrow> ix
       | Some pid \<Rightarrow>
           if \<not> sl_alive L pid then ix
           else if fn_isDir f then ix
           else add_lines pid (fn_data f) ix) (ReadDir d) (\<lambda>_. [])"

definition ix_InUse :: "inuse_index \<Rightarrow> bytes \<Rightarrow> bool" where "ix_InUse ix path \<longleftrightarrow> length (ix path) > 0"

definition ix_InUseByOther :: "int \<Rightarrow> inuse_index \<Rightarrow> bytes \<Rightarrow> bool" where
  "ix_InUseByOther self ix path = list_ex (\<lambda>pid. pid \<noteq> self) (ix path)"

definition InUse :: "snaplib \<Rightarrow> bytes \<Rightarrow> dir \<Rightarrow> bool" where "InUse L path d = ix_InUse (HoldersIndex L d) path"

definition InUseByOther :: "snaplib \<Rightarrow> int \<Rightarrow> bytes \<Rightarrow> dir \<Rightarrow> bool" where
  "InUseByOther L self path d = ix_InUseByOther self (HoldersIndex L d) path"

definition Held :: "snaplib \<Rightarrow> bytes list \<Rightarrow> dir \<Rightarrow> bytes set" where
  "Held L names d = set (filter (ix_InUse (HoldersIndex L d)) names)"

section \<open>Listing and retention\<close>

definition entry_of :: "snaplib \<Rightarrow> bytes \<times> fnode \<Rightarrow> snap_entry" where
  "entry_of L nf = (case nf of (name, f) \<Rightarrow>
     \<lparr>e_name = TrimSuffix name FileExt, e_path = name, e_auto = isAutoSnapshotName L name,
      e_modTime = fn_mtime f, e_size = length (fn_data f)\<rparr>)"

definition listed :: "bytes \<times> fnode \<Rightarrow> bool" where
  "listed nf = (case nf of (name, f) \<Rightarrow> \<not> (fn_isDir f \<or> HasSuffix name WipSuffix \<or> \<not> HasSuffix name FileExt))"

definition Scan :: "snaplib \<Rightarrow> dir \<Rightarrow> snap_entry list" where
  "Scan L d = sl_newest L (map (entry_of L) (filter listed (ReadDir d)))"

text \<open>The loop of \<^verbatim>\<open>RetainAutoSnapshots\<close>: the removed entries, the names whose removal failed, the directory.\<close>

fun retain_loop ::
  "snaplib \<Rightarrow> 8 word \<Rightarrow> inuse_index \<Rightarrow> 8 word \<Rightarrow> snap_entry list \<Rightarrow> dir \<Rightarrow> snap_entry list \<times> bytes list \<times> dir" where
  "retain_loop L limit ix kept [] d = ([], [], d)"
| "retain_loop L limit ix kept (e # es) d =
     (if \<not> isAutoSnapshotName L (e_path e) then retain_loop L limit ix kept es d
      else if kept < limit then retain_loop L limit ix (kept + 1) es d
      else if ix_InUse ix (e_path e) then retain_loop L limit ix kept es d
      else if sl_rm_fails L (e_path e) then
        let r = retain_loop L limit ix kept es d in (fst r, e_path e # fst (snd r), snd (snd r))
      else let r = retain_loop L limit ix kept es (remove_file (e_path e) d) in (e # fst r, snd r))"

definition RetainAutoSnapshots :: "snaplib \<Rightarrow> 8 word \<Rightarrow> dir \<Rightarrow> snap_entry list \<times> bytes list \<times> dir" where
  "RetainAutoSnapshots L limit d = retain_loop L limit (HoldersIndex L d) 0 (Scan L d) d"

definition StaleFiles :: "snaplib \<Rightarrow> dir \<Rightarrow> bytes list" where
  "StaleFiles L d =
     map fst (filter (\<lambda>(name, f). \<not> (fn_isDir f \<or> \<not> HasSuffix name WipSuffix) \<and> \<not> live_wip L name \<and> \<not> InUse L name d) (ReadDir d))"

section \<open>Resolving names and identifiers\<close>

datatype resolve_error = NotFound | Ambiguous bytes "(snap_entry \<times> bytes) list"

definition Resolve :: "snaplib \<Rightarrow> bytes \<Rightarrow> dir \<Rightarrow> resolve_error + snap_entry" where
  "Resolve L name d =
     (let entries = Scan L d
      in if name = bs ''latest'' then (case entries of [] \<Rightarrow> Inl NotFound | e # _ \<Rightarrow> Inr e)
         else (case find (\<lambda>e. e_name e = TrimSuffix name FileExt) entries of Some e \<Rightarrow> Inr e | None \<Rightarrow> Inl NotFound))"

text \<open>The identifier of a listed file, when its state can be read.\<close>

definition file_id :: "'l snapio \<Rightarrow> dir \<Rightarrow> bytes \<Rightarrow> bytes option" where
  "file_id J d name =
     (case map_of d name of
        None \<Rightarrow> None
      | Some f \<Rightarrow> (case Summarize J (fn_data f) of Inl _ \<Rightarrow> None | Inr s \<Rightarrow> Some (su_id s)))"

definition FindByID :: "'l snapio \<Rightarrow> snaplib \<Rightarrow> bytes \<Rightarrow> dir \<Rightarrow> resolve_error + snap_entry" where
  "FindByID J L i d =
     (if i = [] then Inl NotFound
      else (case find (\<lambda>e. file_id J d (e_path e) = Some i) (Scan L d) of Some e \<Rightarrow> Inr e | None \<Rightarrow> Inl NotFound))"

definition MinIDPrefixLen :: nat where "MinIDPrefixLen = 4"

definition id_matches :: "'l snapio \<Rightarrow> snaplib \<Rightarrow> bytes \<Rightarrow> dir \<Rightarrow> (snap_entry \<times> bytes) list" where
  "id_matches J L lp d =
     concat (map (\<lambda>e. case file_id J d (e_path e) of
         None \<Rightarrow> []
       | Some i \<Rightarrow> if i = [] then [] else if HasPrefix (sl_lower L i) lp then [(e, i)] else []) (Scan L d))"

definition ResolveByID :: "'l snapio \<Rightarrow> snaplib \<Rightarrow> bytes \<Rightarrow> dir \<Rightarrow> resolve_error + snap_entry" where
  "ResolveByID J L pre d =
     (if length pre < MinIDPrefixLen then Inl NotFound
      else (case id_matches J L (sl_lower L pre) d of
              [] \<Rightarrow> Inl NotFound
            | [m] \<Rightarrow> Inr (fst m)
            | ms \<Rightarrow> Inl (Ambiguous pre ms)))"

definition ResolveNameOrID :: "'l snapio \<Rightarrow> snaplib \<Rightarrow> bytes \<Rightarrow> dir \<Rightarrow> resolve_error + snap_entry" where
  "ResolveNameOrID J L arg d =
     (case Resolve L arg d of
        Inr e \<Rightarrow> Inr e
      | Inl err \<Rightarrow>
          if err \<noteq> NotFound then Inl err
          else if length arg < MinIDPrefixLen then Inl err
          else (case ResolveByID J L arg d of
                  Inr e \<Rightarrow> Inr e
                | Inl (Ambiguous p ms) \<Rightarrow> Inl (Ambiguous p ms)
                | Inl NotFound \<Rightarrow> Inl NotFound))"

end
