(* ===== verification/Snapfiles_Correct.thy ===== *)
theory Snapfiles_Correct
  imports Snapfiles "HOL-Library.Multiset"
begin

text \<open>
  The snapshot directory: publishing never overwrites and always finds a name, retention removes only old unheld
  automatic snapshots, cleaning never touches the working file of a live session, and a name that escapes the hold.
\<close>

section \<open>Decimal numbers\<close>

lemma dec_digits: "list_all is_digit (dec n) \<and> dec n \<noteq> []"
proof (induction n rule: dec.induct)
  case (1 n)
  have d: "is_digit (of_nat (48 + k))" if "k < 10" for k
    using that by (simp add: is_digit_def unat_of_nat del: of_nat_add)
  show ?case using 1 d by (subst (1 2) dec.simps) (auto simp del: of_nat_add)
qed

lemma digit_unat: "k < 10 \<Longrightarrow> unat (of_nat (48 + k) :: byte) = 48 + k"
  by (simp add: unat_of_nat del: of_nat_add)

lemma dec_value: "fold (\<lambda>c n. 10 * n + (unat c - 48)) (dec n) 0 = n"
proof (induction n rule: dec.induct)
  case (1 n)
  show ?case
  proof (cases "n < 10")
    case True
    then show ?thesis by (subst dec.simps) (simp add: digit_unat del: of_nat_add)
  next
    case False
    then show ?thesis using 1 by (subst dec.simps) (simp add: digit_unat del: of_nat_add)
  qed
qed

lemma digits_val_dec [simp]: "digits_val (dec n) = Some n"
  using dec_digits [of n] by (simp add: digits_val_def dec_value)

lemma dec_inj: "dec m = dec n \<longleftrightarrow> m = n"
  by (metis digits_val_dec option.inject)

lemma dec_no: "\<not> is_digit c \<Longrightarrow> c \<notin> set (dec n)"
  using dec_digits [of n] by (auto simp: list_all_iff)

lemma no_digits [simp]: "\<not> is_digit 43" "\<not> is_digit 45" "\<not> is_digit 95"
  by (simp_all add: is_digit_def)

lemma Atoi_dec: "n < 2 ^ 63 \<Longrightarrow> Atoi (dec n) = Some (int n)"
  using dec_no [of 43 n] dec_no [of 45 n] dec_digits [of n] digits_val_dec [of n]
  by (cases "dec n") (auto simp: Atoi_def)

section \<open>Names\<close>

lemma HasSuffix_app [simp]: "HasSuffix (s @ t) t" by (simp add: HasSuffix_def)
lemma CutSuffix_app [simp]: "CutSuffix (s @ t) t = Some s" by (simp add: CutSuffix_def)
lemma CutPrefix_app [simp]: "CutPrefix (s @ t) s = Some t" by (simp add: CutPrefix_def HasPrefix_def)

lemma split_on_single: "c \<notin> set a \<Longrightarrow> split_on c a = [a]"
  by (induction a) auto

lemma split_on_app: "c \<notin> set a \<Longrightarrow> split_on c (a @ c # r) = a # split_on c r"
  by (induction a) auto

text \<open>What the time library promises of a stamp: a date and a time, joined by a dash, and recognised again.\<close>

definition stamp_ok :: "snaplib \<Rightarrow> bool" where
  "stamp_ok L \<longleftrightarrow> (\<forall>t. sl_stamp_ok L (sl_format L t) \<and> (\<exists>a b. sl_format L t = a @ 45 # b \<and> 45 \<notin> set a \<and> 45 \<notin> set b))"

lemma isAuto_autoSnapshotName:
  assumes "stamp_ok L" "1 \<le> c" "c < 2 ^ 64"
  shows "isAutoSnapshotName L (autoSnapshotName L t c)"
proof -
  obtain a b where t: "sl_format L t = a @ 45 # b" "45 \<notin> set a" "45 \<notin> set b" "sl_stamp_ok L (a @ 45 # b)"
    using assms(1) unfolding stamp_ok_def by metis
  have cut: "CutSuffix (autoSnapshotName L t c) FileExt = Some (autoPrefix @ sl_format L t @ (if c > 1 then 45 # dec c else []))"
    unfolding autoSnapshotName_def using CutSuffix_app [of "autoPrefix @ sl_format L t @ (if c > 1 then 45 # dec c else [])" FileExt] by simp
  show ?thesis
  proof (cases "c > 1")
    case True
    have "split_on 45 (a @ 45 # b @ 45 # dec c) = [a, b, dec c]"
      using t dec_no [of 45 c] by (simp add: split_on_app split_on_single)
    moreover have "ParseUint (dec c) = Some c" using assms(3) by (simp add: ParseUint_def)
    ultimately show ?thesis using True t cut by (simp add: isAutoSnapshotName_def)
  next
    case False
    have "split_on 45 (a @ 45 # b) = [a, b]" using t by (simp add: split_on_app split_on_single)
    then show ?thesis using False t cut by (simp add: isAutoSnapshotName_def)
  qed
qed

lemma autoSnapshotName_inj:
  assumes "autoSnapshotName L t c = autoSnapshotName L t c'" "1 \<le> c" "1 \<le> c'"
  shows "c = c'"
  using assms by (auto simp: autoSnapshotName_def dec_inj split: if_splits)

section \<open>Publishing\<close>

lemma map_of_remove: "map_of (remove_file n d) = (map_of d)(n := None)"
  by (induction d) (auto simp: remove_file_def)

lemma map_of_snoc: "map_of d n = None \<Longrightarrow> map_of (d @ [(n, f)]) = (map_of d)(n \<mapsto> f)"
  by (auto simp: fun_eq_iff map_add_def split: option.splits)

text \<open>A callback that touches no file but its own marker.\<close>

definition touches_only :: "bytes \<Rightarrow> (bytes \<Rightarrow> dir \<Rightarrow> dir option) \<Rightarrow> bool" where
  "touches_only own attempt \<longleftrightarrow> (\<forall>c d d'. attempt c d = Some d' \<longrightarrow> (\<forall>n. n \<noteq> own \<longrightarrow> map_of d' n = map_of d n))"

lemma rename_frame:
  "RenameNoClobber L src dst d = Renamed d' \<Longrightarrow>
     src \<noteq> dst \<and> map_of d dst = None \<and> map_of d src \<noteq> None \<and> map_of d' = (map_of d)(dst := map_of d src, src := None)"
  "RenameNoClobber L src dst d = CleanupFailed d' \<Longrightarrow>
     src \<noteq> dst \<and> map_of d dst = None \<and> map_of d src \<noteq> None \<and> map_of d' = (map_of d)(dst := map_of d src)"
  by (auto simp: RenameNoClobber_def Let_def map_of_snoc map_of_remove fun_eq_iff map_add_def split: option.splits if_splits)

text \<open>What a publication from a directory \<open>d\<close> promises.\<close>

definition published :: "snaplib \<Rightarrow> bytes \<Rightarrow> bytes \<Rightarrow> dir \<Rightarrow> (publish_error + bytes \<times> bool) \<times> dir \<Rightarrow> bool" where
  "published L own wip d res = (case res of
      (Inl _, d') \<Rightarrow> \<forall>n. n \<noteq> own \<longrightarrow> map_of d' n = map_of d n
    | (Inr (final, left), d') \<Rightarrow> isAutoSnapshotName L final \<and> final \<noteq> wip \<and> map_of d final = None \<and>
        map_of d wip \<noteq> None \<and> map_of d' final = map_of d wip \<and> map_of d' wip = (if left then map_of d wip else None) \<and>
        (\<forall>n. n \<noteq> own \<and> n \<noteq> wip \<and> n \<noteq> final \<longrightarrow> map_of d' n = map_of d n))"

lemma published_later:
  assumes "published L own wip d1 res" "\<And>n. n \<noteq> own \<Longrightarrow> map_of d1 n = map_of d n" "own \<noteq> wip" "\<not> HasSuffix own FileExt"
  shows "published L own wip d res"
proof -
  have "final \<noteq> own" if "isAutoSnapshotName L final" for final
    using that assms(4) by (auto simp: isAutoSnapshotName_def CutSuffix_def split: if_splits)
  then show ?thesis using assms(1-3) unfolding published_def by (auto split: prod.splits sum.splits)
qed

lemma publish_from_published:
  assumes "stamp_ok L" "touches_only own attempt" "own \<noteq> wip" "\<not> HasSuffix own FileExt"
  shows "1 \<le> c \<Longrightarrow> c < 2 ^ 64 \<Longrightarrow> published L own wip d (publish_from L attempt wip t c d)"
proof (induction "2 ^ 64 - c" arbitrary: c d rule: less_induct)
  case less
  let ?f = "autoSnapshotName L t c"
  have auto: "isAutoSnapshotName L ?f" using isAuto_autoSnapshotName [OF assms(1)] less.prems by simp
  have "HasSuffix ?f FileExt" using HasSuffix_app [of "autoPrefix @ sl_format L t @ (if c > 1 then 45 # dec c else [])" FileExt]
    by (simp add: autoSnapshotName_def)
  then have own: "?f \<noteq> own" using assms(4) by blast
  show ?case
  proof (cases "attempt ?f d")
    case None
    then show ?thesis by (subst publish_from.simps) (simp add: Let_def published_def)
  next
    case (Some d1)
    then have d1: "\<And>n. n \<noteq> own \<Longrightarrow> map_of d1 n = map_of d n" using assms(2) by (simp add: touches_only_def)
    show ?thesis
    proof (cases "RenameNoClobber L wip ?f d1")
      case (Renamed d2)
      then show ?thesis using rename_frame(1) [OF Renamed] Some auto own assms(3) d1
        by (subst publish_from.simps) (auto simp: Let_def published_def)
    next
      case (CleanupFailed d2)
      then show ?thesis using rename_frame(2) [OF CleanupFailed] Some auto own assms(3) d1
        by (subst publish_from.simps) (auto simp: Let_def published_def)
    next
      case RenameFailed
      then show ?thesis using Some d1 by (subst publish_from.simps) (simp add: Let_def published_def)
    next
      case DestExists
      have "published L own wip d1 (publish_from L attempt wip t (c + 1) d1)" if "\<not> c \<ge> 2 ^ 64 - 1"
        by (rule less.hyps) (use that less.prems in auto)
      then show ?thesis
        using Some DestExists d1 published_later [OF _ d1 assms(3,4)]
        by (cases "c \<ge> 2 ^ 64 - 1"; subst publish_from.simps) (simp_all add: Let_def published_def)
    qed
  qed
qed

text \<open>
  C21: publishing never overwrites or loses a file: whatever its outcome, every other file is unchanged; on success the
  published name is an automatic snapshot name that was free, holds what the working file held, and the working file is
  gone unless its removal failed.
\<close>

theorem publish_never_overwrites:
  assumes "stamp_ok L" "touches_only own attempt" "own \<noteq> wip" "\<not> HasSuffix own FileExt"
  shows "case PublishAutoSnapshot L wip t attempt d of
      (Inl _, d') \<Rightarrow> \<forall>n. n \<noteq> own \<longrightarrow> map_of d' n = map_of d n
    | (Inr (final, left), d') \<Rightarrow> isAutoSnapshotName L final \<and> final \<noteq> wip \<and> map_of d final = None \<and>
        map_of d wip \<noteq> None \<and> map_of d' final = map_of d wip \<and> map_of d' wip = (if left then map_of d wip else None) \<and>
        (\<forall>n. n \<noteq> own \<and> n \<noteq> wip \<and> n \<noteq> final \<longrightarrow> map_of d' n = map_of d n)"
  using publish_from_published [OF assms, of 1 d t] unfolding PublishAutoSnapshot_def published_def by simp

theorem publish_never_overwrites_witness:
  "map_of (snd (PublishAutoSnapshot (\<lparr>sl_format = \<lambda>_. bs ''20240101-000000'', sl_stamp_ok = \<lambda>s. s = bs ''20240101-000000'',
       sl_alive = \<lambda>_. False, sl_lower = id, sl_newest = id, sl_rm_fails = \<lambda>_. False, sl_link_fails = \<lambda>_. False\<rparr>)
     [1] 0 (\<lambda>c d. Some (SetOwnInUse 5 c d))
     [([1], \<lparr>fn_data = [1], fn_mtime = 0, fn_isDir = False\<rparr>), (bs ''auto-20240101-000000.lognav'', \<lparr>fn_data = [2], fn_mtime = 0, fn_isDir = False\<rparr>)]))
     (bs ''auto-20240101-000000.lognav'') = Some \<lparr>fn_data = [2], fn_mtime = 0, fn_isDir = False\<rparr>"
proof -
  let ?L = "\<lparr>sl_format = \<lambda>_. bs ''20240101-000000'', sl_stamp_ok = \<lambda>s. s = bs ''20240101-000000'',
       sl_alive = \<lambda>_. False, sl_lower = id, sl_newest = id, sl_rm_fails = \<lambda>_. False, sl_link_fails = \<lambda>_. False\<rparr>"
  let ?d = "[([1], \<lparr>fn_data = [1], fn_mtime = 0, fn_isDir = False\<rparr>), (bs ''auto-20240101-000000.lognav'', \<lparr>fn_data = [2], fn_mtime = 0, fn_isDir = False\<rparr>)] :: dir"
  let ?b = "\<lambda>c d. Some (SetOwnInUse 5 c d)"
  have "bs ''20240101-000000'' = bs ''20240101'' @ 45 # bs ''000000''" "45 \<notin> set (bs ''20240101'')" "45 \<notin> set (bs ''000000'')"
    by (simp_all add: bs_def)
  then have st: "stamp_ok ?L" unfolding stamp_ok_def by auto
  have tou: "touches_only (ownInUsePath 5) ?b"
    by (auto simp: touches_only_def SetOwnInUse_def map_of_remove write_file_def map_add_def split: option.splits)
  have own: "ownInUsePath 5 \<noteq> [1]" "\<not> HasSuffix (ownInUsePath 5) FileExt"
    "ownInUsePath 5 \<noteq> bs ''auto-20240101-000000.lognav''"
    by (simp_all add: ownInUsePath_def itoa_def dec.simps inUseExt_def bs_def HasSuffix_def FileExt_def)
  have "map_of ?d (bs ''auto-20240101-000000.lognav'') = Some \<lparr>fn_data = [2], fn_mtime = 0, fn_isDir = False\<rparr>"
    by (simp add: bs_def)
  then show ?thesis
    using publish_never_overwrites [OF st tou own(1,2), where t = 0 and d = ?d] own(3)
    by (auto simp: bs_def split: prod.splits sum.splits if_splits)
qed

lemma overflow_all_taken:
  assumes "touches_only own attempt" "\<And>k. autoSnapshotName L t k \<noteq> own"
  shows "fst (publish_from L attempt wip t c d) = Inl SuffixOverflow \<Longrightarrow> c \<le> k \<Longrightarrow> k < 2 ^ 64 \<Longrightarrow> map_of d (autoSnapshotName L t k) \<noteq> None"
proof (induction "2 ^ 64 - c" arbitrary: c d rule: less_induct)
  case less
  let ?f = "autoSnapshotName L t c"
  obtain d1 where d1: "attempt ?f d = Some d1"
    using less.prems(1) by (subst (asm) publish_from.simps) (auto simp: Let_def split: option.splits)
  have same: "map_of d1 (autoSnapshotName L t j) = map_of d (autoSnapshotName L t j)" for j
    using assms d1 by (simp add: touches_only_def)
  have ex: "RenameNoClobber L wip ?f d1 = DestExists"
    using less.prems(1) d1 by (subst (asm) publish_from.simps) (auto simp: Let_def split: rename_result.splits)
  then have c: "map_of d1 ?f \<noteq> None"
    by (auto simp: RenameNoClobber_def Let_def split: option.splits if_splits)
  show ?case
  proof (cases "k = c")
    case True
    then show ?thesis using c same by simp
  next
    case False
    then have "c + 1 \<le> k" "\<not> c \<ge> 2 ^ 64 - 1" using less.prems by auto
    moreover from this have "fst (publish_from L attempt wip t (c + 1) d1) = Inl SuffixOverflow"
      using less.prems(1) d1 ex by (subst (asm) publish_from.simps) (simp add: Let_def)
    ultimately have "map_of d1 (autoSnapshotName L t k) \<noteq> None"
      using less.hyps [of "c + 1" d1] less.prems by auto
    then show ?thesis using same by simp
  qed
qed

lemma publish_errors:
  assumes "touches_only own attempt" "own \<noteq> wip" "\<And>c d. attempt c d \<noteq> None" "\<And>n. \<not> sl_link_fails L n" "map_of d wip \<noteq> None"
  shows "fst (publish_from L attempt wip t c d) \<in> {Inl SuffixOverflow} \<union> range Inr"
  using assms(5)
proof (induction "2 ^ 64 - c" arbitrary: c d rule: less_induct)
  case less
  obtain d1 where d1: "attempt (autoSnapshotName L t c) d = Some d1" using assms(3) by blast
  then have wip: "map_of d1 wip \<noteq> None" using assms(1,2) less.prems by (simp add: touches_only_def)
  then have ren: "RenameNoClobber L wip n d1 \<noteq> RenameFailed" for n
    using assms(4) by (auto simp: RenameNoClobber_def Let_def split: if_splits)
  show ?case
  proof (cases "c \<ge> 2 ^ 64 - 1")
    case True
    then show ?thesis using d1 ren
      by (subst publish_from.simps) (auto simp: Let_def split: rename_result.splits)
  next
    case False
    then have "fst (publish_from L attempt wip t (c + 1) d1) \<in> {Inl SuffixOverflow} \<union> range Inr"
      using less.hyps [of "c + 1" d1] wip by simp
    then show ?thesis using d1 ren False
      by (subst publish_from.simps) (auto simp: Let_def split: rename_result.splits)
  qed
qed

text \<open>
  Publishing ends with a name: with fewer files than 64-bit suffixes and no I/O failure, it succeeds, whatever names are taken.
\<close>

theorem publish_finds_a_free_name:
  assumes "touches_only own attempt" "own \<noteq> wip" "\<not> HasSuffix own FileExt" "\<And>c d. attempt c d \<noteq> None" "\<And>n. \<not> sl_link_fails L n"
    and "map_of d wip \<noteq> None" "length d < 2 ^ 64 - 1"
  shows "\<exists>final left. fst (PublishAutoSnapshot L wip t attempt d) = Inr (final, left)"
proof (rule ccontr)
  assume "\<not> ?thesis"
  then have ov: "fst (publish_from L attempt wip t 1 d) = Inl SuffixOverflow"
    using publish_errors [OF assms(1,2,4,5,6), where c = 1 and t = t] by (auto simp: PublishAutoSnapshot_def)
  have ne: "autoSnapshotName L t k \<noteq> own" for k
    using assms(3) HasSuffix_app [of "autoPrefix @ sl_format L t @ (if k > 1 then 45 # dec k else [])" FileExt]
    by (auto simp: autoSnapshotName_def)
  let ?K = "{1..<2 ^ 64} :: nat set"
  have "autoSnapshotName L t ` ?K \<subseteq> dom (map_of d)"
    using overflow_all_taken [OF assms(1) ne ov] by auto
  moreover have "inj_on (autoSnapshotName L t) ?K"
    by (rule inj_onI) (use autoSnapshotName_inj in auto)
  ultimately have "card ?K \<le> card (dom (map_of d))"
    by (metis card_image card_mono finite_dom_map_of)
  also have "\<dots> \<le> length d"
    by (metis card_length dom_map_of_conv_image_fst length_map set_map)
  finally show False using assms(7) by simp
qed

definition demo_lib :: snaplib where
  "demo_lib = \<lparr>sl_format = \<lambda>_. bs ''20240101-000000'', sl_stamp_ok = \<lambda>s. s = bs ''20240101-000000'',
     sl_alive = \<lambda>pid. pid = 5, sl_lower = id, sl_newest = sort_key (\<lambda>e. - e_modTime e), sl_rm_fails = \<lambda>_. False, sl_link_fails = \<lambda>_. False\<rparr>"

theorem publish_finds_a_free_name_witness:
  "\<exists>final left. fst (PublishAutoSnapshot demo_lib [1] 0 (\<lambda>c d. Some d) [([1], \<lparr>fn_data = [], fn_mtime = 0, fn_isDir = False\<rparr>)]) = Inr (final, left)"
proof (rule publish_finds_a_free_name [where own = "[2]"])
  show "\<not> HasSuffix [2] FileExt" by (simp add: HasSuffix_def FileExt_def bs_def)
qed (simp_all add: touches_only_def demo_lib_def)

section \<open>Retention\<close>

definition newest_ok :: "snaplib \<Rightarrow> bool" where
  "newest_ok L \<longleftrightarrow> (\<forall>es. mset (sl_newest L es) = mset es \<and> sorted_wrt (\<lambda>a b. e_modTime b \<le> e_modTime a) (sl_newest L es))"

lemma retain_loop_spec:
  fixes L :: snaplib
  assumes "kept \<le> limit"
  defines "autos \<equiv> \<lambda>es. drop (unat limit - unat kept) (filter (\<lambda>e. isAutoSnapshotName L (e_path e)) es)"
  shows "fst (retain_loop L limit ix kept es d) = filter (\<lambda>e. \<not> ix_InUse ix (e_path e) \<and> \<not> sl_rm_fails L (e_path e)) (autos es) \<and>
    fst (snd (retain_loop L limit ix kept es d)) = map e_path (filter (\<lambda>e. \<not> ix_InUse ix (e_path e) \<and> sl_rm_fails L (e_path e)) (autos es)) \<and>
    (\<forall>n. map_of (snd (snd (retain_loop L limit ix kept es d))) n =
      (if n \<in> e_path ` set (fst (retain_loop L limit ix kept es d)) then None else map_of d n))"
  using assms(1) unfolding autos_def
proof (induction es arbitrary: kept d)
  case (Cons e es)
  show ?case
  proof (cases "isAutoSnapshotName L (e_path e) \<and> kept < limit")
    case True
    have u: "unat (kept + 1) = unat kept + 1" "kept + 1 \<le> limit"
    proof -
      have "unat kept < unat limit" "unat limit < 2 ^ 8"
        using True unsigned_less [of limit, where 'a = nat] by (simp_all add: word_less_nat_alt)
      then show "unat (kept + 1) = unat kept + 1" using unat_add_lem [of kept 1] by simp
      then show "kept + 1 \<le> limit" using \<open>unat kept < unat limit\<close> by (simp add: word_le_nat_alt)
    qed
    have "unat kept < unat limit" using True by (simp add: word_less_nat_alt)
    then have "unat limit - unat kept = Suc (unat limit - unat (kept + 1))" using u(1) by simp
    with True Cons.IH [OF u(2), of d] show ?thesis by simp
  next
    case False
    show ?thesis
    proof (cases "isAutoSnapshotName L (e_path e)")
      case True
      with False Cons.prems have "kept = limit" by simp
      with True Cons.IH [of limit d] Cons.IH [of limit "remove_file (e_path e) d"] show ?thesis
        by (auto simp: Let_def map_of_remove)
    qed (use Cons.IH [OF Cons.prems, of d] in simp)
  qed
qed simp

text \<open>
  C22: retention removes exactly the automatic snapshots beyond the newest \<open>limit\<close> that no live session holds and
  whose removal succeeds; the kept ones are at least as new as every other, no other file changes, and the
  failed removals are reported.
\<close>

theorem retention_removes_only_old_unheld_autos:
  assumes "newest_ok L" "RetainAutoSnapshots L limit d = (removed, failed, d')"
  defines "autos \<equiv> filter (\<lambda>e. isAutoSnapshotName L (e_path e)) (Scan L d)"
  shows "removed = filter (\<lambda>e. \<not> InUse L (e_path e) d \<and> \<not> sl_rm_fails L (e_path e)) (drop (unat limit) autos) \<and>
    failed = map e_path (filter (\<lambda>e. \<not> InUse L (e_path e) d \<and> sl_rm_fails L (e_path e)) (drop (unat limit) autos)) \<and>
    (\<forall>n. map_of d' n = (if n \<in> e_path ` set removed then None else map_of d n)) \<and>
    (\<forall>a \<in> set (take (unat limit) autos). \<forall>b \<in> set (drop (unat limit) autos). e_modTime b \<le> e_modTime a)"
proof -
  have "sorted_wrt (\<lambda>a b. e_modTime b \<le> e_modTime a) (Scan L d)" using assms(1) by (simp add: newest_ok_def Scan_def)
  then have "sorted_wrt (\<lambda>a b. e_modTime b \<le> e_modTime a) (take (unat limit) autos @ drop (unat limit) autos)"
    by (simp add: autos_def sorted_wrt_filter)
  then have "\<forall>a \<in> set (take (unat limit) autos). \<forall>b \<in> set (drop (unat limit) autos). e_modTime b \<le> e_modTime a"
    unfolding sorted_wrt_append by blast
  then show ?thesis
    using retain_loop_spec [of 0 limit L "HoldersIndex L d" "Scan L d" d] assms(2)
    by (simp add: RetainAutoSnapshots_def InUse_def autos_def)
qed

text \<open>Two automatic snapshots, of which the older one goes under a limit of one.\<close>

definition demo_dir :: dir where
  "demo_dir = [(bs ''auto-20240101-000000.lognav'', \<lparr>fn_data = [], fn_mtime = 1, fn_isDir = False\<rparr>),
     (bs ''auto-20240101-000000-2.lognav'', \<lparr>fn_data = [], fn_mtime = 2, fn_isDir = False\<rparr>)]"

theorem retention_removes_only_old_unheld_autos_witness:
  "map e_path (fst (RetainAutoSnapshots demo_lib 1 demo_dir)) = [bs ''auto-20240101-000000.lognav'']"
proof -
  have "sorted_wrt (\<lambda>a b. e_modTime b \<le> e_modTime a) (sort_key (\<lambda>e. - e_modTime e) es)" for es
    using sorted_sort_key [of "\<lambda>e. - e_modTime e" es] by (simp add: sorted_map)
  then have "newest_ok demo_lib" unfolding newest_ok_def demo_lib_def by simp blast
  moreover obtain removed failed d' where r: "RetainAutoSnapshots demo_lib 1 demo_dir = (removed, failed, d')" by (metis prod_cases3)
  ultimately have "removed = filter (\<lambda>e. \<not> InUse demo_lib (e_path e) demo_dir \<and> \<not> sl_rm_fails demo_lib (e_path e))
      (drop (unat (1 :: 8 word)) (filter (\<lambda>e. isAutoSnapshotName demo_lib (e_path e)) (Scan demo_lib demo_dir)))"
    using retention_removes_only_old_unheld_autos by blast
  moreover have "Scan demo_lib demo_dir = [entry_of demo_lib (demo_dir ! 1), entry_of demo_lib (demo_dir ! 0)]"
  proof -
    have "ReadDir demo_dir = [demo_dir ! 1, demo_dir ! 0]" "filter listed [demo_dir ! 1, demo_dir ! 0] = [demo_dir ! 1, demo_dir ! 0]"
      by code_simp+
    moreover have "sort_key (\<lambda>e. - e_modTime e) [entry_of demo_lib (demo_dir ! 1), entry_of demo_lib (demo_dir ! 0)]
        = [entry_of demo_lib (demo_dir ! 1), entry_of demo_lib (demo_dir ! 0)]"
      by (simp add: entry_of_def demo_dir_def)
    ultimately show ?thesis by (simp add: Scan_def demo_lib_def)
  qed
  moreover have "isAutoSnapshotName demo_lib (fst (demo_dir ! 0))" "isAutoSnapshotName demo_lib (fst (demo_dir ! 1))"
  proof -
    have "bs ''20240101-000000'' = bs ''20240101'' @ 45 # bs ''000000''" "45 \<notin> set (bs ''20240101'')" "45 \<notin> set (bs ''000000'')"
      by (simp_all add: bs_def)
    then have st: "stamp_ok demo_lib" unfolding stamp_ok_def demo_lib_def by auto
    have "fst (demo_dir ! 0) = autoSnapshotName demo_lib 0 1" "fst (demo_dir ! 1) = autoSnapshotName demo_lib 0 2"
      by (simp_all add: demo_dir_def autoSnapshotName_def demo_lib_def dec.simps autoPrefix_def FileExt_def bs_def)
    then show "isAutoSnapshotName demo_lib (fst (demo_dir ! 0))" "isAutoSnapshotName demo_lib (fst (demo_dir ! 1))"
      using isAuto_autoSnapshotName [OF st] by simp_all
  qed
  moreover have "HoldersIndex demo_lib demo_dir = (\<lambda>_. [])"
  proof -
    have "ReadDir demo_dir = [demo_dir ! 1, demo_dir ! 0]" "\<not> HasSuffix (fst (demo_dir ! 1)) inUseExt" "\<not> HasSuffix (fst (demo_dir ! 0)) inUseExt"
      by code_simp+
    then show ?thesis by (simp add: HoldersIndex_def case_prod_beta)
  qed
  ultimately have "map e_path removed = [fst (demo_dir ! 0)]"
    by (simp add: entry_of_def InUse_def ix_InUse_def case_prod_beta) (simp add: demo_lib_def)
  then show ?thesis using r by (simp add: demo_dir_def)
qed

section \<open>Working files of live sessions\<close>

lemma itoa_pos: "0 < pid \<Longrightarrow> itoa pid = dec (nat pid)"
  by (simp add: itoa_def)

lemma cut_last_app: "c \<notin> set b \<Longrightarrow> cut_last c (a @ c # b) = Some (a, b)"
proof -
  assume "c \<notin> set b"
  then have "takeWhile (\<lambda>x. x \<noteq> c) (rev b @ c # rev a) = rev b"
    by (subst takeWhile_append2) auto
  then show ?thesis by (simp add: cut_last_def)
qed

lemma wipPID_wip_name:
  assumes "0 < pid" "pid < 2 ^ 63" "token \<noteq> []"
  shows "wipPID (wip_name token pid) = Some pid"
proof -
  have cut: "CutSuffix (wip_name token pid) WipSuffix = Some (46 # token @ 95 # dec (nat pid))"
    unfolding wip_name_def itoa_pos [OF assms(1)] using CutSuffix_app [of "46 # token @ 95 # dec (nat pid)" WipSuffix] by simp
  have last: "cut_last 95 (46 # token @ 95 # dec (nat pid)) = Some (46 # token, dec (nat pid))"
    using cut_last_app [of 95 "dec (nat pid)" "46 # token"] dec_no [of 95] by simp
  have "Atoi (dec (nat pid)) = Some pid" using Atoi_dec [of "nat pid"] assms by simp
  then have "pidFromStampedName (wip_name token pid) WipSuffix = Some pid"
    using cut last dec_digits [of "nat pid"] assms(1) by (simp add: pidFromStampedName_def itoa_pos)
  moreover have "HasPrefix (wip_name token pid) [46]" by (simp add: HasPrefix_def wip_name_def)
  ultimately show ?thesis
    using cut last dec_digits [of "nat pid"] assms(3) by (simp add: wipPID_def)
qed

lemma fold_keeps: "(\<And>x d. map_of (f x d) n = map_of d n) \<Longrightarrow> map_of (fold f xs d) n = map_of d n"
  by (induction xs arbitrary: d) auto

text \<open>
  C23: the working file a live session created is neither removed by the startup cleaning nor listed for pruning, in any
  directory; and the name it was created under gives back the session's PID.
\<close>

theorem live_working_file_is_never_stale:
  assumes "CreateWip token pid d0 = Some (name, d1)" "pid < 2 ^ 63" "token \<noteq> []" "sl_alive L pid"
  shows "wipPID name = Some pid \<and> map_of (CleanStaleWip L d) name = map_of d name \<and> name \<notin> set (StaleFiles L d)"
proof -
  have pid: "wipPID name = Some pid" and n: "name = wip_name token pid"
    using assms(1-3) by (auto simp: CreateWip_def wipPID_wip_name split: if_splits)
  then have live: "live_wip L name" using assms(4) by (simp add: live_wip_def)
  have "map_of (CleanStaleWip L d) name = map_of d name"
    unfolding CleanStaleWip_def by (rule fold_keeps) (use live in \<open>auto simp: map_of_remove split: prod.splits\<close>)
  moreover have "name \<notin> set (StaleFiles L d)"
    using live by (auto simp: StaleFiles_def)
  ultimately show ?thesis using pid by simp
qed

theorem live_working_file_is_never_stale_witness:
  "wipPID (wip_name (bs ''x_1'') 5) = Some 5"
proof -
  obtain d1 where "CreateWip (bs ''x_1'') 5 [] = Some (wip_name (bs ''x_1'') 5, d1)" by (simp add: CreateWip_def)
  from live_working_file_is_never_stale [OF this, of demo_lib "[]"] show ?thesis
    by (simp add: demo_lib_def bs_def)
qed

section \<open>A defect\<close>

text \<open>
  A defect: a hold is written as the file's name but read back trimmed, so a file whose name begins with a
  space looks free to every other session while a live session holds it.
\<close>

theorem held_name_with_leading_space_looks_free:
  "\<not> InUse demo_lib (bs '' a.lognav'') (SetOwnInUse 5 (bs '' a.lognav'') []) \<and>
   InUse demo_lib (bs ''a.lognav'') (SetOwnInUse 5 (bs ''a.lognav'') [])"
proof -
  have five: "itoa 5 = [53]" "Atoi [53] = Some 5"
    by (simp_all add: itoa_def dec.simps Atoi_def digits_val_def is_digit_def)
  have "inUsePID ([53] @ inUseExt) = Some 5"
    using five(2) CutSuffix_app [of "[53]" inUseExt] by (simp add: inUsePID_def) (simp add: CutSuffix_def HasSuffix_def inUseTmpExt_def inUseExt_def bs_def)
  moreover have "HasSuffix ([53] @ inUseExt) inUseExt" by (rule HasSuffix_app)
  moreover have "\<not> HasSuffix ([53] @ inUseExt) inUseTmpExt" by code_simp
  ultimately have ix: "InUse demo_lib q (SetOwnInUse 5 p []) \<longleftrightarrow> length (add_lines 5 (p @ [10]) (\<lambda>_. []) q) > 0" if "p \<noteq> []" for p q
    using that five(1) by (simp add: InUse_def ix_InUse_def HoldersIndex_def SetOwnInUse_def write_file_def remove_file_def ReadDir_def
        ownInUsePath_def demo_lib_def)
  show ?thesis
    by (simp add: ix bs_def) (simp add: add_lines_def TrimSpace_def is_ws_def Let_def)
qed

end
