(* ===== verification/Snapio_Correct.thy ===== *)
theory Snapio_Correct
  imports Snapio
begin

text \<open>
  Saving and reopening a whole snapshot: the composition of the snapshot content with the container format, the
  exact log size, and the agreement of the streaming and the bulk reader.
\<close>

section \<open>Saving\<close>

text \<open>The frame a declared instance gets: the source's bytes when it has the frame, an empty list of logs otherwise.\<close>

definition instance_frame :: "'l snapio \<Rightarrow> wstate option \<Rightarrow> bytes \<Rightarrow> bytes" where
  "instance_frame J src crn =
     (case src of
        Some (sc, sf) \<Rightarrow> (case ReadFrame sc sf (frameInstancePrefix @ crn) of Inr d \<Rightarrow> d | Inl _ \<Rightarrow> (case gzipLogsJSON J [] of Inr z \<Rightarrow> z | Inl _ \<Rightarrow> []))
      | None \<Rightarrow> (case gzipLogsJSON J [] of Inr z \<Rightarrow> z | Inl _ \<Rightarrow> []))"

text \<open>A source whose reads succeed or find no frame, and sizes within the limits of the container.\<close>

definition savable :: "'l snapio \<Rightarrow> wstate option \<Rightarrow> inst_snap list \<Rightarrow> bool" where
  "savable J src ins \<longleftrightarrow> (\<exists>z. gzipLogsJSON J [] = Inr z) \<and>
     list_all (\<lambda>i. length (is_crn i) \<le> 65533 \<and> length (instance_frame J src (is_crn i)) \<le> 2 ^ 30) ins \<and>
     (case src of None \<Rightarrow> True
      | Some (sc, sf) \<Rightarrow> list_all (\<lambda>i. case ReadFrame sc sf (frameInstancePrefix @ is_crn i) of Inl e \<Rightarrow> e = ErrFrameDoesNotExist | Inr _ \<Rightarrow> True) ins)"

lemma prefix_length [simp]: "length frameInstancePrefix = 2" "frameInstancePrefix @ x \<noteq> frameState"
  by (simp_all add: frameInstancePrefix_def frameState_def bs_def)

lemma append_ok:
  assumes "writer_inv fs st" "n \<notin> set (map fst fs)" "valid_frame (n, d)"
  shows "\<exists>st'. AppendFrame None n d st = (None, st') \<and> writer_inv (fs @ [(n, d)]) st'"
  using AppendFrame_accept(1) [of fs "fst st" "snd st" n d] assms by (metis prod.collapse)

lemma copy_instances_ok:
  assumes "writer_inv fs st" "savable J src ins" "distinct (map is_crn ins)"
    and "\<forall>i \<in> set ins. frameInstancePrefix @ is_crn i \<notin> set (map fst fs)"
  shows "\<exists>st'. copy_instances J (\<lambda>_. None) src ins st = (None, st') \<and>
    writer_inv (fs @ map (\<lambda>i. (frameInstancePrefix @ is_crn i, instance_frame J src (is_crn i))) ins) st'"
  using assms
proof (induction ins arbitrary: fs st)
  case (Cons i ins)
  let ?n = "frameInstancePrefix @ is_crn i" and ?d = "instance_frame J src (is_crn i)"
  obtain z where z: "gzipLogsJSON J [] = Inr z" using Cons.prems(2) by (auto simp: savable_def)
  have v: "valid_frame (?n, ?d)" using Cons.prems(2) by (simp add: savable_def valid_frame_def)
  obtain st1 where st1: "AppendFrame None ?n ?d st = (None, st1)" "writer_inv (fs @ [(?n, ?d)]) st1"
    using append_ok [OF Cons.prems(1) _ v] Cons.prems(4) by auto
  have step: "copy_instances J (\<lambda>_. None) src (i # ins) st = copy_instances J (\<lambda>_. None) src ins st1"
  proof (cases "\<exists>sc sf d. src = Some (sc, sf) \<and> ReadFrame sc sf ?n = Inr d")
    case True
    then show ?thesis using st1(1) by (auto simp: instance_frame_def)
  next
    case False
    then have d: "?d = z" using z by (auto simp: instance_frame_def split: option.splits sum.splits)
    have e: "SaveInstanceFrame J (\<lambda>_. None) (is_crn i) [] st = (None, st1)"
      using st1(1) z d by (simp add: SaveInstanceFrame_def SaveInstanceFrameWithSize_def PrepareInstanceFrame_def)
    show ?thesis
    proof (cases src)
      case (Some p)
      obtain sc sf where p: "p = (sc, sf)" by (cases p)
      with Some False Cons.prems(2) have "ReadFrame sc sf ?n = Inl ErrFrameDoesNotExist"
        by (auto simp: savable_def split: sum.splits)
      with Some p e show ?thesis by simp
    qed (use e in simp)
  qed
  have "\<exists>st'. copy_instances J (\<lambda>_. None) src ins st1 = (None, st') \<and>
    writer_inv ((fs @ [(?n, ?d)]) @ map (\<lambda>i. (frameInstancePrefix @ is_crn i, instance_frame J src (is_crn i))) ins) st'"
  proof (rule Cons.IH)
    show "writer_inv (fs @ [(?n, ?d)]) st1" by (rule st1(2))
    show "savable J src ins" using Cons.prems(2) by (auto simp: savable_def split: option.splits)
    show "distinct (map is_crn ins)" using Cons.prems(3) by simp
    have "is_crn j \<noteq> is_crn i" if "j \<in> set ins" for j using Cons.prems(3) that by (simp, metis image_eqI)
    then show "\<forall>j \<in> set ins. frameInstancePrefix @ is_crn j \<notin> set (map fst (fs @ [(?n, ?d)]))"
      using Cons.prems(4) by auto
  qed
  then show ?case using step by simp
qed simp

text \<open>What the libraries promise: what was marshalled and compressed can be read back.\<close>

definition codec_ok :: "'l snapio \<Rightarrow> bool" where
  "codec_ok J \<longleftrightarrow> (\<forall>d z. si_gzip J d = Some z \<longrightarrow> si_gunzip J z = Some d) \<and>
     (\<forall>s d. si_marshal_state J s = Some d \<longrightarrow> si_unmarshal_state J d = Some s)"

text \<open>The state frame of a snapshot, with its identifier minted when it has none.\<close>

definition with_id :: "'l snapio \<Rightarrow> snap \<Rightarrow> snap" where
  "with_id J s = (if sn_id s = [] then s\<lparr>sn_id := si_uuid J\<rparr> else s)"

lemma Close_layout:
  assumes "writer_inv fs st"
  shows "snd (snd (Close None st)) = layout fs"
  using assms by (cases st) (auto simp: writer_inv_def Close_def)

text \<open>
  C24: a snapshot saved from a source (or from none) and reopened holds, for every declared instance, exactly the bytes of the
  source's frame (an empty log list when it has none), and its state frame loads as the saved state.
\<close>

theorem saved_snapshot_reopens:
  assumes "codec_ok J" "savable J src (sn_instances s)" "distinct (map is_crn (sn_instances s))"
    and "validateLogSizes (sn_instances s) = None"
    and "si_marshal_state J (with_id J s) = Some d" "si_gzip J d = Some z" "length z \<le> 2 ^ 30"
  defines "disk \<equiv> snd (snd (Close None (snd (CopyWithState J (\<lambda>_. None) src s (NewWriter, [])))))"
  shows "fst (CopyWithState J (\<lambda>_. None) src s (NewWriter, [])) = None \<and>
    (case OpenContainerReadOnly disk of
       Inl _ \<Rightarrow> False
     | Inr c \<Rightarrow> LoadState J (c, disk) = Inr (with_id J s) \<and> InstanceCRNs c = map is_crn (sn_instances s) \<and>
         list_all (\<lambda>i. ReadFrame c disk (frameInstancePrefix @ is_crn i) = Inr (instance_frame J src (is_crn i))) (sn_instances s))"
proof -
  let ?fs = "map (\<lambda>i. (frameInstancePrefix @ is_crn i, instance_frame J src (is_crn i))) (sn_instances s)"
  let ?gs = "?fs @ [(frameState, z)]"
  obtain st1 where st1: "copy_instances J (\<lambda>_. None) src (sn_instances s) (NewWriter, []) = (None, st1)" "writer_inv ?fs st1"
    using copy_instances_ok [OF writer_inv_New assms(2,3)] by auto
  have v: "valid_frame (frameState, z)" using assms(7) by (simp add: valid_frame_def frameState_def bs_def)
  have new: "frameState \<notin> set (map fst ?fs)" using prefix_length(2) by (auto simp: eq_commute)
  obtain st2 where st2: "AppendFrame None frameState z st1 = (None, st2)" "writer_inv ?gs st2"
    using append_ok [OF st1(2) new v] by blast
  have copy: "CopyWithState J (\<lambda>_. None) src s (NewWriter, []) = (None, st2)"
    using st1(1) st2(1) assms(4-6) by (simp add: CopyWithState_def SaveStateFrame_def Let_def with_id_def)
  have disk: "disk = layout ?gs" unfolding disk_def copy snd_conv by (rule Close_layout [OF st2(2)])
  have ok: "distinct (map fst ?gs)" "list_all valid_frame ?gs" using st2(2) by (auto simp: writer_inv_def split: prod.splits)
  define c where "c = \<lparr>c_readable = True, c_writer = None, c_offset = length disk, c_version = 1,
    c_frames = index_from 12 ?gs Map.empty, c_orderedNames = map fst ?gs\<rparr>"
  have opens: "OpenContainerReadOnly disk = Inr c"
    unfolding disk c_def using parse_layout [OF ok(2), of False]
    by (simp add: OpenContainerReadOnly_def OpenContainerReadOnlyWithOpts_def)
  have read: "ReadFrame c disk n = (case map_of ?gs n of None \<Rightarrow> Inl ErrFrameDoesNotExist | Some d \<Rightarrow> Inr d)" for n
    using ReadFrame_layout [OF ok, of c "[]" n] by (simp add: disk c_def)
  have frames: "ReadFrame c disk (frameInstancePrefix @ is_crn i) = Inr (instance_frame J src (is_crn i))"
    if "i \<in> set (sn_instances s)" for i
  proof -
    have "map_of ?gs (frameInstancePrefix @ is_crn i) = Some (instance_frame J src (is_crn i))"
      by (rule map_of_is_SomeI [OF ok(1)]) (use that in auto)
    then show ?thesis by (simp add: read)
  qed
  have "map_of ?gs frameState = Some z" by (rule map_of_is_SomeI [OF ok(1)]) simp
  then have "ReadFrame c disk frameState = Inr z" by (simp add: read)
  then have state: "LoadState J (c, disk) = Inr (with_id J s)"
    using assms(1,4,5,6) by (auto simp: LoadState_def gunzipRead_def codec_ok_def with_id_def)
  have "InstanceCRNs c = map is_crn (sn_instances s)"
    by (simp add: InstanceCRNs_def GetFrameNames_def c_def filter_map comp_def frameState_def frameInstancePrefix_def bs_def)
  then show ?thesis using copy opens frames state by (simp add: list_all_iff)
qed

text \<open>A snapshot of one instance and libraries that know just its state.\<close>

definition demo_snap :: snap where
  "demo_snap = \<lparr>sn_id = [7], sn_query = [], sn_search = [], sn_jq = [], sn_filters = [],
     sn_instances = [\<lparr>is_crn = bs ''crn:1'', is_state = 0, is_logCount = 0, is_logsSize = 0, is_startTime = 0, is_lastUpdate = 0, is_message = []\<rparr>]\<rparr>"

definition demo_snapio :: "nat snapio" where
  "demo_snapio = \<lparr>si_marshal_data = (\<lambda>n. Some (replicate n 48)), si_marshal_logs = (\<lambda>ls. Some (bs ''[]'')), si_unmarshal_logs = (\<lambda>d. Some []),
     si_open_array = (\<lambda>d. Some d), si_next = (\<lambda>d. Some None),
     si_marshal_state = (\<lambda>s. if s = demo_snap then Some (bs ''{}'') else None), si_unmarshal_state = (\<lambda>d. Some demo_snap),
     si_gzip = Some, si_gunzip = Some, si_uuid = [9], si_crn_ok = (\<lambda>_. True)\<rparr>"

theorem saved_snapshot_reopens_witness:
  "fst (CopyWithState demo_snapio (\<lambda>_. None) None demo_snap (NewWriter, [])) = None"
proof -
  have "codec_ok demo_snapio" by (simp add: codec_ok_def demo_snapio_def)
  moreover have "savable demo_snapio None (sn_instances demo_snap)"
    by (simp add: savable_def demo_snap_def demo_snapio_def gzipLogsJSON_def instance_frame_def bs_def)
  moreover have "distinct (map is_crn (sn_instances demo_snap))" "validateLogSizes (sn_instances demo_snap) = None"
    by (simp_all add: demo_snap_def)
  moreover have "si_marshal_state demo_snapio (with_id demo_snapio demo_snap) = Some (bs ''{}'')"
    by (simp add: demo_snapio_def with_id_def) (simp add: demo_snap_def)
  moreover have "si_gzip demo_snapio (bs ''{}'') = Some (bs ''{}'')" "length (bs ''{}'') \<le> 2 ^ 30"
    by (simp_all add: demo_snapio_def bs_def)
  ultimately show ?thesis using saved_snapshot_reopens by blast
qed

section \<open>Sizes\<close>

text \<open>An addition of \<^verbatim>\<open>uint64\<close> values that passed the overflow check is exact.\<close>

lemma checked_add:
  fixes a b :: "64 word"
  shows "\<not> a > not 0 - b \<Longrightarrow> unat (a + b) = unat a + unat b" and "a > not 0 - b \<Longrightarrow> unat a + unat b \<ge> 2 ^ 64"
proof -
  have m: "unat (not 0 - b) = 2 ^ 64 - 1 - unat b"
  proof -
    have "unat (not 0 :: 64 word) = 2 ^ 64 - 1" by (simp add: unsigned_minus_1_eq_mask mask_eq_exp_minus_1)
    moreover have "b \<le> not 0" by simp
    ultimately show ?thesis by (simp add: unat_sub)
  qed
  have b: "unat b < 2 ^ 64" "unat a < 2 ^ 64" using unsigned_less [where 'b = 64 and 'a = nat] by auto
  show "\<not> a > not 0 - b \<Longrightarrow> unat (a + b) = unat a + unat b"
    using m b by (simp add: word_less_nat_alt unat_add_lem [THEN iffD1])
  show "a > not 0 - b \<Longrightarrow> unat a + unat b \<ge> 2 ^ 64"
    using m b by (simp add: word_less_nat_alt)
qed

lemma sum_sizes_exact:
  "case sum_sizes ins n t of
     None \<Rightarrow> unat t + sum_list (map (\<lambda>i. unat (is_logsSize i)) ins) \<ge> 2 ^ 64
   | Some (n', t') \<Rightarrow> n' = n + sum_list (map is_logCount ins) \<and> unat t' = unat t + sum_list (map (\<lambda>i. unat (is_logsSize i)) ins)"
proof (induction ins arbitrary: n t)
  case (Cons i ins)
  show ?case
  proof (cases "t > not 0 - is_logsSize i")
    case True
    then show ?thesis using checked_add(2) [OF True] by simp
  next
    case False
    then show ?thesis
      using checked_add(1) [OF False] Cons [where n = "n + is_logCount i" and t = "t + is_logsSize i"]
      by (simp add: add.assoc split: option.splits prod.splits)
  qed
qed simp

text \<open>
  The totals of a summary are the exact sums over the instances of the file's state frame, and a sum of sizes
  beyond 64 bits is an error, never a wrapped number.
\<close>

theorem summary_totals_are_exact:
  "case Summarize J disk of
     Inl TotalOverflow \<Rightarrow> (\<exists>c s. OpenContainerReadOnly disk = Inr c \<and> LoadState J (c, disk) = Inr s \<and>
        sum_list (map (\<lambda>i. unat (is_logsSize i)) (sn_instances s)) \<ge> 2 ^ 64)
   | Inl _ \<Rightarrow> True
   | Inr su \<Rightarrow> su_totalLogs su = sum_list (map is_logCount (su_instances su)) \<and>
       unat (su_totalSize su) = sum_list (map (\<lambda>i. unat (is_logsSize i)) (su_instances su))"
proof -
  have lt: "LoadState J st \<noteq> Inl TotalOverflow" for st
  proof -
    have "validateLogSizes ins \<noteq> Some TotalOverflow" for ins by (induction ins) auto
    then show ?thesis by (auto simp: LoadState_def gunzipRead_def split: sum.splits option.splits)
  qed
  show ?thesis
  proof (cases "OpenContainerReadOnly disk")
    case (Inr c)
    show ?thesis
    proof (cases "LoadState J (c, disk)")
      case (Inl e)
      then show ?thesis using lt [of "(c, disk)"] \<open>OpenContainerReadOnly disk = Inr c\<close> by (simp add: Summarize_def split: s_error.splits)
    next
      case (Inr s)
      then show ?thesis
        using \<open>OpenContainerReadOnly disk = Inr c\<close> sum_sizes_exact [where ins = "sn_instances s" and n = 0 and t = 0]
        by (auto simp: Summarize_def split: option.splits prod.splits)
    qed
  qed (simp add: Summarize_def)
qed

end
