(* ===== verification/Timeline_Buckets.thy ===== *)
theory Timeline_Buckets
  imports Logstore_Inv "HOL-Library.Signed_Division"
begin

text \<open>
  The histogram behind the timeline view, \<^verbatim>\<open>internal/ui/components/timeline/buckets.go\<close>, and what it asks of the
  log store. Timestamps are 64-bit: every operation on them wraps (\<open>i64\<close>) and divides towards zero
  (\<open>sdiv\<close>). An index out of range is a panic, the result \<open>None\<close>.
\<close>

section \<open>64-bit arithmetic\<close>

definition i64 :: "int \<Rightarrow> int" where
  "i64 x = (x + 2 ^ 63) mod 2 ^ 64 - 2 ^ 63"

lemma i64_id: "- (2 ^ 63) \<le> x \<Longrightarrow> x < 2 ^ 63 \<Longrightarrow> i64 x = x"
  by (simp add: i64_def)

section \<open>Buckets\<close>

record bucket =
  bk_startMicro :: int
  bk_endMicro :: int
  bk_counts :: "nat list"
  bk_firstLogIdx :: int
  bk_total :: nat

definition bucket_new :: "int \<Rightarrow> int \<Rightarrow> bucket" where
  "bucket_new s e = \<lparr>bk_startMicro = s, bk_endMicro = e, bk_counts = replicate 7 0, bk_firstLogIdx = -1, bk_total = 0\<rparr>"

text \<open>The body of the counting loops; \<^verbatim>\<open>counts\<close> is an array of seven.\<close>

definition bucket_add :: "log_meta \<Rightarrow> bucket \<Rightarrow> bucket option" where
  "bucket_add m b =
     (if lm_Severity m < length (bk_counts b)
      then Some (b\<lparr>bk_counts := (bk_counts b)[lm_Severity m := bk_counts b ! lm_Severity m + 1],
                   bk_total := bk_total b + 1,
                   bk_firstLogIdx := (if bk_firstLogIdx b = -1 then int (lm_Idx m) else bk_firstLogIdx b)\<rparr>)
      else None)"

definition bucket_at :: "int \<Rightarrow> int \<Rightarrow> int \<Rightarrow> int \<Rightarrow> int" where
  "bucket_at earliest step n ts = (let b = i64 (ts - earliest) sdiv step in if b \<ge> n then n - 1 else b)"

fun fill :: "(int \<Rightarrow> int) \<Rightarrow> log_meta list \<Rightarrow> bucket list \<Rightarrow> bucket list option" where
  "fill at [] bs = Some bs"
| "fill at (m # ms) bs =
     (let b = at (lm_TSMicro m)
      in if b < 0 \<or> b \<ge> int (length bs) then None
         else case bucket_add m (bs ! nat b) of
           None \<Rightarrow> None
         | Some b' \<Rightarrow> fill at ms (bs[nat b := b']))"

definition empty_buckets :: "int \<Rightarrow> int \<Rightarrow> int \<Rightarrow> int \<Rightarrow> bucket list" where
  "empty_buckets earliest latest step n =
     map (\<lambda>i. let start = i64 (earliest + i64 (int i * step))
              in bucket_new start (if int i = n - 1 then i64 (latest + 1) else i64 (start + step))) [0..<nat n]"

text \<open>
  \<^verbatim>\<open>Build\<close> on what the three methods of its \<^verbatim>\<open>Store\<close> return. Dividing by a count of zero and making a slice of
  negative length panic.
\<close>

definition Build :: "int \<times> int \<Rightarrow> nat \<Rightarrow> log_meta list \<Rightarrow> int \<Rightarrow> bucket list option" where
  "Build tr count metas n =
     (if count = 0 then Some []
      else case tr of (earliest, latest) \<Rightarrow>
        if earliest = latest then fill (\<lambda>_. 0) metas [bucket_new earliest (i64 (earliest + 1))]
        else if n = 0 then None
        else
          let span = i64 (latest - earliest);
              step0 = span sdiv n;
              n = (if step0 = 0 then i64 (span + 1) else n);
              step = (if step0 = 0 then 1 else step0)
          in if n < 0 then None
             else fill (bucket_at earliest step n) metas (empty_buckets earliest latest step n))"

section \<open>Counting\<close>

text \<open>What a bucket holds once the given logs were counted into it.\<close>

definition counted :: "log_meta list \<Rightarrow> bucket \<Rightarrow> bucket \<Rightarrow> bool" where
  "counted ms b b' \<longleftrightarrow> bk_startMicro b' = bk_startMicro b \<and> bk_endMicro b' = bk_endMicro b \<and>
     length (bk_counts b') = length (bk_counts b) \<and>
     (\<forall>s < length (bk_counts b). bk_counts b' ! s = bk_counts b ! s + length (filter (\<lambda>m. lm_Severity m = s) ms)) \<and>
     bk_total b' = bk_total b + length ms \<and>
     bk_firstLogIdx b' = (if bk_firstLogIdx b = -1 then (case ms of [] \<Rightarrow> -1 | m # _ \<Rightarrow> int (lm_Idx m)) else bk_firstLogIdx b)"

lemma counted_Nil: "counted [] b b"
  by (simp add: counted_def)

lemma counted_Cons:
  assumes "bucket_add m b = Some b1" "counted ms b1 b2"
  shows "counted (m # ms) b b2"
  using assms unfolding counted_def bucket_add_def
  by (auto split: if_splits simp: nth_list_update)

lemma fill_counts:
  assumes "\<forall>m \<in> set ms. 0 \<le> at (lm_TSMicro m) \<and> at (lm_TSMicro m) < int (length bs) \<and> lm_Severity m < 7"
    and "\<forall>b \<in> set bs. length (bk_counts b) = 7"
  shows "\<exists>bs'. fill at ms bs = Some bs' \<and> length bs' = length bs \<and>
    (\<forall>i < length bs. counted (filter (\<lambda>m. at (lm_TSMicro m) = int i) ms) (bs ! i) (bs' ! i))"
  using assms
proof (induction ms arbitrary: bs)
  case (Cons m ms)
  define j where "j = nat (at (lm_TSMicro m))"
  have j: "at (lm_TSMicro m) = int j" "j < length bs" using Cons.prems(1) by (auto simp: j_def)
  then have l: "length (bk_counts (bs ! j)) = 7" "lm_Severity m < 7" using Cons.prems by auto
  then obtain b1 where b1: "bucket_add m (bs ! j) = Some b1" "length (bk_counts b1) = 7"
    by (auto simp: bucket_add_def)
  have "\<forall>b \<in> set (bs[j := b1]). length (bk_counts b) = 7"
    using Cons.prems(2) b1(2) set_update_subset_insert [of bs j b1] by blast
  with Cons.prems(1) Cons.IH [of "bs[j := b1]"] obtain bs' where
    bs': "fill at ms (bs[j := b1]) = Some bs'" "length bs' = length bs"
      "\<forall>i < length bs. counted (filter (\<lambda>m. at (lm_TSMicro m) = int i) ms) (bs[j := b1] ! i) (bs' ! i)"
    by auto
  have "counted (filter (\<lambda>m. at (lm_TSMicro m) = int i) (m # ms)) (bs ! i) (bs' ! i)" if "i < length bs" for i
  proof (cases "i = j")
    case True
    then show ?thesis using bs'(3)[rule_format, of j] b1(1) j counted_Cons by auto
  next
    case False
    then show ?thesis using bs'(3) that j by auto
  qed
  with bs' j b1(1) show ?case by (auto simp: Let_def)
qed (simp add: counted_Nil)

section \<open>The partition of the time range\<close>

definition range_ok :: "int \<times> int \<Rightarrow> bool" where
  "range_ok r \<longleftrightarrow> - (2 ^ 63) \<le> fst r \<and> fst r \<le> snd r \<and> snd r < 2 ^ 63 - 1 \<and> snd r - fst r < 2 ^ 63 - 1"

lemma sdiv_nonneg: "0 \<le> a \<Longrightarrow> 0 < b \<Longrightarrow> a sdiv b = (a :: int) div b"
  by (cases "a = 0") (simp_all add: signed_divide_int_def)

text \<open>The buckets tile the range: each starts where the one before ends, the first at the start, the last one past the end.\<close>

fun tiles :: "int \<Rightarrow> int \<Rightarrow> bucket list \<Rightarrow> bool" where
  "tiles s e [] = (s = e)"
| "tiles s e (b # bs) = (bk_startMicro b = s \<and> s < bk_endMicro b \<and> tiles (bk_endMicro b) e bs)"

text \<open>Without wrap-around the buckets are the equal steps and a longer last one.\<close>

lemma empty_buckets_plain:
  assumes "range_ok (e, l)" "0 < step" "0 < n" "n * step \<le> l - e + 1"
  shows "empty_buckets e l step n =
    map (\<lambda>i. bucket_new (e + int i * step) (if int i = n - 1 then l + 1 else e + int (i + 1) * step)) [0..<nat n]"
proof -
  have "i64 (int i * step) = int i * step \<and> i64 (e + int i * step) = e + int i * step \<and>
      i64 (e + int i * step + step) = e + int (i + 1) * step" if "int i < n" for i
  proof -
    have "int (i + 1) * step \<le> n * step" using that assms(2) by (intro mult_right_mono) auto
    moreover have next_step: "int (i + 1) * step = int i * step + step" by (simp add: algebra_simps)
    moreover have "0 \<le> int i * step" using assms(2) by simp
    moreover define p where "p = int i * step"
    ultimately have "0 \<le> p" "e + p + step \<le> l + 1" using assms(4) by simp_all
    with assms(1,2) show ?thesis
      unfolding next_step p_def [symmetric] by (auto simp: range_ok_def i64_id)
  qed
  moreover have "i64 (l + 1) = l + 1" using assms(1) by (subst i64_id) (auto simp: range_ok_def)
  ultimately show ?thesis
    unfolding empty_buckets_def by (intro map_cong) (auto simp: Let_def)
qed

lemma tiles_steps:
  assumes "0 < step" "k < n" "int n * step \<le> l - e + 1"
  shows "tiles (e + int k * step) (l + 1)
    (map (\<lambda>i. bucket_new (e + int i * step) (if int i = int n - 1 then l + 1 else e + int (i + 1) * step)) [k..<n])"
  using assms(2)
proof (induction "n - k" arbitrary: k)
  case (Suc d)
  have up: "[k..<n] = k # [Suc k..<n]" using Suc.prems by (simp add: upt_conv_Cons)
  show ?case
  proof (cases "Suc k = n")
    case True
    then have "int k * step + step \<le> l - e + 1" using assms(3) by (simp add: algebra_simps flip: True)
    with True assms(1) show ?thesis by (simp add: up bucket_new_def)
  next
    case False
    then have "Suc k < n" using Suc.prems by simp
    moreover have "d = n - Suc k" using Suc.hyps(2) by simp
    ultimately have "tiles (e + int (Suc k) * step) (l + 1)
      (map (\<lambda>i. bucket_new (e + int i * step) (if int i = int n - 1 then l + 1 else e + int (i + 1) * step)) [Suc k..<n])"
      using Suc.hyps(1) by blast
    moreover have "e + int k * step < e + int (Suc k) * step" using assms(1) by (simp add: algebra_simps)
    ultimately show ?thesis using False by (simp add: up bucket_new_def)
  qed
qed simp

text \<open>The index the code computes is the bucket whose range holds the timestamp.\<close>

lemma bucket_at_plain:
  assumes "range_ok (e, l)" "0 < step" "e \<le> ts" "ts \<le> l"
  shows "bucket_at e step n ts = min ((ts - e) div step) (n - 1)"
proof -
  have "i64 (ts - e) = ts - e" using assms by (subst i64_id) (auto simp: range_ok_def)
  then show ?thesis using assms by (auto simp: bucket_at_def Let_def sdiv_nonneg)
qed

lemma bucket_at_iff:
  assumes "range_ok (e, l)" "0 < step" "e \<le> ts" "ts \<le> l" "int i < n"
  shows "bucket_at e step n ts = int i \<longleftrightarrow> e + int i * step \<le> ts \<and> ts < (if int i = n - 1 then l + 1 else e + int (i + 1) * step)"
proof -
  define q where "q = (ts - e) div step"
  have q: "q * step \<le> ts - e" "ts - e < q * step + step"
    using assms(2) by (simp_all add: q_def minus_mod_eq_div_mult [symmetric] pos_mod_bound)
  have lt: "ts - e < int (i + 1) * step \<longleftrightarrow> q \<le> int i"
  proof
    assume "ts - e < int (i + 1) * step"
    with q have "q * step < int (i + 1) * step" by (meson order.strict_trans1)
    from mult_right_less_imp_less [OF this] have "q < int (i + 1)" using assms(2) by simp
    then show "q \<le> int i" by simp
  next
    assume "q \<le> int i"
    then have le: "(q + 1) * step \<le> int (i + 1) * step" using assms(2) by (intro mult_right_mono) auto
    have "ts - e < (q + 1) * step" using q by (simp add: algebra_simps)
    from order.strict_trans2 [OF this le] show "ts - e < int (i + 1) * step" .
  qed
  have le: "int i * step \<le> ts - e \<longleftrightarrow> int i \<le> q"
  proof
    assume "int i * step \<le> ts - e"
    moreover have "ts - e < (q + 1) * step" using q by (simp add: algebra_simps)
    ultimately have "int i * step < (q + 1) * step" by (rule order.strict_trans1)
    from mult_right_less_imp_less [OF this] have "int i < q + 1" using assms(2) by simp
    then show "int i \<le> q" by simp
  next
    assume "int i \<le> q"
    then have "int i * step \<le> q * step" using assms(2) by (intro mult_right_mono) auto
    from order.trans [OF this q(1)] show "int i * step \<le> ts - e" .
  qed
  show ?thesis
    using lt le assms(4,5) unfolding bucket_at_plain [OF assms(1-4)] q_def [symmetric] by (auto simp: min_def)
qed

section \<open>Sources of logs\<close>

text \<open>What a bucket of the result promises over the logs it was built from.\<close>

definition in_bucket :: "log_meta list \<Rightarrow> bucket \<Rightarrow> log_meta list" where
  "in_bucket ms b = filter (\<lambda>m. bk_startMicro b \<le> lm_TSMicro m \<and> lm_TSMicro m < bk_endMicro b) ms"

definition bucket_ok :: "log_meta list \<Rightarrow> bucket \<Rightarrow> bool" where
  "bucket_ok ms b \<longleftrightarrow> bk_total b = length (in_bucket ms b) \<and>
     bk_counts b = map (\<lambda>sev. length (filter (\<lambda>m. lm_Severity m = sev) (in_bucket ms b))) [0..<7] \<and>
     bk_firstLogIdx b = (case in_bucket ms b of [] \<Rightarrow> -1 | m # _ \<Rightarrow> int (lm_Idx m))"

lemma counted_ok:
  assumes "counted (filter P ms) (bucket_new s e) b" "\<And>m. m \<in> set ms \<Longrightarrow> P m \<longleftrightarrow> s \<le> lm_TSMicro m \<and> lm_TSMicro m < e"
  shows "bucket_ok ms b \<and> bk_startMicro b = s \<and> bk_endMicro b = e"
proof -
  have b: "bk_startMicro b = s" "bk_endMicro b = e" "length (bk_counts b) = 7"
    using assms(1) by (simp_all add: counted_def bucket_new_def)
  have f: "in_bucket ms b = filter P ms" using assms(2) by (auto simp: in_bucket_def b intro: filter_cong)
  have "bk_counts b = map (\<lambda>sev. length (filter (\<lambda>m. lm_Severity m = sev) (filter P ms))) [0..<7]"
    using assms(1) b(3) by (intro nth_equalityI) (simp_all add: counted_def bucket_new_def)
  then show ?thesis using assms(1) b by (simp add: bucket_ok_def f counted_def bucket_new_def)
qed

lemma sum_by_index:
  assumes "\<forall>m \<in> set ms. 0 \<le> at m \<and> at m < int n"
  shows "(\<Sum>i\<leftarrow>[0..<n]. length (filter (\<lambda>m. at m = int i) ms)) = length ms"
  using assms
proof (induction ms)
  case (Cons m ms)
  have "(\<Sum>i\<leftarrow>[0..<n]. length (filter (\<lambda>m. at m = int i) (m # ms))) =
      (\<Sum>i\<leftarrow>[0..<n]. (if i = nat (at m) then 1 else 0) + length (filter (\<lambda>m. at m = int i) ms))"
    using Cons.prems by (intro arg_cong [where f = sum_list] map_cong) auto
  also have "\<dots> = (\<Sum>i\<leftarrow>[0..<n]. if i = nat (at m) then 1 else 0) + length ms"
    using Cons by (simp add: sum_list_addf)
  also have "(\<Sum>i\<leftarrow>[0..<n]. if i = nat (at m) then 1 else 0) = (1 :: nat)"
    using Cons.prems by (simp add: interv_sum_list_conv_sum_set_nat sum.delta nat_less_iff)
  finally show ?case by simp
qed simp

lemma tiles_cong:
  assumes "length bs = length cs"
    and "\<And>i. i < length bs \<Longrightarrow> bk_startMicro (bs ! i) = bk_startMicro (cs ! i) \<and> bk_endMicro (bs ! i) = bk_endMicro (cs ! i)"
  shows "tiles s e bs = tiles s e cs"
  using assms
proof (induction bs cs arbitrary: s rule: list_induct2)
  case (Cons b bs c cs)
  have "tiles t e bs = tiles t e cs" for t using Cons.prems [of "Suc _"] Cons.IH by auto
  then show ?case using Cons.prems [of 0] by simp
qed simp

text \<open>
  The interface \<^verbatim>\<open>timeline.Store\<close>: a count, a time range and the metadata of the logs, which a source in a
  good state keeps consistent.
\<close>

locale log_source =
  fixes good_source :: "'s \<Rightarrow> bool"
    and time_range :: "'s \<Rightarrow> int \<times> int"
    and log_count :: "'s \<Rightarrow> nat"
    and metas :: "'s \<Rightarrow> log_meta list"
  assumes count_law: "good_source s \<Longrightarrow> length (metas s) = log_count s"
    and range_law: "good_source s \<Longrightarrow> m \<in> set (metas s) \<Longrightarrow> fst (time_range s) \<le> lm_TSMicro m \<and> lm_TSMicro m \<le> snd (time_range s)"
    and index_law: "good_source s \<Longrightarrow> map lm_Idx (metas s) = [0..<log_count s]"
begin

definition built :: "'s \<Rightarrow> bucket list \<Rightarrow> bool" where
  "built s bs \<longleftrightarrow> tiles (fst (time_range s)) (snd (time_range s) + 1) bs \<and> list_all (bucket_ok (metas s)) bs \<and>
     sum_list (map bk_total bs) = log_count s"

lemma fill_built:
  assumes "good_source s" "0 < k" "\<forall>m \<in> set (metas s). lm_Severity m < 7"
    and "\<And>m. m \<in> set (metas s) \<Longrightarrow> 0 \<le> at (lm_TSMicro m) \<and> at (lm_TSMicro m) < int k"
    and "\<And>m i. m \<in> set (metas s) \<Longrightarrow> i < k \<Longrightarrow> at (lm_TSMicro m) = int i \<longleftrightarrow> lo i \<le> lm_TSMicro m \<and> lm_TSMicro m < hi i"
    and "tiles (fst (time_range s)) (snd (time_range s) + 1) (map (\<lambda>i. bucket_new (lo i) (hi i)) [0..<k])"
  shows "\<exists>bs. fill at (metas s) (map (\<lambda>i. bucket_new (lo i) (hi i)) [0..<k]) = Some bs \<and> length bs = k \<and> built s bs"
proof -
  let ?bs = "map (\<lambda>i. bucket_new (lo i) (hi i)) [0..<k]"
  obtain bs where bs: "fill at (metas s) ?bs = Some bs" "length bs = k"
    and cnt: "\<And>i. i < k \<Longrightarrow> counted (filter (\<lambda>m. at (lm_TSMicro m) = int i) (metas s)) (bucket_new (lo i) (hi i)) (bs ! i)"
    using fill_counts [of "metas s" at ?bs] assms(3,4) by (auto simp: bucket_new_def)
  then have ok: "bucket_ok (metas s) (bs ! i) \<and> bk_startMicro (bs ! i) = lo i \<and> bk_endMicro (bs ! i) = hi i" if "i < k" for i
    using counted_ok [OF cnt [OF that]] assms(5) that by blast
  then have "tiles (fst (time_range s)) (snd (time_range s) + 1) bs"
    using assms(6) tiles_cong [of bs ?bs] bs(2) by (simp add: bucket_new_def)
  moreover have "list_all (bucket_ok (metas s)) bs" using ok bs(2) by (simp add: list_all_length)
  moreover have "sum_list (map bk_total bs) = log_count s"
  proof -
    have "map bk_total bs = map (\<lambda>i. length (filter (\<lambda>m. at (lm_TSMicro m) = int i) (metas s))) [0..<k]"
      using cnt bs(2) by (intro nth_equalityI) (simp_all add: counted_def bucket_new_def)
    then show ?thesis
      using sum_by_index [of "metas s" "\<lambda>m. at (lm_TSMicro m)" k] assms(4) count_law [OF assms(1)] by simp
  qed
  ultimately show ?thesis using bs by (auto simp: built_def)
qed

lemma Build_built:
  assumes "good_source s" "log_count s \<noteq> 0" "range_ok (time_range s)" "\<forall>m \<in> set (metas s). lm_Severity m < 7" "0 < n" "n < 2 ^ 63"
  shows "\<exists>bs. Build (time_range s) (log_count s) (metas s) n = Some bs \<and> length bs \<le> nat n \<and> built s bs"
proof -
  obtain e l where el: "time_range s = (e, l)" by (cases "time_range s")
  note law = range_law [OF assms(1)] and rok = assms(3)[unfolded el]
  show ?thesis
  proof (cases "e = l")
    case True
    have "\<exists>bs. fill (\<lambda>_. 0) (metas s) (map (\<lambda>i. bucket_new e (l + 1)) [0..<1]) = Some bs \<and> length bs = 1 \<and> built s bs"
      using law by (intro fill_built assms(1,4)) (auto simp: el True bucket_new_def)
    moreover have "i64 (e + 1) = l + 1" using rok True by (simp add: range_ok_def i64_id)
    ultimately show ?thesis using assms(2,5) True by (auto simp: Build_def el)
  next
    case False
    then have lt: "e < l" using rok by (simp add: range_ok_def)
    have span: "i64 (l - e) = l - e" "i64 (l - e + 1) = l - e + 1" using rok lt by (auto simp: range_ok_def i64_id)
    define step0 where "step0 = (l - e) div n"
    define k where "k = (if step0 = 0 then l - e + 1 else n)"
    define step where "step = (if step0 = 0 then 1 else step0)"
    have "0 \<le> step0" using lt assms(5) by (simp add: step0_def pos_imp_zdiv_nonneg_iff)
    moreover have "step0 * n \<le> l - e"
      using assms(5) by (simp add: step0_def minus_mod_eq_div_mult [symmetric] pos_mod_sign)
    ultimately have ks: "0 < step" "0 < k" "k * step \<le> l - e + 1" "k \<le> n"
      using lt assms(5) zdiv_eq_0_iff [of "l - e" n] by (auto simp: step_def k_def step0_def algebra_simps split: if_splits)
    define hi where "hi = (\<lambda>i. if int i = k - 1 then l + 1 else e + int (i + 1) * step)"
    have kn: "int (nat k) = k" using ks(2) by simp
    have "tiles (e + int 0 * step) (l + 1) (map (\<lambda>i. bucket_new (e + int i * step) (hi i)) [0..<nat k])"
      using tiles_steps [of step 0 "nat k" l e] ks by (simp add: hi_def kn)
    then have "\<exists>bs. fill (bucket_at e step k) (metas s) (map (\<lambda>i. bucket_new (e + int i * step) (hi i)) [0..<nat k]) = Some bs \<and>
        length bs = nat k \<and> built s bs"
      using ks law bucket_at_plain [OF rok ks(1)] bucket_at_iff [OF rok ks(1)]
      by (intro fill_built assms(1,4)) (auto simp: el hi_def pos_imp_zdiv_nonneg_iff)
    then obtain bs where "fill (bucket_at e step k) (metas s) (empty_buckets e l step k) = Some bs" "length bs = nat k" "built s bs"
      using empty_buckets_plain [OF rok ks(1-3)] by (auto simp: hi_def)
    then show ?thesis
      using False assms(2,5) lt ks(2,4) span
      by (auto simp: Build_def el Let_def sdiv_nonneg k_def step_def step0_def split: if_splits)
  qed
qed

end

interpretation log_store: log_source store_inv GetTimeRange st_logCount IterLogMeta
  by unfold_locales (auto simp: store_inv_def rows_ok_def GetTimeRange_def IterLogMeta_def comp_def)

end
