(* ===== verification/Timeline.thy ===== *)
theory Timeline
  imports Timeline_Buckets Canvas
begin

text \<open>
  The timeline view: \<^verbatim>\<open>timeline.go\<close>, \<^verbatim>\<open>keybinds.go\<close>, \<^verbatim>\<open>status.go\<close> and \<^verbatim>\<open>render.go\<close> of
  \<^verbatim>\<open>internal/ui/components/timeline\<close>. A read out of range sets \<open>tl_panicked\<close>: the program ends there. Times are
  formatted and floats computed by functions of \<open>tl_lib\<close>.
\<close>

section \<open>What the view takes from the standard library\<close>

text \<open>
  \<^verbatim>\<open>time.UnixMicro(t).UTC().Format(layout)\<close>; and the three float computations of the bars: the scale of a
  width to the largest total, the rounded-up scaled total, the rounded share of a severity in a bar. No
  law of them is assumed but where a lemma says so.
\<close>

record 'f tl_lib =
  lib_time :: "runes \<Rightarrow> int \<Rightarrow> runes"
  lib_one :: 'f
  lib_scale :: "int \<Rightarrow> int \<Rightarrow> 'f"
  lib_ceil :: "nat \<Rightarrow> 'f \<Rightarrow> int"
  lib_share :: "nat \<Rightarrow> nat \<Rightarrow> int \<Rightarrow> int"

text \<open>The configuration: the key lists, the bucket count (a \<^verbatim>\<open>uint\<close>), whether empty buckets are hidden, the hover colour.\<close>

record tl_conf =
  tc_keys :: keyconf
  tc_timelineKeys :: "runes list"
  tc_buckets :: "64 word"
  tc_hideEmpty :: bool
  tc_hoverSet :: bool

section \<open>The view\<close>

record timeline =
  tl_rect :: rect
  tl_buckets :: "bucket list"
  tl_visible :: "nat list"
  tl_maxTotal :: nat
  tl_cursor :: int
  tl_yOff :: int
  tl_hover :: int
  tl_jumpIdx :: int
  tl_jumpLine :: int
  tl_jumpOK :: bool
  tl_wantClose :: bool
  tl_quits :: nat
  tl_panicked :: bool

definition tl_New :: timeline where
  "tl_New = \<lparr>tl_rect = \<lparr>rect_x = 0, rect_y = 0, rect_w = 0, rect_h = 0\<rparr>, tl_buckets = [], tl_visible = [], tl_maxTotal = 0,
     tl_cursor = 0, tl_yOff = 0, tl_hover = -1, tl_jumpIdx = 0, tl_jumpLine = 0, tl_jumpOK = False, tl_wantClose = False,
     tl_quits = 0, tl_panicked = False\<rparr>"

text \<open>The quit request posted to the loop, counted.\<close>

definition requestQuit :: "timeline \<Rightarrow> timeline" where
  "requestQuit m = m\<lparr>tl_quits := tl_quits m + 1\<rparr>"

text \<open>\<open>tl_clampScroll\<close>: the tests run one after the other.\<close>

definition tl_clampScroll :: "timeline \<Rightarrow> timeline" where
  "tl_clampScroll m =
     (if tl_visible m = [] then m\<lparr>tl_yOff := 0, tl_cursor := 0\<rparr>
      else
        let h = (if rect_h (tl_rect m) \<le> 0 then 1 else rect_h (tl_rect m));
            c = (if tl_cursor m < 0 then 0 else tl_cursor m);
            c = (if c \<ge> int (length (tl_visible m)) then int (length (tl_visible m)) - 1 else c);
            y = (if c < tl_yOff m then c else tl_yOff m);
            y = (if c \<ge> y + h then c - h + 1 else y);
            y = (if y < 0 then 0 else y)
        in m\<lparr>tl_cursor := c, tl_yOff := y\<rparr>)"

definition requestJump :: "timeline \<Rightarrow> timeline" where
  "requestJump m =
     (if tl_visible m = [] then m\<lparr>tl_wantClose := True\<rparr>
      else if tl_cursor m < 0 \<or> tl_cursor m \<ge> int (length (tl_visible m)) then m\<lparr>tl_panicked := True\<rparr>
      else
        let i = tl_visible m ! nat (tl_cursor m)
        in if i \<ge> length (tl_buckets m) then m\<lparr>tl_panicked := True\<rparr>
           else
             let b = tl_buckets m ! i
             in if bk_firstLogIdx b < 0 then m\<lparr>tl_wantClose := True\<rparr>
                else m\<lparr>tl_jumpIdx := bk_firstLogIdx b, tl_jumpLine := 0, tl_jumpOK := True\<rparr>)"

definition tl_setCursor :: "int \<Rightarrow> timeline \<Rightarrow> timeline" where
  "tl_setCursor idx m = tl_clampScroll (m\<lparr>tl_cursor := idx\<rparr>)"

definition tl_SetRect :: "rect \<Rightarrow> timeline \<Rightarrow> timeline" where
  "tl_SetRect r m = tl_clampScroll (m\<lparr>tl_rect := r\<rparr>)"

definition PendingJump :: "timeline \<Rightarrow> int \<times> int \<times> bool" where
  "PendingJump m = (tl_jumpIdx m, tl_jumpLine m, tl_jumpOK m)"

definition WantsClose :: "timeline \<Rightarrow> bool" where
  "WantsClose m = tl_wantClose m"

section \<open>Opening\<close>

definition timelineBuckets :: "tl_conf \<Rightarrow> int" where
  "timelineBuckets cfg = (let n = sint (tc_buckets cfg) in if n < 1 then 1 else n)"

definition computeVisibleIndices :: "bucket list \<Rightarrow> bool \<Rightarrow> nat list" where
  "computeVisibleIndices bs hideEmpty = map fst (filter (\<lambda>(i, b). \<not> (hideEmpty \<and> bk_total b = 0)) (enumerate 0 bs))"

fun bucket_index_from :: "nat \<Rightarrow> bucket list \<Rightarrow> int \<Rightarrow> nat" where
  "bucket_index_from i [] ts = 0"
| "bucket_index_from i (b # bs) ts =
     (if bk_startMicro b \<le> ts \<and> ts < bk_endMicro b then i else bucket_index_from (i + 1) bs ts)"

definition bucketIndexForTS :: "bucket list \<Rightarrow> int \<Rightarrow> nat" where
  "bucketIndexForTS bs ts = bucket_index_from 0 bs ts"

text \<open>\<^verbatim>\<open>slices.Index\<close>.\<close>

fun slice_index :: "nat \<Rightarrow> 'a list \<Rightarrow> 'a \<Rightarrow> nat option" where
  "slice_index i [] x = None"
| "slice_index i (y # ys) x = (if y = x then Some i else slice_index (i + 1) ys x)"

text \<open>\<open>Open\<close> on what the store's methods return; a panic of \<open>Build\<close> leaves the view as it was.\<close>

definition tl_Open :: "tl_conf \<Rightarrow> int \<times> int \<Rightarrow> nat \<Rightarrow> log_meta list \<Rightarrow> int \<Rightarrow> bool \<Rightarrow> timeline \<Rightarrow> timeline" where
  "tl_Open cfg tr count metas currentTS haveCurrent m =
     (let n = timelineBuckets cfg;
          n = (if count > 0 \<and> int count < n then int count else n)
      in case Build tr count metas n of
           None \<Rightarrow> m\<lparr>tl_panicked := True\<rparr>
         | Some bs \<Rightarrow>
             let vis = computeVisibleIndices bs (tc_hideEmpty cfg);
                 c = (if haveCurrent then
                        (case slice_index 0 vis (bucketIndexForTS bs currentTS) of Some i \<Rightarrow> int i | None \<Rightarrow> 0)
                      else 0)
             in tl_clampScroll (m\<lparr>tl_buckets := bs, tl_visible := vis, tl_hover := -1,
                  tl_maxTotal := fold (\<lambda>b mx. if bk_total b > mx then bk_total b else mx) bs 0,
                  tl_cursor := c, tl_yOff := 0\<rparr>))"

definition tl_Close :: "timeline \<Rightarrow> timeline" where
  "tl_Close m = m\<lparr>tl_buckets := [], tl_visible := [], tl_maxTotal := 0, tl_cursor := 0, tl_yOff := 0,
     tl_jumpOK := False, tl_wantClose := False\<rparr>"

section \<open>Keys and mouse\<close>

definition move_by :: "(int \<Rightarrow> int) \<Rightarrow> timeline \<Rightarrow> timeline" where
  "move_by f m = tl_clampScroll (m\<lparr>tl_cursor := tl_cursor m + f (rect_h (tl_rect m))\<rparr>)"

definition bindKeyhandlersToModel :: "uiext \<Rightarrow> tl_conf \<Rightarrow> (timeline \<Rightarrow> timeline) handler" where
  "bindKeyhandlersToModel u cfg =
     (let kbs = KeyBindsFrom (tc_keys cfg) requestQuit
      in Bind u
        [kb_quit kbs,
         WithAction (\<lambda>m. tl_clampScroll (m\<lparr>tl_cursor := 0\<rparr>)) (kb_moveToTop kbs),
         WithAction (move_by (\<lambda>h. - h)) (kb_movePageUp kbs),
         WithAction (move_by (\<lambda>h. - (h sdiv 2))) (kb_moveHalfPageUp kbs),
         WithAction (move_by (\<lambda>h. - 1)) (kb_moveLineUp kbs),
         WithAction (move_by (\<lambda>h. 1)) (kb_moveLineDown kbs),
         WithAction (move_by (\<lambda>h. h sdiv 2)) (kb_moveHalfPageDown kbs),
         WithAction (move_by (\<lambda>h. h)) (kb_movePageDown kbs),
         WithAction (\<lambda>m. tl_clampScroll (m\<lparr>tl_cursor := int (length (tl_visible m)) - 1\<rparr>)) (kb_moveToBottom kbs),
         WithHint (str ''jump'') 2 (bind_of (kc_accept (tc_keys cfg)) ''jump to selected bucket'' (Some requestJump) CatThisView),
         bind_of (kc_cancel (tc_keys cfg)) ''close timeline'' (Some (\<lambda>m. m\<lparr>tl_wantClose := True\<rparr>)) CatThisView,
         WithHint (str ''close'') 3 (bind_of (tc_timelineKeys cfg) ''close timeline'' (Some (\<lambda>m. m\<lparr>tl_wantClose := True\<rparr>)) CatThisView)]
        key_New)"

definition tl_HandleKey :: "uiext \<Rightarrow> tl_conf \<Rightarrow> key_event \<Rightarrow> timeline \<Rightarrow> timeline \<times> bool" where
  "tl_HandleKey u cfg ev m = key_Run u (bindKeyhandlersToModel u cfg) ev (m\<lparr>tl_jumpOK := False, tl_wantClose := False\<rparr>)"

definition tl_OnMouseClick :: "int \<Rightarrow> timeline \<Rightarrow> timeline \<times> bool" where
  "tl_OnMouseClick y m0 =
     (let m = m0\<lparr>tl_jumpOK := False, tl_wantClose := False\<rparr>; idx = tl_yOff m + (y - rect_y (tl_rect m))
      in if idx < 0 \<or> idx \<ge> int (length (tl_visible m)) then (m, False)
         else if idx = tl_cursor m then (requestJump m, True)
         else (tl_setCursor idx m, True))"

definition tl_ClearMouseHover :: "timeline \<Rightarrow> timeline \<times> bool" where
  "tl_ClearMouseHover m = (if tl_hover m < 0 then (m, False) else (m\<lparr>tl_hover := -1\<rparr>, True))"

definition tl_OnMouseHover :: "int \<Rightarrow> timeline \<Rightarrow> timeline \<times> bool" where
  "tl_OnMouseHover y m =
     (let idx = tl_yOff m + (y - rect_y (tl_rect m))
      in if idx < 0 \<or> idx \<ge> int (length (tl_visible m)) then tl_ClearMouseHover m
         else if tl_hover m = idx then (m, False)
         else (m\<lparr>tl_hover := idx\<rparr>, True))"

section \<open>Status and drawing\<close>

definition pickLabelLayout :: "int \<Rightarrow> runes" where
  "pickLabelLayout stepMicro =
     (if stepMicro \<ge> 1000000 then str ''15:04:05''
      else if stepMicro \<ge> 1000 then str ''15:04:05.000''
      else str ''15:04:05.000000'')"

record selected_status =
  ss_Position :: int
  ss_Count :: nat
  ss_StartUTC :: runes
  ss_EndUTC :: runes
  ss_Total :: nat

definition bucket_step :: "bucket list \<Rightarrow> int" where
  "bucket_step bs = max (i64 (bk_endMicro (bs ! 0) - bk_startMicro (bs ! 0))) 1"

definition tl_Status :: "'f tl_lib \<Rightarrow> timeline \<Rightarrow> selected_status option" where
  "tl_Status F m =
     (if tl_buckets m = [] \<or> tl_cursor m < 0 \<or> tl_cursor m \<ge> int (length (tl_visible m)) then None
      else
        let i = tl_visible m ! nat (tl_cursor m)
        in if i \<ge> length (tl_buckets m) then None
           else
             let layout = pickLabelLayout (bucket_step (tl_buckets m)); b = tl_buckets m ! i
             in Some \<lparr>ss_Position = tl_cursor m + 1, ss_Count = length (tl_visible m),
                  ss_StartUTC = lib_time F layout (bk_startMicro b), ss_EndUTC = lib_time F layout (bk_endMicro b),
                  ss_Total = bk_total b\<rparr>)"

definition severityOrder :: "nat list" where
  "severityOrder = [6, 5, 4, 3, 2, 1, 0]"

text \<open>The inner loop: up to \<open>share\<close> cells of one severity, stopping when the bar is full.\<close>

definition add_share :: "int \<Rightarrow> int \<Rightarrow> nat \<Rightarrow> nat list \<Rightarrow> nat list" where
  "add_share barWidth share sev out =
     out @ replicate (nat (min share (barWidth - int (length out)))) sev"

fun cell_loop :: "'f tl_lib \<Rightarrow> bucket \<Rightarrow> int \<Rightarrow> nat list \<Rightarrow> nat list \<Rightarrow> nat list" where
  "cell_loop F b barWidth [] out = out"
| "cell_loop F b barWidth (sev # sevs) out =
     (let n = bk_counts b ! sev
      in if n = 0 then cell_loop F b barWidth sevs out
         else
           let share = lib_share F n (bk_total b) barWidth;
               share = (if share = 0 then 1 else share);
               out' = add_share barWidth share sev out
           in if int (length out) + share > barWidth then out' else cell_loop F b barWidth sevs out')"

definition cellSequence :: "'f tl_lib \<Rightarrow> bucket \<Rightarrow> 'f \<Rightarrow> int \<Rightarrow> nat list" where
  "cellSequence F b scale cellWidth =
     (if bk_total b = 0 \<or> cellWidth \<le> 0 then []
      else
        let barWidth = max (min (lib_ceil F (bk_total b) scale) cellWidth) 1
        in cell_loop F b barWidth severityOrder [])"

definition computeCellWidth :: "uiext \<Rightarrow> 'f tl_lib \<Rightarrow> int \<Rightarrow> runes \<Rightarrow> int" where
  "computeCellWidth u F contentWidth layout =
     (let cw = contentWidth - int (u_width u (lib_time F layout 0 @ [SP, 9474, SP])) in if cw < 0 then 0 else cw)"

text \<open>The cells of the bar; a style is a number, the sign of a severity the text in its cells.\<close>

fun place_bar :: "(nat \<Rightarrow> nat \<times> runes) \<Rightarrow> int \<Rightarrow> int \<Rightarrow> int \<Rightarrow> nat list \<Rightarrow> cell list" where
  "place_bar styles col y maxX [] = []"
| "place_bar styles col y maxX (sev # sevs) =
     (if col \<ge> maxX then [] else cell_at col y (snd (styles sev)) (fst (styles sev)) # place_bar styles (col + 1) y maxX sevs)"

record 'f row_opts =
  ro_layout :: runes
  ro_contentWidth :: int
  ro_scale :: 'f

definition placeRow ::
  "uiext \<Rightarrow> 'f tl_lib \<Rightarrow> (nat \<Rightarrow> nat \<times> runes) \<Rightarrow> int \<Rightarrow> int \<Rightarrow> bucket \<Rightarrow> nat \<Rightarrow> 'f row_opts \<Rightarrow> cell list" where
  "placeRow u F styles x y b labelStyle opts =
     (let labelPart = lib_time F (ro_layout opts) (bk_startMicro b) @ [SP, 9474, SP];
          cellWidth = max (ro_contentWidth opts - int (u_width u labelPart)) 0;
          maxX = x + ro_contentWidth opts;
          lab = PlaceText u x y labelPart labelStyle maxX
      in fst lab @ place_bar styles (snd lab) y maxX (cellSequence F b (ro_scale opts) cellWidth))"

text \<open>
  The rows drawn, from the top: the row's line, its visible index, whether it is selected and whether it is
  tinted, and its cells. Style 1 is the reversed label of the selected row.
\<close>

definition tl_placeOnScreen ::
  "uiext \<Rightarrow> 'f tl_lib \<Rightarrow> tl_conf \<Rightarrow> (nat \<Rightarrow> nat \<times> runes) \<Rightarrow> rect \<Rightarrow> timeline \<Rightarrow> (int \<times> nat \<times> bool \<times> bool \<times> cell list) list" where
  "tl_placeOnScreen u F cfg styles r m =
     (if tl_visible m = [] \<or> rect_w r < 1 \<or> rect_h r < 1 then []
      else
        let layout = pickLabelLayout (bucket_step (tl_buckets m));
            cellWidth = computeCellWidth u F (rect_w r) layout;
            scale = (if int (tl_maxTotal m) > cellWidth \<and> cellWidth > 0 then lib_scale F cellWidth (int (tl_maxTotal m)) else lib_one F);
            opts = \<lparr>ro_layout = layout, ro_contentWidth = rect_w r, ro_scale = scale\<rparr>;
            stop = min (tl_yOff m + rect_h r) (int (length (tl_visible m)))
        in map (\<lambda>i. (rect_y r + (int i - tl_yOff m), i, int i = tl_cursor m,
                     tc_hoverSet cfg \<and> int i = tl_hover m \<and> int i \<noteq> tl_cursor m,
                     placeRow u F styles (rect_x r) (rect_y r + (int i - tl_yOff m)) (tl_buckets m ! (tl_visible m ! i))
                       (if int i = tl_cursor m then 1 else 0) opts))
             [nat (tl_yOff m)..<nat stop])"

end
