(* ===== verification/Timeline_Correct.thy ===== *)
theory Timeline_Correct
  imports Timeline Logstore_Run
begin

text \<open>
  The timeline view keeps its cursor on a bucket and on screen, never reads out of range when the
  stores it opens are well formed, counts every log exactly once and jumps to the first log of the row.
\<close>

section \<open>The invariant\<close>

definition window_ok :: "timeline \<Rightarrow> bool" where
  "window_ok m \<longleftrightarrow>
     (if tl_visible m = [] then tl_cursor m = 0 \<and> tl_yOff m = 0
      else 0 \<le> tl_yOff m \<and> tl_yOff m \<le> tl_cursor m \<and> tl_cursor m < int (length (tl_visible m)) \<and>
        tl_cursor m < tl_yOff m + max 1 (rect_h (tl_rect m)))"

definition visible_ok :: "timeline \<Rightarrow> bool" where
  "visible_ok m \<longleftrightarrow> list_all (\<lambda>i. i < length (tl_buckets m)) (tl_visible m) \<and> sorted_wrt (<) (tl_visible m)"

definition tl_inv :: "timeline \<Rightarrow> bool" where
  "tl_inv m \<longleftrightarrow> visible_ok m \<and> window_ok m"

lemma clampScroll_frame [simp]:
  "tl_buckets (tl_clampScroll m) = tl_buckets m" "tl_visible (tl_clampScroll m) = tl_visible m"
  "tl_panicked (tl_clampScroll m) = tl_panicked m" "tl_jumpOK (tl_clampScroll m) = tl_jumpOK m"
  "tl_rect (tl_clampScroll m) = tl_rect m"
  by (simp_all add: tl_clampScroll_def Let_def)

lemma clampScroll_window: "window_ok (tl_clampScroll m)"
proof (cases "tl_visible m")
  case (Cons i rest)
  then have "int (length (tl_visible m)) > 0" by simp
  with Cons show ?thesis by (auto simp: tl_clampScroll_def window_ok_def Let_def)
qed (simp add: tl_clampScroll_def window_ok_def)

lemma clampScroll_inv [wf_intros]: "visible_ok m \<Longrightarrow> tl_inv (tl_clampScroll m)"
  using clampScroll_window by (simp add: tl_inv_def visible_ok_def)

lemma tl_inv_frame [simp]:
  "tl_inv (m\<lparr>tl_jumpOK := b\<rparr>) = tl_inv m" "tl_inv (m\<lparr>tl_wantClose := b\<rparr>) = tl_inv m"
  "tl_inv (m\<lparr>tl_quits := q\<rparr>) = tl_inv m" "tl_inv (m\<lparr>tl_panicked := b\<rparr>) = tl_inv m"
  "tl_inv (m\<lparr>tl_hover := i\<rparr>) = tl_inv m" "tl_inv (m\<lparr>tl_jumpIdx := i\<rparr>) = tl_inv m" "tl_inv (m\<lparr>tl_jumpLine := i\<rparr>) = tl_inv m"
  by (simp_all add: tl_inv_def visible_ok_def window_ok_def)

lemma visible_ok_frame [simp]:
  "visible_ok (m\<lparr>tl_cursor := c\<rparr>) = visible_ok m" "visible_ok (m\<lparr>tl_rect := r\<rparr>) = visible_ok m"
  "visible_ok (m\<lparr>tl_jumpOK := b\<rparr>) = visible_ok m" "visible_ok (m\<lparr>tl_wantClose := b\<rparr>) = visible_ok m"
  by (simp_all add: visible_ok_def)

lemma tl_inv_visible: "tl_inv m \<Longrightarrow> visible_ok m"
  by (simp add: tl_inv_def)

lemma computeVisibleIndices_ok:
  "list_all (\<lambda>i. i < length bs) (computeVisibleIndices bs hide)" "sorted_wrt (<) (computeVisibleIndices bs hide)"
proof -
  show "list_all (\<lambda>i. i < length bs) (computeVisibleIndices bs hide)"
    by (auto simp: computeVisibleIndices_def list_all_iff in_set_enumerate_eq)
  have "sorted_wrt (\<lambda>p q. fst p < fst q) (enumerate 0 bs)"
    by (auto simp: sorted_wrt_iff_nth_less nth_enumerate_eq)
  then show "sorted_wrt (<) (computeVisibleIndices bs hide)"
    by (simp add: computeVisibleIndices_def sorted_wrt_map sorted_wrt_filter)
qed

lemma requestJump_frame [simp]:
  "tl_buckets (requestJump m) = tl_buckets m" "tl_visible (requestJump m) = tl_visible m"
  "tl_cursor (requestJump m) = tl_cursor m" "tl_yOff (requestJump m) = tl_yOff m" "tl_rect (requestJump m) = tl_rect m"
  by (simp_all add: requestJump_def Let_def)

lemma requestJump_no_panic:
  assumes "tl_inv m"
  shows "tl_panicked (requestJump m) = tl_panicked m"
proof (cases "tl_visible m = []")
  case False
  with assms have c: "0 \<le> tl_cursor m" "tl_cursor m < int (length (tl_visible m))"
    by (auto simp: tl_inv_def window_ok_def)
  then have "tl_visible m ! nat (tl_cursor m) < length (tl_buckets m)"
    using assms by (simp add: tl_inv_def visible_ok_def list_all_length)
  with False c show ?thesis by (simp add: requestJump_def Let_def)
qed (simp add: requestJump_def)

section \<open>Steps\<close>

datatype ('q, 'c) tl_event =
    TlKey key_event | TlClick int | TlHover int | TlClearHover | TlRect rect
  | TlOpen "('q, 'c) store" int bool | TlClose

fun tl_step :: "uiext \<Rightarrow> tl_conf \<Rightarrow> ('q, 'c) tl_event \<Rightarrow> timeline \<Rightarrow> timeline" where
  "tl_step u cfg (TlKey ev) m = fst (tl_HandleKey u cfg ev m)"
| "tl_step u cfg (TlClick y) m = fst (tl_OnMouseClick y m)"
| "tl_step u cfg (TlHover y) m = fst (tl_OnMouseHover y m)"
| "tl_step u cfg TlClearHover m = fst (tl_ClearMouseHover m)"
| "tl_step u cfg (TlRect r) m = tl_SetRect r m"
| "tl_step u cfg (TlOpen s ts hc) m = tl_Open cfg (GetTimeRange s) (st_logCount s) (IterLogMeta s) ts hc m"
| "tl_step u cfg TlClose m = tl_Close m"

fun source_ok :: "('q, 'c) tl_event \<Rightarrow> bool" where
  "source_ok (TlOpen s ts hc) \<longleftrightarrow> store_inv s \<and> range_ok (GetTimeRange s) \<and> list_all (\<lambda>m. lm_Severity m < 7) (IterLogMeta s)"
| "source_ok _ \<longleftrightarrow> True"

lemma tl_handler_inv: "kh_inv u (bindKeyhandlersToModel u cfg)"
  by (simp add: bindKeyhandlersToModel_def Let_def Bind_inv kh_inv_New)

text \<open>Every bound action keeps a predicate that the four kinds of actions keep.\<close>

lemma tl_actions_keep:
  assumes "\<And>m. P m \<Longrightarrow> P (requestQuit m)" "\<And>m. P m \<Longrightarrow> P (requestJump m)"
    "\<And>m c. P m \<Longrightarrow> P (tl_clampScroll (m\<lparr>tl_cursor := c\<rparr>))" "\<And>m. P m \<Longrightarrow> P (m\<lparr>tl_wantClose := True\<rparr>)"
  shows "actions_keep P (bindKeyhandlersToModel u cfg)"
  by (simp add: actions_keep_def bindKeyhandlersToModel_def Bind_def Let_def key_New_def move_by_def
      WithAction_def WithHint_def bind_of_def KeyBindsFrom_def assms)

lemma tl_HandleKey_keeps:
  assumes "\<And>m. P m \<Longrightarrow> P (requestQuit m)" "\<And>m. P m \<Longrightarrow> P (requestJump m)"
    "\<And>m c. P m \<Longrightarrow> P (tl_clampScroll (m\<lparr>tl_cursor := c\<rparr>))" "\<And>m. P m \<Longrightarrow> P (m\<lparr>tl_wantClose := True\<rparr>)"
    and "P (m\<lparr>tl_jumpOK := False, tl_wantClose := False\<rparr>)"
  shows "P (fst (tl_HandleKey u cfg ev m))"
  unfolding tl_HandleKey_def by (rule key_Run_keeps [where P = P, OF tl_handler_inv tl_actions_keep assms(5)]) (fact assms)+

lemma requestJump_inv: "tl_inv m \<Longrightarrow> tl_inv (requestJump m)"
  by (simp add: requestJump_def Let_def)

lemma tl_HandleKey_inv: "tl_inv m \<Longrightarrow> tl_inv (fst (tl_HandleKey u cfg ev m))"
  by (rule tl_HandleKey_keeps) (simp_all add: requestQuit_def requestJump_inv clampScroll_inv tl_inv_visible)

lemma tl_Open_inv: "tl_inv m \<Longrightarrow> tl_inv (tl_Open cfg tr count ms ts hc m)"
  using computeVisibleIndices_ok
  by (auto simp: tl_Open_def Let_def visible_ok_def intro!: clampScroll_inv split: option.splits)

lemma tl_Close_inv: "tl_inv (tl_Close m)"
  by (simp add: tl_Close_def tl_inv_def visible_ok_def window_ok_def)

lemma tl_mouse_inv:
  "tl_inv m \<Longrightarrow> tl_inv (fst (tl_OnMouseClick y m))" "tl_inv m \<Longrightarrow> tl_inv (fst (tl_OnMouseHover y m))"
  by (simp_all add: tl_OnMouseClick_def tl_OnMouseHover_def tl_ClearMouseHover_def tl_setCursor_def Let_def requestJump_inv
      clampScroll_inv tl_inv_visible)

lemma tl_step_inv: "tl_inv m \<Longrightarrow> tl_inv (tl_step u cfg e m)"
  by (cases e) (simp_all add: tl_HandleKey_inv tl_mouse_inv tl_Open_inv tl_Close_inv tl_ClearMouseHover_def tl_SetRect_def
      clampScroll_inv tl_inv_visible)

interpretation timeline: event_machine tl_inv "tl_step u cfg" for u cfg
  by unfold_locales (rule tl_step_inv)

lemma tl_New_inv: "tl_inv tl_New"
  by (simp add: tl_New_def tl_inv_def visible_ok_def window_ok_def)

section \<open>No panic\<close>

lemma timelineBuckets_bounds: "0 < timelineBuckets cfg" "timelineBuckets cfg < 2 ^ 63"
  using sint_lt [of "tc_buckets cfg"] by (auto simp: timelineBuckets_def Let_def)

lemma Build_store:
  assumes "source_ok (TlOpen s ts hc)" "n = (if st_logCount s > 0 \<and> int (st_logCount s) < timelineBuckets cfg then int (st_logCount s) else timelineBuckets cfg)"
  shows "\<exists>bs. Build (GetTimeRange s) (st_logCount s) (IterLogMeta s) n = Some bs \<and> (st_logCount s \<noteq> 0 \<longrightarrow> log_store.built s bs) \<and>
    list_all (bucket_ok (IterLogMeta s)) bs"
proof (cases "st_logCount s = 0")
  case False
  have "0 < n" "n < 2 ^ 63" using assms(2) timelineBuckets_bounds [of cfg] False by (auto split: if_splits)
  then show ?thesis
    using log_store.Build_built [of s n] assms(1) False by (auto simp: list_all_iff log_store.built_def)
qed (simp add: Build_def)

lemma tl_step_no_panic:
  assumes "tl_inv m" "source_ok e" "\<not> tl_panicked m"
  shows "\<not> tl_panicked (tl_step u cfg e m)"
proof (cases e)
  case (TlKey ev)
  have "tl_inv (fst (tl_HandleKey u cfg ev m)) \<and> \<not> tl_panicked (fst (tl_HandleKey u cfg ev m))"
    by (rule tl_HandleKey_keeps [where P = "\<lambda>m. tl_inv m \<and> \<not> tl_panicked m"])
      (use assms in \<open>simp_all add: requestQuit_def requestJump_inv requestJump_no_panic clampScroll_inv tl_inv_visible\<close>)
  with TlKey show ?thesis by simp
next
  case (TlClick y)
  have "tl_panicked (requestJump (m\<lparr>tl_jumpOK := False, tl_wantClose := False\<rparr>)) = tl_panicked m"
    using assms(1) by (subst requestJump_no_panic) simp_all
  with assms TlClick show ?thesis
    by (simp add: tl_OnMouseClick_def Let_def tl_setCursor_def)
next
  case (TlOpen s ts hc)
  then obtain bs where "Build (GetTimeRange s) (st_logCount s) (IterLogMeta s)
      (if st_logCount s > 0 \<and> int (st_logCount s) < timelineBuckets cfg then int (st_logCount s) else timelineBuckets cfg) = Some bs"
    using Build_store [of s ts hc, OF _ refl, of cfg] assms(2) by blast
  then show ?thesis using assms(3) TlOpen by (simp add: tl_Open_def Let_def)
qed (use assms in \<open>simp_all add: tl_OnMouseHover_def tl_ClearMouseHover_def tl_SetRect_def tl_Close_def Let_def\<close>)

text \<open>
  C29: A timeline view never panics: whatever keys, clicks, hovers, resizes, opens and closes reach it, its
  cursor stays on an existing row that points at an existing bucket and inside the window, and no read goes
  out of range, as long as the stores it opens are well formed, with known severities and a time range below
  2^63 microseconds.
\<close>

theorem timeline_never_panics:
  assumes "list_all source_ok evs"
  shows "tl_inv (fold (tl_step u cfg) evs tl_New) \<and> \<not> tl_panicked (fold (tl_step u cfg) evs tl_New)"
proof -
  have "\<not> tl_panicked (fold (tl_step u cfg) evs m)" if "tl_inv m" "\<not> tl_panicked m" for m
    using assms that
  proof (induction evs arbitrary: m)
    case (Cons e evs)
    then show ?case using tl_step_no_panic [of m e u cfg] tl_step_inv [of m u cfg e] by simp
  qed simp
  moreover have "\<not> tl_panicked tl_New" by (simp add: tl_New_def)
  ultimately show ?thesis using timeline.run_inv [OF tl_New_inv] tl_New_inv by blast
qed

definition demo_logs :: "log list" where
  "demo_logs = map (\<lambda>(t, sev). \<lparr>l_data = JNil, l_metadata = \<lparr>md_id = [], md_ts = t, md_severity = sev, md_priority = 0\<rparr>\<rparr>)
     [(100, 3), (104, 5), (109, 3)]"

definition demo_tl_store :: "(gostr, gostr) store" where
  "demo_tl_store = fst (HandleLogStreamMsg demo_ext mgr_New \<lparr>sm_ID = 2, sm_Logs = demo_logs, sm_Errs = []\<rparr>
     (StartStream 3 (Clear (NewLogStore [] 2))))"

definition demo_tl_sys :: "(gostr, gostr) sys" where
  "demo_tl_sys = \<lparr>y_mgr = mgr_New, y_store = demo_tl_store, y_msgs = []\<rparr>"

definition demo_tl_conf :: tl_conf where
  "demo_tl_conf = \<lparr>tc_keys = demo_keys, tc_timelineKeys = [str ''t''], tc_buckets = 100, tc_hideEmpty = True, tc_hoverSet = True\<rparr>"

lemma demo_tl_store_eval:
  "GetTimeRange demo_tl_store = (100, 109)" "st_logCount demo_tl_store = 3" "st_earliest demo_tl_store = 100"
  "st_latest demo_tl_store = 109"
  "IterLogMeta demo_tl_store = [\<lparr>lm_Idx = 0, lm_TSMicro = 100, lm_Severity = 3\<rparr>, \<lparr>lm_Idx = 1, lm_TSMicro = 104, lm_Severity = 5\<rparr>,
     \<lparr>lm_Idx = 2, lm_TSMicro = 109, lm_Severity = 3\<rparr>]"
  by code_simp+

lemma demo_tl_reach: "reach demo_ext (sys_init [] 2) demo_tl_sys"
proof -
  let ?y0 = "sys_init [] 2 :: (gostr, gostr) sys"
  have "reach demo_ext ?y0 (?y0\<lparr>y_store := loop_event demo_ext mgr_New (EvFetch 3) (NewLogStore [] 2)\<rparr>)"
    using step_loop [of demo_ext ?y0 "EvFetch 3"] by (intro reach_step [OF reach_refl]) (simp add: sys_init_def)
  then show ?thesis
    using reach_step step_loop [of demo_ext "?y0\<lparr>y_store := loop_event demo_ext mgr_New (EvFetch 3) (NewLogStore [] 2)\<rparr>"
        "EvStream \<lparr>sm_ID = 2, sm_Logs = demo_logs, sm_Errs = []\<rparr>"]
    by (simp add: sys_init_def demo_tl_sys_def demo_tl_store_def) blast
qed

lemma demo_source_ok: "source_ok (TlOpen demo_tl_store 0 False)"
  using reach_inv [OF demo_tl_reach init_inv] by (simp add: sys_inv_def demo_tl_sys_def demo_tl_store_eval range_ok_def)

theorem timeline_never_panics_witness:
  "\<not> tl_panicked (fold (tl_step demo_ui demo_tl_conf) [TlOpen demo_tl_store 0 False, TlClick 1] tl_New)"
  using timeline_never_panics [of "[TlOpen demo_tl_store 0 False, TlClick 1]" demo_ui demo_tl_conf] demo_source_ok by simp

text \<open>
  C28: The timeline counts every log exactly once: opened on a store in a reachable state, its buckets follow each other without
  gap from the earliest to the latest log, each holds the number of logs of its time span, in total and per severity, with the
  index of the first of them, and the totals add up to the number of logs.
\<close>

theorem timeline_counts_every_log_once:
  assumes "0 < batch" "reach X (sys_init identity batch) y" "s = y_store y"
    and "st_logCount s \<noteq> 0" "range_ok (GetTimeRange s)" "list_all (\<lambda>m. lm_Severity m < 7) (IterLogMeta s)" "0 < n" "n < 2 ^ 63"
  shows "case Build (GetTimeRange s) (st_logCount s) (IterLogMeta s) n of
      None \<Rightarrow> False
    | Some bs \<Rightarrow> length bs \<le> nat n \<and> tiles (st_earliest s) (st_latest s + 1) bs \<and>
        list_all (\<lambda>b. bk_total b = length (in_bucket (IterLogMeta s) b) \<and>
          bk_counts b = map (\<lambda>sev. length (filter (\<lambda>m. lm_Severity m = sev) (in_bucket (IterLogMeta s) b))) [0..<7] \<and>
          bk_firstLogIdx b = (case in_bucket (IterLogMeta s) b of [] \<Rightarrow> -1 | m # _ \<Rightarrow> int (lm_Idx m))) bs \<and>
        sum_list (map bk_total bs) = st_logCount s"
proof -
  have "store_inv s" using reach_inv [OF assms(2) init_inv [OF assms(1)]] assms(3) by (simp add: sys_inv_def)
  from log_store.Build_built [OF this assms(4,5) _ assms(7,8)] assms(6) obtain bs where
    "Build (GetTimeRange s) (st_logCount s) (IterLogMeta s) n = Some bs" "length bs \<le> nat n" "log_store.built s bs"
    by (auto simp: list_all_iff)
  then show ?thesis
    by (simp add: log_store.built_def GetTimeRange_def bucket_ok_def [abs_def])
qed

theorem timeline_counts_every_log_once_witness:
  "case Build (100, 109) 3 (IterLogMeta demo_tl_store) 3 of None \<Rightarrow> False | Some bs \<Rightarrow> sum_list (map bk_total bs) = 3"
  using timeline_counts_every_log_once [OF _ demo_tl_reach, of demo_tl_store 3]
  by (simp add: demo_tl_sys_def demo_tl_store_eval range_ok_def split: option.splits)

section \<open>Jumps\<close>

fun not_open :: "('q, 'c) tl_event \<Rightarrow> bool" where
  "not_open (TlOpen s ts hc) \<longleftrightarrow> False"
| "not_open _ \<longleftrightarrow> True"

lemma requestQuit_buckets [simp]: "tl_buckets (requestQuit m) = tl_buckets m"
  by (simp add: requestQuit_def)

lemma tl_step_buckets:
  assumes "not_open e" "list_all P (tl_buckets m)"
  shows "list_all P (tl_buckets (tl_step u cfg e m))"
proof (cases e)
  case (TlKey ev)
  have "list_all P (tl_buckets (fst (tl_HandleKey u cfg ev m)))"
    by (rule tl_HandleKey_keeps [where P = "\<lambda>m. list_all P (tl_buckets m)"]) (use assms in simp_all)
  with TlKey show ?thesis by simp
qed (use assms in \<open>simp_all add: tl_OnMouseClick_def tl_OnMouseHover_def tl_ClearMouseHover_def tl_setCursor_def
    tl_SetRect_def tl_Close_def Let_def\<close>)

lemma tl_run_buckets:
  "list_all not_open evs \<Longrightarrow> list_all P (tl_buckets m) \<Longrightarrow> list_all P (tl_buckets (fold (tl_step u cfg) evs m))"
  by (induction evs arbitrary: m) (simp_all add: tl_step_buckets)

lemma tl_Open_buckets:
  assumes "source_ok (TlOpen s ts hc)" "list_all (bucket_ok (IterLogMeta s)) (tl_buckets m)"
  shows "list_all (bucket_ok (IterLogMeta s)) (tl_buckets (tl_step u cfg (TlOpen s ts hc) m))"
  using Build_store [OF assms(1) refl, of cfg] by (auto simp: tl_Open_def Let_def)

lemma first_of_filter:
  assumes "filter P (map f [0..<n]) = x # xs"
  shows "\<exists>i < n. x = f i \<and> P (f i) \<and> (\<forall>j < i. \<not> P (f j))"
proof -
  obtain us vs where us: "map f [0..<n] = us @ x # vs" "\<forall>y \<in> set us. \<not> P y" "P x"
    using assms by (auto simp: filter_eq_Cons_iff)
  have len: "length us < n" using arg_cong [OF us(1), of length] by simp
  have nth: "f j = (us @ x # vs) ! j" if "j < n" for j
    using that us(1) by (metis (no_types) add_0 diff_zero length_upt nth_map nth_upt)
  have "f (length us) = x" using nth [OF len] by simp
  moreover have "\<not> P (f j)" if "j < length us" for j
    using nth [of j] that len us(2) by (simp add: nth_append)
  ultimately show ?thesis using len us(3) by blast
qed

text \<open>
  Accept on a row of the timeline jumps to the first log of its time span: whatever happened since the view was opened on a
  store, the index handed to the log viewer is that of a log of the store, its timestamp lies in the span of the selected bucket,
  and no earlier log does.
\<close>

theorem timeline_jump_is_first_log_of_the_row:
  assumes "source_ok (TlOpen s ts hc)" "list_all not_open evs"
    and "m = fold (tl_step u cfg) evs (tl_step u cfg (TlOpen s ts hc) tl_New)"
    and "PendingJump (requestJump (m\<lparr>tl_jumpOK := False\<rparr>)) = (idx, line, True)"
    and "b = tl_buckets m ! (tl_visible m ! nat (tl_cursor m))" "stamp = (\<lambda>i. md_ts (e_metadata (st_logs s ! i)))"
  shows "0 \<le> idx \<and> idx < int (st_logCount s) \<and> bk_startMicro b \<le> stamp (nat idx) \<and> stamp (nat idx) < bk_endMicro b \<and>
    (\<forall>j < nat idx. \<not> (bk_startMicro b \<le> stamp j \<and> stamp j < bk_endMicro b))"
proof -
  have inv: "tl_inv m" unfolding assms(3) by (intro timeline.run_inv tl_step_inv tl_New_inv)
  have ok: "list_all (bucket_ok (IterLogMeta s)) (tl_buckets m)"
    unfolding assms(3) by (intro tl_run_buckets tl_Open_buckets assms(1,2)) (simp add: tl_New_def)
  have jump: "bk_firstLogIdx b = idx \<and> 0 \<le> idx \<and> b \<in> set (tl_buckets m)"
    using assms(4) by (auto simp: requestJump_def PendingJump_def Let_def assms(5) split: if_splits)
  then have "bucket_ok (IterLogMeta s) b" using ok by (simp add: list_all_iff)
  with jump obtain x xs where x: "in_bucket (IterLogMeta s) b = x # xs" "idx = int (lm_Idx x)"
    by (auto simp: bucket_ok_def split: list.splits)
  from first_of_filter [OF x(1)[unfolded in_bucket_def IterLogMeta_def]] x(2) show ?thesis
    by (auto simp: assms(6))
qed

theorem timeline_jump_is_first_log_of_the_row_witness:
  "\<not> (103 \<le> md_ts (e_metadata (st_logs demo_tl_store ! 0)) \<and> md_ts (e_metadata (st_logs demo_tl_store ! 0)) < 106)"
proof -
  let ?evs = "[TlRect \<lparr>rect_x = 0, rect_y = 0, rect_w = 9, rect_h = 3\<rparr>, TlClick 1] :: (gostr, gostr) tl_event list"
  let ?m = "fold (tl_step demo_ui (demo_tl_conf\<lparr>tc_buckets := 3\<rparr>)) ?evs
    (tl_step demo_ui (demo_tl_conf\<lparr>tc_buckets := 3\<rparr>) (TlOpen demo_tl_store 0 False) tl_New)"
  have m: "PendingJump (requestJump (?m\<lparr>tl_jumpOK := False\<rparr>)) = (1, 0, True)"
    "bk_startMicro (tl_buckets ?m ! (tl_visible ?m ! nat (tl_cursor ?m))) = 103"
    "bk_endMicro (tl_buckets ?m ! (tl_visible ?m ! nat (tl_cursor ?m))) = 106"
    by code_simp+
  show ?thesis
    using timeline_jump_is_first_log_of_the_row [OF demo_source_ok, of ?evs ?m demo_ui _ 1 0, OF _ refl m(1) refl refl]
    unfolding m(2,3) by simp
qed

section \<open>Unknown severities\<close>

lemma fill_bad_severity:
  assumes "m \<in> set ms" "7 \<le> lm_Severity m" "\<forall>b \<in> set bs. length (bk_counts b) = 7"
  shows "fill at ms bs = None"
  using assms
proof (induction ms arbitrary: bs)
  case (Cons m' ms)
  show ?case
  proof (cases "at (lm_TSMicro m') < 0 \<or> at (lm_TSMicro m') \<ge> int (length bs)")
    case False
    then have j: "nat (at (lm_TSMicro m')) < length bs" by auto
    show ?thesis
    proof (cases "bucket_add m' (bs ! nat (at (lm_TSMicro m')))")
      case (Some b')
      with j Cons.prems(3) have "length (bk_counts b') = 7" "lm_Severity m' < 7"
        by (auto simp: bucket_add_def split: if_splits)
      then have "m \<in> set ms" "\<forall>b \<in> set (bs[nat (at (lm_TSMicro m')) := b']). length (bk_counts b) = 7"
        using Cons.prems set_update_subset_insert [of bs _ b'] by auto
      with Cons.IH Cons.prems(2) Some False show ?thesis by (auto simp: Let_def)
    qed (use False in \<open>auto simp: Let_def\<close>)
  qed (auto simp: Let_def)
qed simp

text \<open>
  A severity the program does not know crashes the timeline: severities are decoded from a snapshot as any byte, and one
  above 6 on any log makes opening the view panic, whatever the configuration and the rest of the store.
\<close>

theorem unknown_severity_panics_the_timeline:
  assumes "i < st_logCount s" "6 < md_severity (e_metadata (st_logs s ! i))"
  shows "tl_panicked (tl_Open cfg (GetTimeRange s) (st_logCount s) (IterLogMeta s) ts hc m)"
proof -
  let ?x = "\<lparr>lm_Idx = i, lm_TSMicro = md_ts (e_metadata (st_logs s ! i)), lm_Severity = md_severity (e_metadata (st_logs s ! i))\<rparr>"
  have "?x \<in> set (IterLogMeta s)" using assms(1) by (auto simp: IterLogMeta_def)
  moreover have "7 \<le> lm_Severity ?x" using assms(2) by simp
  moreover have "st_logCount s \<noteq> 0" using assms(1) by simp
  ultimately have "Build (GetTimeRange s) (st_logCount s) (IterLogMeta s) n = None" for n
    using fill_bad_severity [of ?x "IterLogMeta s"]
    by (auto simp: Build_def empty_buckets_def bucket_new_def Let_def split: prod.splits)
  then show ?thesis by (simp add: tl_Open_def Let_def)
qed

theorem unknown_severity_panics_the_timeline_witness:
  "tl_panicked (tl_Open demo_tl_conf (5, 5) 1
     (IterLogMeta (loadLogs [demo_log\<lparr>l_metadata := (l_metadata demo_log)\<lparr>md_severity := 9\<rparr>\<rparr>] (NewLogStore [] 2 :: (gostr, gostr) store))) 0 False tl_New)"
proof -
  let ?s = "loadLogs [demo_log\<lparr>l_metadata := (l_metadata demo_log)\<lparr>md_severity := 9\<rparr>\<rparr>] (NewLogStore [] 2 :: (gostr, gostr) store)"
  have "GetTimeRange ?s = (5, 5)" "st_logCount ?s = 1" "md_severity (e_metadata (st_logs ?s ! 0)) = 9" by code_simp+
  with unknown_severity_panics_the_timeline [of 0 ?s demo_tl_conf 0 False tl_New] show ?thesis by simp
qed

section \<open>Bars and clicks\<close>

lemma length_add_share: "int (length out) \<le> w \<Longrightarrow> int (length (add_share w share sev out)) \<le> w"
  by (auto simp: add_share_def min_def)

lemma cell_loop_length:
  "int (length out) \<le> w \<Longrightarrow> int (length (cell_loop F b w sevs out)) \<le> w"
  by (induction sevs arbitrary: out) (simp_all add: Let_def length_add_share)

lemma cell_loop_hd: "out \<noteq> [] \<Longrightarrow> cell_loop F b w sevs out \<noteq> [] \<and> hd (cell_loop F b w sevs out) = hd out"
  by (induction sevs arbitrary: out) (simp_all add: Let_def add_share_def)

lemma cell_loop_first:
  assumes "\<And>n t w. 0 \<le> w \<Longrightarrow> 0 \<le> lib_share F n t w" "0 < w" "find (\<lambda>sev. bk_counts b ! sev \<noteq> 0) sevs = Some sev"
  shows "cell_loop F b w sevs [] \<noteq> [] \<and> hd (cell_loop F b w sevs []) = sev"
  using assms(3)
proof (induction sevs)
  case (Cons s' sevs)
  show ?case
  proof (cases "bk_counts b ! s' = 0")
    case False
    define share where "share = (if lib_share F (bk_counts b ! s') (bk_total b) w = 0 then 1 else lib_share F (bk_counts b ! s') (bk_total b) w)"
    have "0 < share" using assms(1) [of w "bk_counts b ! s'" "bk_total b"] assms(2) by (auto simp: share_def)
    then have "add_share w share s' [] \<noteq> [] \<and> hd (add_share w share s' []) = s'"
      using assms(2) by (simp add: add_share_def)
    moreover have "cell_loop F b w (s' # sevs) [] =
        (if share > w then add_share w share s' [] else cell_loop F b w sevs (add_share w share s' []))"
      using False by (simp add: Let_def share_def)
    ultimately show ?thesis using False Cons.prems cell_loop_hd [of "add_share w share s' []" F b w sevs] by simp
  qed (use Cons in simp)
qed simp

text \<open>
  The bar of a bucket fits its columns, is not empty when the bucket is not, and starts with the highest severity in it,
  however the floats round.
\<close>

theorem bar_fits_and_starts_with_the_worst:
  assumes "\<And>n t w. 0 \<le> w \<Longrightarrow> 0 \<le> lib_share F n t w" "bk_total b \<noteq> 0" "0 < cellWidth"
    and "find (\<lambda>sev. bk_counts b ! sev \<noteq> 0) severityOrder = Some sev"
  shows "int (length (cellSequence F b scale cellWidth)) \<le> cellWidth \<and> cellSequence F b scale cellWidth \<noteq> [] \<and>
    hd (cellSequence F b scale cellWidth) = sev"
proof -
  define w where "w = max (min (lib_ceil F (bk_total b) scale) cellWidth) 1"
  have w: "0 < w" "w \<le> cellWidth" using assms(3) by (auto simp: w_def)
  have "cellSequence F b scale cellWidth = cell_loop F b w severityOrder []"
    using assms(2,3) by (simp add: cellSequence_def Let_def w_def)
  then show ?thesis
    using cell_loop_first [OF assms(1) w(1) assms(4)] cell_loop_length [of "[]" w F b severityOrder] w by simp
qed

text \<open>Exact fractions in place of the floats.\<close>

definition demo_tl_lib :: "(int \<times> int) tl_lib" where
  "demo_tl_lib = \<lparr>lib_time = (\<lambda>layout t. layout), lib_one = (1, 1), lib_scale = (\<lambda>a b. (a, b)),
     lib_ceil = (\<lambda>n s. - ((- (int n * fst s)) div snd s)), lib_share = (\<lambda>n t w. (2 * int n * w + int t) div (2 * int t))\<rparr>"

theorem bar_fits_and_starts_with_the_worst_witness:
  "hd (cellSequence demo_tl_lib \<lparr>bk_startMicro = 0, bk_endMicro = 1, bk_counts = [0, 0, 0, 99, 0, 1, 0], bk_firstLogIdx = 0, bk_total = 100\<rparr> (1, 10) 8) = 5"
proof -
  have share: "0 \<le> lib_share demo_tl_lib n t w" if "0 \<le> w" for n t w
    using that by (cases "t = 0") (simp_all add: demo_tl_lib_def pos_imp_zdiv_nonneg_iff)
  show ?thesis
    using share bar_fits_and_starts_with_the_worst [of demo_tl_lib \<open>\<lparr>bk_startMicro = 0, bk_endMicro = 1, bk_counts = [0, 0, 0, 99, 0, 1, 0],
        bk_firstLogIdx = 0, bk_total = 100\<rparr>\<close> 8 5 "(1, 10)"]
    by (simp add: severityOrder_def)
qed

text \<open>
  A click on a row of the timeline hits the row that is drawn there.
\<close>

theorem timeline_click_selects_the_drawn_row:
  assumes "tl_inv m" "(y, i, sel, tint, cells) \<in> set (tl_placeOnScreen u F cfg styles (tl_rect m) m)" "\<not> sel"
  shows "tl_cursor (fst (tl_OnMouseClick y m)) = int i \<and> snd (tl_OnMouseClick y m)"
proof -
  have i: "i < length (tl_visible m)" "y = rect_y (tl_rect m) + (int i - tl_yOff m)" "sel = (int i = tl_cursor m)"
    using assms(2) by (auto simp: tl_placeOnScreen_def Let_def split: if_splits)
  then have "tl_cursor (tl_clampScroll (m'\<lparr>tl_cursor := int i\<rparr>)) = int i" if "tl_visible m' = tl_visible m" for m'
    using that by (auto simp: tl_clampScroll_def Let_def)
  with i assms(3) show ?thesis by (auto simp: tl_OnMouseClick_def tl_setCursor_def Let_def)
qed

theorem timeline_click_selects_the_drawn_row_witness:
  "snd (tl_OnMouseClick 1 (tl_SetRect \<lparr>rect_x = 0, rect_y = 0, rect_w = 9, rect_h = 3\<rparr>
     (tl_step demo_ui (demo_tl_conf\<lparr>tc_buckets := 3\<rparr>) (TlOpen demo_tl_store 0 False) tl_New)))"
proof -
  let ?m = "tl_SetRect \<lparr>rect_x = 0, rect_y = 0, rect_w = 9, rect_h = 3\<rparr>
     (tl_step demo_ui (demo_tl_conf\<lparr>tc_buckets := 3\<rparr>) (TlOpen demo_tl_store 0 False) tl_New)"
  have inv: "tl_inv ?m"
    unfolding tl_SetRect_def by (intro clampScroll_inv) (simp add: tl_inv_visible tl_step_inv tl_New_inv del: tl_step.simps)
  have "map (\<lambda>(y, i, sel, tint, cells). (y, i, sel)) (tl_placeOnScreen demo_ui demo_tl_lib demo_tl_conf (\<lambda>s. (s, [SP])) (tl_rect ?m) ?m) =
      [(0, 0, True), (1, 1, False), (2, 2, False)]"
    by code_simp
  then have "(1, 1, False) \<in> set (map (\<lambda>(y, i, sel, tint, cells). (y, i, sel))
      (tl_placeOnScreen demo_ui demo_tl_lib demo_tl_conf (\<lambda>s. (s, [SP])) (tl_rect ?m) ?m))" by simp
  then obtain tint cells where
    "(1, 1, False, tint, cells) \<in> set (tl_placeOnScreen demo_ui demo_tl_lib demo_tl_conf (\<lambda>s. (s, [SP])) (tl_rect ?m) ?m)"
    by auto
  from timeline_click_selects_the_drawn_row [OF inv this] show ?thesis by simp
qed

end
