(* ===== verification/Jsonlex.thy ===== *)
theory Jsonlex
  imports Log_Search "HOL-Library.While_Combinator" "HOL-Library.Product_Lexorder"
begin

text \<open>
  Tokens of a rendered log and the spans painted on its lines: \<^verbatim>\<open>jsonlex.go\<close>, \<^verbatim>\<open>colorrule.go\<close> and the token
  cursor of \<^verbatim>\<open>render.go\<close>, of \<^verbatim>\<open>internal/ui/components/logviewer\<close>. A byte is a number below 256; columns are in
  display width, and the width of a one-rune string is the parameter \<open>rw\<close> (\<^verbatim>\<open>uniseg.StringWidth\<close>). The lexer's loop is
  a \<open>while_option\<close>, so that its termination is a theorem.
\<close>

section \<open>UTF-8\<close>

definition cont :: "nat \<Rightarrow> bool" where "cont c \<longleftrightarrow> 128 \<le> c \<and> c \<le> 191"

text \<open>The range of the second byte of a longer encoding.\<close>

definition second_ok :: "nat \<Rightarrow> nat \<Rightarrow> bool" where
  "second_ok a b \<longleftrightarrow> (if a = 224 then 160 else if a = 240 then 144 else 128) \<le> b \<and>
     b \<le> (if a = 237 then 159 else if a = 244 then 143 else 191)"

text \<open>\<^verbatim>\<open>utf8.DecodeRune\<close>: the rune and its size in bytes, U+FFFD of size 1 on an invalid encoding.\<close>

definition DecodeRune :: "gostr \<Rightarrow> rune \<times> nat" where
  "DecodeRune bs =
     (case bs of
        [] \<Rightarrow> (65533, 0)
      | a # r \<Rightarrow>
          if a < 128 then (a, 1)
          else case r of
            [] \<Rightarrow> (65533, 1)
          | b # r2 \<Rightarrow>
              if 194 \<le> a \<and> a \<le> 223 then (if cont b then ((a - 192) * 64 + (b - 128), 2) else (65533, 1))
              else if a < 224 \<or> 244 < a then (65533, 1)
              else if \<not> second_ok a b then (65533, 1)
              else case r2 of
                [] \<Rightarrow> (65533, 1)
              | c # r3 \<Rightarrow>
                  if \<not> cont c then (65533, 1)
                  else if a < 240 then ((a - 224) * 4096 + (b - 128) * 64 + (c - 128), 3)
                  else case r3 of
                    [] \<Rightarrow> (65533, 1)
                  | d # _ \<Rightarrow> if cont d then ((a - 240) * 262144 + (b - 128) * 4096 + (c - 128) * 64 + (d - 128), 4) else (65533, 1))"

definition runeWidthAt :: "(rune \<Rightarrow> nat) \<Rightarrow> gostr \<Rightarrow> nat \<Rightarrow> nat \<times> nat" where
  "runeWidthAt rw b i =
     (if b ! i < 128 then (if b ! i < 32 \<or> b ! i = 127 then (0, 1) else (1, 1))
      else case DecodeRune (drop i b) of (r, n) \<Rightarrow> (rw r, n))"

section \<open>Tokens\<close>

datatype token_type = TokenKey | TokenString | TokenNumber | TokenBool | TokenNull | TokenSyntax

record token =
  t_type :: token_type
  t_start :: int
  t_end :: int
  t_text :: gostr

text \<open>The variables of \<open>tokenize\<close>; the local \<^verbatim>\<open>afterKey\<close> is written and never read.\<close>

record lex =
  lx_lines :: "token list list"
  lx_cur :: "token list"
  lx_base :: int
  lx_col :: int
  lx_stack :: gostr
  lx_afterKey :: bool

definition slice :: "gostr \<Rightarrow> nat \<Rightarrow> nat \<Rightarrow> gostr" where
  "slice b from to = take (to - from) (drop from b)"

definition lx_emit :: "gostr \<Rightarrow> token_type \<Rightarrow> nat \<Rightarrow> nat \<Rightarrow> int \<Rightarrow> int \<Rightarrow> lex \<Rightarrow> lex" where
  "lx_emit b ty sb eb sc ec st =
     st\<lparr>lx_cur := lx_cur st @ [\<lparr>t_type = ty, t_start = sc - lx_base st, t_end = ec - lx_base st, t_text = slice b sb eb\<rparr>]\<rparr>"

definition new_line :: "lex \<Rightarrow> lex" where
  "new_line st = st\<lparr>lx_lines := lx_lines st @ [lx_cur st], lx_cur := [], lx_base := lx_col st\<rparr>"

definition add_col :: "nat \<Rightarrow> lex \<Rightarrow> lex" where
  "add_col w st = st\<lparr>lx_col := lx_col st + int w\<rparr>"

text \<open>\<open>isKeyString\<close> on the bytes from position \<open>i\<close> on.\<close>

fun isKeyString :: "gostr \<Rightarrow> bool" where
  "isKeyString [] = False"
| "isKeyString (c # cs) = (if c = 58 then True else if c \<noteq> 32 \<and> c \<noteq> 9 then False else isKeyString cs)"

definition isNumberChar :: "nat \<Rightarrow> bool" where
  "isNumberChar ch \<longleftrightarrow> (48 \<le> ch \<and> ch \<le> 57) \<or> ch = 46 \<or> ch = 101 \<or> ch = 69 \<or> ch = 43 \<or> ch = 45"

lemma DecodeRune_size: "bs \<noteq> [] \<Longrightarrow> 0 < snd (DecodeRune bs) \<and> snd (DecodeRune bs) \<le> length bs"
  by (auto simp: DecodeRune_def split: list.splits)

lemma runeWidthAt_size: "i < length b \<Longrightarrow> 0 < snd (runeWidthAt rw b i) \<and> i + snd (runeWidthAt rw b i) \<le> length b"
  using DecodeRune_size [of "drop i b"] by (auto simp: runeWidthAt_def split: prod.splits)

text \<open>A rune shortens what is left to read, as the loops need.\<close>

lemma rune_advance:
  assumes "i < length b" "j \<le> i"
  shows "length b - (i + snd (runeWidthAt rw b i)) < length b - j"
  using runeWidthAt_size [OF assms(1), of rw] assms by linarith

text \<open>
  The loop inside a string literal, from behind the opening quote: the position where it stops, the start of the
  token piece on the current line, and the state.
\<close>

function lex_string :: "(rune \<Rightarrow> nat) \<Rightarrow> gostr \<Rightarrow> nat \<Rightarrow> nat \<Rightarrow> int \<Rightarrow> lex \<Rightarrow> nat \<times> nat \<times> int \<times> lex" where
  "lex_string rw b i sb sc st =
     (if i < length b \<and> b ! i \<noteq> 34 then
        if b ! i = NL then
          let st1 = new_line (lx_emit b TokenString sb i sc (lx_col st) st)
          in lex_string rw b (i + 1) (i + 1) (lx_col st1) st1
        else if b ! i = 92 then
          let st1 = add_col 1 st; i1 = i + 1
          in if i1 \<ge> length b \<or> b ! i1 = NL then lex_string rw b i1 sb sc st1
             else lex_string rw b (i1 + snd (runeWidthAt rw b i1)) sb sc (add_col (fst (runeWidthAt rw b i1)) st1)
        else lex_string rw b (i + snd (runeWidthAt rw b i)) sb sc (add_col (fst (runeWidthAt rw b i)) st)
      else (i, sb, sc, st))"
  by pat_completeness auto
termination
  by (relation "measure (\<lambda>(rw, b, i, sb, sc, st). length b - i)") (use rune_advance [of "Suc _"] in \<open>simp_all add: rune_advance\<close>)

declare lex_string.simps [simp del]

function skip_number :: "gostr \<Rightarrow> nat \<Rightarrow> nat" where
  "skip_number b i = (if i < length b \<and> isNumberChar (b ! i) then skip_number b (i + 1) else i)"
  by pat_completeness auto
termination by (relation "measure (\<lambda>(b, i). length b - i)") auto

declare skip_number.simps [simp del]

text \<open>A structural byte, of width 1.\<close>

definition lex_syntax :: "gostr \<Rightarrow> nat \<Rightarrow> lex \<Rightarrow> lex" where
  "lex_syntax b i st = (let st1 = add_col 1 st in lx_emit b TokenSyntax i (i + 1) (lx_col st) (lx_col st1) st1)"

text \<open>A literal of \<open>n\<close> bytes, or a byte of width 1 without token.\<close>

definition lex_word :: "gostr \<Rightarrow> nat \<Rightarrow> nat \<Rightarrow> token_type \<Rightarrow> lex \<Rightarrow> nat \<times> lex" where
  "lex_word b i n ty st = (let st1 = add_col n st in (i + n, lx_emit b ty i (i + n) (lx_col st) (lx_col st1) st1))"

text \<open>One round of the main loop.\<close>

definition lex_step :: "(rune \<Rightarrow> nat) \<Rightarrow> gostr \<Rightarrow> nat \<times> lex \<Rightarrow> nat \<times> lex" where
  "lex_step rw b p =
     (case p of (i, st) \<Rightarrow>
        let ch = b ! i in
        if ch = NL then (i + 1, new_line st)
        else if ch = 123 \<or> ch = 91 then
          let st1 = lex_syntax b i st in (i + 1, st1\<lparr>lx_stack := lx_stack st1 @ [ch]\<rparr>)
        else if ch = 125 \<or> ch = 93 then
          let st1 = lex_syntax b i st in (i + 1, st1\<lparr>lx_stack := butlast (lx_stack st1), lx_afterKey := False\<rparr>)
        else if ch = 58 \<or> ch = 44 then (i + 1, (lex_syntax b i st)\<lparr>lx_afterKey := False\<rparr>)
        else if ch = 34 then
          (case lex_string rw b (i + 1) i (lx_col st) (add_col 1 st) of (j, sb, sc, st1) \<Rightarrow>
             let st2 = (if j < length b then add_col 1 st1 else st1);
                 j2 = (if j < length b then j + 1 else j);
                 inObject = (lx_stack st2 \<noteq> [] \<and> last (lx_stack st2) = 123)
             in if inObject \<and> isKeyString (drop j2 b)
                then (j2, (lx_emit b TokenKey sb j2 sc (lx_col st2) st2)\<lparr>lx_afterKey := True\<rparr>)
                else (j2, lx_emit b TokenString sb j2 sc (lx_col st2) st2))
        else if ch = 116 \<or> ch = 102 then
          (if i + 4 \<le> length b \<and> slice b i (i + 4) = str ''true'' then lex_word b i 4 TokenBool st
           else if i + 5 \<le> length b \<and> slice b i (i + 5) = str ''false'' then lex_word b i 5 TokenBool st
           else (i + 1, add_col 1 st))
        else if ch = 110 then
          (if i + 4 \<le> length b \<and> slice b i (i + 4) = str ''null'' then lex_word b i 4 TokenNull st
           else (i + 1, add_col 1 st))
        else if ch = 45 \<or> 48 \<le> ch \<and> ch \<le> 57 then
          lex_word b i (skip_number b (i + 1) - i) TokenNumber st
        else (i + snd (runeWidthAt rw b i), add_col (fst (runeWidthAt rw b i)) st))"

definition lex_init :: lex where
  "lex_init = \<lparr>lx_lines = [], lx_cur = [], lx_base = 0, lx_col = 0, lx_stack = [], lx_afterKey = False\<rparr>"

text \<open>\<open>None\<close> is a loop that does not end.\<close>

definition tokenize :: "(rune \<Rightarrow> nat) \<Rightarrow> gostr \<Rightarrow> token list list option" where
  "tokenize rw b =
     (if b = [] then Some [[]]
      else map_option (\<lambda>(i, st). lx_lines st @ [lx_cur st])
             (while_option (\<lambda>(i, st). i < length b) (lex_step rw b) (0, lex_init)))"

section \<open>Key paths\<close>

definition unquoteKey :: "gostr \<Rightarrow> gostr" where
  "unquoteKey s = (if length s \<ge> 2 \<and> s ! 0 = 34 \<and> s ! (length s - 1) = 34 then take (length s - 2) (drop 1 s) else s)"

text \<open>The first key of a line and its column.\<close>

definition findKeyToken :: "token list \<Rightarrow> (token \<times> int) option" where
  "findKeyToken ts = map_option (\<lambda>t. (t, t_start t)) (find (\<lambda>t. t_type t = TokenKey) ts)"

text \<open>The upward search for the key of the cursor line; the lines come nearest first, the first is the cursor's.\<close>

fun key_line :: "bool \<Rightarrow> token list list \<Rightarrow> nat \<Rightarrow> nat option" where
  "key_line cursorLine [] k = None"
| "key_line cursorLine (ts # rest) k =
     (if findKeyToken ts \<noteq> None then Some k
      else if \<not> cursorLine \<and> list_ex (\<lambda>t. t_type t \<noteq> TokenString) ts then None
      else key_line False rest (k + 1))"

fun parent_keys :: "int \<Rightarrow> token list list \<Rightarrow> gostr list" where
  "parent_keys indent [] = []"
| "parent_keys indent (ts # rest) =
     (case findKeyToken ts of
        None \<Rightarrow> parent_keys indent rest
      | Some (tok, pi) \<Rightarrow> if pi < indent then unquoteKey (t_text tok) # parent_keys pi rest else parent_keys indent rest)"

definition extractKeyPath :: "token list list \<Rightarrow> int \<Rightarrow> gostr list" where
  "extractKeyPath lines cursorLine =
     (if cursorLine < 0 \<or> cursorLine \<ge> int (length lines) then []
      else
        let up = rev (take (nat cursorLine + 1) lines)
        in case key_line True up 0 of
             None \<Rightarrow> []
           | Some k \<Rightarrow>
               (case findKeyToken (up ! k) of
                  None \<Rightarrow> []
                | Some (tok, indent) \<Rightarrow> rev (unquoteKey (t_text tok) # parent_keys indent (drop (k + 1) up))))"

section \<open>The token under a column\<close>

text \<open>\<open>tokenCursor\<close>: the tokens not left behind yet. \<open>tc_at\<close> gives the covering token and the advanced cursor.\<close>

definition tc_at :: "int \<Rightarrow> token list \<Rightarrow> token option \<times> token list" where
  "tc_at col ts =
     (let rest = dropWhile (\<lambda>t. t_end t \<le> col) ts
      in (case rest of t # _ \<Rightarrow> if col \<ge> t_start t then Some t else None | [] \<Rightarrow> None, rest))"

text \<open>The queries of one line, in order.\<close>

fun tc_run :: "int list \<Rightarrow> token list \<Rightarrow> token option list" where
  "tc_run [] ts = []"
| "tc_run (c # cs) ts = (case tc_at c ts of (r, ts') \<Rightarrow> r # tc_run cs ts')"

text \<open>\<open>cursorRange\<close>: the key of an expanded line, or the columns from the first to the last visible grapheme.\<close>

function runes_of :: "gostr \<Rightarrow> runes" where
  "runes_of bs = (if bs = [] then [] else fst (DecodeRune bs) # runes_of (drop (snd (DecodeRune bs)) bs))"
  by pat_completeness auto
termination
  by (relation "measure length") (auto simp: DecodeRune_size)

declare runes_of.simps [simp del]

fun visible_range :: "(gostr \<times> nat) list \<Rightarrow> int \<Rightarrow> int \<Rightarrow> int \<Rightarrow> int \<times> int" where
  "visible_range [] col s e = (s, e)"
| "visible_range ((g, w) # gs) col s e =
     (if list_all is_space (runes_of g) then visible_range gs (col + int w) s e
      else visible_range gs (col + int w) (if s = -1 then col else s) (col + int w))"

definition cursorRange :: "('q, 'c) ext \<Rightarrow> gostr \<Rightarrow> token list \<Rightarrow> bool \<Rightarrow> int \<times> int" where
  "cursorRange X line tokens expanded =
     (case (if expanded then find (\<lambda>t. t_type t = TokenKey) tokens else None) of
        Some t \<Rightarrow> (t_start t, t_end t)
      | None \<Rightarrow> visible_range (x_clusters X line) 0 (-1) (-1))"

section \<open>Color rules\<close>

record color_rule =
  cr_match :: gostr
  cr_fg :: "nat option"
  cr_bg :: "nat option"

record raw_hit =
  rh_pattern :: nat
  rh_start :: nat
  rh_end :: nat

record match_span =
  sp_start :: nat
  sp_end :: nat
  sp_style :: "nat option \<times> nat option"

fun upsert :: "color_rule \<Rightarrow> color_rule list \<Rightarrow> color_rule list" where
  "upsert r [] = [r]"
| "upsert r (o' # os) = (if cr_match o' = cr_match r then r # os else o' # upsert r os)"

definition resolveColorRules :: "color_rule list \<Rightarrow> color_rule list \<Rightarrow> bool \<Rightarrow> color_rule list" where
  "resolveColorRules defaults extras includeDefaults =
     filter (\<lambda>r. \<not> (cr_fg r = None \<and> cr_bg r = None))
       (fold upsert extras (fold upsert (if includeDefaults then defaults else []) []))"

text \<open>An engine is its rules; \<open>hits\<close> are the overlapping matches of the Aho-Corasick library, as byte offsets.\<close>

fun sweep :: "color_rule list \<Rightarrow> int \<Rightarrow> raw_hit list \<Rightarrow> match_span list" where
  "sweep rules nextStart [] = []"
| "sweep rules nextStart (h # hs) =
     (if int (rh_start h) < nextStart then sweep rules nextStart hs
      else \<lparr>sp_start = rh_start h, sp_end = rh_end h, sp_style = (cr_fg (rules ! rh_pattern h), cr_bg (rules ! rh_pattern h))\<rparr>
             # sweep rules (int (rh_end h)) hs)"

definition hit_key :: "raw_hit \<Rightarrow> nat \<times> int \<times> nat" where
  "hit_key h = (rh_start h, - (int (rh_end h) - int (rh_start h)), rh_pattern h)"

definition scan :: "color_rule list \<Rightarrow> raw_hit list \<Rightarrow> gostr \<Rightarrow> colMap \<Rightarrow> match_span list" where
  "scan rules hits line cm =
     (if rules = [] \<or> line = [] then []
      else sweep rules (-1) (sort_key hit_key
             (map (\<lambda>h. h\<lparr>rh_start := MapByte cm (rh_start h), rh_end := MapByte cm (rh_end h)\<rparr>) hits)))"

end
