(* ===== verification/Jsonlex_Correct.thy ===== *)
theory Jsonlex_Correct
  imports Jsonlex
begin

text \<open>
  The lexer returns on every input and yields one list of tokens per line, each in ascending, disjoint columns,
  which is what the token cursor of the renderer needs to find the token of a column without searching. Colour
  spans are disjoint.
\<close>

section \<open>The lexer's invariant\<close>

definition newlines :: "gostr \<Rightarrow> nat" where
  "newlines b = length (filter (\<lambda>c. c = NL) b)"

text \<open>Tokens of a line up to column \<open>c\<close>: ascending and disjoint.\<close>

fun line_ok :: "int \<Rightarrow> token list \<Rightarrow> int \<Rightarrow> bool" where
  "line_ok lo [] hi \<longleftrightarrow> lo \<le> hi"
| "line_ok lo (t # ts) hi \<longleftrightarrow> lo \<le> t_start t \<and> t_start t \<le> t_end t \<and> line_ok (t_end t) ts hi"

definition line_done :: "token list \<Rightarrow> bool" where
  "line_done ts \<longleftrightarrow> (\<exists>hi. line_ok 0 ts hi)"

definition lex_inv :: "gostr \<Rightarrow> nat \<Rightarrow> lex \<Rightarrow> bool" where
  "lex_inv b i st \<longleftrightarrow> i \<le> length b \<and> length (lx_lines st) = newlines (take i b) \<and>
     lx_base st \<le> lx_col st \<and> line_ok 0 (lx_cur st) (lx_col st - lx_base st) \<and> list_all line_done (lx_lines st)"

lemma line_ok_le: "line_ok lo ts hi \<Longrightarrow> lo \<le> hi"
  by (induction lo ts hi rule: line_ok.induct) auto

lemma line_ok_mono: "line_ok lo ts hi \<Longrightarrow> hi \<le> hi' \<Longrightarrow> line_ok lo ts hi'"
  by (induction lo ts hi rule: line_ok.induct) auto

lemma line_ok_snoc: "line_ok lo (ts @ [t]) hi \<longleftrightarrow> line_ok lo ts (t_start t) \<and> t_start t \<le> t_end t \<and> t_end t \<le> hi"
  by (induction ts arbitrary: lo) auto

lemma newlines_take_add:
  assumes "i + n \<le> length b" "NL \<notin> set (take n (drop i b))"
  shows "newlines (take (i + n) b) = newlines (take i b)"
  using assms by (auto simp: newlines_def take_add filter_empty_conv)

lemma newlines_take_Suc: "i < length b \<Longrightarrow> newlines (take (Suc i) b) = (if b ! i = NL then Suc (newlines (take i b)) else newlines (take i b))"
  by (simp add: newlines_def take_Suc_conv_app_nth)

lemma second_ok_ge: "second_ok a b \<Longrightarrow> 128 \<le> b"
  by (auto simp: second_ok_def split: if_splits)

lemma DecodeRune_no_NL: "hd bs \<noteq> NL \<Longrightarrow> NL \<notin> set (take (snd (DecodeRune bs)) bs)"
  by (auto simp: DecodeRune_def cont_def dest: second_ok_ge split: list.splits)

lemma runeWidthAt_no_NL:
  assumes "i < length b" "b ! i \<noteq> NL"
  shows "NL \<notin> set (take (snd (runeWidthAt rw b i)) (drop i b))"
proof (cases "b ! i < 128")
  case True
  then have "snd (runeWidthAt rw b i) = 1" by (simp add: runeWidthAt_def)
  then show ?thesis using assms by (auto simp: take_Suc hd_drop_conv_nth)
next
  case False
  then have "snd (runeWidthAt rw b i) = snd (DecodeRune (drop i b))" by (simp add: runeWidthAt_def split: prod.splits)
  then show ?thesis using DecodeRune_no_NL [of "drop i b"] assms by (simp add: hd_drop_conv_nth)
qed

text \<open>The steps the branches are made of.\<close>

lemma inv_skip: "lex_inv b i st \<Longrightarrow> i + n \<le> length b \<Longrightarrow> NL \<notin> set (take n (drop i b)) \<Longrightarrow> lex_inv b (i + n) (add_col w st)"
  by (auto simp: lex_inv_def add_col_def newlines_take_add elim: line_ok_mono)

lemma inv_rune:
  assumes "lex_inv b i st" "i < length b" "b ! i \<noteq> NL"
  shows "lex_inv b (i + snd (runeWidthAt rw b i)) (add_col w st)"
  using assms runeWidthAt_size [of i b rw] runeWidthAt_no_NL [of i b rw] by (intro inv_skip) auto

lemma inv_byte: "lex_inv b i st \<Longrightarrow> i < length b \<Longrightarrow> b ! i \<noteq> NL \<Longrightarrow> lex_inv b (Suc i) (add_col w st)"
  using inv_skip [of b i st 1 w] by (auto simp: take_Suc hd_drop_conv_nth)

lemma inv_new_line: "lex_inv b i st \<Longrightarrow> i < length b \<Longrightarrow> b ! i = NL \<Longrightarrow> lex_inv b (Suc i) (new_line st)"
  by (auto simp: lex_inv_def new_line_def newlines_take_Suc line_done_def)

text \<open>A token may start where the tokens of the line end, and end at the column reached.\<close>

definition may_start :: "int \<Rightarrow> lex \<Rightarrow> bool" where
  "may_start sc st \<longleftrightarrow> line_ok 0 (lx_cur st) (sc - lx_base st) \<and> sc \<le> lx_col st"

lemma inv_emit:
  "lex_inv b i st \<Longrightarrow> may_start sc st \<Longrightarrow> lex_inv b i (lx_emit b' ty sb eb sc (lx_col st) st)"
  by (simp add: lex_inv_def lx_emit_def line_ok_snoc may_start_def)

lemma may_start_col: "lex_inv b i st \<Longrightarrow> may_start (lx_col st) (add_col w st)"
  by (simp add: may_start_def lex_inv_def add_col_def)

lemma may_start_add: "may_start sc st \<Longrightarrow> may_start sc (add_col w st)"
  by (simp add: may_start_def add_col_def)

lemma add_col_simps [simp]: "lx_col (add_col w st) = lx_col st + int w" "lx_stack (add_col w st) = lx_stack st"
  by (simp_all add: add_col_def)

lemma inv_frame [simp]:
  "lex_inv b i (st\<lparr>lx_stack := s\<rparr>) = lex_inv b i st" "lex_inv b i (st\<lparr>lx_afterKey := a\<rparr>) = lex_inv b i st"
  by (simp_all add: lex_inv_def)

lemma lex_string_inv:
  assumes "lex_inv b i st" "may_start sc st" "lex_string rw b i sb sc st = (j, sb', sc', st')"
  shows "lex_inv b j st' \<and> may_start sc' st' \<and> i \<le> j \<and> (j < length b \<longrightarrow> b ! j = 34)"
  using assms
proof (induction rw b i sb sc st rule: lex_string.induct)
  case (1 rw b i sb sc st)
  show ?case
  proof (cases "i < length b \<and> b ! i \<noteq> 34")
    case False
    then have "lex_string rw b i sb sc st = (i, sb, sc, st)" by (subst lex_string.simps, rule if_not_P)
    with "1.prems" False show ?thesis by simp
  next
    case go: True
    show ?thesis
    proof (cases "b ! i = NL")
      case True
      let ?s = "new_line (lx_emit b TokenString sb i sc (lx_col st) st)"
      have "lex_inv b (i + 1) ?s" using "1.prems"(1,2) go True by (simp add: inv_new_line inv_emit)
      moreover have "may_start (lx_col ?s) ?s" by (simp add: may_start_def new_line_def)
      moreover have "lex_string rw b (i + 1) (i + 1) (lx_col ?s) ?s = (j, sb', sc', st')"
        using "1.prems"(3) go True by (simp add: lex_string.simps [of rw b i] Let_def)
      ultimately show ?thesis using "1.IH"(1) [OF go True refl] by auto
    next
      case nl: False
      show ?thesis
      proof (cases "b ! i = 92")
        case esc: True
        have one: "lex_inv b (i + 1) (add_col 1 st)" "may_start sc (add_col 1 st)"
          using "1.prems"(1,2) go nl by (simp_all add: inv_byte may_start_add)
        show ?thesis
        proof (cases "i + 1 \<ge> length b \<or> b ! (i + 1) = NL")
          case True
          then have "lex_string rw b (i + 1) sb sc (add_col 1 st) = (j, sb', sc', st')"
            using "1.prems"(3) go nl esc by (auto simp: lex_string.simps [of rw b i] Let_def)
          then show ?thesis using "1.IH"(2) [OF go nl esc refl refl True one] by auto
        next
          case False
          let ?r = "runeWidthAt rw b (i + 1)"
          have "lex_string rw b (i + 1 + snd ?r) sb sc (add_col (fst ?r) (add_col 1 st)) = (j, sb', sc', st')"
            using "1.prems"(3) go nl esc False by (auto simp: lex_string.simps [of rw b i] Let_def)
          moreover have "lex_inv b (i + 1 + snd ?r) (add_col (fst ?r) (add_col 1 st))"
            using one(1) False by (intro inv_rune) auto
          ultimately show ?thesis
            using "1.IH"(3) [OF go nl esc refl refl False] may_start_add [OF one(2)] by auto
        qed
      next
        case False
        let ?r = "runeWidthAt rw b i"
        have "lex_string rw b (i + snd ?r) sb sc (add_col (fst ?r) st) = (j, sb', sc', st')"
          using "1.prems"(3) go nl False by (simp add: lex_string.simps [of rw b i] Let_def)
        moreover have "lex_inv b (i + snd ?r) (add_col (fst ?r) st)"
          using "1.prems"(1) go nl by (intro inv_rune) auto
        ultimately show ?thesis
          using "1.IH"(4) [OF go nl False] may_start_add [OF "1.prems"(2)] by auto
      qed
    qed
  qed
qed

lemma skip_number_props:
  "i \<le> length b \<Longrightarrow> i \<le> skip_number b i \<and> skip_number b i \<le> length b \<and> (\<forall>k. i \<le> k \<and> k < skip_number b i \<longrightarrow> isNumberChar (b ! k))"
proof (induction b i rule: skip_number.induct)
  case (1 b i)
  show ?case
  proof (cases "i < length b \<and> isNumberChar (b ! i)")
    case True
    then have eq: "skip_number b i = skip_number b (i + 1)" by (subst skip_number.simps) simp
    have "i + 1 \<le> length b" using True by simp
    from "1.IH" [OF True this] show ?thesis unfolding eq using True by (metis Suc_eq_plus1 Suc_leD Suc_leI le_neq_implies_less)
  next
    case False
    then have "skip_number b i = i" by (subst skip_number.simps, rule if_not_P)
    with "1.prems" show ?thesis by auto
  qed
qed

section \<open>One round of the loop\<close>

lemma number_no_NL: "isNumberChar c \<Longrightarrow> c \<noteq> NL"
  by (auto simp: isNumberChar_def)

lemma word_no_NL:
  assumes "slice b i (i + n) = w" "NL \<notin> set w"
  shows "NL \<notin> set (take n (drop i b))"
  using assms by (simp add: slice_def)

lemma inv_word:
  assumes "lex_inv b i st" "i + n \<le> length b" "NL \<notin> set (take n (drop i b))"
  shows "lex_inv b (fst (lex_word b i n ty st)) (snd (lex_word b i n ty st))"
  using inv_emit [OF inv_skip [OF assms, of n] may_start_col [OF assms(1)], of b ty i "i + n"]
  by (simp add: lex_word_def Let_def)

lemma inv_syntax:
  assumes "lex_inv b i st" "i < length b" "b ! i \<noteq> NL"
  shows "lex_inv b (Suc i) (lex_syntax b i st)"
  using inv_emit [OF inv_byte [OF assms, of 1] may_start_col [OF assms(1)], of b TokenSyntax i "Suc i"]
  by (simp add: lex_syntax_def Let_def)

lemma number_slice:
  assumes "i < length b" "b ! i = 45 \<or> 48 \<le> b ! i \<and> b ! i \<le> 57"
  shows "i < skip_number b (i + 1)" "skip_number b (i + 1) \<le> length b" "NL \<notin> set (take (skip_number b (i + 1) - i) (drop i b))"
proof -
  note sn = skip_number_props [of "i + 1" b]
  show "i < skip_number b (i + 1)" and len: "skip_number b (i + 1) \<le> length b" using sn assms(1) by auto
  show "NL \<notin> set (take (skip_number b (i + 1) - i) (drop i b))"
  proof
    assume "NL \<in> set (take (skip_number b (i + 1) - i) (drop i b))"
    then obtain k where k: "k < skip_number b (i + 1) - i" "b ! (i + k) = NL"
      using len by (auto simp: in_set_conv_nth)
    moreover have "isNumberChar (b ! (i + k))" if "k \<noteq> 0"
      using sn assms(1) that k(1) by simp
    ultimately have "k = 0 \<or> isNumberChar (b ! (i + k))" by blast
    then show False using k(2) assms(2) number_no_NL by fastforce
  qed
qed

lemma lex_string_branch:
  assumes "lex_inv b i st" "i < length b" "b ! i = 34" "lex_string rw b (i + 1) i (lx_col st) (add_col 1 st) = (j, sb, sc, st1)"
  shows "if j < length b then lex_inv b (j + 1) (add_col 1 st1) \<and> may_start sc (add_col 1 st1) else lex_inv b j st1 \<and> may_start sc st1"
    and "i < j" "j \<le> length b"
proof -
  have "lex_inv b (i + 1) (add_col 1 st)" using assms(1-3) inv_byte by simp
  from lex_string_inv [OF this may_start_col [OF assms(1)] assms(4)]
  have j: "lex_inv b j st1" "may_start sc st1" "i + 1 \<le> j" "j < length b \<longrightarrow> b ! j = 34" by auto
  then show "if j < length b then lex_inv b (j + 1) (add_col 1 st1) \<and> may_start sc (add_col 1 st1) else lex_inv b j st1 \<and> may_start sc st1"
    using inv_byte [of b j st1 1] may_start_add [of sc st1 1] by auto
  show "i < j" "j \<le> length b" using j by (auto simp: lex_inv_def)
qed

lemma lex_step_inv:
  assumes "lex_inv b i st" "i < length b" "lex_step rw b (i, st) = (j, st')"
  shows "lex_inv b j st' \<and> i < j"
proof -
  define c where "c = b ! i"
  note inv = assms(1) and lt = assms(2)
  have bite: "lex_inv b (Suc i) (add_col 1 st)" if "c \<noteq> NL" using inv_byte inv lt that by (simp add: c_def)
  consider "c = NL" | "c = 123 \<or> c = 91 \<or> c = 125 \<or> c = 93 \<or> c = 58 \<or> c = 44" | "c = 34" | "c = 116 \<or> c = 102" | "c = 110"
    | "c = 45 \<or> 48 \<le> c \<and> c \<le> 57" "c \<noteq> NL" "c \<noteq> 58"
    | "c \<notin> {NL, 123, 91, 125, 93, 58, 44, 34, 116, 102, 110, 45}" "\<not> (48 \<le> c \<and> c \<le> 57)"
    by auto
  then show ?thesis
  proof cases
    case 1
    then show ?thesis using assms inv_new_line by (auto simp: lex_step_def c_def)
  next
    case 2
    then have "lex_inv b (Suc i) (lex_syntax b i st)" using inv_syntax inv lt by (auto simp: c_def)
    moreover have "lex_step rw b (i, st) = (Suc i, (lex_syntax b i st)\<lparr>lx_stack := lx_stack (snd (lex_step rw b (i, st))),
        lx_afterKey := lx_afterKey (snd (lex_step rw b (i, st)))\<rparr>)"
      using 2 by (elim disjE) (simp_all add: lex_step_def c_def [symmetric] Let_def)
    ultimately show ?thesis using assms(3) by (metis Pair_inject inv_frame lessI)
  next
    case 3
    obtain k sb sc st1 where s: "lex_string rw b (i + 1) i (lx_col st) (add_col 1 st) = (k, sb, sc, st1)"
      by (metis prod_cases4)
    note br = lex_string_branch [OF inv lt _ s]
    show ?thesis
    proof (cases "k < length b")
      case True
      then have "lex_inv b (Suc k) (lx_emit b ty sb (Suc k) sc (lx_col st1 + 1) (add_col (Suc 0) st1))" for ty
        using inv_emit [of b "k + 1" "add_col 1 st1" sc b ty sb "k + 1"] br(1) 3 by (simp add: c_def)
      with True assms(3) br(2) 3 s show ?thesis
        by (auto simp: lex_step_def c_def [symmetric] Let_def split: if_splits)
    next
      case False
      then have "lex_inv b k (lx_emit b ty sb k sc (lx_col st1) st1)" for ty
        using inv_emit [of b k st1 sc b ty sb k] br(1) 3 by (simp add: c_def)
      with False assms(3) br(2) 3 s show ?thesis
        by (auto simp: lex_step_def c_def [symmetric] Let_def split: if_splits)
    qed
  next
    case 4
    have "lex_inv b (fst (lex_word b i 4 TokenBool st)) (snd (lex_word b i 4 TokenBool st))"
      if "i + 4 \<le> length b" "slice b i (i + 4) = str ''true''"
      using that by (intro inv_word inv word_no_NL [OF that(2)]) (auto simp: str_def)
    moreover have "lex_inv b (fst (lex_word b i 5 TokenBool st)) (snd (lex_word b i 5 TokenBool st))"
      if "i + 5 \<le> length b" "slice b i (i + 5) = str ''false''"
      using that by (intro inv_word inv word_no_NL [OF that(2)]) (auto simp: str_def)
    ultimately show ?thesis
      using assms(3) 4 bite by (auto simp: lex_step_def c_def [symmetric] Let_def lex_word_def split: if_splits)
  next
    case 5
    have "lex_inv b (fst (lex_word b i 4 TokenNull st)) (snd (lex_word b i 4 TokenNull st))"
      if "i + 4 \<le> length b" "slice b i (i + 4) = str ''null''"
      using that by (intro inv_word inv word_no_NL [OF that(2)]) (auto simp: str_def)
    then show ?thesis
      using assms(3) 5 bite by (auto simp: lex_step_def c_def [symmetric] Let_def lex_word_def split: if_splits)
  next
    case 6
    note num = number_slice [OF lt 6(1)[unfolded c_def]]
    have "lex_step rw b (i, st) = lex_word b i (skip_number b (i + 1) - i) TokenNumber st"
      using 6 by (auto simp: lex_step_def c_def [symmetric] Let_def)
    moreover have "lex_inv b (fst (lex_word b i (skip_number b (i + 1) - i) TokenNumber st))
        (snd (lex_word b i (skip_number b (i + 1) - i) TokenNumber st))"
      using num by (intro inv_word inv) auto
    moreover have "fst (lex_word b i (skip_number b (i + 1) - i) TokenNumber st) = skip_number b (i + 1)"
      using num by (simp add: lex_word_def Let_def)
    ultimately show ?thesis using assms(3) num(1) by (metis fst_conv snd_conv)
  next
    case 7
    then have "lex_step rw b (i, st) = (i + snd (runeWidthAt rw b i), add_col (fst (runeWidthAt rw b i)) st)"
      by (auto simp: lex_step_def c_def [symmetric] Let_def)
    moreover have "lex_inv b (i + snd (runeWidthAt rw b i)) (add_col (fst (runeWidthAt rw b i)) st)"
      using 7 inv_rune inv lt by (simp add: c_def)
    ultimately show ?thesis using assms(3) runeWidthAt_size [OF lt, of rw] by auto
  qed
qed

section \<open>The whole loop\<close>

lemma while_inv:
  assumes "lex_inv b i st" "while_option (\<lambda>(i, st). i < length b) (lex_step rw b) (i, st) = Some (j, st')"
  shows "lex_inv b j st' \<and> \<not> j < length b"
proof -
  have "case (j, st') of (j, st') \<Rightarrow> lex_inv b j st'"
  proof (rule while_option_rule [OF _ assms(2), of "\<lambda>(i, st). lex_inv b i st"])
    fix s assume s: "case s of (i, st) \<Rightarrow> lex_inv b i st" "case s of (i, st) \<Rightarrow> i < length b"
    obtain k st'' where step: "lex_step rw b s = (k, st'')" by (cases "lex_step rw b s")
    with s show "case lex_step rw b s of (i, st) \<Rightarrow> lex_inv b i st"
      using lex_step_inv [of b "fst s" "snd s" rw k st''] by (simp add: split_beta)
  qed (use assms(1) in simp)
  moreover have "\<not> j < length b" using while_option_stop [OF assms(2)] by simp
  ultimately show ?thesis by simp
qed

lemma while_ends:
  assumes "lex_inv b i st"
  shows "\<exists>r. while_option (\<lambda>(i, st). i < length b) (lex_step rw b) (i, st) = Some r"
proof (rule measure_while_option_Some [where P = "\<lambda>(i, st). lex_inv b i st" and f = "\<lambda>(i, st). length b - i"])
  fix s :: "nat \<times> lex"
  assume s: "case s of (i, st) \<Rightarrow> lex_inv b i st" "case s of (i, st) \<Rightarrow> i < length b"
  obtain j st' where step: "lex_step rw b s = (j, st')" by (cases "lex_step rw b s")
  with s show "(case lex_step rw b s of (i, st) \<Rightarrow> lex_inv b i st) \<and>
      (case lex_step rw b s of (i, st) \<Rightarrow> length b - i) < (case s of (i, st) \<Rightarrow> length b - i)"
    using lex_step_inv [of b "fst s" "snd s" rw j st'] by (cases s) auto
qed (use assms in simp)

lemma lex_init_inv: "lex_inv b 0 lex_init"
  by (simp add: lex_inv_def lex_init_def newlines_def)

lemma length_split_lines: "length (split_lines b) = Suc (newlines b)"
  by (induction b rule: split_lines.induct) (auto simp: newlines_def split: list.splits)

text \<open>
  C30: The lexer returns on every input, valid JSON or not, with one list of tokens for every line of the text: the lines of a
  log and their tokens stay aligned even where a wrapped string continues on the next line.
\<close>

theorem tokenize_returns_a_list_per_line:
  "case tokenize rw b of None \<Rightarrow> False | Some ls \<Rightarrow> length ls = length (split_lines b)"
proof (cases "b = []")
  case False
  obtain j st where r: "while_option (\<lambda>(i, st). i < length b) (lex_step rw b) (0, lex_init) = Some (j, st)"
    using while_ends [OF lex_init_inv] by force
  then have "lex_inv b j st" "\<not> j < length b" using while_inv [OF lex_init_inv] by auto
  then show ?thesis using False r by (simp add: tokenize_def lex_inv_def length_split_lines)
qed (simp add: tokenize_def)

section \<open>The token under a column\<close>

lemma tokenize_lines_ok:
  assumes "tokenize rw b = Some ls"
  shows "list_all line_done ls"
proof (cases "b = []")
  case False
  with assms obtain j st where r: "while_option (\<lambda>(i, st). i < length b) (lex_step rw b) (0, lex_init) = Some (j, st)"
    and ls: "ls = lx_lines st @ [lx_cur st]"
    by (auto simp: tokenize_def)
  then have "lex_inv b j st" using while_inv [OF lex_init_inv] by auto
  then show ?thesis by (auto simp: ls lex_inv_def line_done_def)
next
  case True
  then have "ls = [[]]" using assms by (simp add: tokenize_def)
  then show ?thesis by (auto simp: line_done_def)
qed

definition covers :: "int \<Rightarrow> token \<Rightarrow> bool" where
  "covers col t \<longleftrightarrow> t_start t \<le> col \<and> col < t_end t"

lemma line_ok_later: "line_ok lo ts hi \<Longrightarrow> t \<in> set ts \<Longrightarrow> lo \<le> t_start t"
  by (induction lo ts hi rule: line_ok.induct) force+

lemma find_past: "find (covers col) ts = find (covers col) (dropWhile (\<lambda>t. t_end t \<le> col) ts)"
  by (induction ts) (auto simp: covers_def)

lemma line_ok_dropWhile: "line_ok lo ts hi \<Longrightarrow> \<exists>lo'. line_ok lo' (dropWhile P ts) hi"
  by (induction lo ts hi rule: line_ok.induct) auto

lemma tc_at_find:
  assumes "line_ok lo ts hi"
  shows "fst (tc_at col ts) = find (covers col) ts"
proof -
  define rest where "rest = dropWhile (\<lambda>t. t_end t \<le> col) ts"
  obtain lo' where ok: "line_ok lo' rest hi" using line_ok_dropWhile [OF assms] by (auto simp: rest_def)
  have "find (covers col) rest = (case rest of t # _ \<Rightarrow> if col \<ge> t_start t then Some t else None | [] \<Rightarrow> None)"
  proof (cases rest)
    case (Cons t ts')
    then have e: "col < t_end t" using hd_dropWhile [of "\<lambda>t. t_end t \<le> col" ts] by (auto simp: rest_def)
    show ?thesis
    proof (cases "t_start t \<le> col")
      case False
      have "\<not> covers col t'" if "t' \<in> set ts'" for t'
        using line_ok_later [of "t_end t" ts' hi t'] ok that e Cons False by (auto simp: covers_def)
      then have "find (covers col) ts' = None" by (simp add: find_None_iff)
      with False Cons show ?thesis by (simp add: covers_def)
    qed (use e Cons in \<open>simp add: covers_def\<close>)
  qed simp
  then show ?thesis by (simp add: tc_at_def Let_def rest_def [symmetric] find_past [of col ts])
qed

lemma tc_run_find:
  "line_ok lo ts hi \<Longrightarrow> sorted cols \<Longrightarrow> tc_run cols ts = map (\<lambda>c. find (covers c) ts) cols"
proof (induction cols arbitrary: lo ts)
  case (Cons c cols)
  define rest where "rest = dropWhile (\<lambda>t. t_end t \<le> c) ts"
  obtain lo' where "line_ok lo' rest hi" using line_ok_dropWhile [OF Cons.prems(1)] by (auto simp: rest_def)
  with Cons.IH Cons.prems(2) have "tc_run cols rest = map (\<lambda>c. find (covers c) rest) cols" by simp
  moreover have "find (covers d) rest = find (covers d) ts" if "d \<in> set cols" for d
  proof -
    have "c \<le> d" using Cons.prems(2) that by simp
    then have "find (covers d) ts = find (covers d) rest"
      unfolding rest_def by (induction ts) (auto simp: covers_def)
    then show ?thesis by simp
  qed
  moreover have "tc_at c ts = (find (covers c) ts, rest)"
    using tc_at_find [OF Cons.prems(1), of c] by (simp add: tc_at_def Let_def rest_def)
  ultimately show ?case by simp
qed simp

text \<open>
  The token cursor finds, for columns asked in ascending order, exactly the token that covers the column, as a scan of the whole
  line would: it never goes back, and the lexer's tokens are in ascending, disjoint columns.
\<close>

theorem token_cursor_finds_the_covering_token:
  assumes "tokenize rw b = Some ls" "ts \<in> set ls" "sorted cols"
  shows "tc_run cols ts = map (\<lambda>c. find (\<lambda>t. t_start t \<le> c \<and> c < t_end t) ts) cols"
proof -
  obtain hi where "line_ok 0 ts hi"
    using tokenize_lines_ok [OF assms(1)] assms(2) by (auto simp: list_all_iff line_done_def)
  from tc_run_find [OF this assms(3)] show ?thesis by (simp add: covers_def [abs_def])
qed

theorem token_cursor_finds_the_covering_token_witness:
  "map (map_option t_type) (tc_run [0, 1, 5, 6] [\<lparr>t_type = TokenSyntax, t_start = 0, t_end = 1, t_text = [123]\<rparr>,
      \<lparr>t_type = TokenKey, t_start = 1, t_end = 4, t_text = [34, 97, 34]\<rparr>, \<lparr>t_type = TokenSyntax, t_start = 4, t_end = 5, t_text = [58]\<rparr>,
      \<lparr>t_type = TokenNumber, t_start = 5, t_end = 6, t_text = [55]\<rparr>, \<lparr>t_type = TokenSyntax, t_start = 6, t_end = 7, t_text = [125]\<rparr>])
     = [Some TokenSyntax, Some TokenKey, Some TokenNumber, Some TokenSyntax]"
proof -
  have "tokenize (\<lambda>_. 1) (str ''{\"a\":7}'') = Some [[\<lparr>t_type = TokenSyntax, t_start = 0, t_end = 1, t_text = [123]\<rparr>,
      \<lparr>t_type = TokenKey, t_start = 1, t_end = 4, t_text = [34, 97, 34]\<rparr>, \<lparr>t_type = TokenSyntax, t_start = 4, t_end = 5, t_text = [58]\<rparr>,
      \<lparr>t_type = TokenNumber, t_start = 5, t_end = 6, t_text = [55]\<rparr>, \<lparr>t_type = TokenSyntax, t_start = 6, t_end = 7, t_text = [125]\<rparr>]]"
    by code_simp
  from token_cursor_finds_the_covering_token [OF this, of _ "[0, 1, 5, 6]"] show ?thesis by simp
qed

section \<open>Colour rules\<close>

lemma sweep_bounds:
  assumes "s \<in> set (sweep rules n hs)" "\<forall>h \<in> set hs. rh_start h \<le> rh_end h"
  shows "n \<le> int (sp_start s) \<and> (\<exists>h \<in> set hs. sp_start s = rh_start h \<and> sp_end s = rh_end h)"
  using assms
proof (induction rules n hs rule: sweep.induct)
  case (2 rules n h hs)
  show ?case
  proof (cases "int (rh_start h) < n")
    case False
    then have "(sp_start s = rh_start h \<and> sp_end s = rh_end h) \<or> s \<in> set (sweep rules (int (rh_end h)) hs)"
      using "2.prems"(1) by auto
    then show ?thesis
      using False "2.prems"(2) "2.IH"(2) by fastforce
  qed (use 2 in simp)
qed simp

lemma sweep_disjoint:
  assumes "\<forall>h \<in> set hs. rh_start h \<le> rh_end h"
  shows "sorted_wrt (\<lambda>a b. sp_end a \<le> sp_start b) (sweep rules n hs)"
  using assms
proof (induction rules n hs rule: sweep.induct)
  case (2 rules n h hs)
  then show ?case using sweep_bounds [of _ rules "int (rh_end h)" hs] by force
qed simp

text \<open>
  The colour spans painted on a line never overlap, and each is one of the matches, in columns.
\<close>

theorem color_spans_are_disjoint:
  assumes "\<forall>h \<in> set hits. rh_start h \<le> rh_end h \<and> MapByte cm (rh_start h) \<le> MapByte cm (rh_end h)"
  shows "sorted_wrt (\<lambda>a b. sp_end a \<le> sp_start b) (scan rules hits line cm) \<and>
    (\<forall>s \<in> set (scan rules hits line cm). \<exists>h \<in> set hits. sp_start s = MapByte cm (rh_start h) \<and> sp_end s = MapByte cm (rh_end h))"
proof (cases "rules = [] \<or> line = []")
  case False
  define hs where "hs = sort_key hit_key (map (\<lambda>h. h\<lparr>rh_start := MapByte cm (rh_start h), rh_end := MapByte cm (rh_end h)\<rparr>) hits)"
  have hs: "\<exists>g \<in> set hits. rh_start h = MapByte cm (rh_start g) \<and> rh_end h = MapByte cm (rh_end g)" if "h \<in> set hs" for h
    using that by (auto simp: hs_def)
  then have ok: "\<forall>h \<in> set hs. rh_start h \<le> rh_end h" using assms by fastforce
  then have "sorted_wrt (\<lambda>a b. sp_end a \<le> sp_start b) (sweep rules (-1) hs)" by (rule sweep_disjoint)
  moreover have "\<exists>g \<in> set hits. sp_start s = MapByte cm (rh_start g) \<and> sp_end s = MapByte cm (rh_end g)"
    if "s \<in> set (sweep rules (-1) hs)" for s
    using sweep_bounds [OF that ok] hs by fastforce
  ultimately show ?thesis using False by (simp add: scan_def hs_def)
qed (simp add: scan_def)

theorem color_spans_are_disjoint_witness:
  "sorted_wrt (\<lambda>a b. sp_end a \<le> sp_start b) (scan [\<lparr>cr_match = [97], cr_fg = Some 1, cr_bg = None\<rparr>]
     [\<lparr>rh_pattern = 0, rh_start = 0, rh_end = 1\<rparr>, \<lparr>rh_pattern = 0, rh_start = 0, rh_end = 2\<rparr>] [97, 97] [0, 1, 2])"
  by (rule conjunct1 [OF color_spans_are_disjoint]) (simp add: MapByte_def)

end
