(* ===== verification/Logmenu.thy ===== *)
theory Logmenu
  imports Jsonlex_Correct
begin

text \<open>
  The expressions the log viewer builds for the field under the cursor, \<^verbatim>\<open>internal/ui/components/logviewer/menu.go\<close>:
  jq paths and their parsing, Dataprime references and literals, search text. The actions that use them are
  in \<open>Logview\<close>.
\<close>

section \<open>Strings\<close>

text \<open>\<^verbatim>\<open>strings.ReplaceAll\<close> with a non-empty pattern.\<close>

function ReplaceAll :: "gostr \<Rightarrow> gostr \<Rightarrow> gostr \<Rightarrow> gostr" where
  "ReplaceAll pat new s =
     (if s = [] then []
      else if pat \<noteq> [] \<and> take (length pat) s = pat then new @ ReplaceAll pat new (drop (length pat) s)
      else hd s # ReplaceAll pat new (tl s))"
  by pat_completeness auto
termination by (relation "measure (\<lambda>(pat, new, s). length s)") auto

declare ReplaceAll.simps [simp del]

text \<open>The encodings of the runes of a string, and \<^verbatim>\<open>strings.TrimSpace\<close>.\<close>

function rune_chunks :: "gostr \<Rightarrow> gostr list" where
  "rune_chunks bs = (if bs = [] then [] else take (snd (DecodeRune bs)) bs # rune_chunks (drop (snd (DecodeRune bs)) bs))"
  by pat_completeness auto
termination by (relation "measure length") (auto simp: DecodeRune_size)

declare rune_chunks.simps [simp del]

definition TrimSpaceRunes :: "gostr \<Rightarrow> gostr" where
  "TrimSpaceRunes s =
     (let space = \<lambda>c. is_space (fst (DecodeRune c))
      in concat (rev (dropWhile space (rev (dropWhile space (rune_chunks s))))))"

section \<open>jq paths\<close>

definition isJQIdentByte :: "nat \<Rightarrow> bool" where
  "isJQIdentByte b \<longleftrightarrow> b = 95 \<or> (97 \<le> b \<and> b \<le> 122) \<or> (65 \<le> b \<and> b \<le> 90) \<or> (48 \<le> b \<and> b \<le> 57)"

text \<open>A byte of a longer encoding is no identifier rune, so the loop over the runes is one over the bytes.\<close>

definition isJQIdent :: "gostr \<Rightarrow> bool" where
  "isJQIdent s \<longleftrightarrow> s \<noteq> [] \<and> list_all isJQIdentByte s \<and> \<not> (48 \<le> hd s \<and> hd s \<le> 57)"

definition escape_key :: "gostr \<Rightarrow> gostr" where
  "escape_key k = ReplaceAll [34] [92, 34] (ReplaceAll [92] [92, 92] k)"

definition jqPath :: "gostr list \<Rightarrow> gostr" where
  "jqPath path = concat (map (\<lambda>k. if isJQIdent k then 46 # k else [46, 91, 34] @ escape_key k @ [34, 93]) path)"

definition unquoteBracketKey :: "gostr \<Rightarrow> gostr option" where
  "unquoteBracketKey inner0 =
     (let inner = TrimSpaceRunes inner0
      in if length inner < 2 \<or> inner ! 0 \<noteq> 34 \<or> inner ! (length inner - 1) \<noteq> 34 then None
         else Some (ReplaceAll [92, 92] [92] (ReplaceAll [92, 34] [34] (take (length inner - 2) (drop 1 inner)))))"

text \<open>The loop of \<open>parseJQPathPrefix\<close> on what is left of the expression.\<close>

function parse_path :: "gostr \<Rightarrow> gostr list option" where
  "parse_path [] = Some []"
| "parse_path [c] = None"
| "parse_path (c # d # q) =
     (if c \<noteq> 46 then None
      else if d = 91 then
        (if 93 \<notin> set q then None
         else case unquoteBracketKey (takeWhile (\<lambda>x. x \<noteq> 93) q) of
           None \<Rightarrow> None
         | Some key \<Rightarrow> map_option (Cons key) (parse_path (tl (dropWhile (\<lambda>x. x \<noteq> 93) q))))
      else if takeWhile isJQIdentByte (d # q) = [] then None
      else map_option (Cons (takeWhile isJQIdentByte (d # q))) (parse_path (dropWhile isJQIdentByte (d # q))))"
  by pat_completeness auto
termination
proof (relation "measure length", goal_cases)
  case (2 c d q)
  then show ?case using length_dropWhile_le [of "\<lambda>x. x \<noteq> 93" q] by simp
next
  case (3 c d q)
  then show ?case using length_dropWhile_le [of isJQIdentByte "d # q"] by (simp add: le_imp_less_Suc)
qed simp

definition parseJQPathPrefix :: "gostr \<Rightarrow> gostr list option" where
  "parseJQPathPrefix jq = (let s = TrimSpaceRunes jq in if s = [] \<or> s = [46] then Some [] else parse_path s)"

section \<open>Values\<close>

text \<open>\<^verbatim>\<open>strings.Join(path, ".")\<close>.\<close>

fun join_dots :: "gostr list \<Rightarrow> gostr" where
  "join_dots [] = []"
| "join_dots [p] = p"
| "join_dots (p # ps) = p @ 46 # join_dots ps"

definition dataprimeRef :: "gostr list \<Rightarrow> gostr" where
  "dataprimeRef path =
     (case path of
        [] \<Rightarrow> []
      | p # ps \<Rightarrow>
          let sigil = (if p = str ''labels'' then str ''$l'' else if p = str ''metadata'' then str ''$m'' else str ''$d'')
          in if ps = [] then sigil else sigil @ 46 # join_dots ps)"

definition marshal_ok :: "('q, 'c) ext \<Rightarrow> jv \<Rightarrow> gostr option" where
  "marshal_ok X v = (case x_marshal X v of Inl e \<Rightarrow> None | Inr b \<Rightarrow> Some b)"

fun dataprimeLiteral :: "('q, 'c) ext \<Rightarrow> jv \<Rightarrow> gostr option" where
  "dataprimeLiteral X (JStr t) = Some (39 # ReplaceAll [39] [92, 39] (ReplaceAll [92] [92, 92] t) @ [39])"
| "dataprimeLiteral X (JMap kvs) = None"
| "dataprimeLiteral X (JArr vs) = None"
| "dataprimeLiteral X JNil = Some (str ''null'')"
| "dataprimeLiteral X v = marshal_ok X v"

fun searchValue :: "('q, 'c) ext \<Rightarrow> jv \<Rightarrow> gostr option" where
  "searchValue X (JStr t) = Some t"
| "searchValue X (JMap kvs) = None"
| "searchValue X (JArr vs) = None"
| "searchValue X JNil = Some (str ''null'')"
| "searchValue X v = marshal_ok X v"

fun isScalarValue :: "jv \<Rightarrow> bool" where
  "isScalarValue (JMap kvs) = False"
| "isScalarValue (JArr vs) = False"
| "isScalarValue _ = True"

fun valueToClipboard :: "('q, 'c) ext \<Rightarrow> jv \<Rightarrow> gostr option" where
  "valueToClipboard X (JStr s) = Some s"
| "valueToClipboard X v = marshal_ok X v"

text \<open>A lookup in an object; \<open>None\<close> when the value is no object or has no such key.\<close>

fun field_of :: "jv \<Rightarrow> gostr \<Rightarrow> jv option" where
  "field_of (JMap kvs) k = map_of kvs k"
| "field_of _ k = None"

text \<open>The loops that navigate to the value at a path.\<close>

fun navigate :: "jv \<Rightarrow> gostr list \<Rightarrow> jv option" where
  "navigate v [] = Some v"
| "navigate v (k # ks) = (case field_of v k of None \<Rightarrow> None | Some w \<Rightarrow> navigate w ks)"

definition podIDFromData :: "jv \<Rightarrow> gostr option" where
  "podIDFromData d =
     (case navigate d [str ''data'', str ''kubernetes'', str ''pod_id''] of Some (JStr s) \<Rightarrow> Some s | _ \<Rightarrow> None)"

definition searchValForField :: "('q, 'c) ext \<Rightarrow> jv \<Rightarrow> gostr option" where
  "searchValForField X value = (if \<not> isScalarValue value then None else searchValue X value)"

section \<open>Escaping\<close>

lemma ReplaceAll_Nil [simp]: "ReplaceAll pat new [] = []"
  by (subst ReplaceAll.simps) simp

lemma ReplaceAll_match: "pat \<noteq> [] \<Longrightarrow> ReplaceAll pat new (pat @ s) = new @ ReplaceAll pat new s"
  by (subst ReplaceAll.simps) simp

lemma ReplaceAll_skip: "take (length pat) (c # s) \<noteq> pat \<Longrightarrow> ReplaceAll pat new (c # s) = c # ReplaceAll pat new s"
  by (subst ReplaceAll.simps) simp

lemma ReplaceAll_single: "ReplaceAll [a] new s = concat (map (\<lambda>c. if c = a then new else [c]) s)"
proof (induction s)
  case (Cons c s)
  then show ?case
    using ReplaceAll_match [of "[a]" new s] ReplaceAll_skip [of "[a]" c s new] by (cases "c = a") simp_all
qed simp

definition esc :: "nat \<Rightarrow> gostr" where
  "esc c = (if c = 92 then [92, 92] else if c = 34 then [92, 34] else [c])"

lemma escape_key_esc: "escape_key k = concat (map esc k)"
  by (induction k) (simp_all add: escape_key_def ReplaceAll_single esc_def)

lemma esc_hd: "concat (map esc k) = [] \<or> hd (concat (map esc k)) \<noteq> 34"
  by (cases k) (auto simp: esc_def)

lemma ReplaceAll2_skip: "s = [] \<or> hd s \<noteq> b \<Longrightarrow> ReplaceAll [a, b] new (c # s) = c # ReplaceAll [a, b] new s"
  by (rule ReplaceAll_skip) (cases s, auto)

lemma ReplaceAll2_other: "c \<noteq> a \<Longrightarrow> ReplaceAll [a, b] new (c # s) = c # ReplaceAll [a, b] new s"
  by (rule ReplaceAll_skip) simp

lemma unescape_quotes:
  "ReplaceAll [92, 34] [34] (concat (map esc k)) = concat (map (\<lambda>c. if c = 92 then [92, 92] else [c]) k)"
proof (induction k)
  case (Cons c k)
  define r where "r = concat (map esc k)"
  have r: "r = [] \<or> hd r \<noteq> 34" unfolding r_def by (rule esc_hd)
  consider "c = 92" | "c = 34" | "c \<noteq> 92" "c \<noteq> 34" by blast
  then have "ReplaceAll [92, 34] [34] (esc c @ r) = (if c = 92 then [92, 92] else [c]) @ ReplaceAll [92, 34] [34] r"
  proof cases
    case 1
    then show ?thesis
      using ReplaceAll2_skip [of "92 # r" 34 92 "[34]" 92] ReplaceAll2_skip [OF r, of 92 "[34]" 92] by (simp add: esc_def)
  next
    case 2
    then show ?thesis using ReplaceAll_match [of "[92, 34]" "[34]" r] by (simp add: esc_def)
  next
    case 3
    then show ?thesis using ReplaceAll2_other by (simp add: esc_def)
  qed
  then show ?case using Cons.IH by (simp add: r_def)
qed simp

lemma unescape_backslashes: "ReplaceAll [92, 92] [92] (concat (map (\<lambda>c. if c = 92 then [92, 92] else [c]) k)) = k"
proof (induction k)
  case (Cons c k)
  then show ?case
    using ReplaceAll_match [of "[92, 92]" "[92]"] ReplaceAll2_other [of c 92 92 "[92]"] by (cases "c = 92") simp_all
qed simp

section \<open>Trimming\<close>

lemma DecodeRune_ascii: "a < 128 \<Longrightarrow> DecodeRune (a # s) = (a, 1)"
  by (simp add: DecodeRune_def)

lemma chunk_high:
  assumes "a # s = bs" "128 \<le> a"
  shows "list_all (\<lambda>c. 128 \<le> c) (take (snd (DecodeRune bs)) bs)"
  using assms by (auto simp: DecodeRune_def cont_def dest: second_ok_ge split: list.splits)

lemma concat_chunks [simp]: "concat (rune_chunks s) = s"
  by (induction s rule: rune_chunks.induct) (subst rune_chunks.simps, simp)

lemma chunk_last:
  assumes "s \<noteq> []" "last s < 128"
  shows "rune_chunks s \<noteq> [] \<and> last (rune_chunks s) = [last s]"
  using assms
proof (induction s rule: rune_chunks.induct)
  case (1 bs)
  define n where "n = snd (DecodeRune bs)"
  have n: "0 < n" "n \<le> length bs" using DecodeRune_size [of bs] 1 by (auto simp: n_def)
  have eq: "rune_chunks bs = take n bs # rune_chunks (drop n bs)" using 1 by (subst rune_chunks.simps) (simp add: n_def)
  show ?case
  proof (cases "drop n bs = []")
    case False
    then have "last (drop n bs) = last bs" by (simp add: last_drop)
    with "1.IH" [OF "1.prems"(1)] "1.prems"(2) False show ?thesis unfolding eq n_def by simp
  next
    case True
    then have all: "take n bs = bs" by simp
    obtain a s where bs: "bs = a # s" using 1 by (cases bs) auto
    have "a < 128"
    proof (rule ccontr)
      assume "\<not> a < 128"
      then have "list_all (\<lambda>c. 128 \<le> c) bs" using chunk_high [of a s bs] bs all by (simp add: n_def)
      then show False using "1.prems" by (simp add: list_all_iff not_less flip: linorder_not_less)
    qed
    then have "n = 1" by (simp add: n_def bs DecodeRune_ascii)
    with all bs have "s = []" by simp
    then show ?thesis unfolding eq using bs True by (simp add: \<open>n = 1\<close> rune_chunks.simps [of "[]"])
  qed
qed

lemma TrimSpaceRunes_id:
  assumes "s \<noteq> []" "hd s < 128" "\<not> is_space (hd s)" "last s < 128" "\<not> is_space (last s)"
  shows "TrimSpaceRunes s = s"
proof -
  obtain cs where cs: "rune_chunks s = [hd s] # cs"
    using assms(1,2) by (cases s) (simp_all add: rune_chunks.simps [of "_ # _"] DecodeRune_ascii)
  have l: "last (rune_chunks s) = [last s]" using chunk_last assms by blast
  have "dropWhile (\<lambda>c. is_space (fst (DecodeRune c))) (rune_chunks s) = rune_chunks s"
    using assms(2,3) by (simp add: cs DecodeRune_ascii)
  moreover have "dropWhile (\<lambda>c. is_space (fst (DecodeRune c))) (rev (rune_chunks s)) = rev (rune_chunks s)"
  proof -
    obtain ds where "rune_chunks s = ds @ [[last s]]"
      using append_butlast_last_id [of "rune_chunks s"] l cs by (metis list.distinct(1))
    then show ?thesis using assms(4,5) by (simp add: DecodeRune_ascii)
  qed
  ultimately show ?thesis by (simp add: TrimSpaceRunes_def Let_def)
qed

section \<open>The round trip\<close>

lemma unquote_escape: "unquoteBracketKey (34 # escape_key k @ [34]) = Some k"
proof -
  have "TrimSpaceRunes (34 # escape_key k @ [34]) = 34 # escape_key k @ [34]"
    by (rule TrimSpaceRunes_id) (simp_all add: is_space_def)
  then show ?thesis
    by (simp add: unquoteBracketKey_def Let_def nth_append escape_key_esc unescape_quotes unescape_backslashes)
qed

lemma jqPath_hd: "path \<noteq> [] \<Longrightarrow> jqPath path \<noteq> [] \<and> hd (jqPath path) = 46"
  by (cases path) (auto simp: jqPath_def)

lemma parse_path_step:
  assumes "93 \<notin> set k"
  shows "parse_path (jqPath (k # path)) = map_option (Cons k) (parse_path (jqPath path))"
proof (cases "isJQIdent k")
  case True
  then have k: "k \<noteq> []" "list_all isJQIdentByte k" by (simp_all add: isJQIdent_def)
  have "takeWhile isJQIdentByte (k @ jqPath path) = k" "dropWhile isJQIdentByte (k @ jqPath path) = jqPath path"
    using k(2) jqPath_hd [of path]
    by (cases path; cases "jqPath path"; simp add: takeWhile_append dropWhile_append list_all_iff jqPath_def isJQIdentByte_def)+
  moreover obtain d q where "k = d # q" using k(1) by (cases k) auto
  moreover have "d \<noteq> 91" using k(2) \<open>k = d # q\<close> by (auto simp: isJQIdentByte_def)
  ultimately show ?thesis using True by (simp add: jqPath_def)
next
  case False
  have "93 \<notin> set (34 # escape_key k @ [34])" using assms by (auto simp: escape_key_esc esc_def split: if_splits)
  then have "takeWhile (\<lambda>x. x \<noteq> 93) ((34 # escape_key k @ [34]) @ 93 # jqPath path) = 34 # escape_key k @ [34]"
    "dropWhile (\<lambda>x. x \<noteq> 93) ((34 # escape_key k @ [34]) @ 93 # jqPath path) = 93 # jqPath path"
    by (subst takeWhile_append2 dropWhile_append2; auto)+
  then show ?thesis using False unquote_escape [of k] by (simp add: jqPath_def)
qed

text \<open>A key that comes out of a bracket holds no closing bracket, since the first one ends it.\<close>

lemma set_ReplaceAll: "set (ReplaceAll pat new s) \<subseteq> set s \<union> set new"
proof (induction pat new s rule: ReplaceAll.induct)
  case (1 pat new s)
  show ?case
  proof (cases "s = []")
    case True
    then show ?thesis by (subst ReplaceAll.simps) simp
  next
    case False
    then have s: "set (tl s) \<subseteq> set s" "hd s \<in> set s" by (simp_all add: list.set_sel(2) subsetI)
    show ?thesis
    proof (cases "pat \<noteq> [] \<and> take (length pat) s = pat")
      case True
      then show ?thesis
        using 1(1) [OF False True] set_drop_subset [of "length pat" s] False by (subst ReplaceAll.simps) auto
    next
      case F: False
      then have "ReplaceAll pat new s = hd s # ReplaceAll pat new (tl s)" using False by (subst ReplaceAll.simps) auto
      then show ?thesis using 1(2) [OF False F] s by auto
    qed
  qed
qed

lemma set_TrimSpaceRunes: "set (TrimSpaceRunes s) \<subseteq> set s"
proof -
  have "set (concat (rev (dropWhile P (rev (dropWhile P cs))))) \<subseteq> set (concat cs)" for P and cs :: "gostr list"
    by (auto dest!: set_dropWhileD)
  then have "set (TrimSpaceRunes s) \<subseteq> set (concat (rune_chunks s))" unfolding TrimSpaceRunes_def Let_def by blast
  then show ?thesis by (simp only: concat_chunks)
qed

lemma unquote_no_bracket: "unquoteBracketKey t = Some key \<Longrightarrow> 93 \<notin> set t \<Longrightarrow> 93 \<notin> set key"
proof -
  assume u: "unquoteBracketKey t = Some key" and t: "93 \<notin> set t"
  let ?i = "take (length (TrimSpaceRunes t) - 2) (drop 1 (TrimSpaceRunes t))"
  have "set ?i \<subseteq> set (TrimSpaceRunes t)" using set_take_subset set_drop_subset by (metis order_trans)
  then have "93 \<notin> set ?i" using set_TrimSpaceRunes [of t] t by blast
  moreover have "key = ReplaceAll [92, 92] [92] (ReplaceAll [92, 34] [34] ?i)"
    using u by (simp add: unquoteBracketKey_def Let_def split: if_splits)
  moreover have "93 \<notin> set (ReplaceAll pat new s)" if "93 \<notin> set s" "93 \<notin> set new" for pat new s
    using set_ReplaceAll [of pat new s] that by blast
  ultimately show ?thesis by simp
qed

lemma bracket_breaks:
  assumes "93 \<in> set k"
  shows "parse_path (jqPath (k # path)) \<noteq> Some (k # path)"
proof -
  have "isJQIdent k \<Longrightarrow> isJQIdentByte 93" using assms by (auto simp: isJQIdent_def list_all_iff)
  then have "\<not> isJQIdent k" by (auto simp: isJQIdentByte_def)
  then have j: "jqPath (k # path) = 46 # 91 # (34 # escape_key k @ [34, 93] @ jqPath path)" by (simp add: jqPath_def)
  let ?t = "takeWhile (\<lambda>x. x \<noteq> 93) (34 # escape_key k @ [34, 93] @ jqPath path)"
  have "93 \<notin> set ?t" by (metis (mono_tags, lifting) set_takeWhileD)
  then have "key \<noteq> k" if "unquoteBracketKey ?t = Some key" for key using unquote_no_bracket [OF that] assms by blast
  then show ?thesis unfolding j by (auto split: option.split)
qed

lemma jqPath_last: "path \<noteq> [] \<Longrightarrow> isJQIdentByte (last (jqPath path)) \<or> last (jqPath path) = 93"
proof -
  assume "path \<noteq> []"
  then obtain ps k where "path = ps @ [k]" by (metis rev_exhaust)
  then show ?thesis by (cases "isJQIdent k") (auto simp: jqPath_def isJQIdent_def list_all_iff)
qed

text \<open>
  C31: A jq path built for a field parses back to the keys it was built from exactly when none of the keys holds a closing
  bracket: quotes, backslashes, spaces and bytes of any kind survive the round trip, while the parser takes the first closing
  bracket, also inside the quotes, for the end of the key.
\<close>

theorem jq_path_parses_back:
  "parseJQPathPrefix (jqPath path) = Some path \<longleftrightarrow> (\<forall>k \<in> set path. 93 \<notin> set k)"
proof (cases "path = []")
  case False
  note hd = jqPath_hd [OF False] and last = jqPath_last [OF False]
  have "TrimSpaceRunes (jqPath path) = jqPath path"
    using hd last by (intro TrimSpaceRunes_id) (auto simp: isJQIdentByte_def is_space_def)
  moreover have "jqPath path \<noteq> [46]"
    using last by (auto simp: isJQIdentByte_def)
  moreover have "parse_path (jqPath path) = Some path \<longleftrightarrow> (\<forall>k \<in> set path. 93 \<notin> set k)"
  proof (induction path)
    case (Cons k path)
    then show ?case using parse_path_step [of k path] bracket_breaks [of k path] by (cases "93 \<in> set k") auto
  qed (simp add: jqPath_def)
  ultimately show ?thesis using hd by (simp add: parseJQPathPrefix_def Let_def)
qed (simp add: jqPath_def parseJQPathPrefix_def TrimSpaceRunes_def rune_chunks.simps [of "[]"])

theorem jq_path_parses_back_witness:
  "parseJQPathPrefix (jqPath [str ''log'', [97, 92, 34, 32]]) = Some [str ''log'', [97, 92, 34, 32]]
   \<and> parseJQPathPrefix (jqPath [str ''a]b'']) \<noteq> Some [str ''a]b'']"
  using jq_path_parses_back [of "[str ''log'', [97, 92, 34, 32]]"] jq_path_parses_back [of "[str ''a]b'']"] by (simp add: str_def)

text \<open>The reference to a field does not tell a key with a dot from two keys.\<close>

lemma dotted_keys_collide: "dataprimeRef [p, a @ 46 # b] = dataprimeRef [p, a, b]"
  by (simp add: dataprimeRef_def)

end
