(* ===== verification/Logview.thy ===== *)
theory Logview
  imports Logmenu Timeline
begin

text \<open>
  The log viewer over its store: \<^verbatim>\<open>cursor.go\<close>, \<^verbatim>\<open>logviewer.go\<close>, \<^verbatim>\<open>expand.go\<close> and the placing of rows of \<^verbatim>\<open>render.go\<close> in
  \<^verbatim>\<open>internal/ui/components/logviewer\<close>. The lines of a log are computed where the code reads its render cache; the
  store's width source is the viewer's current width. A nil store or an index out of range sets
  \<open>v_panicked\<close>, where the program ends. What is posted to the runtime is collected in \<open>v_out\<close>.
\<close>

section \<open>State\<close>

datatype menu_action =
    MCopyValue jv | MSearch gostr | MJQ gostr | MFilter filter_type gostr | MQuery gostr | MCopyLog int | MPodContext | MMark int

datatype vpost =
    VQuit | VSaveSnapshot | VSearchDialog gostr | VJQDialog gostr | VFilterMenu "rule list" | VExportDialog
  | VClipboard gostr | VContextMenu "(gostr \<times> menu_action) list" int int | VFilterApplied | VInjectQuery gostr
  | VViewInContext gostr gostr gostr int

record vconf =
  vc_scrolloff :: nat
  vc_moveN :: nat
  vc_batch :: nat
  vc_tl :: tl_conf

record ('q, 'c) viewer =
  v_rect :: rect
  v_mgr :: manager
  v_store :: "('q, 'c) store option"
  v_x :: int
  v_y :: int
  v_log :: int
  v_line :: int
  v_xOffset :: int
  v_currentMatch :: nat
  v_storeGen :: nat
  v_hover :: "(int \<times> int) option"
  v_timeline :: timeline
  v_timelineActive :: bool
  v_out :: "vpost list"
  v_panicked :: bool

definition v_New :: "manager \<Rightarrow> gostr \<Rightarrow> ('q, 'c) viewer" where
  "v_New M jqDefault =
     \<lparr>v_rect = \<lparr>rect_x = 0, rect_y = 0, rect_w = 0, rect_h = 0\<rparr>, v_mgr = M\<lparr>mgr_jq := jqDefault\<rparr>, v_store = None, v_x = 0, v_y = 0,
      v_log = 0, v_line = 0, v_xOffset = 0, v_currentMatch = 0, v_storeGen = 0, v_hover = None, v_timeline = tl_New,
      v_timelineActive = False, v_out = [], v_panicked = False\<rparr>"

definition v_post :: "vpost \<Rightarrow> ('q, 'c) viewer \<Rightarrow> ('q, 'c) viewer" where
  "v_post p m = m\<lparr>v_out := v_out m @ [p]\<rparr>"

definition v_panic :: "('q, 'c) viewer \<Rightarrow> ('q, 'c) viewer" where
  "v_panic m = m\<lparr>v_panicked := True\<rparr>"

text \<open>A use of the store, which panics on a nil store; and one guarded by a test.\<close>

definition deref :: "(('q, 'c) store \<Rightarrow> ('q, 'c) viewer) \<Rightarrow> ('q, 'c) viewer \<Rightarrow> ('q, 'c) viewer" where
  "deref f m = (case v_store m of None \<Rightarrow> v_panic m | Some s \<Rightarrow> f s)"

definition if_store :: "(('q, 'c) store \<Rightarrow> ('q, 'c) viewer) \<Rightarrow> ('q, 'c) viewer \<Rightarrow> ('q, 'c) viewer" where
  "if_store f m = (case v_store m of None \<Rightarrow> m | Some s \<Rightarrow> f s)"

definition sidebarWidth :: int where "sidebarWidth = 1"

definition v_subRects :: "('q, 'c) viewer \<Rightarrow> rect \<times> rect" where
  "v_subRects m =
     (let r = v_rect m
      in (r\<lparr>rect_w := sidebarWidth\<rparr>, r\<lparr>rect_x := rect_x r + sidebarWidth, rect_w := rect_w r - sidebarWidth\<rparr>))"

definition logsRect :: "('q, 'c) viewer \<Rightarrow> rect" where "logsRect m = snd (v_subRects m)"

definition logsWidth :: "('q, 'c) viewer \<Rightarrow> int" where "logsWidth m = rect_w (logsRect m)"

definition v_GetLogCount :: "('q, 'c) viewer \<Rightarrow> nat" where
  "v_GetLogCount m = (case v_store m of None \<Rightarrow> 0 | Some s \<Rightarrow> st_logCount s)"

definition v_IterLogs :: "int \<Rightarrow> int \<Rightarrow> ('q, 'c) viewer \<Rightarrow> int list" where
  "v_IterLogs from step m = (case v_store m of None \<Rightarrow> [] | Some s \<Rightarrow> IterLogs s from step)"

definition IsMarked :: "int \<Rightarrow> ('q, 'c) viewer \<Rightarrow> bool" where
  "IsMarked idx m = (case v_store m of None \<Rightarrow> False | Some s \<Rightarrow> idx \<ge> 0 \<and> nat idx \<in> st_marked s)"

definition GetSearchMatchCount :: "('q, 'c) viewer \<Rightarrow> nat" where
  "GetSearchMatchCount m =
     (case v_store m of None \<Rightarrow> 0
      | Some s \<Rightarrow> (\<Sum>i\<leftarrow>[0..<st_logCount s]. case st_search s i of None \<Rightarrow> 0 | Some ms \<Rightarrow> length ms))"

text \<open>The lines of a log, none for an index out of range.\<close>

definition getRenderCacheEntry :: "('q, 'c) ext \<Rightarrow> int \<Rightarrow> ('q, 'c) viewer \<Rightarrow> gostr list" where
  "getRenderCacheEntry X idx m =
     (case v_store m of
        None \<Rightarrow> []
      | Some s \<Rightarrow>
          if idx < 0 \<or> idx \<ge> int (st_logCount s) then []
          else ByteLines X (st_width s) (nat idx \<in> st_expanded s) (st_logs s ! nat idx))"

definition n_lines :: "('q, 'c) ext \<Rightarrow> ('q, 'c) viewer \<Rightarrow> int \<Rightarrow> int" where
  "n_lines X m idx = int (length (getRenderCacheEntry X idx m))"

section \<open>The display\<close>

fun scan_off :: "(int \<Rightarrow> int) \<Rightarrow> int \<Rightarrow> int \<Rightarrow> int list \<Rightarrow> int" where
  "scan_off L so start [] = start"
| "scan_off L so start (i # is) = (if start > so then start else scan_off L so (start + L i) is)"

definition checkScrollOff :: "('q, 'c) ext \<Rightarrow> int \<Rightarrow> int \<Rightarrow> int \<Rightarrow> int \<Rightarrow> ('q, 'c) viewer \<Rightarrow> ('q, 'c) viewer" where
  "checkScrollOff X so start step cursor m =
     (if scan_off (n_lines X m) so start (v_IterLogs (v_log m + step) step m) \<ge> so then m\<lparr>v_y := cursor\<rparr> else m)"

definition updateDisplay :: "('q, 'c) ext \<Rightarrow> vconf \<Rightarrow> ('q, 'c) viewer \<Rightarrow> ('q, 'c) viewer" where
  "updateDisplay X cf m =
     (let h = rect_h (logsRect m);
          m1 = m\<lparr>v_xOffset := max (v_xOffset m) 0, v_y := clamp (v_y m) 0 (h - 1)\<rparr>
      in if v_GetLogCount m1 < 1 then m1
         else
           let so = int (vc_scrolloff cf);
               m2 = (if v_y m1 > h - so - 1
                     then checkScrollOff X so (n_lines X m1 (v_log m1) - v_line m1 - 1) 1 (h - so - 1) m1 else m1)
           in if v_y m2 < so then checkScrollOff X so (v_line m2) (-1) so m2 else m2)"

section \<open>Cursor moves\<close>

text \<open>The loops of \<open>CursorUp\<close> and \<open>CursorDown\<close>: the log and line they end on.\<close>

fun up_loop :: "(int \<Rightarrow> int) \<Rightarrow> int \<Rightarrow> int \<times> int \<Rightarrow> int list \<Rightarrow> int \<times> int" where
  "up_loop L n (lg, ln) [] = (if n \<le> 0 then (lg, ln) else if ln \<ge> n then (lg, ln - n) else (lg, 0))"
| "up_loop L n (lg, ln) (i # is) =
     (if n \<le> 0 then (lg, ln) else if ln \<ge> n then (lg, ln - n) else up_loop L (n - (ln + 1)) (i, L i - 1) is)"

fun down_loop :: "(int \<Rightarrow> int) \<Rightarrow> int \<Rightarrow> int \<times> int \<Rightarrow> int list \<Rightarrow> int \<times> int" where
  "down_loop L n (lg, ln) [] =
     (if n \<le> 0 then (lg, ln) else if L lg - ln - 1 \<ge> n then (lg, ln + n) else (lg, L lg - 1))"
| "down_loop L n (lg, ln) (i # is) =
     (if n \<le> 0 then (lg, ln) else if L lg - ln - 1 \<ge> n then (lg, ln + n)
      else down_loop L (n - (L lg - ln - 1 + 1)) (i, 0) is)"

definition CursorUp :: "('q, 'c) ext \<Rightarrow> vconf \<Rightarrow> int \<Rightarrow> ('q, 'c) viewer \<Rightarrow> ('q, 'c) viewer" where
  "CursorUp X cf n m =
     (case up_loop (n_lines X m) n (v_log m, v_line m) (v_IterLogs (v_log m - 1) (-1) m) of (lg, ln) \<Rightarrow>
        updateDisplay X cf (m\<lparr>v_y := v_y m - n, v_log := lg, v_line := ln\<rparr>))"

definition CursorDown :: "('q, 'c) ext \<Rightarrow> vconf \<Rightarrow> int \<Rightarrow> ('q, 'c) viewer \<Rightarrow> ('q, 'c) viewer" where
  "CursorDown X cf n m =
     (case down_loop (n_lines X m) n (v_log m, v_line m) (v_IterLogs (v_log m + 1) 1 m) of (lg, ln) \<Rightarrow>
        updateDisplay X cf (m\<lparr>v_y := v_y m + n, v_log := lg, v_line := ln\<rparr>))"

definition CursorToTop :: "('q, 'c) ext \<Rightarrow> vconf \<Rightarrow> ('q, 'c) viewer \<Rightarrow> ('q, 'c) viewer" where
  "CursorToTop X cf m = updateDisplay X cf (m\<lparr>v_log := 0, v_line := 0, v_y := 0\<rparr>)"

definition CursorToBottom :: "('q, 'c) ext \<Rightarrow> vconf \<Rightarrow> ('q, 'c) viewer \<Rightarrow> ('q, 'c) viewer" where
  "CursorToBottom X cf m =
     deref (\<lambda>s. let last = int (st_logCount s) - 1
        in updateDisplay X cf (m\<lparr>v_log := last, v_line := n_lines X m last - 1, v_y := rect_h (logsRect m) - 1\<rparr>)) m"

definition ScrollHorizontally :: "('q, 'c) ext \<Rightarrow> vconf \<Rightarrow> int \<Rightarrow> ('q, 'c) viewer \<Rightarrow> ('q, 'c) viewer" where
  "ScrollHorizontally X cf n m = updateDisplay X cf (m\<lparr>v_xOffset := v_xOffset m + n\<rparr>)"

text \<open>\<open>None\<close> is an index out of range.\<close>

definition GetCurrentLine :: "('q, 'c) ext \<Rightarrow> ('q, 'c) viewer \<Rightarrow> gostr option" where
  "GetCurrentLine X m =
     (case v_store m of
        None \<Rightarrow> Some []
      | Some s \<Rightarrow>
          if st_logCount s < 1 then Some []
          else if v_log m < 0 \<or> v_log m \<ge> int (length (st_logs s)) then None
          else
            let ls = ByteLines X (st_width s) (nat (v_log m) \<in> st_expanded s) (st_logs s ! nat (v_log m))
            in if v_line m < 0 \<or> v_line m \<ge> int (length ls) then None else Some (ls ! nat (v_line m)))"

definition with_line :: "('q, 'c) ext \<Rightarrow> (gostr \<Rightarrow> ('q, 'c) viewer) \<Rightarrow> ('q, 'c) viewer \<Rightarrow> ('q, 'c) viewer" where
  "with_line X f m = (case GetCurrentLine X m of None \<Rightarrow> v_panic m | Some l \<Rightarrow> f l)"

definition leading_spaces :: "gostr \<Rightarrow> int" where
  "leading_spaces l = int (length (takeWhile (\<lambda>c. c = 32) l))"

definition moveToFirstChar :: "('q, 'c) ext \<Rightarrow> vconf \<Rightarrow> ('q, 'c) viewer \<Rightarrow> ('q, 'c) viewer" where
  "moveToFirstChar X cf m =
     (let m1 = m\<lparr>v_xOffset := 0, v_x := 0\<rparr> in with_line X (\<lambda>l. ScrollHorizontally X cf (leading_spaces l) m1) m1)"

definition Center :: "('q, 'c) ext \<Rightarrow> vconf \<Rightarrow> int \<Rightarrow> int \<Rightarrow> int \<Rightarrow> ('q, 'c) viewer \<Rightarrow> ('q, 'c) viewer" where
  "Center X cf logIdx logLine horizontal m =
     updateDisplay X cf (m\<lparr>v_log := logIdx, v_line := logLine, v_x := horizontal,
       v_xOffset := horizontal - rect_w (logsRect m) div 2, v_y := rect_h (logsRect m) div 2\<rparr>)"

section \<open>Rows of the screen\<close>

definition logRowStart :: "int \<Rightarrow> int \<Rightarrow> int \<Rightarrow> int \<Rightarrow> int \<Rightarrow> int" where
  "logRowStart i cursorLog cursorLogLine n step =
     (if step > 0 then (if i = cursorLog then min cursorLogLine (n - 1) else 0)
      else if i = cursorLog then min (cursorLogLine - 1) (n - 1) else n - 1)"

text \<open>The loop \<^verbatim>\<open>for j := from; j >= 0 && j < n; j += step\<close>.\<close>

definition row_lines :: "int \<Rightarrow> int \<Rightarrow> int \<Rightarrow> int list" where
  "row_lines from n step = (if from < 0 \<or> from \<ge> n then [] else if step > 0 then [from..n - 1] else rev [0..from])"

text \<open>The lines both scans walk over, from the cursor on.\<close>

definition log_rows :: "('q, 'c) ext \<Rightarrow> int \<Rightarrow> ('q, 'c) viewer \<Rightarrow> (int \<times> int) list" where
  "log_rows X step m =
     concat (map (\<lambda>i. map (Pair i) (row_lines (logRowStart i (v_log m) (v_line m) (n_lines X m i) step) (n_lines X m i) step))
       (v_IterLogs (v_log m) step m))"

fun scan_rows :: "int \<Rightarrow> int \<Rightarrow> int \<Rightarrow> (int \<times> int) list \<Rightarrow> (int \<times> int) option" where
  "scan_rows target linesIdx step [] = None"
| "scan_rows target linesIdx step (r # rs) = (if linesIdx = target then Some r else scan_rows target (linesIdx + step) step rs)"

definition scanLogRows :: "('q, 'c) ext \<Rightarrow> int \<Rightarrow> int \<Rightarrow> int \<Rightarrow> ('q, 'c) viewer \<Rightarrow> (int \<times> int) option" where
  "scanLogRows X target start step m = scan_rows target start step (log_rows X step m)"

definition logIdxAtVirtualRow :: "('q, 'c) ext \<Rightarrow> int \<Rightarrow> ('q, 'c) viewer \<Rightarrow> (int \<times> int) option" where
  "logIdxAtVirtualRow X relY m =
     (if v_GetLogCount m < 1 then None
      else if relY \<ge> v_y m then scanLogRows X relY (v_y m) 1 m
      else scanLogRows X relY (v_y m - 1) (-1) m)"

definition logIdxAtRow :: "('q, 'c) ext \<Rightarrow> int \<Rightarrow> ('q, 'c) viewer \<Rightarrow> (int \<times> int) option" where
  "logIdxAtRow X relY m =
     (if v_GetLogCount m < 1 then None
      else if relY < 0 \<or> relY \<ge> rect_h (logsRect m) then None
      else logIdxAtVirtualRow X relY m)"

text \<open>
  \<open>placeLogs\<close>: the rows it renders, in order, each as its row on screen, log and line; a later one overwrites an
  earlier one on the same row. \<open>None\<close> is an index out of range: the downward loop does not test for a negative line.
\<close>

fun place_up :: "int \<Rightarrow> (int \<times> int) list \<Rightarrow> (int \<times> (int \<times> int)) list" where
  "place_up linesIdx [] = []"
| "place_up linesIdx (r # rs) = (if linesIdx < 0 then [] else (linesIdx, r) # place_up (linesIdx - 1) rs)"

fun place_down :: "int \<Rightarrow> int \<Rightarrow> (int \<times> int) list \<Rightarrow> (int \<times> (int \<times> int)) list" where
  "place_down h linesIdx [] = []"
| "place_down h linesIdx (r # rs) = (if linesIdx \<ge> h then [] else (linesIdx, r) # place_down h (linesIdx + 1) rs)"

definition placeLogs :: "('q, 'c) ext \<Rightarrow> ('q, 'c) viewer \<Rightarrow> (int \<times> (int \<times> int)) list option" where
  "placeLogs X m =
     (let r = logsRect m
      in if rect_h r < 1 \<or> rect_w r < 1 \<or> v_GetLogCount m < 1 then Some []
         else if list_ex (\<lambda>i. logRowStart i (v_log m) (v_line m) (n_lines X m i) 1 < 0) (v_IterLogs (v_log m) 1 m) then None
         else Some (place_up (max (v_y m - 1) 0) (log_rows X (-1) m) @ place_down (rect_h r) (v_y m) (log_rows X 1 m)))"

section \<open>Scrolling\<close>

definition clampViewportPan :: "('q, 'c) ext \<Rightarrow> vconf \<Rightarrow> int \<Rightarrow> int \<Rightarrow> ('q, 'c) viewer \<Rightarrow> ('q, 'c) viewer \<times> bool" where
  "clampViewportPan X cf n h m =
     (if n > 0 then
        (if logIdxAtVirtualRow X h m = None then (m, True)
         else if logIdxAtVirtualRow X (h - 1 + n) m = None then (CursorToBottom X cf m, True)
         else (m, False))
      else if logIdxAtVirtualRow X (-1) m = None then (m, True)
      else if logIdxAtVirtualRow X n m = None then (CursorToTop X cf m, True)
      else (m, False))"

definition v_ScrollViewport :: "('q, 'c) ext \<Rightarrow> vconf \<Rightarrow> int \<Rightarrow> ('q, 'c) viewer \<Rightarrow> ('q, 'c) viewer" where
  "v_ScrollViewport X cf n m =
     (let h = rect_h (logsRect m)
      in if v_GetLogCount m < 1 \<or> n = 0 then m
         else if h < 1 then m
         else
           let scrollOff = min (int (vc_scrolloff cf)) (max 0 ((h - 1) div 2)); p = clampViewportPan X cf n h m
           in if snd p then fst p
              else if n > 0 then
                (if v_y m - n \<ge> scrollOff then updateDisplay X cf (m\<lparr>v_y := v_y m - n\<rparr>)
                 else case logIdxAtRow X (scrollOff + n) m of
                     Some (lg, ln) \<Rightarrow> updateDisplay X cf (m\<lparr>v_log := lg, v_line := ln, v_y := scrollOff\<rparr>)
                   | None \<Rightarrow> m)
              else
                let k = - n; bottomMargin = h - 1 - scrollOff
                in if v_y m + k \<le> bottomMargin then updateDisplay X cf (m\<lparr>v_y := v_y m + k\<rparr>)
                   else case logIdxAtRow X (bottomMargin - k) m of
                       Some (lg, ln) \<Rightarrow> updateDisplay X cf (m\<lparr>v_log := lg, v_line := ln, v_y := bottomMargin\<rparr>)
                     | None \<Rightarrow> m)"

section \<open>Matches\<close>

definition matches_of :: "('q, 'c) store \<Rightarrow> int \<Rightarrow> smatch list" where
  "matches_of s i = (case st_search s (nat i) of None \<Rightarrow> [] | Some ms \<Rightarrow> ms)"

definition centerOnMatch :: "('q, 'c) ext \<Rightarrow> vconf \<Rightarrow> ('q, 'c) store \<Rightarrow> int \<Rightarrow> nat \<Rightarrow> smatch \<Rightarrow> ('q, 'c) viewer \<Rightarrow> ('q, 'c) viewer" where
  "centerOnMatch X cf s logIdx matchIdx mt m =
     (Center X cf logIdx (int (m_line mt)) (int (m_start mt)) m)
       \<lparr>v_currentMatch := MatchIndex (st_search s) (nat logIdx) matchIdx (st_filtered s) + 1\<rparr>"

definition goes_prev :: "('q, 'c) viewer \<Rightarrow> bool \<Rightarrow> smatch \<Rightarrow> bool" where
  "goes_prev m other mt =
     (if other \<or> int (m_line mt) < v_line m then True
      else if int (m_line mt) > v_line m \<or> v_xOffset m < 1 then False
      else int (m_start mt) < v_xOffset m + rect_w (logsRect m) div 2)"

definition goes_next :: "('q, 'c) viewer \<Rightarrow> bool \<Rightarrow> smatch \<Rightarrow> bool" where
  "goes_next m other mt =
     (if other \<or> int (m_line mt) > v_line m then True
      else if int (m_line mt) < v_line m then False
      else int (m_start mt) > v_xOffset m + rect_w (logsRect m) div 2)"

text \<open>The loops over the logs; \<open>matches\<close> yields the matches of a log in the order tried, with their index.\<close>

fun match_loop ::
  "('q, 'c) ext \<Rightarrow> vconf \<Rightarrow> ('q, 'c) store \<Rightarrow> (int \<Rightarrow> (nat \<times> smatch) list) \<Rightarrow> (bool \<Rightarrow> smatch \<Rightarrow> bool) \<Rightarrow> int list \<Rightarrow> ('q, 'c) viewer
     \<Rightarrow> ('q, 'c) viewer \<times> bool" where
  "match_loop X cf s matches takes [] m = (m, False)"
| "match_loop X cf s matches takes (i # is) m =
     (if IsMarked i m \<and> i \<noteq> v_log m then (Center X cf i 0 0 m, True)
      else case find (\<lambda>(k, mt). takes (i \<noteq> v_log m) mt) (matches i) of
             Some (k, mt) \<Rightarrow> (centerOnMatch X cf s i k mt m, True)
           | None \<Rightarrow> match_loop X cf s matches takes is m)"

definition CenterPrevMatch :: "('q, 'c) ext \<Rightarrow> vconf \<Rightarrow> ('q, 'c) viewer \<Rightarrow> ('q, 'c) viewer \<times> bool" where
  "CenterPrevMatch X cf m =
     (case v_store m of
        None \<Rightarrow> (v_panic m, False)
      | Some s \<Rightarrow>
          if st_logCount s < 1 then (m, False)
          else match_loop X cf s (\<lambda>i. rev (enumerate 0 (matches_of s i))) (goes_prev m) (v_IterLogs (v_log m) (-1) m) m)"

definition CenterNextMatch :: "('q, 'c) ext \<Rightarrow> vconf \<Rightarrow> ('q, 'c) viewer \<Rightarrow> ('q, 'c) viewer \<times> bool" where
  "CenterNextMatch X cf m =
     (case v_store m of
        None \<Rightarrow> (v_panic m, False)
      | Some s \<Rightarrow>
          if st_logCount s < 1 then (m, False)
          else match_loop X cf s (\<lambda>i. enumerate 0 (matches_of s i)) (goes_next m) (v_IterLogs (v_log m) 1 m) m)"

section \<open>Filters, search and jq\<close>

definition hidden :: "('q, 'c) store \<Rightarrow> int \<Rightarrow> bool" where
  "hidden s i \<longleftrightarrow> i \<ge> 0 \<and> nat i \<in> st_filtered s"

definition moveCursorOutOfFilter :: "('q, 'c) ext \<Rightarrow> vconf \<Rightarrow> ('q, 'c) viewer \<Rightarrow> ('q, 'c) viewer" where
  "moveCursorOutOfFilter X cf m =
     deref (\<lambda>s. if \<not> hidden s (v_log m) then m
        else
          let m1 = CursorDown X cf (n_lines X m (v_log m) - v_line m) m
          in if v_log m1 = v_log m then CursorUp X cf (v_line m1 + 1) m1 else m1) m"

definition OnJQChunk :: "('q, 'c) ext \<Rightarrow> vconf \<Rightarrow> jq_chunk_msg \<Rightarrow> ('q, 'c) viewer \<Rightarrow> ('q, 'c) viewer" where
  "OnJQChunk X cf msg m =
     if_store (\<lambda>s.
        let r = HandleJQChunk X (v_mgr m) msg s; m1 = m\<lparr>v_store := Some (fst r)\<rparr>;
            offsetIdx = int (jr_ChunkOffset (snd r) * vc_batch cf);
            n = n_lines X m1 (v_log m1);
            m2 = (if offsetIdx \<le> v_log m1 \<and> offsetIdx + int (jr_ResultCount (snd r)) > v_log m1 \<and> n \<le> v_line m1
                  then m1\<lparr>v_line := n - 1\<rparr> else m1)
        in updateDisplay X cf m2) m"

definition OnSearchChunk :: "('q, 'c) ext \<Rightarrow> vconf \<Rightarrow> search_chunk_msg \<Rightarrow> ('q, 'c) viewer \<Rightarrow> ('q, 'c) viewer" where
  "OnSearchChunk X cf msg m =
     if_store (\<lambda>s. let r = HandleSearchChunk (v_mgr m) msg s; m1 = m\<lparr>v_store := Some (fst r)\<rparr>
        in if \<not> snd r then m1 else updateDisplay X cf m1) m"

definition v_HandleFilterChunk :: "('q, 'c) ext \<Rightarrow> vconf \<Rightarrow> filter_chunk_msg \<Rightarrow> ('q, 'c) viewer \<Rightarrow> ('q, 'c) viewer" where
  "v_HandleFilterChunk X cf msg m =
     if_store (\<lambda>s. let r = HandleFilterChunk msg s
        in if \<not> snd r then m else updateDisplay X cf (moveCursorOutOfFilter X cf (m\<lparr>v_store := Some (fst r)\<rparr>))) m"

definition OnFilterApplied :: "('q, 'c) ext \<Rightarrow> vconf \<Rightarrow> ('q, 'c) viewer \<Rightarrow> ('q, 'c) viewer" where
  "OnFilterApplied X cf m =
     if_store (\<lambda>s. updateDisplay X cf (moveCursorOutOfFilter X cf (m\<lparr>v_store := Some (ApplyFilters X (v_mgr m) s)\<rparr>))) m"

definition applyJQAndRefresh :: "('q, 'c) ext \<Rightarrow> vconf \<Rightarrow> bool \<Rightarrow> ('q, 'c) viewer \<Rightarrow> ('q, 'c) viewer" where
  "applyJQAndRefresh X cf cleared m =
     if_store (\<lambda>s. let m1 = m\<lparr>v_store := Some (ApplyJQ X (v_mgr m) s)\<rparr> in if cleared then updateDisplay X cf m1 else m1) m"

definition run_search :: "('q, 'c) viewer \<Rightarrow> ('q, 'c) viewer" where
  "run_search m = if_store (\<lambda>s. m\<lparr>v_store := Some (DoSearch (v_mgr m) s)\<rparr>) m"

definition OnInjectSearch :: "gostr \<Rightarrow> ('q, 'c) viewer \<Rightarrow> ('q, 'c) viewer" where
  "OnInjectSearch v m = run_search (m\<lparr>v_currentMatch := 0, v_mgr := (v_mgr m)\<lparr>mgr_search := v\<rparr>\<rparr>)"

definition OnInjectJQ :: "('q, 'c) ext \<Rightarrow> vconf \<Rightarrow> gostr \<Rightarrow> ('q, 'c) viewer \<Rightarrow> ('q, 'c) viewer" where
  "OnInjectJQ X cf v m =
     applyJQAndRefresh X cf (TrimSpaceRunes v = []) (m\<lparr>v_currentMatch := 0, v_mgr := (v_mgr m)\<lparr>mgr_jq := v\<rparr>\<rparr>)"

text \<open>The confirmation of the search dialog, and of the jq dialog, which refuses an expression that does not compile.\<close>

definition apply_search_dialog :: "gostr \<Rightarrow> ('q, 'c) viewer \<Rightarrow> ('q, 'c) viewer" where
  "apply_search_dialog v m =
     run_search (m\<lparr>v_currentMatch := 0, v_mgr := (v_mgr m)\<lparr>mgr_search := TrimSpaceRunes v\<rparr>\<rparr>)"

definition jq_error :: "('q, 'c) ext \<Rightarrow> gostr \<Rightarrow> gostr option" where
  "jq_error X e =
     (if e = [] then None
      else case x_parse X e of Inl er \<Rightarrow> Some er | Inr q \<Rightarrow> (case x_compile X q of Inl er \<Rightarrow> Some er | Inr c \<Rightarrow> None))"

definition apply_jq_dialog :: "('q, 'c) ext \<Rightarrow> vconf \<Rightarrow> gostr \<Rightarrow> ('q, 'c) viewer \<Rightarrow> gostr option \<times> ('q, 'c) viewer" where
  "apply_jq_dialog X cf v m =
     (let e = TrimSpaceRunes v
      in case jq_error X e of
           Some er \<Rightarrow> (Some er, m)
         | None \<Rightarrow> (None, applyJQAndRefresh X cf (e = []) (m\<lparr>v_mgr := (v_mgr m)\<lparr>mgr_jq := e\<rparr>\<rparr>)))"

end
