(* ===== verification/Logview_Ui.thy ===== *)
theory Logview_Ui
  imports Logview
begin

text \<open>
  What drives the log viewer: expansion, resizing, adopting a store, the context menu, mouse and keys, from \<^verbatim>\<open>expand.go\<close>,
  \<^verbatim>\<open>menu.go\<close>, \<^verbatim>\<open>keybinds.go\<close> and \<^verbatim>\<open>logviewer.go\<close>.
\<close>

section \<open>Expansion and size\<close>

definition is_expanded :: "('q, 'c) store \<Rightarrow> int \<Rightarrow> bool" where
  "is_expanded s i \<longleftrightarrow> i \<ge> 0 \<and> nat i \<in> st_expanded s"

definition v_SetExpand :: "('q, 'c) ext \<Rightarrow> vconf \<Rightarrow> int \<Rightarrow> bool \<Rightarrow> ('q, 'c) viewer \<Rightarrow> ('q, 'c) viewer" where
  "v_SetExpand X cf idx b m =
     deref (\<lambda>s.
        let m1 = m\<lparr>v_store := Some (SetExpand X (v_mgr m) idx b s)\<rparr>;
            m2 = (if idx = v_log m1 \<and> \<not> b then m1\<lparr>v_y := v_y m1 - v_line m1, v_line := 0\<rparr> else m1)
        in updateDisplay X cf m2) m"

definition v_ToggleExpandAll :: "('q, 'c) ext \<Rightarrow> vconf \<Rightarrow> ('q, 'c) viewer \<Rightarrow> ('q, 'c) viewer" where
  "v_ToggleExpandAll X cf m =
     deref (\<lambda>s.
        let s1 = ToggleExpandAll X (v_mgr m) s; m1 = m\<lparr>v_store := Some s1\<rparr>;
            m2 = (if is_expanded s (v_log m) \<and> \<not> is_expanded s1 (v_log m)
                  then m1\<lparr>v_y := v_y m1 - v_line m1, v_line := 0\<rparr> else m1)
        in updateDisplay X cf m2) m"

definition v_SetRect :: "('q, 'c) ext \<Rightarrow> vconf \<Rightarrow> rect \<Rightarrow> ('q, 'c) viewer \<Rightarrow> ('q, 'c) viewer" where
  "v_SetRect X cf r m =
     (let m1 = m\<lparr>v_rect := r\<rparr>;
          m2 = m1\<lparr>v_store := map_option (SetWidthSource (logsWidth m1)) (v_store m1)\<rparr>;
          m3 = (if v_timelineActive m2 then m2\<lparr>v_timeline := tl_SetRect r (v_timeline m2)\<rparr> else m2);
          m4 = (if rect_w (v_rect m) \<noteq> rect_w r
                then m3\<lparr>v_store := map_option (RefreshExpandedSearch X (v_mgr m3)) (v_store m3)\<rparr> else m3)
      in updateDisplay X cf m4)"

section \<open>Adopting a store\<close>

definition CloseTimeline :: "('q, 'c) viewer \<Rightarrow> ('q, 'c) viewer" where
  "CloseTimeline m =
     (if \<not> v_timelineActive m then m else m\<lparr>v_timelineActive := False, v_timeline := tl_Close (v_timeline m)\<rparr>)"

definition reset_cursor :: "('q, 'c) viewer \<Rightarrow> ('q, 'c) viewer" where
  "reset_cursor m = m\<lparr>v_x := 0, v_y := 0, v_log := 0, v_line := 0\<rparr>"

definition v_Clear :: "('q, 'c) ext \<Rightarrow> vconf \<Rightarrow> ('q, 'c) viewer \<Rightarrow> ('q, 'c) viewer" where
  "v_Clear X cf m = updateDisplay X cf (reset_cursor (m\<lparr>v_store := map_option Clear (v_store m)\<rparr>))"

text \<open>\<open>same\<close> tells whether the adopted store is the object the viewer has; \<open>m\<close> holds the new store.\<close>

definition adoptRowState :: "bool \<Rightarrow> ('q, 'c) viewer \<Rightarrow> ('q, 'c) viewer" where
  "adoptRowState same m =
     (let gen = (case v_store m of None \<Rightarrow> 0 | Some s \<Rightarrow> st_queryID s);
          newGeneration = (\<not> same \<or> gen \<noteq> v_storeGen m);
          m1 = m\<lparr>v_storeGen := gen\<rparr>
      in if newGeneration \<or> v_store m1 = None \<or> v_GetLogCount m1 = 0
         then (let m2 = reset_cursor m1 in if newGeneration then m2\<lparr>v_currentMatch := 0\<rparr> else m2)
         else if v_log m1 \<ge> int (v_GetLogCount m1) then m1\<lparr>v_log := int (v_GetLogCount m1) - 1, v_line := 0\<rparr>
         else m1)"

datatype ('q, 'c) adopted = NoStore | SameStore | OtherStore "('q, 'c) store"

text \<open>\<open>SetStore\<close>; the store that is let go is cancelled and returned.\<close>

definition SetStore :: "('q, 'c) ext \<Rightarrow> ('q, 'c) adopted \<Rightarrow> ('q, 'c) viewer \<Rightarrow> ('q, 'c) viewer \<times> ('q, 'c) store option" where
  "SetStore X a m =
     (let old = map_option CancelAll (v_store m);
          new = (case a of NoStore \<Rightarrow> None | SameStore \<Rightarrow> old | OtherStore s \<Rightarrow> Some s);
          same = (case a of NoStore \<Rightarrow> v_store m = None | SameStore \<Rightarrow> True | OtherStore s \<Rightarrow> False);
          m1 = (adoptRowState same (m\<lparr>v_store := new\<rparr>))\<lparr>v_xOffset := 0\<rparr>
      in (case new of
            None \<Rightarrow> m1
          | Some s0 \<Rightarrow>
              let s = SetWidthSource (logsWidth m1) s0; M = v_mgr m1;
                  m2 = (if st_appliedSearch s \<noteq> mgr_search M then m1\<lparr>v_currentMatch := 0\<rparr> else m1);
                  s1 = (if st_appliedFilters s \<noteq> mgr_filters M then ApplyFilters X M s else s);
                  s2 = (if st_appliedJQ s \<noteq> mgr_jq M then ApplyJQ X M s1
                        else if st_appliedSearch s \<noteq> mgr_search M then DoSearch M s1 else s1)
              in m2\<lparr>v_store := Some s2\<rparr>, old))"

definition v_GetCursor :: "('q, 'c) viewer \<Rightarrow> int \<times> int \<times> int \<times> int \<times> int" where
  "v_GetCursor m = (v_x m, v_y m, v_log m, v_line m, v_xOffset m)"

definition v_SetCursor :: "int \<Rightarrow> int \<Rightarrow> int \<Rightarrow> int \<Rightarrow> int \<Rightarrow> ('q, 'c) viewer \<Rightarrow> ('q, 'c) viewer" where
  "v_SetCursor x y lg ln xo m = m\<lparr>v_x := x, v_y := y, v_log := lg, v_line := ln, v_xOffset := xo\<rparr>"

section \<open>The field under the cursor\<close>

text \<open>A log's data: the root of the raw data is a defined type that is not \<^verbatim>\<open>map[string]any\<close>.\<close>

definition cur_entry :: "('q, 'c) viewer \<Rightarrow> entry option" where
  "cur_entry m =
     (case v_store m of
        None \<Rightarrow> None
      | Some s \<Rightarrow> if v_log m < 0 \<or> v_log m \<ge> int (length (st_logs s)) then None else Some (st_logs s ! nat (v_log m)))"

definition cur_path :: "(rune \<Rightarrow> nat) \<Rightarrow> ('q, 'c) ext \<Rightarrow> ('q, 'c) viewer \<Rightarrow> gostr list" where
  "cur_path rw X m =
     (case tokenize rw (join_lines (getRenderCacheEntry X (v_log m) m)) of
        None \<Rightarrow> []
      | Some toks \<Rightarrow> if getRenderCacheEntry X (v_log m) m = [] then [] else extractKeyPath toks (v_line m))"

definition GetCurrentValue :: "(rune \<Rightarrow> nat) \<Rightarrow> ('q, 'c) ext \<Rightarrow> ('q, 'c) viewer \<Rightarrow> gostr" where
  "GetCurrentValue rw X m =
     (if v_GetLogCount m < 1 then []
      else
        let path = cur_path rw X m
        in if path = [] then []
           else case cur_entry m of
               None \<Rightarrow> []
             | Some e \<Rightarrow>
                 (case (if e_modified e = JNil then None else navigate (e_modified e) path) of
                    None \<Rightarrow> []
                  | Some v \<Rightarrow> (case valueToClipboard X v of Some t \<Rightarrow> t | None \<Rightarrow> [])))"

definition resolveCursorField :: "(rune \<Rightarrow> nat) \<Rightarrow> ('q, 'c) ext \<Rightarrow> ('q, 'c) viewer \<Rightarrow> (gostr list \<times> jv) option" where
  "resolveCursorField rw X m =
     (case v_store m of
        None \<Rightarrow> None
      | Some s \<Rightarrow>
          if st_logCount s < 1 \<or> \<not> is_expanded s (v_log m) then None
          else
            let path = cur_path rw X m
            in if path = [] then None
               else case cur_entry m of
                   None \<Rightarrow> None
                 | Some e \<Rightarrow> map_option (Pair path) (navigate (if e_modified e = JNil then e_data e else e_modified e) path))"

text \<open>The expression, the path from the root of the raw data, and whether there is one.\<close>

definition jqExprForField :: "gostr \<Rightarrow> gostr list \<Rightarrow> gostr \<times> gostr list \<times> bool" where
  "jqExprForField appliedJQ relPath =
     (case parseJQPathPrefix appliedJQ of
        Some pre \<Rightarrow> (jqPath (pre @ relPath), pre @ relPath, True)
      | None \<Rightarrow> (appliedJQ @ jqPath relPath, [], False))"

definition applied_jq :: "('q, 'c) viewer \<Rightarrow> gostr" where
  "applied_jq m = (case v_store m of None \<Rightarrow> [] | Some s \<Rightarrow> st_appliedJQ s)"

definition onCursorFieldJQ :: "(rune \<Rightarrow> nat) \<Rightarrow> ('q, 'c) ext \<Rightarrow> vconf \<Rightarrow> ('q, 'c) viewer \<Rightarrow> ('q, 'c) viewer" where
  "onCursorFieldJQ rw X cf m =
     (case resolveCursorField rw X m of
        None \<Rightarrow> m
      | Some (relPath, v) \<Rightarrow> OnInjectJQ X cf (fst (jqExprForField (applied_jq m) relPath)) m)"

definition onCursorFieldSearch :: "(rune \<Rightarrow> nat) \<Rightarrow> ('q, 'c) ext \<Rightarrow> ('q, 'c) viewer \<Rightarrow> ('q, 'c) viewer" where
  "onCursorFieldSearch rw X m =
     (case resolveCursorField rw X m of
        None \<Rightarrow> m
      | Some (relPath, v) \<Rightarrow> (case searchValForField X v of Some sv \<Rightarrow> OnInjectSearch sv m | None \<Rightarrow> m))"

section \<open>The context menu\<close>

definition contextMenuFieldItems :: "(rune \<Rightarrow> nat) \<Rightarrow> ('q, 'c) ext \<Rightarrow> ('q, 'c) viewer \<Rightarrow> (gostr \<times> menu_action) list" where
  "contextMenuFieldItems rw X m =
     (case resolveCursorField rw X m of
        None \<Rightarrow> []
      | Some (relPath, value) \<Rightarrow>
          (case jqExprForField (applied_jq m) relPath of (jq, basePath, jqIsPath) \<Rightarrow>
             [(str ''copy value'', MCopyValue value)]
             @ (case searchValForField X value of Some sv \<Rightarrow> [(str ''search value'', MSearch sv)] | None \<Rightarrow> [])
             @ [(str ''jq: select field'', MJQ jq)]
             @ (case searchValForField X value of
                  Some sv \<Rightarrow> [(str ''filter: include value'', MFilter Include sv), (str ''filter: exclude value'', MFilter Exclude sv)]
                | None \<Rightarrow> [])
             @ (if jqIsPath then [(str ''filter: has field'', MFilter HasField (jqPath basePath))] else [])
             @ (if jqIsPath \<and> isScalarValue value then
                  (case dataprimeLiteral X value of
                     Some lit \<Rightarrow> [(str ''dataprime: filter field == value'', MQuery (str ''| filter '' @ dataprimeRef basePath @ str '' == '' @ lit))]
                   | None \<Rightarrow> [])
                else [])))"

definition hasPodContext :: "('q, 'c) viewer \<Rightarrow> bool" where
  "hasPodContext m \<longleftrightarrow>
     v_GetLogCount m \<ge> 1 \<and> (case cur_entry m of None \<Rightarrow> False | Some e \<Rightarrow> podIDFromData (e_data e) \<noteq> None)"

definition postContextMenu :: "(rune \<Rightarrow> nat) \<Rightarrow> ('q, 'c) ext \<Rightarrow> int \<Rightarrow> int \<Rightarrow> ('q, 'c) viewer \<Rightarrow> ('q, 'c) viewer" where
  "postContextMenu rw X ax ay m =
     (if v_GetLogCount m < 1 then m
      else if cur_entry m = None then v_panic m
      else
        let fieldItems = contextMenuFieldItems rw X m;
            items = take 1 fieldItems @ [(str ''copy log'', MCopyLog (v_log m))] @ drop 1 fieldItems
              @ (if hasPodContext m then [(str ''dataprime: pod context'', MPodContext)] else [])
              @ [(if IsMarked (v_log m) m then str ''unmark log'' else str ''mark log'', MMark (v_log m))]
        in v_post (VContextMenu items ax ay) m)"

definition contextMenuAnchor :: "('q, 'c) ext \<Rightarrow> ('q, 'c) viewer \<Rightarrow> (int \<times> int) option" where
  "contextMenuAnchor X m =
     (case GetCurrentLine X m of
        None \<Rightarrow> None
      | Some l \<Rightarrow> Some (rect_x (logsRect m) + max 0 (leading_spaces l - v_xOffset m), rect_y (logsRect m) + v_y m + 1))"

definition showContextMenu :: "(rune \<Rightarrow> nat) \<Rightarrow> ('q, 'c) ext \<Rightarrow> ('q, 'c) viewer \<Rightarrow> ('q, 'c) viewer" where
  "showContextMenu rw X m =
     (case contextMenuAnchor X m of None \<Rightarrow> v_panic m | Some (ax, ay) \<Rightarrow> postContextMenu rw X ax ay m)"

definition showContextMenuAt :: "(rune \<Rightarrow> nat) \<Rightarrow> ('q, 'c) ext \<Rightarrow> int \<Rightarrow> int \<Rightarrow> ('q, 'c) viewer \<Rightarrow> ('q, 'c) viewer" where
  "showContextMenuAt rw X x y m = postContextMenu rw X x (y + 1) m"

definition OpenContextMenu :: "(rune \<Rightarrow> nat) \<Rightarrow> ('q, 'c) ext \<Rightarrow> ('q, 'c) viewer \<Rightarrow> ('q, 'c) viewer" where
  "OpenContextMenu rw X m = (if v_timelineActive m then m else if v_GetLogCount m > 0 then showContextMenu rw X m else m)"

definition appendFilterRule :: "filter_type \<Rightarrow> gostr \<Rightarrow> ('q, 'c) viewer \<Rightarrow> ('q, 'c) viewer" where
  "appendFilterRule t value m =
     v_post VFilterApplied (m\<lparr>v_mgr := (v_mgr m)\<lparr>mgr_filters := mgr_filters (v_mgr m) @ [\<lparr>r_type = t, r_value = value\<rparr>]\<rparr>\<rparr>)"

definition viewInContext :: "('q, 'c) viewer \<Rightarrow> ('q, 'c) viewer" where
  "viewInContext m =
     deref (\<lambda>s. if st_logCount s < 1 then m
        else case cur_entry m of
            None \<Rightarrow> v_panic m
          | Some e \<Rightarrow>
              (case podIDFromData (e_data e) of
                 None \<Rightarrow> m
               | Some podID \<Rightarrow>
                   if md_id (e_metadata e) = [] \<or> md_ts (e_metadata e) = 0 then m
                   else v_post (VViewInContext (st_identity s) podID (md_id (e_metadata e)) (md_ts (e_metadata e))) m)) m"

definition copy_log :: "('q, 'c) ext \<Rightarrow> int \<Rightarrow> ('q, 'c) viewer \<Rightarrow> ('q, 'c) viewer" where
  "copy_log X i m =
     deref (\<lambda>s. if i < 0 \<or> i \<ge> int (length (st_logs s)) then v_panic m
        else case entry_marshal X (is_expanded s i) (st_logs s ! nat i) of
            Inl e \<Rightarrow> m
          | Inr b \<Rightarrow> v_post (VClipboard b) m) m"

text \<open>A mark at a negative index, which only a cursor on an empty store can ask for, has no log to be read at.\<close>

definition toggle_mark :: "int \<Rightarrow> ('q, 'c) viewer \<Rightarrow> ('q, 'c) viewer" where
  "toggle_mark i m =
     deref (\<lambda>s. if i < 0 then m else m\<lparr>v_store := Some (s\<lparr>st_marked := idx_Set (nat i) (\<not> IsMarked i m) (st_marked s)\<rparr>)\<rparr>) m"

fun run_menu_action :: "('q, 'c) ext \<Rightarrow> vconf \<Rightarrow> menu_action \<Rightarrow> ('q, 'c) viewer \<Rightarrow> ('q, 'c) viewer" where
  "run_menu_action X cf (MCopyValue v) m = (case valueToClipboard X v of Some t \<Rightarrow> v_post (VClipboard t) m | None \<Rightarrow> m)"
| "run_menu_action X cf (MSearch sv) m = OnInjectSearch sv m"
| "run_menu_action X cf (MJQ e) m = OnInjectJQ X cf e m"
| "run_menu_action X cf (MFilter t v) m = appendFilterRule t v m"
| "run_menu_action X cf (MQuery q) m = v_post (VInjectQuery q) m"
| "run_menu_action X cf (MCopyLog i) m = copy_log X i m"
| "run_menu_action X cf MPodContext m = viewInContext m"
| "run_menu_action X cf (MMark i) m = toggle_mark i m"

section \<open>Timeline\<close>

definition applyTimelineAction :: "('q, 'c) ext \<Rightarrow> vconf \<Rightarrow> ('q, 'c) viewer \<Rightarrow> ('q, 'c) viewer" where
  "applyTimelineAction X cf m =
     (case PendingJump (v_timeline m) of (idx, line, ok) \<Rightarrow>
        if ok then
          CloseTimeline (if v_store m \<noteq> None \<and> idx \<ge> 0 \<and> idx < int (v_GetLogCount m) then Center X cf idx line 0 m else m)
        else if WantsClose (v_timeline m) then CloseTimeline m
        else m)"

definition open_timeline :: "vconf \<Rightarrow> ('q, 'c) viewer \<Rightarrow> ('q, 'c) viewer" where
  "open_timeline cf m =
     (case v_store m of
        None \<Rightarrow> m
      | Some s \<Rightarrow>
          if st_logCount s = 0 then m
          else
            let ts = GetTSMicro s (v_log m)
            in m\<lparr>v_timelineActive := True,
                 v_timeline := tl_Open (vc_tl cf) (GetTimeRange s) (st_logCount s) (IterLogMeta s)
                   (case ts of Some t \<Rightarrow> t | None \<Rightarrow> 0) (ts \<noteq> None) (tl_SetRect (v_rect m) (v_timeline m))\<rparr>)"

section \<open>Mouse\<close>

datatype mouse_button = MouseLeft | MouseRight | MouseOther

definition moveCursorToRow :: "('q, 'c) ext \<Rightarrow> vconf \<Rightarrow> int \<times> int \<Rightarrow> int \<Rightarrow> ('q, 'c) viewer \<Rightarrow> ('q, 'c) viewer" where
  "moveCursorToRow X cf r relY m = updateDisplay X cf (m\<lparr>v_log := fst r, v_line := snd r, v_y := relY\<rparr>)"

definition in_logs :: "int \<Rightarrow> ('q, 'c) viewer \<Rightarrow> bool" where
  "in_logs y m \<longleftrightarrow> y \<ge> rect_y (logsRect m) \<and> y < rect_y (logsRect m) + rect_h (logsRect m)"

definition onLogRowClick ::
  "(rune \<Rightarrow> nat) \<Rightarrow> ('q, 'c) ext \<Rightarrow> vconf \<Rightarrow> int \<Rightarrow> int \<Rightarrow> int \<Rightarrow> mouse_button \<Rightarrow> ('q, 'c) viewer \<Rightarrow> ('q, 'c) viewer \<times> bool" where
  "onLogRowClick rw X cf x y relY btn m =
     (case logIdxAtRow X relY m of
        None \<Rightarrow> (m, False)
      | Some r \<Rightarrow>
          let m1 = moveCursorToRow X cf r relY m
          in (if btn = MouseRight then showContextMenuAt rw X x y m1 else m1, True))"

definition v_OnMouseClick ::
  "(rune \<Rightarrow> nat) \<Rightarrow> ('q, 'c) ext \<Rightarrow> vconf \<Rightarrow> int \<Rightarrow> int \<Rightarrow> mouse_button \<Rightarrow> ('q, 'c) viewer \<Rightarrow> ('q, 'c) viewer \<times> bool" where
  "v_OnMouseClick rw X cf x y btn m =
     (if v_timelineActive m then
        let r = tl_OnMouseClick y (v_timeline m)
        in (applyTimelineAction X cf (m\<lparr>v_timeline := fst r\<rparr>), snd r)
      else if btn = MouseOther then (m, False)
      else if in_logs y m then onLogRowClick rw X cf x y (y - rect_y (logsRect m)) btn m
      else (m, False))"

definition v_ClearMouseHover :: "('q, 'c) viewer \<Rightarrow> ('q, 'c) viewer \<times> bool" where
  "v_ClearMouseHover m =
     (let r = tl_ClearMouseHover (v_timeline m)
      in (m\<lparr>v_hover := None, v_timeline := fst r\<rparr>, v_hover m \<noteq> None \<or> snd r))"

definition v_OnMouseHover :: "('q, 'c) ext \<Rightarrow> int \<Rightarrow> ('q, 'c) viewer \<Rightarrow> ('q, 'c) viewer \<times> bool" where
  "v_OnMouseHover X y m =
     (if v_timelineActive m then
        let r = tl_OnMouseHover y (v_timeline m) in (m\<lparr>v_hover := None, v_timeline := fst r\<rparr>, snd r)
      else if \<not> in_logs y m then v_ClearMouseHover m
      else case logIdxAtRow X (y - rect_y (logsRect m)) m of
          None \<Rightarrow> v_ClearMouseHover m
        | Some r \<Rightarrow> if v_hover m = Some r then (m, False) else (m\<lparr>v_hover := Some r\<rparr>, True))"

definition v_OnMouseDoubleClick ::
  "(rune \<Rightarrow> nat) \<Rightarrow> ('q, 'c) ext \<Rightarrow> vconf \<Rightarrow> int \<Rightarrow> int \<Rightarrow> mouse_button \<Rightarrow> ('q, 'c) viewer \<Rightarrow> ('q, 'c) viewer \<times> bool" where
  "v_OnMouseDoubleClick rw X cf x y btn m =
     (if v_timelineActive m then v_OnMouseClick rw X cf x y MouseLeft m
      else if in_logs y m then
        (let relY = y - rect_y (logsRect m)
         in case logIdxAtRow X relY m of
              None \<Rightarrow> (m, False)
            | Some r \<Rightarrow>
                let m1 = moveCursorToRow X cf r relY m
                in (deref (\<lambda>s. v_SetExpand X cf (fst r) (\<not> is_expanded s (fst r)) m1) m1, True))
      else v_OnMouseClick rw X cf x y MouseLeft m)"

definition v_OnMouseScroll :: "('q, 'c) ext \<Rightarrow> vconf \<Rightarrow> int \<Rightarrow> ('q, 'c) viewer \<Rightarrow> ('q, 'c) viewer \<times> bool" where
  "v_OnMouseScroll X cf lines m = (if v_timelineActive m then (m, False) else (v_ScrollViewport X cf lines m, True))"

section \<open>Keys\<close>

record vkeys =
  vk_common :: keyconf
  vk_firstCol :: "runes list"
  vk_firstChar :: "runes list"
  vk_leftN :: "runes list"
  vk_left :: "runes list"
  vk_right :: "runes list"
  vk_rightN :: "runes list"
  vk_lastChar :: "runes list"
  vk_select :: "runes list"
  vk_all :: "runes list"
  vk_search :: "runes list"
  vk_jq :: "runes list"
  vk_filterMenu :: "runes list"
  vk_prevMatch :: "runes list"
  vk_nextMatch :: "runes list"
  vk_export :: "runes list"
  vk_copyValue :: "runes list"
  vk_copyEntire :: "runes list"
  vk_mark :: "runes list"
  vk_timeline :: "runes list"
  vk_jqField :: "runes list"
  vk_searchValue :: "runes list"
  vk_center :: "runes list"
  vk_snapshot :: "runes list"

definition trim_line :: "gostr \<Rightarrow> gostr" where "trim_line l = TrimSpaceRunes l"

definition copy_value :: "(rune \<Rightarrow> nat) \<Rightarrow> ('q, 'c) ext \<Rightarrow> ('q, 'c) viewer \<Rightarrow> ('q, 'c) viewer" where
  "copy_value rw X m =
     deref (\<lambda>s. let v = (if st_logCount s > 0 \<and> is_expanded s (v_log m) then GetCurrentValue rw X m else [])
        in if v \<noteq> [] then v_post (VClipboard v) m
           else with_line X (\<lambda>ll. if ll \<noteq> [] then v_post (VClipboard (trim_line ll)) m else m) m) m"

text \<open>What the export dialog writes on OK: the visible logs, one per line.\<close>

definition export_payload :: "('q, 'c) ext \<Rightarrow> ('q, 'c) store \<Rightarrow> gostr" where
  "export_payload X s =
     concat (map (\<lambda>i. Bytes X (st_width s) (nat i \<in> st_expanded s) (st_logs s ! nat i) @ [NL]) (IterLogs s 0 1))"

definition v_binds :: "(rune \<Rightarrow> nat) \<Rightarrow> ('q, 'c) ext \<Rightarrow> vconf \<Rightarrow> vkeys \<Rightarrow> (('q, 'c) viewer \<Rightarrow> ('q, 'c) viewer) binding list" where
  "v_binds rw X cf ks =
     (let kbs = KeyBindsFrom (vk_common ks) (v_post VQuit); H = \<lambda>m. rect_h (logsRect m)
      in [kb_quit kbs,
          WithAction (CursorToTop X cf) (kb_moveToTop kbs),
          WithAction (\<lambda>m. CursorUp X cf (H m) m) (kb_movePageUp kbs),
          WithAction (\<lambda>m. CursorUp X cf (H m div 2) m) (kb_moveHalfPageUp kbs),
          WithAction (CursorUp X cf 1) (kb_moveLineUp kbs),
          WithAction (CursorDown X cf 1) (kb_moveLineDown kbs),
          WithAction (\<lambda>m. CursorDown X cf (H m div 2) m) (kb_moveHalfPageDown kbs),
          WithAction (\<lambda>m. CursorDown X cf (H m) m) (kb_movePageDown kbs),
          WithAction (CursorToBottom X cf) (kb_moveToBottom kbs),
          bind_of (vk_firstCol ks) ''move to first column'' (Some (\<lambda>m. ScrollHorizontally X cf (- v_xOffset m) m)) CatNavigation,
          bind_of (vk_firstChar ks) ''move to first character'' (Some (moveToFirstChar X cf)) CatNavigation,
          bind_of (vk_leftN ks) ''move N columns left'' (Some (ScrollHorizontally X cf (- int (vc_moveN cf)))) CatNavigation,
          bind_of (vk_left ks) ''move 1 column left'' (Some (ScrollHorizontally X cf (-1))) CatNavigation,
          bind_of (vk_right ks) ''move 1 column right'' (Some (ScrollHorizontally X cf 1)) CatNavigation,
          bind_of (vk_rightN ks) ''move N columns right'' (Some (ScrollHorizontally X cf (int (vc_moveN cf)))) CatNavigation,
          bind_of (vk_lastChar ks) ''move to last character''
            (Some (\<lambda>m. with_line X (\<lambda>l. ScrollHorizontally X cf (int (length l) - logsWidth m - v_xOffset m) m) m)) CatNavigation,
          WithHint (str ''expand'') 2 (bind_of (vk_select ks) ''toggle log expansion on log under cursor''
            (Some (\<lambda>m. if_store (\<lambda>s. if st_logCount s = 0 then m else v_SetExpand X cf (v_log m) (\<not> is_expanded s (v_log m)) m) m)) CatThisView),
          WithHint (str ''all'') 3 (bind_of (vk_all ks) ''toggle log expansion on all logs'' (Some (v_ToggleExpandAll X cf)) CatThisView),
          WithHint (str ''search'') 4 (bind_of (vk_search ks) ''open search dialog''
            (Some (\<lambda>m. v_post (VSearchDialog (mgr_search (v_mgr m))) m)) CatThisView),
          WithHint (str ''jq'') 5 (bind_of (vk_jq ks) ''open jq dialog'' (Some (\<lambda>m. v_post (VJQDialog (mgr_jq (v_mgr m))) m)) CatThisView),
          WithHint (str ''filter'') 6 (bind_of (vk_filterMenu ks) ''open filter menu''
            (Some (\<lambda>m. v_post (VFilterMenu (mgr_filters (v_mgr m))) m)) CatThisView),
          bind_of (vk_prevMatch ks) ''center previous search match'' (Some (\<lambda>m. fst (CenterPrevMatch X cf m))) CatThisView,
          bind_of (vk_nextMatch ks) ''center next search match'' (Some (\<lambda>m. fst (CenterNextMatch X cf m))) CatThisView,
          bind_of (vk_export ks) ''export logs to file'' (Some (v_post VExportDialog)) CatThisView,
          bind_of (vk_copyValue ks) ''copy field value under cursor to clipboard'' (Some (copy_value rw X)) CatThisView,
          bind_of (vk_copyEntire ks) ''copy entire log to clipboard''
            (Some (\<lambda>m. deref (\<lambda>s. if st_logCount s > 0 then copy_log X (v_log m) m else m) m)) CatThisView,
          bind_of (vk_mark ks) ''toggle mark on log'' (Some (\<lambda>m. toggle_mark (v_log m) m)) CatThisView,
          WithHint (str ''timeline'') 7 (bind_of (vk_timeline ks) ''toggle timeline view'' (Some (open_timeline cf)) CatThisView),
          bind_of (vk_jqField ks) ''jq the field under the cursor''
            (Some (\<lambda>m. if v_GetLogCount m > 0 then onCursorFieldJQ rw X cf m else m)) CatThisView,
          bind_of (vk_searchValue ks) ''search the value under the cursor''
            (Some (\<lambda>m. if v_GetLogCount m > 0 then onCursorFieldSearch rw X m else m)) CatThisView,
          bind_of (vk_center ks) ''center line''
            (Some (\<lambda>m. deref (\<lambda>s. if st_logCount s > 0 then Center X cf (v_log m) (v_line m) 0 m else m) m)) CatThisView])"

definition v_alwaysHandleKH :: "uiext \<Rightarrow> vkeys \<Rightarrow> (('q, 'c) viewer \<Rightarrow> ('q, 'c) viewer) handler" where
  "v_alwaysHandleKH u ks =
     Bind u [WithHint (str ''save'') 8 (bind_of (vk_snapshot ks) ''save snapshot'' (Some (v_post VSaveSnapshot)) CatThisView)] key_New"

definition v_HandleKey ::
  "uiext \<Rightarrow> (rune \<Rightarrow> nat) \<Rightarrow> ('q, 'c) ext \<Rightarrow> vconf \<Rightarrow> vkeys \<Rightarrow> key_event \<Rightarrow> ('q, 'c) viewer \<Rightarrow> ('q, 'c) viewer \<times> bool" where
  "v_HandleKey u rw X cf ks ev m =
     (let a = key_Run u (v_alwaysHandleKH u ks) ev m
      in if snd a then a
         else if v_timelineActive m then
           (applyTimelineAction X cf (m\<lparr>v_timeline := fst (tl_HandleKey u (vc_tl cf) ev (v_timeline m))\<rparr>), True)
         else key_Run u (Bind u (v_binds rw X cf ks) key_New) ev m)"

end
