(* ===== verification/Logview_Correct.thy ===== *)
theory Logview_Correct
  imports Logview_Ui Logstore_Run
begin

text \<open>
  What the cursor of the log viewer does: the two-level loops over logs and lines are steps in one list of visible lines,
  clicks find the row that is drawn, and the cursor stays on a line of a log under every move and every worker's message.
\<close>

section \<open>Iterating\<close>

lemma iter_from_bounds: "i \<in> set (iter_from F c step j) \<Longrightarrow> 0 \<le> i \<and> i < int c \<and> nat i \<notin> F"
proof (induction F c step j rule: iter_from.induct)
  case (1 F c step j)
  from 1(2) show ?case by (subst (asm) iter_from.simps) (use 1(1) in \<open>auto split: if_splits\<close>)
qed

lemma iter_from_up: "i \<in> set (iter_from F c 1 j) \<Longrightarrow> j \<le> i"
proof (induction F c "1 :: int" j rule: iter_from.induct)
  case (1 F c j)
  from 1(2) show ?case by (subst (asm) iter_from.simps) (use 1(1) in \<open>fastforce split: if_splits\<close>)
qed

lemma iter_from_down: "i \<in> set (iter_from F c (-1) j) \<Longrightarrow> i \<le> j"
proof (induction F c "-1 :: int" j rule: iter_from.induct)
  case (1 F c j)
  from 1(2) show ?case by (subst (asm) iter_from.simps) (use 1(1) in \<open>fastforce split: if_splits\<close>)
qed

lemma iter_from_all_up: "0 \<le> j \<Longrightarrow> j \<le> i \<Longrightarrow> i < int c \<Longrightarrow> nat i \<notin> F \<Longrightarrow> i \<in> set (iter_from F c 1 j)"
proof (induction F c "1 :: int" j rule: iter_from.induct)
  case (1 F c j)
  then show ?case by (subst iter_from.simps) (cases "i = j"; auto)
qed

lemma iter_from_all_down: "0 \<le> i \<Longrightarrow> i \<le> j \<Longrightarrow> j < int c \<Longrightarrow> nat i \<notin> F \<Longrightarrow> i \<in> set (iter_from F c (-1) j)"
proof (induction F c "-1 :: int" j rule: iter_from.induct)
  case (1 F c j)
  then show ?case by (subst iter_from.simps) (cases "i = j"; auto)
qed

lemma iter_from_visible:
  "0 \<le> j \<Longrightarrow> j < int c \<Longrightarrow> nat j \<notin> F \<Longrightarrow> step \<noteq> 0 \<Longrightarrow> iter_from F c step j = j # iter_from F c step (j + step)"
  by (subst iter_from.simps) simp

lemma iter_from_hidden:
  "0 \<le> j \<Longrightarrow> j < int c \<Longrightarrow> nat j \<in> F \<Longrightarrow> step \<noteq> 0 \<Longrightarrow> iter_from F c step j = iter_from F c step (j + step)"
  by (subst iter_from.simps) simp

section \<open>Loops over logs as walks over lines\<close>

text \<open>The lines of the logs of a list, downwards and upwards.\<close>

definition lines_down :: "(int \<Rightarrow> int) \<Rightarrow> int list \<Rightarrow> (int \<times> int) list" where
  "lines_down L is = concat (map (\<lambda>i. map (Pair i) [0..L i - 1]) is)"

definition lines_up :: "(int \<Rightarrow> int) \<Rightarrow> int list \<Rightarrow> (int \<times> int) list" where
  "lines_up L is = concat (map (\<lambda>i. map (Pair i) (rev [0..L i - 1])) is)"

lemma lines_down_simps [simp]:
  "lines_down L [] = []" "lines_down L (i # is) = map (Pair i) [0..L i - 1] @ lines_down L is"
  by (simp_all add: lines_down_def)

lemma lines_up_simps [simp]:
  "lines_up L [] = []" "lines_up L (i # is) = map (Pair i) (rev [0..L i - 1]) @ lines_up L is"
  by (simp_all add: lines_up_def)

lemma nth_rev_upto: "k < length [0..n] \<Longrightarrow> rev [0..n] ! k = n - int k"
  by (simp add: rev_nth)

lemma down_loop_nth:
  fixes lg ln n :: int
  assumes "\<forall>i\<in>set is. 1 \<le> L i" "0 \<le> ln" "ln < L lg" "0 \<le> n"
  defines "D \<equiv> map (Pair lg) [ln..L lg - 1] @ lines_down L is"
  shows "down_loop L n (lg, ln) is = D ! min (nat n) (length D - 1)"
  using assms(1-4) unfolding D_def
proof (induction "is" arbitrary: lg ln n)
  case Nil
  then show ?case by (auto simp: min_def nth_append)
next
  case (Cons i "is")
  let ?A = "map (Pair lg) [ln..L lg - 1]" and ?E = "map (Pair i) [0..L i - 1] @ lines_down L is"
  have A: "length ?A = nat (L lg - ln)" by simp
  have E: "0 < length ?E" using Cons.prems by simp
  show ?case
  proof (cases "L lg - ln - 1 \<ge> n")
    case True
    then show ?thesis using Cons.prems A E by (auto simp: min_def nth_append)
  next
    case False
    let ?n = "n - (L lg - ln - 1 + 1)"
    have nat_n: "nat n = nat (L lg - ln) + nat ?n" using False Cons.prems by linarith
    have "down_loop L ?n (i, 0) is = ?E ! min (nat ?n) (length ?E - 1)"
      using Cons.prems False by (intro Cons.IH) auto
    moreover have "min (nat n) (length (?A @ ?E) - 1) = length ?A + min (nat ?n) (length ?E - 1)"
      using E nat_n unfolding length_append A by linarith
    ultimately show ?thesis using False Cons.prems by (simp add: nth_append del: length_map length_upto)
  qed
qed

lemma up_loop_nth:
  fixes lg ln n :: int
  assumes "\<forall>i\<in>set is. 1 \<le> L i" "0 \<le> ln" "0 \<le> n"
  defines "U \<equiv> map (Pair lg) (rev [0..ln]) @ lines_up L is"
  shows "up_loop L n (lg, ln) is = U ! min (nat n) (length U - 1)"
  using assms(1-3) unfolding U_def
proof (induction "is" arbitrary: lg ln n)
  case Nil
  then show ?case by (auto simp: min_def nth_append nth_rev_upto)
next
  case (Cons i "is")
  let ?A = "map (Pair lg) (rev [0..ln])" and ?E = "map (Pair i) (rev [0..L i - 1]) @ lines_up L is"
  have A: "length ?A = nat (ln + 1)" by simp
  have E: "0 < length ?E" using Cons.prems by simp
  show ?case
  proof (cases "ln \<ge> n")
    case True
    then show ?thesis using Cons.prems A E by (auto simp: min_def nth_append nth_rev_upto)
  next
    case False
    let ?n = "n - (ln + 1)"
    have nat_n: "nat n = nat (ln + 1) + nat ?n" using False Cons.prems by linarith
    have "up_loop L ?n (i, L i - 1) is = ?E ! min (nat ?n) (length ?E - 1)"
      using Cons.prems False by (intro Cons.IH) auto
    moreover have "min (nat n) (length (?A @ ?E) - 1) = length ?A + min (nat ?n) (length ?E - 1)"
      using E nat_n unfolding length_append A by linarith
    ultimately show ?thesis using False Cons.prems by (simp add: nth_append del: length_map length_rev length_upto)
  qed
qed

section \<open>Frames\<close>

lemma checkScrollOff_frame [simp]:
  "v_log (checkScrollOff X so a st c m) = v_log m" "v_line (checkScrollOff X so a st c m) = v_line m"
  "v_store (checkScrollOff X so a st c m) = v_store m" "v_rect (checkScrollOff X so a st c m) = v_rect m"
  "v_mgr (checkScrollOff X so a st c m) = v_mgr m" "v_panicked (checkScrollOff X so a st c m) = v_panicked m"
  "v_currentMatch (checkScrollOff X so a st c m) = v_currentMatch m" "v_x (checkScrollOff X so a st c m) = v_x m"
  "v_xOffset (checkScrollOff X so a st c m) = v_xOffset m"
  by (simp_all add: checkScrollOff_def)

lemma updateDisplay_frame [simp]:
  "v_log (updateDisplay X cf m) = v_log m" "v_line (updateDisplay X cf m) = v_line m"
  "v_store (updateDisplay X cf m) = v_store m" "v_rect (updateDisplay X cf m) = v_rect m"
  "v_mgr (updateDisplay X cf m) = v_mgr m" "v_panicked (updateDisplay X cf m) = v_panicked m"
  "v_currentMatch (updateDisplay X cf m) = v_currentMatch m" "v_x (updateDisplay X cf m) = v_x m"
  by (simp_all add: updateDisplay_def Let_def)

lemma lines_cong: "v_store m' = v_store m \<Longrightarrow> n_lines X m' = n_lines X m"
  by (simp add: n_lines_def getRenderCacheEntry_def fun_eq_iff)

lemma logsRect_cong: "v_rect m' = v_rect m \<Longrightarrow> logsRect m' = logsRect m"
  by (simp add: logsRect_def v_subRects_def Let_def)

lemma iter_cong: "v_store m' = v_store m \<Longrightarrow> v_IterLogs i st m' = v_IterLogs i st m"
  by (simp add: v_IterLogs_def)

lemma viewer_field_frames [simp]:
  "n_lines X (m\<lparr>v_y := y\<rparr>) = n_lines X m" "n_lines X (m\<lparr>v_log := lg\<rparr>) = n_lines X m"
  "n_lines X (m\<lparr>v_line := ln\<rparr>) = n_lines X m" "n_lines X (m\<lparr>v_xOffset := o'\<rparr>) = n_lines X m"
  "n_lines X (updateDisplay X' cf m) = n_lines X m"
  "v_IterLogs i st (m\<lparr>v_y := y\<rparr>) = v_IterLogs i st m" "v_IterLogs i st (m\<lparr>v_log := lg\<rparr>) = v_IterLogs i st m"
  "v_IterLogs i st (m\<lparr>v_line := ln\<rparr>) = v_IterLogs i st m" "v_IterLogs i st (m\<lparr>v_xOffset := o'\<rparr>) = v_IterLogs i st m"
  "v_IterLogs i st (updateDisplay X' cf m) = v_IterLogs i st m"
  "logsRect (m\<lparr>v_y := y\<rparr>) = logsRect m" "logsRect (m\<lparr>v_log := lg\<rparr>) = logsRect m"
  "logsRect (m\<lparr>v_line := ln\<rparr>) = logsRect m" "logsRect (m\<lparr>v_xOffset := o'\<rparr>) = logsRect m"
  "logsRect (updateDisplay X' cf m) = logsRect m"
  by (rule lines_cong iter_cong logsRect_cong; simp)+

section \<open>A viewer to evaluate\<close>

text \<open>Three logs in a viewport of two rows; the first is expanded and has two lines.\<close>

definition view_ext :: "(gostr, gostr) ext" where
  "view_ext = demo_ext\<lparr>x_marshal_indent := \<lambda>v. Inr [123, 10, 125]\<rparr>"

definition view_store :: "(gostr, gostr) store" where
  "view_store = (SetWidthSource 20 (fst (HandleLogStreamMsg view_ext mgr_New
     \<lparr>sm_ID = 2, sm_Logs = [demo_log, demo_log, demo_log], sm_Errs = []\<rparr> (StartStream 3 (Clear (NewLogStore [] 2))))))
     \<lparr>st_expanded := {0}\<rparr>"

definition view_conf :: vconf where
  "view_conf = \<lparr>vc_scrolloff = 0, vc_moveN = 10, vc_batch = 2,
     vc_tl = \<lparr>tc_keys = demo_keys, tc_timelineKeys = [], tc_buckets = 4, tc_hideEmpty = False, tc_hoverSet = False\<rparr>\<rparr>"

definition demo_view :: "(gostr, gostr) viewer" where
  "demo_view = (v_New mgr_New [])
     \<lparr>v_store := Some view_store, v_rect := \<lparr>rect_x = 0, rect_y = 0, rect_w = 21, rect_h = 2\<rparr>\<rparr>"

section \<open>A cursor on a line\<close>

text \<open>The cursor is on a line of a log of the store.\<close>

definition on_line :: "('q, 'c) ext \<Rightarrow> ('q, 'c) viewer \<Rightarrow> bool" where
  "on_line X m \<longleftrightarrow>
     (case v_store m of
        None \<Rightarrow> False
      | Some s \<Rightarrow> st_logCount s \<le> length (st_logs s) \<and> 0 \<le> v_log m \<and> v_log m < int (st_logCount s)
          \<and> 0 \<le> v_line m \<and> v_line m < n_lines X m (v_log m))"

definition on_visible :: "('q, 'c) viewer \<Rightarrow> bool" where
  "on_visible m \<longleftrightarrow> (case v_store m of None \<Rightarrow> False | Some s \<Rightarrow> \<not> hidden s (v_log m))"

lemma n_lines_pos:
  "v_store m = Some s \<Longrightarrow> 0 \<le> i \<Longrightarrow> i < int (st_logCount s) \<Longrightarrow> 1 \<le> n_lines X m i"
  by (simp add: n_lines_def getRenderCacheEntry_def ByteLines_def Suc_le_eq)

lemma iter_pos: "\<forall>i\<in>set (v_IterLogs j st m). 1 \<le> n_lines X m i"
  by (auto simp: v_IterLogs_def IterLogs_def split: option.splits dest!: iter_from_bounds intro: n_lines_pos [OF sym])

lemma row_lines_first: "1 \<le> n \<Longrightarrow> row_lines 0 n 1 = [0..n - 1]"
  by (simp add: row_lines_def)

lemma row_lines_last: "1 \<le> n \<Longrightarrow> row_lines (n - 1) n (-1) = rev [0..n - 1]"
  by (simp add: row_lines_def)

lemma log_rows_other_down:
  assumes "\<forall>i\<in>set is. 1 \<le> n_lines X m i \<and> i \<noteq> v_log m"
  shows "concat (map (\<lambda>i. map (Pair i) (row_lines (logRowStart i (v_log m) (v_line m) (n_lines X m i) 1) (n_lines X m i) 1)) is)
     = lines_down (n_lines X m) is"
  using assms by (induction "is") (auto simp: logRowStart_def row_lines_first)

lemma log_rows_other_up:
  assumes "\<forall>i\<in>set is. 1 \<le> n_lines X m i \<and> i \<noteq> v_log m"
  shows "concat (map (\<lambda>i. map (Pair i) (row_lines (logRowStart i (v_log m) (v_line m) (n_lines X m i) (-1)) (n_lines X m i) (-1))) is)
     = lines_up (n_lines X m) is"
  using assms by (induction "is") (auto simp: logRowStart_def row_lines_last)

lemma iter_next_other: "\<forall>i\<in>set (v_IterLogs (v_log m + 1) 1 m). 1 \<le> n_lines X m i \<and> i \<noteq> v_log m"
  using iter_pos [of _ 1 m X]
  by (auto simp: v_IterLogs_def IterLogs_def split: option.splits dest!: iter_from_up)

lemma iter_prev_other: "\<forall>i\<in>set (v_IterLogs (v_log m - 1) (-1) m). 1 \<le> n_lines X m i \<and> i \<noteq> v_log m"
  using iter_pos [of _ "-1" m X]
  by (auto simp: v_IterLogs_def IterLogs_def split: option.splits dest!: iter_from_down)

lemma iter_at_cursor:
  assumes "on_line X m" "st \<noteq> 0"
  shows "v_IterLogs (v_log m) st m =
     (if on_visible m then v_log m # v_IterLogs (v_log m + st) st m else v_IterLogs (v_log m + st) st m)"
  using assms
  by (auto simp: on_line_def on_visible_def hidden_def v_IterLogs_def IterLogs_def iter_from_visible iter_from_hidden
      split: option.splits)

lemma log_rows_down:
  assumes "on_line X m" "on_visible m"
  shows "log_rows X 1 m = map (Pair (v_log m)) [v_line m..n_lines X m (v_log m) - 1]
     @ lines_down (n_lines X m) (v_IterLogs (v_log m + 1) 1 m)"
proof -
  have "row_lines (logRowStart (v_log m) (v_log m) (v_line m) (n_lines X m (v_log m)) 1) (n_lines X m (v_log m)) 1
      = [v_line m..n_lines X m (v_log m) - 1]"
    using assms by (auto simp: on_line_def logRowStart_def row_lines_def min_def split: option.splits)
  then show ?thesis
    using assms by (simp add: log_rows_def iter_at_cursor log_rows_other_down [OF iter_next_other])
qed

lemma log_rows_up:
  assumes "on_line X m" "on_visible m"
  shows "log_rows X (-1) m = map (Pair (v_log m)) (rev [0..v_line m - 1])
     @ lines_up (n_lines X m) (v_IterLogs (v_log m - 1) (-1) m)"
proof -
  have "row_lines (logRowStart (v_log m) (v_log m) (v_line m) (n_lines X m (v_log m)) (-1)) (n_lines X m (v_log m)) (-1)
      = rev [0..v_line m - 1]"
    using assms by (auto simp: on_line_def logRowStart_def row_lines_def min_def split: option.splits)
  then show ?thesis
    using assms by (simp add: log_rows_def iter_at_cursor log_rows_other_up [OF iter_prev_other])
qed

lemma CursorDown_position:
  "(v_log (CursorDown X cf n m), v_line (CursorDown X cf n m)) =
     down_loop (n_lines X m) n (v_log m, v_line m) (v_IterLogs (v_log m + 1) 1 m)"
  by (simp add: CursorDown_def split: prod.splits)

lemma CursorUp_position:
  "(v_log (CursorUp X cf n m), v_line (CursorUp X cf n m)) =
     up_loop (n_lines X m) n (v_log m, v_line m) (v_IterLogs (v_log m - 1) (-1) m)"
  by (simp add: CursorUp_def split: prod.splits)

text \<open>
  C7: Moving the cursor walks over the visible lines: \<open>CursorDown\<close> by \<open>n\<close> ends on the \<open>n\<close>-th of the lines that are drawn
  from the cursor on, or the last of them, and \<open>CursorUp\<close> on the \<open>n\<close>-th line above it, or the first.
\<close>

theorem cursor_moves_walk_the_drawn_lines:
  assumes "on_line X m" "on_visible m" "0 \<le> n"
  shows "(v_log (CursorDown X cf n m), v_line (CursorDown X cf n m))
       = log_rows X 1 m ! min (nat n) (length (log_rows X 1 m) - 1)
     \<and> (v_log (CursorUp X cf n m), v_line (CursorUp X cf n m))
       = ((v_log m, v_line m) # log_rows X (-1) m) ! min (nat n) (length (log_rows X (-1) m))"
proof
  have ok: "0 \<le> v_line m" "v_line m < n_lines X m (v_log m)"
    using assms(1) by (auto simp: on_line_def split: option.splits)
  show "(v_log (CursorDown X cf n m), v_line (CursorDown X cf n m))
       = log_rows X 1 m ! min (nat n) (length (log_rows X 1 m) - 1)"
    unfolding CursorDown_position log_rows_down [OF assms(1,2)]
    using ok assms(3) by (intro down_loop_nth iter_pos)
  have "map (Pair (v_log m)) (rev [0..v_line m]) = (v_log m, v_line m) # map (Pair (v_log m)) (rev [0..v_line m - 1])"
    using ok by (simp add: upto_rec2 [of 0 "v_line m"])
  then show "(v_log (CursorUp X cf n m), v_line (CursorUp X cf n m))
       = ((v_log m, v_line m) # log_rows X (-1) m) ! min (nat n) (length (log_rows X (-1) m))"
    unfolding CursorUp_position log_rows_up [OF assms(1,2)]
    using ok assms(3) by (subst up_loop_nth) (auto intro!: iter_pos [rule_format])
qed

lemma demo_view_ok: "on_line view_ext demo_view" "on_visible demo_view"
  by code_simp+

lemma demo_view_rows:
  "log_rows view_ext 1 demo_view = [(0, 0), (0, 1), (1, 0), (2, 0)]" "log_rows view_ext (-1) demo_view = []"
  by code_simp+

theorem cursor_moves_walk_the_drawn_lines_witness:
  "(v_log (CursorDown view_ext view_conf 2 demo_view), v_line (CursorDown view_ext view_conf 2 demo_view)) = (1, 0)
   \<and> (v_log (CursorUp view_ext view_conf 2 demo_view), v_line (CursorUp view_ext view_conf 2 demo_view)) = (0, 0)"
  using cursor_moves_walk_the_drawn_lines [OF demo_view_ok, of 2 view_conf] unfolding demo_view_rows
  by (simp add: demo_view_def v_New_def)

section \<open>What is drawn is what is clicked\<close>

lemma map_of_place_down:
  "map_of (rev (place_down h l rows)) r = (if l \<le> r \<and> r < h then scan_rows r l 1 rows else None)"
  by (induction rows arbitrary: l) (auto simp: map_add_def split: option.splits)

lemma map_of_place_up:
  "map_of (rev (place_up l rows)) r = (if 0 \<le> r \<and> r \<le> l then scan_rows r l (-1) rows else None)"
  by (induction rows arbitrary: l) (auto simp: map_add_def split: option.splits)

text \<open>
  C8: The hit test agrees with the drawing on every row of the viewport but one: it finds the line drawn last on the row, and
  nothing where nothing is drawn. The exception, contrary to the comment of \<^verbatim>\<open>logIdxAtRow\<close>, is exact: with the cursor row at
  the top and no line to draw from it downward (the logs from the cursor on are hidden), the upward pass draws the line above
  the cursor on row 0, where the hit test finds none.
\<close>

theorem hit_test_inverts_drawing:
  assumes "placeLogs X m = Some rs" "0 \<le> v_y m" "1 \<le> rect_w (logsRect m)" "0 \<le> r" "r < rect_h (logsRect m)"
  shows "map_of (rev rs) r = logIdxAtRow X r m \<longleftrightarrow>
    \<not> (1 \<le> v_GetLogCount m \<and> r = 0 \<and> v_y m = 0 \<and> log_rows X 1 m = [] \<and> log_rows X (-1) m \<noteq> [])"
proof (cases "v_GetLogCount m < 1")
  case True
  then show ?thesis using assms(1) by (auto simp: placeLogs_def logIdxAtRow_def Let_def split: if_splits)
next
  case False
  then have rs: "rs = place_up (max (v_y m - 1) 0) (log_rows X (-1) m) @ place_down (rect_h (logsRect m)) (v_y m) (log_rows X 1 m)"
    using assms by (auto simp: placeLogs_def Let_def split: if_splits)
  have top: "max (v_y m - 1) 0 = (if v_y m = 0 then 0 else v_y m - 1)" using assms(2) by simp
  show ?thesis
    using False assms(2,4,5) unfolding rs top
    by (cases "v_y m = 0"; cases "log_rows X 1 m"; cases "log_rows X (-1) m")
      (auto simp: logIdxAtRow_def logIdxAtVirtualRow_def scanLogRows_def map_of_place_down map_of_place_up map_add_def
        split: option.splits)
qed

lemma demo_view_placed: "placeLogs view_ext demo_view = Some [(0, (0, 0)), (1, (0, 1))]"
  by code_simp

theorem hit_test_inverts_drawing_witness: "logIdxAtRow view_ext 1 demo_view = Some (0, 1)"
  using hit_test_inverts_drawing [OF demo_view_placed, of 1]
  by (simp add: demo_view_rows) (simp add: demo_view_def v_New_def logsRect_def v_subRects_def sidebarWidth_def Let_def)

section \<open>The cursor stays on a line\<close>

definition valid_pos :: "('q, 'c) ext \<Rightarrow> ('q, 'c) viewer \<Rightarrow> int \<times> int \<Rightarrow> bool" where
  "valid_pos X m p \<longleftrightarrow>
     (case v_store m of
        None \<Rightarrow> False
      | Some s \<Rightarrow> st_logCount s \<le> length (st_logs s) \<and> 0 \<le> fst p \<and> fst p < int (st_logCount s)
          \<and> 0 \<le> snd p \<and> snd p < n_lines X m (fst p))"

lemma on_line_pos: "on_line X m \<longleftrightarrow> valid_pos X m (v_log m, v_line m)"
  by (cases "v_store m") (simp_all add: on_line_def valid_pos_def)

lemma valid_pos_cong: "v_store m' = v_store m \<Longrightarrow> valid_pos X m' p = valid_pos X m p"
  by (cases "v_store m") (simp_all add: valid_pos_def lines_cong [of m' m])

lemma on_line_moved: "v_store m' = v_store m \<Longrightarrow> valid_pos X m (v_log m', v_line m') \<Longrightarrow> on_line X m'"
  by (simp only: on_line_pos valid_pos_cong [of m' m])

lemma row_lines_bounds: "j \<in> set (row_lines k n st) \<Longrightarrow> 0 \<le> j \<and> j < n"
  by (auto simp: row_lines_def split: if_splits)

lemma iter_valid: "on_line X m \<Longrightarrow> i \<in> set (v_IterLogs j st m) \<Longrightarrow> 0 \<le> k \<Longrightarrow> k < n_lines X m i \<Longrightarrow> valid_pos X m (i, k)"
  by (auto simp: on_line_def valid_pos_def v_IterLogs_def IterLogs_def split: option.splits dest!: iter_from_bounds)

lemma log_rows_valid: "on_line X m \<Longrightarrow> p \<in> set (log_rows X st m) \<Longrightarrow> valid_pos X m p"
  by (auto simp: log_rows_def intro!: iter_valid dest: row_lines_bounds)

lemma scan_rows_mem: "scan_rows t l st rows = Some p \<Longrightarrow> p \<in> set rows"
  by (induction rows arbitrary: l) (auto split: if_splits)

lemma logIdxAtVirtualRow_valid: "on_line X m \<Longrightarrow> logIdxAtVirtualRow X r m = Some p \<Longrightarrow> valid_pos X m p"
  by (auto simp: logIdxAtVirtualRow_def scanLogRows_def split: if_splits dest!: scan_rows_mem intro: log_rows_valid)

lemma logIdxAtRow_valid: "on_line X m \<Longrightarrow> logIdxAtRow X r m = Some p \<Longrightarrow> valid_pos X m p"
  by (auto simp: logIdxAtRow_def split: if_splits intro: logIdxAtVirtualRow_valid)

lemma lines_down_valid: "on_line X m \<Longrightarrow> p \<in> set (lines_down (n_lines X m) (v_IterLogs j st m)) \<Longrightarrow> valid_pos X m p"
  by (auto simp: lines_down_def intro: iter_valid)

lemma lines_up_valid: "on_line X m \<Longrightarrow> p \<in> set (lines_up (n_lines X m) (v_IterLogs j st m)) \<Longrightarrow> valid_pos X m p"
  by (auto simp: lines_up_def intro: iter_valid)

lemma cursor_log_valid: "on_line X m \<Longrightarrow> 0 \<le> k \<Longrightarrow> k < n_lines X m (v_log m) \<Longrightarrow> valid_pos X m (v_log m, k)"
  by (auto simp: on_line_def valid_pos_def split: option.splits)

lemma cursor_segment_valid:
  "on_line X m \<Longrightarrow> p \<in> Pair (v_log m) ` {a..b} \<Longrightarrow> 0 \<le> a \<Longrightarrow> b < n_lines X m (v_log m) \<Longrightarrow> valid_pos X m p"
  by (auto intro!: cursor_log_valid)

lemma on_lineD: "on_line X m \<Longrightarrow> 0 \<le> v_line m" "on_line X m \<Longrightarrow> v_line m < n_lines X m (v_log m)"
  by (auto simp: on_line_def split: option.splits)

lemma nth_min_mem: "xs \<noteq> [] \<Longrightarrow> xs ! min k (length xs - 1) \<in> set xs"
  by (rule nth_mem) (cases xs; simp)

lemma CursorDown_ok: "on_line X m \<Longrightarrow> 0 \<le> n \<Longrightarrow> on_line X (CursorDown X cf n m)"
proof (rule on_line_moved)
  assume ok: "on_line X m" and n: "0 \<le> n"
  let ?D = "map (Pair (v_log m)) [v_line m..n_lines X m (v_log m) - 1] @ lines_down (n_lines X m) (v_IterLogs (v_log m + 1) 1 m)"
  have "(v_log (CursorDown X cf n m), v_line (CursorDown X cf n m)) \<in> set ?D"
    unfolding CursorDown_position
    using on_lineD [OF ok] n by (subst down_loop_nth) (auto intro!: iter_pos [rule_format] nth_min_mem simp del: set_append)
  then show "valid_pos X m (v_log (CursorDown X cf n m), v_line (CursorDown X cf n m))"
    using on_lineD [OF ok] unfolding set_append Un_iff
    by (elim disjE, intro cursor_segment_valid [OF ok, of _ "v_line m" "n_lines X m (v_log m) - 1"])
      (auto simp del: of_nat_0_le_iff intro: lines_down_valid [OF ok])
qed (simp add: CursorDown_def split: prod.splits)

lemma CursorUp_ok: "on_line X m \<Longrightarrow> 0 \<le> n \<Longrightarrow> on_line X (CursorUp X cf n m)"
proof (rule on_line_moved)
  assume ok: "on_line X m" and n: "0 \<le> n"
  let ?U = "map (Pair (v_log m)) (rev [0..v_line m]) @ lines_up (n_lines X m) (v_IterLogs (v_log m - 1) (-1) m)"
  have "(v_log (CursorUp X cf n m), v_line (CursorUp X cf n m)) \<in> set ?U"
    unfolding CursorUp_position
    using on_lineD [OF ok] n by (subst up_loop_nth) (auto intro!: iter_pos [rule_format] nth_min_mem simp del: set_append)
  then show "valid_pos X m (v_log (CursorUp X cf n m), v_line (CursorUp X cf n m))"
    using on_lineD [OF ok] unfolding set_append Un_iff
    by (elim disjE, intro cursor_segment_valid [OF ok, of _ 0 "v_line m"])
      (auto simp del: of_nat_0_le_iff intro: lines_up_valid [OF ok])
qed (simp add: CursorUp_def split: prod.splits)

lemma CursorToTop_ok: "on_line X m \<Longrightarrow> on_line X (CursorToTop X cf m)"
  by (rule on_line_moved [of _ m])
    (auto simp: CursorToTop_def on_line_def valid_pos_def split: option.splits dest: n_lines_pos [of m _ 0 X])

lemma CursorToBottom_ok: "on_line X m \<Longrightarrow> on_line X (CursorToBottom X cf m)"
proof (rule on_line_moved)
  assume "on_line X m"
  then obtain s where s: "v_store m = Some s" "st_logCount s \<le> length (st_logs s)" "0 < st_logCount s"
    by (auto simp: on_line_def split: option.splits)
  then have "1 \<le> n_lines X m (int (st_logCount s) - 1)" by (intro n_lines_pos) auto
  then show "valid_pos X m (v_log (CursorToBottom X cf m), v_line (CursorToBottom X cf m))"
    using s by (simp add: CursorToBottom_def deref_def valid_pos_def Let_def)
qed (simp add: CursorToBottom_def deref_def v_panic_def Let_def split: option.splits)

text \<open>What the lines of the logs depend on.\<close>

definition row_data :: "('q, 'c) store \<Rightarrow> nat \<times> entry list \<times> nat set \<times> int \<times> nat" where
  "row_data s = (st_logCount s, st_logs s, st_expanded s, st_width s, st_batch s)"

lemma row_data_cancel [simp]:
  "row_data (cancel_ctx c s) = row_data s" "row_data (cancelAndNil_jq s) = row_data s"
  "row_data (cancelAndNil_filter s) = row_data s" "row_data (cancelAndNil_search s) = row_data s"
  by (simp_all add: cancelAndNil_jq_def cancelAndNil_filter_def cancelAndNil_search_def cancel_ctx_def row_data_def
      split: option.split)

lemma row_data_spawns: "only_spawns s t \<Longrightarrow> row_data t = row_data s"
  by (simp add: row_data_def only_spawns_frame)

lemmas row_data_spawn [simp] =
  compiledFilterRules_spawns [THEN row_data_spawns] searchAutomaton_spawns [THEN row_data_spawns]
  spawnSearchChunk_spawns [THEN row_data_spawns]

lemma row_data_fold_search [simp]:
  "row_data (fold (\<lambda>(k, first, count). spawnSearchChunk cx ac k first count) ks s) = row_data s"
  by (induction ks arbitrary: s) auto

lemma row_data_fields:
  "row_data t = row_data s \<longleftrightarrow> st_logCount t = st_logCount s \<and> st_logs t = st_logs s \<and> st_expanded t = st_expanded s
     \<and> st_width t = st_width s \<and> st_batch t = st_batch s"
  by (simp add: row_data_def)

lemma row_data_DoSearch: "row_data (DoSearch M s) = row_data s"
proof -
  have "row_data (s\<lparr>st_searchCtx := None, st_appliedSearch := [], st_search := Map.empty, st_filteredTotalDirty := True\<rparr>)
      = row_data s"
    and "row_data (s\<lparr>st_searchCtx := c, st_cancelSearch := d, st_nextCtx := k, st_searchCount := n,
      st_search := Map.empty, st_filteredTotalDirty := True\<rparr>) = row_data s" for s :: "('a, 'b) store" and c d k n
    by (simp_all add: row_data_def)
  then show ?thesis by (simp add: DoSearch_def Let_def)
qed

lemma row_data_HandleSearchChunk: "row_data (fst (HandleSearchChunk M msg s)) = row_data s"
proof -
  have "row_data (t\<lparr>st_search := a, st_filteredTotalDirty := True, st_searchCount := n\<rparr>) = row_data t"
    "row_data (t\<lparr>st_appliedSearch := q\<rparr>) = row_data t" for t :: "('a, 'b) store" and a n q
    by (simp_all add: row_data_def)
  then show ?thesis by (simp add: HandleSearchChunk_def Let_def)
qed

lemma row_data_filters [simp]:
  "row_data (markFilteredTotalDirty s) = row_data s" "row_data (s\<lparr>st_filtered := F\<rparr>) = row_data s"
  "row_data (s\<lparr>st_nextCtx := c\<rparr>) = row_data s"
  "row_data (s\<lparr>st_filterEpoch := e, st_filtered := F, st_appliedFilters := rs\<rparr>) = row_data s"
  "row_data (s\<lparr>st_filtered := F, st_nextCtx := c\<rparr>) = row_data s"
  by (simp_all add: row_data_def markFilteredTotalDirty_def)

lemma row_data_HandleFilterChunk: "row_data (fst (HandleFilterChunk msg s)) = row_data s"
  by (simp add: HandleFilterChunk_def Let_def)

lemma row_data_ApplyFilters: "row_data (ApplyFilters X M s) = row_data s"
  by (simp add: ApplyFilters_def Let_def)

lemma n_lines_store:
  "row_data t = row_data s \<Longrightarrow> v_store m = Some s \<Longrightarrow> n_lines X (m\<lparr>v_store := Some t\<rparr>) = n_lines X m"
  by (simp add: n_lines_def getRenderCacheEntry_def row_data_def fun_eq_iff)

lemma valid_pos_store:
  "row_data t = row_data s \<Longrightarrow> v_store m = Some s \<Longrightarrow> valid_pos X (m\<lparr>v_store := Some t\<rparr>) p = valid_pos X m p"
  by (simp add: valid_pos_def n_lines_store row_data_fields)

lemma on_line_store:
  "row_data t = row_data s \<Longrightarrow> v_store m = Some s \<Longrightarrow> on_line X (m\<lparr>v_store := Some t\<rparr>) = on_line X m"
  by (simp add: on_line_pos valid_pos_store)

lemma on_line_frame [simp]:
  "on_line X (updateDisplay X' cf m) = on_line X m" "on_line X (m\<lparr>v_y := y\<rparr>) = on_line X m"
  "on_line X (m\<lparr>v_xOffset := o'\<rparr>) = on_line X m" "on_line X (m\<lparr>v_hover := hv\<rparr>) = on_line X m"
  "on_line X (m\<lparr>v_x := x\<rparr>) = on_line X m" "on_line X (m\<lparr>v_timeline := t\<rparr>) = on_line X m"
  "on_line X (m\<lparr>v_out := os\<rparr>) = on_line X m" "on_line X (m\<lparr>v_currentMatch := k\<rparr>) = on_line X m"
  "on_line X (m\<lparr>v_panicked := b\<rparr>) = on_line X m"
  "on_line X (m\<lparr>v_hover := hv, v_timeline := t\<rparr>) = on_line X m"
  unfolding on_line_pos by (rule trans [OF valid_pos_cong [of _ m]]; simp)+

lemma ScrollHorizontally_ok: "on_line X m \<Longrightarrow> on_line X (ScrollHorizontally X cf n m)"
  by (simp add: ScrollHorizontally_def)

lemma moved_ok: "on_line X m \<Longrightarrow> valid_pos X m (lg, ln) \<Longrightarrow> on_line X (m\<lparr>v_log := lg, v_line := ln\<rparr>)"
  unfolding on_line_pos by (subst valid_pos_cong [of _ m]) simp_all

lemma at_row_ok:
  "on_line X m \<Longrightarrow> on_line X (case logIdxAtRow X k m of
     Some (lg, ln) \<Rightarrow> updateDisplay X cf (m\<lparr>v_log := lg, v_line := ln, v_y := y\<rparr>) | None \<Rightarrow> m)"
  by (auto intro: moved_ok dest: logIdxAtRow_valid split: option.split)

lemma clampViewportPan_ok: "on_line X m \<Longrightarrow> on_line X (fst (clampViewportPan X cf n h m))"
  by (simp add: clampViewportPan_def CursorToTop_ok CursorToBottom_ok)

lemma on_line_if: "(b \<Longrightarrow> on_line X x) \<Longrightarrow> (\<not> b \<Longrightarrow> on_line X y) \<Longrightarrow> on_line X (if b then x else y)"
  by simp

lemma ScrollViewport_ok: "on_line X m \<Longrightarrow> on_line X (v_ScrollViewport X cf n m)"
  unfolding v_ScrollViewport_def Let_def
  by (intro on_line_if at_row_ok clampViewportPan_ok; (simp only: on_line_frame)?)

lemma postContextMenu_ok: "on_line X m \<Longrightarrow> on_line X (postContextMenu rw X' ax ay m)"
  by (simp add: postContextMenu_def v_post_def v_panic_def Let_def)

lemma demo_screen: "rect_h (logsRect demo_view) = 2" "vc_scrolloff view_conf = 0"
  by (simp_all add: demo_view_def v_New_def logsRect_def v_subRects_def view_conf_def Let_def)

section \<open>Navigation\<close>

text \<open>The moves of the cursor and of the viewport, and the messages of workers.\<close>

datatype nav_event =
    NUp nat | NDown nat | NTop | NBottom | NHorizontal int | NScroll int | NClick int int mouse_button | NHover int
  | NFilterChunk filter_chunk_msg | NSearchChunk search_chunk_msg | NJQChunk jq_chunk_msg | NFilterApplied | NSearch gostr

fun v_nav ::
  "(rune \<Rightarrow> nat) \<Rightarrow> ('q, 'c) ext \<Rightarrow> vconf \<Rightarrow> nav_event \<Rightarrow> ('q, 'c) viewer \<Rightarrow> ('q, 'c) viewer" where
  "v_nav rw X cf (NUp n) m = CursorUp X cf (int n) m"
| "v_nav rw X cf (NDown n) m = CursorDown X cf (int n) m"
| "v_nav rw X cf NTop m = CursorToTop X cf m"
| "v_nav rw X cf NBottom m = CursorToBottom X cf m"
| "v_nav rw X cf (NHorizontal n) m = ScrollHorizontally X cf n m"
| "v_nav rw X cf (NScroll n) m = v_ScrollViewport X cf n m"
| "v_nav rw X cf (NClick x y btn) m = (if v_timelineActive m then m else fst (v_OnMouseClick rw X cf x y btn m))"
| "v_nav rw X cf (NHover y) m = fst (v_OnMouseHover X y m)"
| "v_nav rw X cf (NFilterChunk msg) m = v_HandleFilterChunk X cf msg m"
| "v_nav rw X cf (NSearchChunk msg) m = OnSearchChunk X cf msg m"
| "v_nav rw X cf (NJQChunk msg) m = OnJQChunk X cf msg m"
| "v_nav rw X cf NFilterApplied m = OnFilterApplied X cf m"
| "v_nav rw X cf (NSearch q) m = OnInjectSearch q m"

text \<open>With the configured chunk size, which the store was made with.\<close>

definition nav_inv :: "('q, 'c) ext \<Rightarrow> vconf \<Rightarrow> ('q, 'c) viewer \<Rightarrow> bool" where
  "nav_inv X cf m \<longleftrightarrow> on_line X m \<and> (case v_store m of None \<Rightarrow> False | Some s \<Rightarrow> st_batch s = vc_batch cf)"

lemma on_line_store_eq: "on_line X m \<Longrightarrow> \<exists>s. v_store m = Some s"
  by (auto simp: on_line_def split: option.splits)

lemma moves_store [simp]:
  "v_store (CursorUp X cf n m) = v_store m" "v_store (CursorDown X cf n m) = v_store m"
  "v_store (CursorToTop X cf m) = v_store m" "v_store (CursorToBottom X cf m) = v_store m"
  "v_store (ScrollHorizontally X cf n m) = v_store m"
  by (simp_all add: CursorUp_def CursorDown_def CursorToTop_def CursorToBottom_def ScrollHorizontally_def deref_def v_panic_def
      Let_def split: prod.split option.split)

lemma store_if: "v_store x = v_store m \<Longrightarrow> v_store y = v_store m \<Longrightarrow> v_store (if b then x else y) = v_store m"
  by simp

lemma at_row_store:
  "v_store (case logIdxAtRow X k m of
     Some (lg, ln) \<Rightarrow> updateDisplay X cf (m\<lparr>v_log := lg, v_line := ln, v_y := y\<rparr>) | None \<Rightarrow> m) = v_store m"
  by (simp split: option.split prod.split)

lemma clampViewportPan_store: "v_store (fst (clampViewportPan X cf n h m)) = v_store m"
  by (simp add: clampViewportPan_def)

lemma ScrollViewport_store [simp]: "v_store (v_ScrollViewport X cf n m) = v_store m"
  unfolding v_ScrollViewport_def Let_def
  by (intro store_if at_row_store clampViewportPan_store; simp)

lemma postContextMenu_store [simp]: "v_store (postContextMenu rw X ax ay m) = v_store m"
  by (simp add: postContextMenu_def v_post_def v_panic_def Let_def)

lemma click_ok:
  "on_line X m \<Longrightarrow> \<not> v_timelineActive m \<Longrightarrow>
     on_line X (fst (v_OnMouseClick rw X cf x y btn m)) \<and> v_store (fst (v_OnMouseClick rw X cf x y btn m)) = v_store m"
  by (auto simp: v_OnMouseClick_def onLogRowClick_def moveCursorToRow_def showContextMenuAt_def Let_def
      intro!: postContextMenu_ok moved_ok dest: logIdxAtRow_valid split: option.split)

lemma hover_ok:
  "on_line X m \<Longrightarrow> on_line X (fst (v_OnMouseHover X y m)) \<and> v_store (fst (v_OnMouseHover X y m)) = v_store m"
  by (simp add: v_OnMouseHover_def v_ClearMouseHover_def Let_def split: option.split)

lemma moveCursorOutOfFilter_ok:
  assumes "on_line X m"
  shows "on_line X (moveCursorOutOfFilter X cf m)" "v_store (moveCursorOutOfFilter X cf m) = v_store m"
proof -
  let ?m1 = "CursorDown X cf (n_lines X m (v_log m) - v_line m) m"
  have 1: "on_line X ?m1" using assms by (intro CursorDown_ok) (auto dest: on_lineD)
  moreover have "on_line X (CursorUp X cf (v_line ?m1 + 1) ?m1)"
    using 1 by (intro CursorUp_ok) (auto dest: on_lineD)
  ultimately show "on_line X (moveCursorOutOfFilter X cf m)" "v_store (moveCursorOutOfFilter X cf m) = v_store m"
    using assms by (auto simp: moveCursorOutOfFilter_def deref_def Let_def split: option.split dest: on_line_store_eq)
qed

text \<open>A jq chunk rewrites rows; the cursor is put back on a line when its log is one of them.\<close>

definition jq_accepted :: "jq_chunk_msg \<Rightarrow> ('q, 'c) store \<Rightarrow> bool" where
  "jq_accepted msg s \<longleftrightarrow> jm_Instance msg = st_identity s \<and> jm_ID msg = st_queryID s \<and> jm_Err msg = None
     \<and> jm_Offset msg * st_batch s + length (jm_Results msg) \<le> st_logCount s"

lemma row_data_new_filterCtx [simp]: "row_data (new_filterCtx s) = row_data s"
  by (simp add: new_filterCtx_def row_data_def)

lemmas row_data_jq_spawns [simp] =
  spawnFilterChunk_spawns [THEN row_data_spawns] rsearch_spawns [THEN row_data_spawns]

lemma HandleJQChunk_dropped:
  assumes "\<not> jq_accepted msg s"
  shows "row_data (fst (HandleJQChunk X M msg s)) = row_data s \<and> jr_ResultCount (snd (HandleJQChunk X M msg s)) = 0"
  using assms by (auto simp: jq_accepted_def HandleJQChunk_def Let_def)

lemma HandleJQChunk_accepted:
  assumes "jq_accepted msg s"
  shows "row_data (fst (HandleJQChunk X M msg s))
      = row_data (s\<lparr>st_logs := write_outputs (jm_Offset msg * st_batch s) (jm_Results msg) (st_logs s)\<rparr>)"
    and "jr_ResultCount (snd (HandleJQChunk X M msg s)) = length (jm_Results msg)"
    and "jr_ChunkOffset (snd (HandleJQChunk X M msg s)) = jm_Offset msg"
proof -
  have "row_data (t\<lparr>st_appliedJQ := a, st_appliedSearch := b\<rparr>) = row_data t" for t :: "('a, 'b) store" and a b
    by (simp add: row_data_def)
  moreover have "row_data (t\<lparr>st_logs := a, st_jqCount := n\<rparr>) = row_data (t\<lparr>st_logs := a\<rparr>)" for t :: "('a, 'b) store" and a n
    by (simp add: row_data_def)
  ultimately show "row_data (fst (HandleJQChunk X M msg s))
      = row_data (s\<lparr>st_logs := write_outputs (jm_Offset msg * st_batch s) (jm_Results msg) (st_logs s)\<rparr>)"
    using assms unfolding jq_accepted_def by (simp add: HandleJQChunk_def Let_def)
  show "jr_ResultCount (snd (HandleJQChunk X M msg s)) = length (jm_Results msg)"
    "jr_ChunkOffset (snd (HandleJQChunk X M msg s)) = jm_Offset msg"
    using assms by (simp_all add: jq_accepted_def HandleJQChunk_def Let_def)
qed

lemma HandleJQChunk_batch: "st_batch (fst (HandleJQChunk X M msg s)) = st_batch s"
  using HandleJQChunk_dropped [of msg s X M] HandleJQChunk_accepted(1) [of msg s X M]
  by (cases "jq_accepted msg s") (simp_all add: row_data_def)

lemma OnJQChunk_ok:
  assumes "nav_inv X cf m"
  shows "nav_inv X cf (OnJQChunk X cf msg m)"
proof -
  obtain s where s: "v_store m = Some s" using assms by (auto simp: nav_inv_def split: option.splits)
  have ok: "on_line X m" and b: "st_batch s = vc_batch cf" using assms s by (auto simp: nav_inv_def)
  let ?r = "HandleJQChunk X (v_mgr m) msg s"
  let ?m1 = "m\<lparr>v_store := Some (fst ?r)\<rparr>" and ?o = "jm_Offset msg * st_batch s" and ?n = "length (jm_Results msg)"
  show ?thesis
  proof (cases "jq_accepted msg s")
    case False
    have eq: "row_data (fst ?r) = row_data s" "jr_ResultCount (snd ?r) = 0"
      using HandleJQChunk_dropped [OF False] by auto
    then show ?thesis
      using ok b s on_line_store [OF eq(1) s] HandleJQChunk_batch [of X "v_mgr m" msg s]
      by (auto simp: OnJQChunk_def if_store_def Let_def nav_inv_def)
  next
    case True
    note acc = HandleJQChunk_accepted [OF True, of X "v_mgr m"]
    have t: "st_logCount (fst ?r) = st_logCount s" "st_logs (fst ?r) = write_outputs ?o (jm_Results msg) (st_logs s)"
        "st_expanded (fst ?r) = st_expanded s" "st_width (fst ?r) = st_width s"
      using acc(1) by (simp_all add: row_data_def)
    have pos: "0 \<le> v_log m" "v_log m < int (st_logCount s)" "0 \<le> v_line m" "v_line m < n_lines X m (v_log m)"
      and len: "st_logCount s \<le> length (st_logs s)"
      using ok s by (auto simp: on_line_def)
    have one: "1 \<le> n_lines X ?m1 (v_log m)"
      using pos t by (intro n_lines_pos [of _ "fst ?r"]) auto
    have same: "n_lines X ?m1 (v_log m) = n_lines X m (v_log m)"
      if out: "\<not> (int ?o \<le> v_log m \<and> int ?o + int ?n > v_log m)"
    proof -
      have bound: "?o + ?n \<le> length (st_logs s)" using True len by (auto simp: jq_accepted_def)
      have "nat (v_log m) < length (st_logs s)" using pos len by linarith
      moreover have "\<not> (?o \<le> nat (v_log m) \<and> nat (v_log m) < ?o + ?n)"
        using out pos(1) by (metis int_nat_eq of_nat_add of_nat_le_iff of_nat_less_iff)
      ultimately have "write_outputs ?o (jm_Results msg) (st_logs s) ! nat (v_log m) = st_logs s ! nat (v_log m)"
        using write_outputs_nth [OF bound] by (simp only: if_False)
      then show ?thesis using s t pos by (simp add: n_lines_def getRenderCacheEntry_def)
    qed
    have ok2: "on_line X (?m1\<lparr>v_line := ln\<rparr>)" if "0 \<le> ln" "ln < n_lines X ?m1 (v_log m)" for ln
      using that pos len t by (simp add: on_line_def)
    have ok1: "on_line X ?m1" if "v_line m < n_lines X ?m1 (v_log m)"
      using that pos len t by (simp add: on_line_def)
    show ?thesis
      using ok2 [of "n_lines X ?m1 (v_log m) - 1"] ok1 one same pos acc(2,3) b s HandleJQChunk_batch [of X "v_mgr m" msg s]
      by (cases "v_line m < n_lines X ?m1 (v_log m)") (auto simp: OnJQChunk_def if_store_def Let_def nav_inv_def not_le)
  qed
qed

lemma store_step:
  assumes "nav_inv X cf m" "v_store m = Some s" "row_data t = row_data s"
  shows "nav_inv X cf (m\<lparr>v_store := Some t\<rparr>)"
  using assms on_line_store [OF assms(3,2), of X] by (simp add: nav_inv_def row_data_fields)

lemma nav_inv_updateDisplay [simp]: "nav_inv X cf (updateDisplay X cf m) = nav_inv X cf m"
  by (simp add: nav_inv_def)

lemma nav_inv_moved: "nav_inv X cf m \<Longrightarrow> on_line X m' \<Longrightarrow> v_store m' = v_store m \<Longrightarrow> nav_inv X cf m'"
  by (simp add: nav_inv_def)

lemma nav_inv_filter: "nav_inv X cf m \<Longrightarrow> nav_inv X cf (moveCursorOutOfFilter X cf m)"
  using moveCursorOutOfFilter_ok [of X m cf] by (auto simp: nav_inv_def)

lemma nav_inv_fields [simp]:
  "nav_inv X cf (m\<lparr>v_currentMatch := k, v_mgr := M\<rparr>) = nav_inv X cf m"
  unfolding nav_inv_def on_line_pos by (subst valid_pos_cong [of _ m]) simp_all

lemma v_nav_inv: "nav_inv X cf m \<Longrightarrow> nav_inv X cf (v_nav rw X cf ev m)"
proof -
  assume inv: "nav_inv X cf m"
  then obtain s where s: "v_store m = Some s" and ok: "on_line X m" by (auto simp: nav_inv_def split: option.splits)
  show ?thesis
  proof (cases ev)
    case (NJQChunk msg)
    then show ?thesis using OnJQChunk_ok [OF inv] by simp
  next
    case (NFilterChunk msg)
    then show ?thesis
      using store_step [OF inv s row_data_HandleFilterChunk] inv s
      by (simp add: v_HandleFilterChunk_def if_store_def Let_def nav_inv_filter)
  next
    case (NSearchChunk msg)
    then show ?thesis
      using store_step [OF inv s row_data_HandleSearchChunk] s by (simp add: OnSearchChunk_def if_store_def Let_def)
  next
    case NFilterApplied
    then show ?thesis
      using store_step [OF inv s row_data_ApplyFilters] s by (simp add: OnFilterApplied_def if_store_def nav_inv_filter)
  next
    case (NSearch q)
    let ?m = "m\<lparr>v_currentMatch := 0, v_mgr := (v_mgr m)\<lparr>mgr_search := q\<rparr>\<rparr>"
    have "nav_inv X cf ?m" "v_store ?m = Some s" using inv s by simp_all
    from store_step [OF this row_data_DoSearch] show ?thesis
      using NSearch s by (simp add: OnInjectSearch_def run_search_def if_store_def)
  next
    case (NClick x y btn)
    then show ?thesis using click_ok [OF ok] inv by (auto intro: nav_inv_moved)
  qed (use hover_ok [OF ok] inv in \<open>auto intro!: nav_inv_moved [of X cf m] CursorUp_ok [OF ok] CursorDown_ok [OF ok]
        CursorToTop_ok [OF ok] CursorToBottom_ok [OF ok] ScrollHorizontally_ok [OF ok] ScrollViewport_ok [OF ok]\<close>)
qed

interpretation viewer: event_machine "nav_inv X cf" "v_nav rw X cf" for X cf rw
  by unfold_locales (rule v_nav_inv)

lemma on_line_line: "on_line X m \<Longrightarrow> GetCurrentLine X m \<noteq> None"
  by (auto simp: on_line_def GetCurrentLine_def n_lines_def getRenderCacheEntry_def Let_def split: option.splits)

section \<open>Leaving filtered logs\<close>

lemma down_loop_stop: "n \<le> 0 \<Longrightarrow> down_loop L n p is = p"
  by (cases p; cases "is") auto

lemma up_loop_stop: "n \<le> 0 \<Longrightarrow> up_loop L n p is = p"
  by (cases p; cases "is") auto

lemma leave_down:
  assumes "ln < L lg"
  shows "down_loop L (L lg - ln) (lg, ln) is = (case is of [] \<Rightarrow> (lg, L lg - 1) | i # _ \<Rightarrow> (i, 0))"
  using assms by (cases "is") (auto simp: down_loop_stop)

lemma leave_up:
  assumes "0 \<le> ln"
  shows "up_loop L (ln + 1) (lg, ln) is = (case is of [] \<Rightarrow> (lg, 0) | i # _ \<Rightarrow> (i, L i - 1))"
  using assms by (cases "is") (auto simp: up_loop_stop)

lemma iter_visible: "v_store m = Some s \<Longrightarrow> i \<in> set (v_IterLogs j st m) \<Longrightarrow> \<not> hidden s i"
  by (auto simp: v_IterLogs_def IterLogs_def hidden_def dest!: iter_from_bounds)

lemma moveCursorOutOfFilter_visible:
  assumes ok: "on_line X m" and s: "v_store m = Some s" and i: "0 \<le> i" "i < int (st_logCount s)" "\<not> hidden s i"
  shows "\<not> hidden s (v_log (moveCursorOutOfFilter X cf m))"
proof (cases "hidden s (v_log m)")
  case True
  let ?L = "n_lines X m" and ?D = "v_IterLogs (v_log m + 1) 1 m" and ?U = "v_IterLogs (v_log m - 1) (-1) m"
  let ?m1 = "CursorDown X cf (?L (v_log m) - v_line m) m"
  have pos: "0 \<le> v_log m" "v_log m < int (st_logCount s)" using ok s by (auto simp: on_line_def)
  have down: "(v_log ?m1, v_line ?m1) = (case ?D of [] \<Rightarrow> (v_log m, ?L (v_log m) - 1) | j # _ \<Rightarrow> (j, 0))"
    unfolding CursorDown_position using on_lineD [OF ok] by (intro leave_down) auto
  have out: "moveCursorOutOfFilter X cf m = (if v_log ?m1 = v_log m then CursorUp X cf (v_line ?m1 + 1) ?m1 else ?m1)"
    using True s by (simp add: moveCursorOutOfFilter_def deref_def Let_def)
  show ?thesis
  proof (cases ?D)
    case (Cons j js)
    then have "\<not> hidden s j" using iter_visible [OF s, of j "v_log m + 1" 1] by auto
    then show ?thesis using down Cons True out by auto
  next
    case Nil
    have "i < v_log m"
    proof (rule ccontr)
      assume "\<not> i < v_log m"
      then have "v_log m + 1 \<le> i" using True i(3) by (cases "i = v_log m") auto
      then have "i \<in> set ?D" using i s pos by (auto simp: v_IterLogs_def IterLogs_def hidden_def intro!: iter_from_all_up)
      then show False using Nil by simp
    qed
    then have "i \<in> set ?U" using i s pos by (auto simp: v_IterLogs_def IterLogs_def hidden_def intro!: iter_from_all_down)
    then obtain j js where U: "?U = j # js" by (cases ?U) auto
    have m1: "v_log ?m1 = v_log m" "v_line ?m1 = ?L (v_log m) - 1" using down Nil by auto
    have "v_IterLogs a b ?m1 = v_IterLogs a b m" for a b by (rule iter_cong) simp
    moreover have "0 \<le> v_line ?m1" using m1 on_lineD [OF ok] by linarith
    ultimately have "v_log (CursorUp X cf (v_line ?m1 + 1) ?m1) = j"
      using CursorUp_position [of X cf "v_line ?m1 + 1" ?m1] m1 U leave_up [of "v_line ?m1" "n_lines X ?m1" "v_log m" ?U]
      by simp
    moreover have "\<not> hidden s j" using iter_visible [OF s, of j "v_log m - 1" "-1"] U by auto
    ultimately show ?thesis using out m1 by simp
  qed
qed (use s in \<open>simp add: moveCursorOutOfFilter_def deref_def\<close>)

lemma OnFilterApplied_store:
  assumes "on_line X m" "v_store m = Some s"
  shows "v_store (OnFilterApplied X cf m) = Some (ApplyFilters X (v_mgr m) s)"
proof -
  have "on_line X (m\<lparr>v_store := Some (ApplyFilters X (v_mgr m) s)\<rparr>)"
    using on_line_store [OF row_data_ApplyFilters assms(2)] assms(1) by simp
  from moveCursorOutOfFilter_ok(2) [OF this] show ?thesis using assms(2) by (simp add: OnFilterApplied_def if_store_def)
qed

text \<open>
  C9: Applying the filters takes the cursor off the hidden logs: when some log is left visible, the cursor is afterwards
  on a line of a visible one.
\<close>

theorem filters_evict_the_cursor:
  assumes "on_line X m" "v_store (OnFilterApplied X cf m) = Some t" "i < st_logCount t" "i \<notin> st_filtered t"
  shows "on_line X (OnFilterApplied X cf m) \<and> nat (v_log (OnFilterApplied X cf m)) \<notin> st_filtered t"
proof -
  obtain s where s: "v_store m = Some s" using assms(1) on_line_store_eq by blast
  let ?m = "m\<lparr>v_store := Some (ApplyFilters X (v_mgr m) s)\<rparr>"
  have ok: "on_line X ?m" using on_line_store [OF row_data_ApplyFilters s] assms(1) by simp
  have eq: "OnFilterApplied X cf m = updateDisplay X cf (moveCursorOutOfFilter X cf ?m)"
    using s by (simp add: OnFilterApplied_def if_store_def)
  have t: "v_store ?m = Some t" using assms(2) moveCursorOutOfFilter_ok(2) [OF ok, of cf] by (simp add: eq)
  have "\<not> hidden t (v_log (moveCursorOutOfFilter X cf ?m))"
    using assms(3,4) by (intro moveCursorOutOfFilter_visible [OF ok t, of "int i"]) (auto simp: hidden_def)
  moreover have ok2: "on_line X (moveCursorOutOfFilter X cf ?m)" by (rule moveCursorOutOfFilter_ok(1) [OF ok])
  moreover have "0 \<le> v_log (moveCursorOutOfFilter X cf ?m)" using ok2 by (auto simp: on_line_def split: option.splits)
  ultimately show ?thesis by (simp add: eq hidden_def)
qed

text \<open>A rule that hides the expanded log of the demo, which the cursor is on.\<close>

definition filter_view :: "(gostr, gostr) viewer" where
  "filter_view = demo_view\<lparr>v_mgr := mgr_New\<lparr>mgr_filters := [\<lparr>r_type = Include, r_value = [48]\<rparr>]\<rparr>\<rparr>"

lemma filter_view_run:
  "on_line view_ext filter_view" "v_log filter_view = 0" "st_logCount view_store = 3"
  by code_simp+

lemma filter_view_store: "v_store filter_view = Some view_store"
  by (simp add: filter_view_def demo_view_def)

lemma filter_view_pass: "st_filtered (ApplyFilters view_ext (v_mgr filter_view) view_store) = {0}"
  by code_simp

theorem filters_evict_the_cursor_witness: "nat (v_log (OnFilterApplied view_ext view_conf filter_view)) \<noteq> nat (v_log filter_view)"
  using filters_evict_the_cursor
      [OF filter_view_run(1) OnFilterApplied_store [OF filter_view_run(1) filter_view_store, of view_conf], of 1] filter_view_run(2,3)
    row_data_ApplyFilters [of view_ext "v_mgr filter_view" view_store]
  by (auto simp: filter_view_pass row_data_fields)

section \<open>The cursor on the screen\<close>

lemma scrolloff_y:
  "P (v_y m) \<Longrightarrow> (b \<Longrightarrow> P c) \<Longrightarrow> P (v_y (if b then checkScrollOff X so a st c m else m))"
  by (simp add: checkScrollOff_def)

lemma updateDisplay_y:
  assumes "P (clamp (v_y m) 0 (rect_h (logsRect m) - 1))" "P (rect_h (logsRect m) - int (vc_scrolloff cf) - 1)"
    "P (int (vc_scrolloff cf))"
  shows "P (v_y (updateDisplay X cf m))"
proof -
  let ?m1 = "m\<lparr>v_xOffset := max (v_xOffset m) 0, v_y := clamp (v_y m) 0 (rect_h (logsRect m) - 1)\<rparr>"
  have 1: "P (v_y ?m1)" using assms(1) by simp
  show ?thesis
    unfolding updateDisplay_def Let_def
    by (cases "v_GetLogCount ?m1 < 1", simp only: if_True 1, simp only: if_False, rule scrolloff_y [where P = P],
        rule scrolloff_y [where P = P, OF 1], rule assms(2), rule assms(3))
qed

text \<open>
  With fewer rows of scroll margin than the viewport has, the cursor is drawn on the screen after every update of
  the display, wherever it was before.
\<close>

theorem cursor_row_is_on_screen:
  assumes "int (vc_scrolloff cf) < rect_h (logsRect m)"
  shows "0 \<le> v_y (updateDisplay X cf m) \<and> v_y (updateDisplay X cf m) < rect_h (logsRect m)"
  by (rule updateDisplay_y) (use assms in \<open>auto simp: clamp_def\<close>)

theorem cursor_row_is_on_screen_witness: "v_y (updateDisplay view_ext view_conf (demo_view\<lparr>v_y := 7\<rparr>)) < 2"
  using cursor_row_is_on_screen [of view_conf "demo_view\<lparr>v_y := 7\<rparr>" view_ext] by (simp add: demo_screen)

text \<open>
  C6: Whatever sequence of moves, clicks, scrolls, searches, filter changes and messages of workers the viewer goes
  through, the cursor stays on a line of a log: the current line, which indexes without a check, is always there.
\<close>

theorem navigation_keeps_a_current_line:
  assumes "nav_inv X cf m"
  shows "GetCurrentLine X (fold (v_nav rw X cf) evs m) \<noteq> None"
  using viewer.run_inv [OF assms] by (intro on_line_line) (auto simp: nav_inv_def)

theorem navigation_keeps_a_current_line_witness:
  "GetCurrentLine view_ext (fold (v_nav (\<lambda>r. 1) view_ext view_conf) [NDown 3, NScroll (-1), NBottom, NFilterApplied] demo_view)
     \<noteq> None"
  by (rule navigation_keeps_a_current_line) code_simp

end
