(* ===== verification/Logview_Edge.thy ===== *)
theory Logview_Edge
  imports Logview_Correct
begin

text \<open>
  The operations of the log viewer that \<open>nav_inv\<close> leaves out, and why: what they do to a cursor whose log has fewer
  lines afterwards, to a cursor on an empty store and to a cursor that filters have moved.
\<close>

section \<open>A log with fewer lines\<close>

text \<open>An expanded log of thirty columns has two lines at width twenty and one at width forty.\<close>

definition wide_ext :: "(gostr, gostr) ext" where
  "wide_ext = demo_ext\<lparr>x_marshal_indent := \<lambda>v. Inr (replicate 30 97)\<rparr>"

definition wide_view :: "(gostr, gostr) viewer" where
  "wide_view = CursorDown wide_ext view_conf 1 demo_view"

definition wide_rect :: rect where
  "wide_rect = \<lparr>rect_x = 0, rect_y = 0, rect_w = 41, rect_h = 2\<rparr>"

lemma RefreshExpandedSearch_none: "st_search s = Map.empty \<Longrightarrow> RefreshExpandedSearch X M s = s"
  by (simp add: RefreshExpandedSearch_def)

lemma view_store_search: "st_search view_store = Map.empty"
proof
  fix i show "st_search view_store i = None" by code_simp
qed

lemma wide_resized:
  "v_SetRect wide_ext view_conf wide_rect wide_view
     = updateDisplay wide_ext view_conf (wide_view\<lparr>v_rect := wide_rect, v_store := Some (SetWidthSource 40 view_store)\<rparr>)"
proof -
  have "v_store wide_view = Some view_store" "v_rect wide_view = v_rect demo_view" "v_timelineActive wide_view = False"
    by (simp add: wide_view_def, simp add: demo_view_def) (simp add: wide_view_def CursorDown_def split: prod.split, code_simp)
  then show ?thesis
    by (simp add: v_SetRect_def Let_def logsWidth_def logsRect_def v_subRects_def wide_rect_def sidebarWidth_def
        RefreshExpandedSearch_none SetWidthSource_def view_store_search)
qed

text \<open>
  A resize can leave the cursor below the last line of its log, and the next use of the current line is out of
  range: at width twenty the cursor moves to the second line of a log, and at width forty that line is gone.
\<close>

theorem resize_loses_the_cursor_line:
  "on_line wide_ext wide_view \<and> GetCurrentLine wide_ext (v_SetRect wide_ext view_conf wide_rect wide_view) = None"
proof
  show "on_line wide_ext wide_view" by code_simp
  show "GetCurrentLine wide_ext (v_SetRect wide_ext view_conf wide_rect wide_view) = None"
    unfolding wide_resized by code_simp
qed

text \<open>Clearing jq restores the raw log, here of one line where the output had two.\<close>

definition jq_view :: "(gostr, gostr) viewer" where
  "jq_view = demo_view\<lparr>v_line := 1, v_mgr := mgr_New\<lparr>mgr_jq := [120]\<rparr>,
     v_store := Some (view_store\<lparr>st_logs := map (WithData (JStr [97, 10, 98])) (st_logs view_store), st_appliedJQ := [120]\<rparr>)\<rparr>"

definition jq_view_ext :: "(gostr, gostr) ext" where
  "jq_view_ext = demo_ext\<lparr>x_marshal_indent := \<lambda>v. Inr (case v of JStr s \<Rightarrow> s | _ \<Rightarrow> [48])\<rparr>"

lemma jq_clear_loses_the_cursor_line:
  "on_line jq_view_ext jq_view \<and> GetCurrentLine jq_view_ext (OnInjectJQ jq_view_ext view_conf [] jq_view) = None"
proof
  show "on_line jq_view_ext jq_view" by code_simp
  show "GetCurrentLine jq_view_ext (OnInjectJQ jq_view_ext view_conf [] jq_view) = None" by code_simp
qed

section \<open>The first and the last log\<close>

lemma bottom_of_empty_store:
  assumes "v_store m = Some s" "st_logCount s = 0"
  shows "v_log (CursorToBottom X cf m) = -1 \<and> v_line (CursorToBottom X cf m) = -1"
  using assms by (simp add: CursorToBottom_def deref_def n_lines_def getRenderCacheEntry_def Let_def)

text \<open>Once logs have arrived nothing is drawn from there, and the current line is out of range.\<close>

lemma negative_cursor:
  assumes "v_store m = Some s" "0 < st_logCount s" "v_log m = -1"
  shows "log_rows X 1 m = [] \<and> GetCurrentLine X m = None"
  using assms by (simp add: log_rows_def v_IterLogs_def IterLogs_def iter_from.simps [of _ _ _ "-1"] GetCurrentLine_def)

text \<open>Neither end looks at the filters.\<close>

lemma ends_ignore_filters:
  assumes "v_store m = Some s"
  shows "v_log (CursorToTop X cf m) = 0" "v_log (CursorToBottom X cf m) = int (st_logCount s) - 1"
  using assms by (simp_all add: CursorToTop_def CursorToBottom_def deref_def Let_def)

section \<open>A viewer without a store\<close>

lemma no_store_panics:
  assumes "v_store m = None"
  shows "v_panicked (CursorToBottom X cf m)" "v_panicked (fst (CenterPrevMatch X cf m))" "v_panicked (fst (CenterNextMatch X cf m))"
    "v_panicked (copy_value rw X m)" "v_panicked (toggle_mark i m)" "v_panicked (v_ToggleExpandAll X cf m)"
    "v_panicked (copy_log X i m)"
  using assms
  by (simp_all add: CursorToBottom_def CenterPrevMatch_def CenterNextMatch_def copy_value_def toggle_mark_def
      v_ToggleExpandAll_def copy_log_def deref_def v_panic_def)

text \<open>The value of a field is only read from a jq output.\<close>

lemma raw_value_is_not_copied:
  assumes "cur_entry m = Some e" "e_modified e = JNil"
  shows "GetCurrentValue rw X m = []"
  using assms by (simp add: GetCurrentValue_def Let_def)

section \<open>A scroll margin as high as the viewport\<close>

text \<open>Two rows of margin in a viewport of two put a cursor in the middle of the logs on row two, below the viewport.\<close>

definition margin_conf :: vconf where
  "margin_conf = view_conf\<lparr>vc_scrolloff := 2\<rparr>"

lemma margin_pushes_cursor_off_screen:
  "v_y (updateDisplay view_ext margin_conf (demo_view\<lparr>v_log := 1\<rparr>)) = 2 \<and> rect_h (logsRect demo_view) = 2"
  by code_simp

end
