(* ===== verification/Iclstream.thy ===== *)
theory Iclstream
  imports Logmenu
begin

text \<open>
  How logs arrive, package \<^verbatim>\<open>internal/icl\<close> (\<^verbatim>\<open>stream.go\<close>, \<^verbatim>\<open>decode.go\<close>, \<^verbatim>\<open>types.go\<close>, \<^verbatim>\<open>model.go\<close>, \<^verbatim>\<open>query.go\<close>,
  \<^verbatim>\<open>post.go\<close>, \<^verbatim>\<open>background.go\<close>, \<^verbatim>\<open>icl.go\<close>) and \<^verbatim>\<open>internal/ui/msgs/logstream.go\<close>: the body of a response as server-sent
  events, an event as rows of logs, and the messages that carry them to the store. The JSON decoder, the quoting of
  \<^verbatim>\<open>fmt\<close> and the text of a number error are fields of \<open>icl_lib\<close>; a body is its bytes and how reading it ends.
\<close>

section \<open>Data\<close>

record key_value =
  kv_Key :: "gostr option"
  kv_Value :: "gostr option"

record dataprime_results =
  dr_Metadata :: "key_value list"
  dr_Labels :: "key_value list"
  dr_UserData :: "gostr option"

record api_error =
  ae_Code :: "gostr option"
  ae_Message :: "gostr option"
  ae_MoreInfo :: "gostr option"

text \<open>A pointer to a structure of one pointer is an option of an option.\<close>

record stream_item =
  it_Error :: "gostr option option"
  it_Result :: "dataprime_results list option"
  it_Warning :: "gostr option option option"
  it_Errors :: "api_error list"

record icl_lib =
  il_item :: "gostr \<Rightarrow> gostr + stream_item"
  il_envelope :: "gostr \<Rightarrow> gostr + dataprime_results list option option"
  il_map :: "gostr \<Rightarrow> gostr + (gostr \<times> jv) list"
  il_num_error :: "gostr \<Rightarrow> gostr"
  il_quote :: "gostr \<Rightarrow> gostr"

fun or_empty :: "gostr option \<Rightarrow> gostr" where
  "or_empty None = []"
| "or_empty (Some s) = s"

definition SeverityFromString :: "gostr \<Rightarrow> nat" where
  "SeverityFromString s =
     (if s = str ''Verbose'' then 1 else if s = str ''Debug'' then 2 else if s = str ''Info'' then 3
      else if s = str ''Warning'' then 4 else if s = str ''Error'' then 5 else if s = str ''Critical'' then 6 else 0)"

definition PriorityFromString :: "gostr \<Rightarrow> nat" where
  "PriorityFromString s =
     (if s = str ''low'' then 1 else if s = str ''medium'' then 2 else if s = str ''high'' then 3 else 0)"

section \<open>Decoding an event\<close>

text \<open>\<^verbatim>\<open>strconv.ParseInt(s, 10, 64)\<close>.\<close>

definition digits_of :: "gostr \<Rightarrow> nat option" where
  "digits_of s = (if s \<noteq> [] \<and> list_all (\<lambda>c. 48 \<le> c \<and> c \<le> 57) s then Some (fold (\<lambda>c n. 10 * n + (c - 48)) s 0) else None)"

definition ParseInt64 :: "gostr \<Rightarrow> int option" where
  "ParseInt64 s =
     (let neg = (s \<noteq> [] \<and> hd s = 45); body = (if s \<noteq> [] \<and> (hd s = 43 \<or> hd s = 45) then tl s else s)
      in case digits_of body of
           None \<Rightarrow> None
         | Some n \<Rightarrow> if neg then (if n \<le> 2 ^ 63 then Some (- int n) else None) else (if n < 2 ^ 63 then Some (int n) else None))"

definition set_key :: "gostr \<Rightarrow> jv \<Rightarrow> (gostr \<times> jv) list \<Rightarrow> (gostr \<times> jv) list" where
  "set_key k v m = filter (\<lambda>e. fst e \<noteq> k) m @ [(k, v)]"

fun unpackResults :: "key_value list \<Rightarrow> (gostr \<times> jv) list \<Rightarrow> (gostr \<times> jv) list" where
  "unpackResults [] m = m"
| "unpackResults (r # rs) m =
     (case (kv_Key r, kv_Value r) of
        (Some k, Some v) \<Rightarrow> unpackResults rs (set_key k (JStr v) m)
      | _ \<Rightarrow> unpackResults rs m)"

definition metadata_field :: "icl_lib \<Rightarrow> gostr \<Rightarrow> gostr \<Rightarrow> metadata \<Rightarrow> gostr + metadata" where
  "metadata_field L k v m =
     (if k = str ''logid'' then Inr (m\<lparr>md_id := v\<rparr>)
      else if k = str ''priorityclass'' then Inr (m\<lparr>md_priority := PriorityFromString v\<rparr>)
      else if k = str ''severity'' then Inr (m\<lparr>md_severity := SeverityFromString v\<rparr>)
      else if k = str ''timestampMicros'' then
        (case ParseInt64 v of
           None \<Rightarrow> Inl (str ''parse timestampMicros: '' @ il_num_error L v)
         | Some i \<Rightarrow> Inr (m\<lparr>md_ts := i\<rparr>))
      else Inr m)"

fun newMetadata_from :: "icl_lib \<Rightarrow> key_value list \<Rightarrow> metadata \<Rightarrow> gostr + metadata" where
  "newMetadata_from L [] m = Inr m"
| "newMetadata_from L (f # fs) m =
     (case (kv_Key f, kv_Value f) of
        (Some k, Some v) \<Rightarrow>
          (case metadata_field L k v m of Inl e \<Rightarrow> Inl e | Inr m' \<Rightarrow> newMetadata_from L fs m')
      | _ \<Rightarrow> newMetadata_from L fs m)"

definition newMetadata :: "icl_lib \<Rightarrow> key_value list \<Rightarrow> gostr + metadata" where
  "newMetadata L fs = newMetadata_from L fs \<lparr>md_id = [], md_ts = 0, md_severity = 0, md_priority = 0\<rparr>"

definition newLogResp :: "icl_lib \<Rightarrow> dataprime_results \<Rightarrow> gostr + log" where
  "newLogResp L r =
     (case dr_UserData r of
        None \<Rightarrow> Inl (str ''nil UserData field in log result'')
      | Some u \<Rightarrow>
          (case il_map L u of
             Inl e \<Rightarrow> Inl e
           | Inr data \<Rightarrow>
               (case newMetadata L (dr_Metadata r) of
                  Inl e \<Rightarrow> Inl e
                | Inr md \<Rightarrow>
                    Inr \<lparr>l_data = JMap [(str ''data'', JMap data), (str ''labels'', JMap (unpackResults (dr_Labels r) [])),
                           (str ''metadata'', JMap (unpackResults (dr_Metadata r) []))],
                         l_metadata = md\<rparr>)))"

fun decode_results :: "icl_lib \<Rightarrow> dataprime_results list \<Rightarrow> log list \<Rightarrow> gostr list \<Rightarrow> log list \<times> gostr list" where
  "decode_results L [] logs errs = (logs, errs)"
| "decode_results L (r # rs) logs errs =
     (case newLogResp L r of
        Inl e \<Rightarrow> decode_results L rs logs (errs @ [e])
      | Inr l \<Rightarrow> decode_results L rs (logs @ [l]) errs)"

definition api_error_text :: "api_error \<Rightarrow> gostr" where
  "api_error_text e = or_empty (ae_Code e) @ [NL, NL] @ or_empty (ae_Message e) @ [NL, NL] @ or_empty (ae_MoreInfo e)"

text \<open>\<open>DecodeStreamItem\<close>: the logs, the warnings and the errors of an item.\<close>

definition DecodeStreamItem :: "icl_lib \<Rightarrow> stream_item option \<Rightarrow> log list \<times> gostr list \<times> gostr list" where
  "DecodeStreamItem L it =
     (case it of
        None \<Rightarrow> ([], [], [])
      | Some item \<Rightarrow>
          let errs0 = (case it_Error item of None \<Rightarrow> [] | Some msg \<Rightarrow> [or_empty msg]) @ map api_error_text (it_Errors item);
              warns = (case it_Warning item of Some (Some msg) \<Rightarrow> [or_empty msg] | _ \<Rightarrow> []);
              r = (case it_Result item of None \<Rightarrow> ([], errs0) | Some rs \<Rightarrow> decode_results L rs [] errs0)
          in (fst r, warns, snd r))"

section \<open>Server-sent events\<close>

text \<open>The complete lines of a body, with their ends; what follows the last one is dropped at the end of the file.\<close>

function complete_lines :: "gostr \<Rightarrow> gostr list" where
  "complete_lines bs =
     (if NL \<in> set bs then (takeWhile (\<lambda>b. b \<noteq> NL) bs @ [NL]) # complete_lines (tl (dropWhile (\<lambda>b. b \<noteq> NL) bs)) else [])"
  by pat_completeness auto
termination
proof (relation "measure length")
  fix bs assume "NL \<in> set (bs :: gostr)"
  then have "dropWhile (\<lambda>b. b \<noteq> NL) bs \<noteq> []" by auto
  then show "(tl (dropWhile (\<lambda>b. b \<noteq> NL) bs), bs) \<in> measure length"
    using length_dropWhile_le [of "\<lambda>b. b \<noteq> NL" bs] by (cases "dropWhile (\<lambda>b. b \<noteq> NL) bs") auto
qed simp

declare complete_lines.simps [simp del]

datatype body_end = AtEOF | ReadFailed gostr

fun end_error :: "body_end \<Rightarrow> gostr option" where
  "end_error AtEOF = None"
| "end_error (ReadFailed e) = Some e"

definition data_prefix :: gostr where "data_prefix = str ''data: ''"

definition has_prefix :: "gostr \<Rightarrow> gostr \<Rightarrow> bool" where
  "has_prefix p l \<longleftrightarrow> take (length p) l = p"

text \<open>
  The loop of \<open>readSSEEvents\<close> over the lines. \<open>dn k\<close> tells whether the context is done when it is looked at for the
  \<open>k\<close>-th time; \<open>f\<close> is the handler of a payload on the state \<open>s\<close> of the callbacks, \<open>g\<close> that of a keep-alive.
\<close>

fun sse_loop ::
  "(gostr \<Rightarrow> gostr) \<Rightarrow> (nat \<Rightarrow> bool) \<Rightarrow> (gostr \<Rightarrow> 's \<Rightarrow> 's \<times> (gostr + bool)) \<Rightarrow> ('s \<Rightarrow> 's) \<Rightarrow> body_end
     \<Rightarrow> nat \<Rightarrow> gostr list \<Rightarrow> gostr \<Rightarrow> 's \<Rightarrow> 's \<times> gostr option" where
  "sse_loop q dn f g e k [] buf s = (if dn k then (s, None) else (s, end_error e))"
| "sse_loop q dn f g e k (l # ls) buf s =
     (if dn k then (s, None)
      else if has_prefix (str '':'') l then sse_loop q dn f g e (k + 1) ls buf s
      else if has_prefix data_prefix l then sse_loop q dn f g e (k + 1) ls (buf @ drop (length data_prefix) l) s
      else if l = [NL] then
        (if buf = [] then sse_loop q dn f g e (k + 1) ls buf (g s)
         else case f buf s of
             (s', Inl err) \<Rightarrow> (s', Some err)
           | (s', Inr keep) \<Rightarrow> if keep then sse_loop q dn f g e (k + 1) ls [] s' else (s', None))
      else (s, Some (str ''unknown SSE line: '' @ q l)))"

definition readSSEEvents ::
  "icl_lib \<Rightarrow> (nat \<Rightarrow> bool) \<Rightarrow> gostr \<Rightarrow> body_end \<Rightarrow> (gostr \<Rightarrow> 's \<Rightarrow> 's \<times> (gostr + bool)) \<Rightarrow> ('s \<Rightarrow> 's) \<Rightarrow> 's \<Rightarrow> 's \<times> gostr option" where
  "readSSEEvents L dn body e f g s = sse_loop (il_quote L) dn f g e 0 (complete_lines body) [] s"

text \<open>The calls of a \<open>QueryCallback\<close>, in order.\<close>

datatype cb_event = CbData stream_item | CbKeepAlive | CbError gostr | CbClose

definition streamEvents :: "icl_lib \<Rightarrow> (nat \<Rightarrow> bool) \<Rightarrow> gostr \<Rightarrow> body_end \<Rightarrow> cb_event list" where
  "streamEvents L dn body e =
     (case readSSEEvents L dn body e
         (\<lambda>data cbs. case il_item L data of Inl err \<Rightarrow> (cbs, Inl err) | Inr item \<Rightarrow> (cbs @ [CbData item], Inr True))
         (\<lambda>cbs. cbs @ [CbKeepAlive]) [] of
        (cbs, None) \<Rightarrow> cbs
      | (cbs, Some err) \<Rightarrow> cbs @ [CbError err])"

section \<open>Queries\<close>

definition SyncQueryLimit :: "32 word" where "SyncQueryLimit = 50000"

definition SyncQueryRequestLimit :: "32 word \<Rightarrow> 32 word" where
  "SyncQueryRequestLimit maxRows = (if maxRows = 0 then SyncQueryLimit else maxRows)"

text \<open>Errors as chains; \<^verbatim>\<open>errors.As\<close> looks for a type along the chain.\<close>

datatype go_error =
    HttpStatus int gostr | AuthRequired gostr | UrlError gostr go_error | NetError gostr | Plain gostr | Wrapped gostr go_error

fun as_status :: "go_error \<Rightarrow> (int \<times> gostr) option" where
  "as_status (HttpStatus c r) = Some (c, r)"
| "as_status (UrlError t e) = as_status e"
| "as_status (Wrapped t e) = as_status e"
| "as_status (AuthRequired t) = None"
| "as_status (NetError t) = None"
| "as_status (Plain t) = None"

fun as_auth :: "go_error \<Rightarrow> bool" where
  "as_auth (AuthRequired t) = True"
| "as_auth (UrlError t e) = as_auth e"
| "as_auth (Wrapped t e) = as_auth e"
| "as_auth (HttpStatus c r) = False"
| "as_auth (NetError t) = False"
| "as_auth (Plain t) = False"

text \<open>A \<^verbatim>\<open>url.Error\<close> or a \<^verbatim>\<open>net.Error\<close>.\<close>

fun as_network :: "go_error \<Rightarrow> bool" where
  "as_network (UrlError t e) = True"
| "as_network (NetError t) = True"
| "as_network (Wrapped t e) = as_network e"
| "as_network (HttpStatus c r) = False"
| "as_network (AuthRequired t) = False"
| "as_network (Plain t) = False"

definition IsQueryDataRejection :: "go_error \<Rightarrow> bool" where
  "IsQueryDataRejection e = (case as_status e of Some (c, r) \<Rightarrow> c = 400 \<or> c = 422 | None \<Rightarrow> False)"

definition IsQueryServiceUnavailable :: "go_error \<Rightarrow> bool" where
  "IsQueryServiceUnavailable e =
     (if as_auth e then True
      else case as_status e of
          Some (c, r) \<Rightarrow> c = 401 \<or> c = 403 \<or> c = 408 \<or> c = 429 \<or> c \<ge> 500
        | None \<Rightarrow> as_network e)"

definition isHTTPErr :: "int \<Rightarrow> bool" where
  "isHTTPErr c \<longleftrightarrow> c < 200 \<or> c \<ge> 300"

text \<open>
  \<open>sanitizeErrBody\<close>: \<^verbatim>\<open>strings.Map\<close> over the runes, where an invalid byte becomes U+FFFD, and \<^verbatim>\<open>strings.TrimSpace\<close>.
\<close>

definition IsControl :: "rune \<Rightarrow> bool" where
  "IsControl r \<longleftrightarrow> r < 32 \<or> (127 \<le> r \<and> r < 160)"

definition clean_chunk :: "gostr \<Rightarrow> gostr" where
  "clean_chunk c =
     (let r = fst (DecodeRune c)
      in if r = 10 \<or> r = 9 then c
         else if IsControl r then []
         else if r = 65533 \<and> length c = 1 then [239, 191, 189]
         else c)"

definition sanitizeErrBody :: "gostr \<Rightarrow> gostr" where
  "sanitizeErrBody b = TrimSpaceRunes (concat (map clean_chunk (rune_chunks b)))"

fun join_errs :: "gostr list \<Rightarrow> gostr" where
  "join_errs [] = []"
| "join_errs [e] = e"
| "join_errs (e # es) = e @ [NL, NL] @ join_errs es"

definition errReasonFromBody :: "icl_lib \<Rightarrow> gostr \<Rightarrow> gostr" where
  "errReasonFromBody L body =
     (case il_item L body of
        Inl e \<Rightarrow> sanitizeErrBody body
      | Inr item \<Rightarrow>
          (case DecodeStreamItem L (Some item) of (logs, warns, errs) \<Rightarrow>
             if errs \<noteq> [] then sanitizeErrBody (join_errs errs) else sanitizeErrBody body))"

definition errBodyReadLimit :: nat where "errBodyReadLimit = 2 ^ 16"

text \<open>What the transport gives: an error, or a status and a body.\<close>

datatype transport = TransportError go_error | Response int gostr body_end

definition doQueryRequest :: "icl_lib \<Rightarrow> transport \<Rightarrow> go_error + gostr \<times> body_end" where
  "doQueryRequest L t =
     (case t of
        TransportError e \<Rightarrow> Inl (Wrapped [] e)
      | Response status body e \<Rightarrow>
          if \<not> isHTTPErr status then Inr (body, e)
          else Inl (HttpStatus status (errReasonFromBody L (take errBodyReadLimit body))))"

record query_request =
  qr_url :: gostr
  qr_query :: gostr
  qr_start :: int
  qr_end :: int
  qr_limit :: "32 word"

text \<open>\<open>Query\<close> at time \<open>now\<close> (nanoseconds): the callbacks it makes and the error it returns.\<close>

definition hour :: int where "hour = 3600 * 10 ^ 9"

definition Query ::
  "icl_lib \<Rightarrow> (query_request \<Rightarrow> transport) \<Rightarrow> (nat \<Rightarrow> bool) \<Rightarrow> gostr \<Rightarrow> gostr \<Rightarrow> 32 word \<Rightarrow> int \<Rightarrow> cb_event list \<times> go_error option" where
  "Query L send dn url query maxRows now =
     (case doQueryRequest L (send \<lparr>qr_url = url @ str ''/v1/query'', qr_query = query, qr_start = now - hour, qr_end = now,
             qr_limit = SyncQueryRequestLimit maxRows\<rparr>) of
        Inl e \<Rightarrow> ([], Some (Wrapped (str ''query: '') e))
      | Inr (body, e) \<Rightarrow> (streamEvents L dn body e @ [CbClose], None))"

section \<open>Background queries\<close>

text \<open>The rows of a data event that are still wanted.\<close>

definition wanted_rows :: "32 word \<Rightarrow> nat \<Rightarrow> 'r list \<Rightarrow> 'r list" where
  "wanted_rows maxRows rows rs = (if 0 < maxRows then take (unat maxRows - rows) rs else rs)"

text \<open>The state: the callbacks made, the rows delivered, whether the cap was reached.\<close>

definition bg_data ::
  "icl_lib \<Rightarrow> 32 word \<Rightarrow> gostr \<Rightarrow> cb_event list \<times> nat \<times> bool \<Rightarrow> (cb_event list \<times> nat \<times> bool) \<times> (gostr + bool)" where
  "bg_data L maxRows data st =
     (case st of (cbs, rows, capped) \<Rightarrow>
        (case il_envelope L data of
           Inl e \<Rightarrow> (st, Inl (str ''decode: '' @ e))
         | Inr (Some (Some rs)) \<Rightarrow>
             let ws = wanted_rows maxRows rows rs;
                 cbs' = (if ws \<noteq> [] then cbs @ [CbData \<lparr>it_Error = None, it_Result = Some ws, it_Warning = None, it_Errors = []\<rparr>] else cbs);
                 rows' = rows + length ws
             in if 0 < maxRows \<and> rows' \<ge> unat maxRows then ((cbs', rows', True), Inr False) else ((cbs', rows', capped), Inr True)
         | Inr _ \<Rightarrow> (st, Inr True)))"

definition bg_keep :: "cb_event list \<times> nat \<times> bool \<Rightarrow> cb_event list \<times> nat \<times> bool" where
  "bg_keep st = (case st of (cbs, rows, capped) \<Rightarrow> (cbs @ [CbKeepAlive], rows, capped))"

text \<open>\<open>FetchBackgroundData\<close>; \<open>ctxErr\<close> is the error of its context once the body is read.\<close>

definition FetchBackgroundData ::
  "icl_lib \<Rightarrow> transport \<Rightarrow> (nat \<Rightarrow> bool) \<Rightarrow> go_error option \<Rightarrow> 32 word \<Rightarrow> cb_event list \<times> go_error option" where
  "FetchBackgroundData L t dn ctxErr maxRows =
     (case doQueryRequest L t of
        Inl e \<Rightarrow> ([], Some (Wrapped (str ''data: '') (Wrapped [] e)))
      | Inr (body, e) \<Rightarrow>
          (case readSSEEvents L dn body e (bg_data L maxRows) bg_keep ([], 0, False) of
             ((cbs, rows, capped), Some err) \<Rightarrow> (cbs, Some (Wrapped (str ''data: '') (Plain err)))
           | ((cbs, rows, capped), None) \<Rightarrow>
               (case ctxErr of
                  Some er \<Rightarrow> if \<not> capped then (cbs, Some (Wrapped (str ''data: '') er)) else (cbs @ [CbClose], None)
                | None \<Rightarrow> (cbs @ [CbClose], None))))"

datatype bg_state = BackgroundRunning | BackgroundSuccess | BackgroundError | BackgroundNotFound

record bg_status_wire =
  bw_terminated :: "bool option"

text \<open>
  \<open>GetBackgroundQueryStatus\<close>: \<open>reply\<close> is the request's outcome; \<open>bw_terminated\<close> tells whether \<^verbatim>\<open>terminated\<close> is there
  and, if so, whether \<^verbatim>\<open>terminated.success\<close> is. A reply that does not decode is an error of its sanitized text.
\<close>

definition GetBackgroundQueryStatus :: "(gostr \<Rightarrow> bg_status_wire option) \<Rightarrow> go_error + gostr \<Rightarrow> go_error + bg_state" where
  "GetBackgroundQueryStatus dec reply =
     (case reply of
        Inl e \<Rightarrow>
          (case as_status e of
             Some (c, r) \<Rightarrow> if c = 404 then Inr BackgroundNotFound else Inl (Wrapped (str ''status: '') e)
           | None \<Rightarrow> Inl (Wrapped (str ''status: '') e))
      | Inr body \<Rightarrow>
          (case dec body of
             None \<Rightarrow> Inl (Plain (str ''status: '' @ sanitizeErrBody body))
           | Some w \<Rightarrow>
               (case bw_terminated w of
                  Some True \<Rightarrow> Inr BackgroundSuccess
                | Some False \<Rightarrow> Inr BackgroundError
                | None \<Rightarrow> Inr BackgroundRunning)))"

definition SubmitBackgroundQuery :: "(gostr \<Rightarrow> gostr option) \<Rightarrow> go_error + gostr \<Rightarrow> go_error + gostr" where
  "SubmitBackgroundQuery dec reply =
     (case reply of
        Inl e \<Rightarrow> Inl (Wrapped (str ''submit: '') e)
      | Inr body \<Rightarrow>
          (case dec body of
             Some i \<Rightarrow> if i \<noteq> [] then Inr i else Inl (Plain (str ''submit: unexpected response: '' @ sanitizeErrBody body))
           | None \<Rightarrow> Inl (Plain (str ''submit: unexpected response: '' @ sanitizeErrBody body))))"

section \<open>The messages of a stream\<close>

datatype stream_event =
    StreamMsg gostr nat "log list" "gostr list" "gostr list"
  | StreamDone gostr nat "gostr list"

text \<open>
  A \<open>streamCallback\<close> for the instance \<open>crn\<close> and the query \<open>i\<close>; the flag is its \<^verbatim>\<open>sync.Once\<close>. The text of an error that a
  query returns is left to \<open>text_of\<close>.
\<close>

fun stream_callback :: "icl_lib \<Rightarrow> gostr \<Rightarrow> nat \<Rightarrow> bool \<Rightarrow> cb_event list \<Rightarrow> stream_event list" where
  "stream_callback L crn i once [] = []"
| "stream_callback L crn i once (CbKeepAlive # cs) = stream_callback L crn i once cs"
| "stream_callback L crn i once (CbData item # cs) =
     (case DecodeStreamItem L (Some item) of (logs, warns, errs) \<Rightarrow>
        StreamMsg crn i logs warns errs # stream_callback L crn i once cs)"
| "stream_callback L crn i once (CbError e # cs) =
     (if once then stream_callback L crn i once cs else StreamDone crn i [e] # stream_callback L crn i True cs)"
| "stream_callback L crn i once (CbClose # cs) =
     (if once then stream_callback L crn i once cs else StreamDone crn i [] # stream_callback L crn i True cs)"

text \<open>What the goroutine of \<open>StartQuery\<close> posts, given what the query did.\<close>

definition query_messages ::
  "icl_lib \<Rightarrow> (go_error \<Rightarrow> gostr) \<Rightarrow> gostr \<Rightarrow> nat \<Rightarrow> cb_event list \<times> go_error option \<Rightarrow> stream_event list" where
  "query_messages L text_of crn i r =
     stream_callback L crn i False (fst r @ (case snd r of None \<Rightarrow> [] | Some e \<Rightarrow> [CbError (text_of e)]))"

end
