(* ===== verification/Iclstream_Correct.thy ===== *)
theory Iclstream_Correct
  imports Iclstream
begin

text \<open>
  What the reader of a stream guarantees: events are read back as they were written, a background result is cut at its
  cap and nowhere else, every stream ends with one done message, and no control byte of a server's error reaches the
  screen. A deadline that passes between two lines looks like the end of the body.
\<close>

section \<open>Lines\<close>

lemma complete_lines_Nil [simp]: "complete_lines [] = []"
  by (simp add: complete_lines.simps)

lemma complete_lines_line: "NL \<notin> set l \<Longrightarrow> complete_lines (l @ NL # rest) = (l @ [NL]) # complete_lines rest"
  by (subst complete_lines.simps) (simp add: takeWhile_tail dropWhile_append)

lemma complete_lines_form: "l \<in> set (complete_lines bs) \<Longrightarrow> \<exists>l'. l = l' @ [NL] \<and> NL \<notin> set l'"
proof (induction bs rule: complete_lines.induct)
  case (1 bs)
  from 1(2) show ?case
    by (subst (asm) complete_lines.simps) (use 1(1) in \<open>auto split: if_splits dest: set_takeWhileD\<close>)
qed

lemma complete_lines_concat:
  "\<forall>l\<in>set ls. \<exists>l'. l = l' @ [NL] \<and> NL \<notin> set l' \<Longrightarrow> complete_lines (concat ls) = ls"
  by (induction ls) (auto simp: complete_lines_line)

lemma complete_lines_take: "complete_lines (concat (take k (complete_lines bs))) = take k (complete_lines bs)"
  by (rule complete_lines_concat) (auto dest: in_set_takeD complete_lines_form)

section \<open>Writing and reading events\<close>

text \<open>What a server sends: an event of some lines of data, a comment, or an empty line to keep the connection alive.\<close>

datatype sse_item = Event "gostr list" | Comment gostr | KeepAlive

fun sse_text :: "sse_item \<Rightarrow> gostr" where
  "sse_text (Event ls) = concat (map (\<lambda>l. data_prefix @ l @ [NL]) ls) @ [NL]"
| "sse_text (Comment c) = str '':'' @ c @ [NL]"
| "sse_text KeepAlive = [NL]"

fun sse_ok :: "sse_item \<Rightarrow> bool" where
  "sse_ok (Event ls) \<longleftrightarrow> ls \<noteq> [] \<and> list_all (\<lambda>l. NL \<notin> set l) ls"
| "sse_ok (Comment c) \<longleftrightarrow> NL \<notin> set c"
| "sse_ok KeepAlive \<longleftrightarrow> True"

definition payload :: "gostr list \<Rightarrow> gostr" where
  "payload ls = concat (map (\<lambda>l. l @ [NL]) ls)"

text \<open>The calls the items stand for.\<close>

fun feed :: "(gostr \<Rightarrow> 's \<Rightarrow> 's \<times> (gostr + bool)) \<Rightarrow> ('s \<Rightarrow> 's) \<Rightarrow> sse_item list \<Rightarrow> 's \<Rightarrow> 's \<times> gostr option" where
  "feed f g [] s = (s, None)"
| "feed f g (Comment c # xs) s = feed f g xs s"
| "feed f g (KeepAlive # xs) s = feed f g xs (g s)"
| "feed f g (Event ls # xs) s =
     (case f (payload ls) s of
        (s', Inl e) \<Rightarrow> (s', Some e)
      | (s', Inr keep) \<Rightarrow> if keep then feed f g xs s' else (s', None))"

lemma prefix_simps [simp]:
  "data_prefix = [100, 97, 116, 97, 58, 32]" "str '':'' = [58]"
  by (simp_all add: data_prefix_def str_def)

lemma complete_lines_data:
  "list_all (\<lambda>l. NL \<notin> set l) ls \<Longrightarrow>
     complete_lines (concat (map (\<lambda>l. data_prefix @ l @ [NL]) ls) @ rest) = map (\<lambda>l. data_prefix @ l @ [NL]) ls @ complete_lines rest"
proof (induction ls)
  case (Cons l ls)
  then show ?case
    using complete_lines_line [of "data_prefix @ l" "concat (map (\<lambda>l. data_prefix @ l @ [NL]) ls) @ rest"] by simp
qed simp

lemma sse_loop_data:
  "sse_loop q (\<lambda>k. False) f g e k (map (\<lambda>l. data_prefix @ l @ [NL]) ls @ rest) buf s
     = sse_loop q (\<lambda>k. False) f g e (k + length ls) rest (buf @ payload ls) s"
  by (induction ls arbitrary: k buf) (simp_all add: has_prefix_def payload_def)

text \<open>The counter of looks at the context matters only to a context that is done.\<close>

lemma sse_loop_counter: "sse_loop q (\<lambda>k. False) f g e k ls buf s = sse_loop q (\<lambda>k. False) f g e 0 ls buf s"
proof (induction ls arbitrary: k buf s)
  case (Cons l ls)
  have "sse_loop q (\<lambda>k. False) f g e (k + 1) ls b t = sse_loop q (\<lambda>k. False) f g e (0 + 1) ls b t" for b t
    using Cons.IH [of "k + 1" b t] Cons.IH [of "0 + 1" b t] by simp
  then show ?case by (simp only: sse_loop.simps)
qed simp

lemma payload_Nil: "ls \<noteq> [] \<Longrightarrow> payload ls \<noteq> []"
  by (cases ls) (auto simp: payload_def)

lemma sse_loop_items:
  assumes "list_all sse_ok xs"
  shows "sse_loop q (\<lambda>k. False) f g AtEOF 0 (complete_lines (concat (map sse_text xs))) [] s = feed f g xs s"
  using assms
proof (induction xs arbitrary: s)
  case (Cons x xs)
  let ?rest = "complete_lines (concat (map sse_text xs))"
  have IH: "sse_loop q (\<lambda>k. False) f g AtEOF k ?rest [] t = feed f g xs t" for k t
    using Cons by (subst sse_loop_counter) simp
  show ?case
  proof (cases x)
    case (Event ls)
    have ls: "ls \<noteq> []" "list_all (\<lambda>l. NL \<notin> set l) ls" using Cons.prems Event by auto
    have "complete_lines (concat (map sse_text (x # xs))) = map (\<lambda>l. data_prefix @ l @ [NL]) ls @ [NL] # ?rest"
      using complete_lines_data [OF ls(2), of "NL # concat (map sse_text xs)"] complete_lines_line [of "[]" "concat (map sse_text xs)"]
      by (simp add: Event del: prefix_simps(1))
    then show ?thesis
      using IH payload_Nil [OF ls(1)]
      by (simp add: sse_loop_data Event has_prefix_def split: prod.split sum.split del: prefix_simps(1))
        (simp add: has_prefix_def)
  next
    case (Comment c)
    then have "complete_lines (concat (map sse_text (x # xs))) = (58 # c @ [NL]) # ?rest"
      using Cons.prems complete_lines_line [of "58 # c" "concat (map sse_text xs)"] by simp
    then show ?thesis using IH Comment by (simp add: has_prefix_def)
  next
    case KeepAlive
    then have "complete_lines (concat (map sse_text (x # xs))) = [NL] # ?rest"
      using complete_lines_line [of "[]" "concat (map sse_text xs)"] by simp
    then show ?thesis using IH KeepAlive by (simp add: has_prefix_def)
  qed
qed simp

lemma events_read:
  "list_all sse_ok xs \<Longrightarrow> readSSEEvents L (\<lambda>k. False) (concat (map sse_text xs)) AtEOF f g s = feed f g xs s"
  by (simp add: readSSEEvents_def sse_loop_items)

text \<open>
  C11: Events are read back as they were written: over a body of events of any number of data lines, comments and
  keep-alives, the reader calls its handlers with exactly their payloads, in order, and stops where a handler stops.
\<close>

theorem events_are_read_back:
  assumes "list_all sse_ok xs"
  shows "readSSEEvents L (\<lambda>k. False) (concat (map sse_text xs)) AtEOF f g s = feed f g xs s"
  by (rule events_read [OF assms])

definition demo_icl :: icl_lib where
  "demo_icl = \<lparr>il_item = \<lambda>b. Inl [], il_envelope = \<lambda>b. if b = [] then Inl [] else
       Inr (Some (Some (map (\<lambda>c. \<lparr>dr_Metadata = [], dr_Labels = [], dr_UserData = Some [c]\<rparr>) (butlast b)))),
     il_map = \<lambda>b. Inr [], il_num_error = \<lambda>b. b, il_quote = \<lambda>b. b\<rparr>"

definition demo_items :: "sse_item list" where
  "demo_items = [Comment [98], Event [[97, 98]], KeepAlive, Event [[99], [100]]]"

theorem events_are_read_back_witness:
  "readSSEEvents demo_icl (\<lambda>k. False) (concat (map sse_text demo_items)) AtEOF (\<lambda>d s. (s @ [d], Inr True)) (\<lambda>s. s) []
     = ([[97, 98, NL], [99, NL, 100, NL]], None)"
  by (subst events_are_read_back) (simp_all add: demo_items_def payload_def)

section \<open>One done message\<close>

lemma sse_loop_inv:
  assumes "P s" "\<And>d s. P s \<Longrightarrow> P (fst (f d s))" "\<And>s. P s \<Longrightarrow> P (g s)"
  shows "P (fst (sse_loop q dn f g e k ls buf s))"
  using assms(1)
proof (induction ls arbitrary: k buf s)
  case (Cons l ls)
  have "P s'" if "f buf s = (s', r)" for s' r using assms(2) [OF Cons.prems, of buf] that by simp
  then show ?case using Cons assms(3) by (auto split: prod.split sum.split)
qed simp

fun feeds :: "cb_event \<Rightarrow> bool" where
  "feeds (CbData i) = True"
| "feeds CbKeepAlive = True"
| "feeds (CbError e) = False"
| "feeds CbClose = False"

lemma streamEvents_shape:
  "\<exists>cs. list_all feeds cs \<and> (streamEvents L dn body e = cs \<or> (\<exists>err. streamEvents L dn body e = cs @ [CbError err]))"
proof -
  let ?f = "\<lambda>data cbs. case il_item L data of Inl err \<Rightarrow> (cbs, Inl err) | Inr item \<Rightarrow> (cbs @ [CbData item], Inr True)"
  have "list_all feeds (fst (readSSEEvents L dn body e ?f (\<lambda>cbs. cbs @ [CbKeepAlive]) []))"
    unfolding readSSEEvents_def by (rule sse_loop_inv) (auto split: sum.split)
  then show ?thesis unfolding streamEvents_def by (auto split: prod.split option.split)
qed

lemma bg_shape:
  "list_all feeds (fst (fst (readSSEEvents L dn body e (bg_data L maxRows) bg_keep ([], 0, False))))"
  unfolding readSSEEvents_def
  by (rule sse_loop_inv [where P = "\<lambda>st. list_all feeds (fst st)"])
    (auto simp: bg_data_def bg_keep_def Let_def split: sum.split option.split prod.split)

fun is_batch :: "stream_event \<Rightarrow> bool" where
  "is_batch (StreamMsg c i ls ws es) = True"
| "is_batch (StreamDone c i es) = False"

lemma callback_feeds:
  "list_all feeds cs \<Longrightarrow>
     \<exists>bs. list_all is_batch bs \<and> (\<forall>rest. stream_callback L crn i False (cs @ rest) = bs @ stream_callback L crn i False rest)"
proof (induction cs)
  case (Cons c cs)
  then obtain bs where bs: "list_all is_batch bs"
    "\<And>rest. stream_callback L crn i False (cs @ rest) = bs @ stream_callback L crn i False rest" by auto
  show ?case
  proof (cases c)
    case (CbData item)
    obtain ls ws es where "DecodeStreamItem L (Some item) = (ls, ws, es)" by (metis prod_cases3)
    then show ?thesis using bs CbData by (intro exI [of _ "StreamMsg crn i ls ws es # bs"]) simp
  qed (use bs Cons.prems in auto)
qed (auto intro: exI [of _ "[]"])

lemma one_done:
  assumes "list_all feeds cs" "tl' \<in> {[CbClose], [CbError e], [CbError e, CbClose]}"
  shows "\<exists>bs es. list_all is_batch bs \<and> stream_callback L crn i False (cs @ tl') = bs @ [StreamDone crn i es]"
proof -
  obtain bs where "list_all is_batch bs"
    "\<And>rest. stream_callback L crn i False (cs @ rest) = bs @ stream_callback L crn i False rest"
    using callback_feeds [OF assms(1)] by blast
  then show ?thesis using assms(2) by (intro exI [of _ bs]) auto
qed

lemma query_one_done:
  "\<exists>bs es. list_all is_batch bs
      \<and> query_messages L text_of crn i (Query L send dn url query maxRows now) = bs @ [StreamDone crn i es]"
proof (cases "doQueryRequest L (send \<lparr>qr_url = url @ str ''/v1/query'', qr_query = query, qr_start = now - hour, qr_end = now,
           qr_limit = SyncQueryRequestLimit maxRows\<rparr>)")
  case (Inl er)
  then show ?thesis using one_done [of "[]"] by (simp add: Query_def query_messages_def)
next
  case (Inr b)
  obtain body e where b: "b = (body, e)" by (cases b)
  obtain cs err where cs: "list_all feeds cs"
    "streamEvents L dn body e = cs \<or> streamEvents L dn body e = cs @ [CbError err]"
    using streamEvents_shape [of L dn body e] by blast
  define t' where "t' = (if streamEvents L dn body e = cs then [CbClose] else [CbError err, CbClose])"
  have t': "t' \<in> {[CbClose], [CbError err], [CbError err, CbClose]}" "streamEvents L dn body e @ [CbClose] = cs @ t'"
    using cs(2) by (cases "streamEvents L dn body e = cs"; simp add: t'_def)+
  then have "query_messages L text_of crn i (Query L send dn url query maxRows now) = stream_callback L crn i False (cs @ t')"
    using Inr b by (simp add: Query_def query_messages_def)
  then show ?thesis using one_done [OF cs(1) t'(1)] by metis
qed

lemma background_one_done:
  "\<exists>bs es. list_all is_batch bs
      \<and> query_messages L text_of crn i (FetchBackgroundData L t dn ctxErr maxRows) = bs @ [StreamDone crn i es]"
proof (cases "doQueryRequest L t")
  case (Inl er)
  then show ?thesis using one_done [of "[]"] by (simp add: FetchBackgroundData_def query_messages_def)
next
  case (Inr b)
  obtain body e where b: "b = (body, e)" by (cases b)
  obtain cbs rows capped er where r: "readSSEEvents L dn body e (bg_data L maxRows) bg_keep ([], 0, False) = ((cbs, rows, capped), er)"
    by (metis prod.exhaust)
  then have cbs: "list_all feeds cbs" using bg_shape [of L dn body e maxRows] by simp
  let ?x = "\<lambda>x. {[CbClose], [CbError x], [CbError x, CbClose]}"
  have "\<exists>x t'. t' \<in> ?x x \<and> query_messages L text_of crn i (FetchBackgroundData L t dn ctxErr maxRows)
      = stream_callback L crn i False (cbs @ t')"
  proof (cases er)
    case (Some err)
    then show ?thesis
      using Inr b r by (intro exI [of _ "text_of (Wrapped (str ''data: '') (Plain err))"]
          exI [of _ "[CbError (text_of (Wrapped (str ''data: '') (Plain err)))]"]) (simp add: FetchBackgroundData_def query_messages_def)
  next
    case None
    show ?thesis
    proof (cases "ctxErr = None \<or> capped")
      case True
      then show ?thesis
        using Inr b r None by (intro exI [of _ "[]"] exI [of _ "[CbClose]"]) (auto simp: FetchBackgroundData_def query_messages_def split: option.split)
    next
      case False
      then obtain y where "ctxErr = Some y" by auto
      then show ?thesis
        using Inr b r None False
        by (intro exI [of _ "text_of (Wrapped (str ''data: '') y)"]
            exI [of _ "[CbError (text_of (Wrapped (str ''data: '') y))]"]) (simp add: FetchBackgroundData_def query_messages_def)
    qed
  qed
  then show ?thesis using one_done [OF cbs] by metis
qed

text \<open>
  C10: Every query, synchronous or background, whatever the transport, the body, its handlers and its context do, posts
  its batches and then exactly one done message, the last of the stream.
\<close>

theorem every_stream_ends_with_one_done:
  "(\<exists>bs es. list_all is_batch bs
      \<and> query_messages L text_of crn i (Query L send dn url query maxRows now) = bs @ [StreamDone crn i es])
   \<and> (\<exists>bs es. list_all is_batch bs
      \<and> query_messages L text_of crn i (FetchBackgroundData L t dn ctxErr maxRows) = bs @ [StreamDone crn i es])"
  using query_one_done background_one_done by blast

section \<open>The cap of a background query\<close>

fun rows_of :: "cb_event list \<Rightarrow> dataprime_results list" where
  "rows_of [] = []"
| "rows_of (CbData item # cs) = (case it_Result item of None \<Rightarrow> [] | Some rs \<Rightarrow> rs) @ rows_of cs"
| "rows_of (CbKeepAlive # cs) = rows_of cs"
| "rows_of (CbError e # cs) = rows_of cs"
| "rows_of (CbClose # cs) = rows_of cs"

lemma rows_of_append [simp]: "rows_of (xs @ ys) = rows_of xs @ rows_of ys"
  by (induction xs rule: rows_of.induct) auto

text \<open>The rows a body of items stands for, when every event decodes.\<close>

fun event_rows :: "icl_lib \<Rightarrow> sse_item \<Rightarrow> dataprime_results list" where
  "event_rows L (Event ls) = (case il_envelope L (payload ls) of Inr (Some (Some rs)) \<Rightarrow> rs | _ \<Rightarrow> [])"
| "event_rows L (Comment c) = []"
| "event_rows L KeepAlive = []"

fun decodes :: "icl_lib \<Rightarrow> sse_item \<Rightarrow> bool" where
  "decodes L (Event ls) = (case il_envelope L (payload ls) of Inl e \<Rightarrow> False | Inr r \<Rightarrow> True)"
| "decodes L (Comment c) = True"
| "decodes L KeepAlive = True"

definition up_to :: "32 word \<Rightarrow> 'r list \<Rightarrow> 'r list" where
  "up_to maxRows rs = (if 0 < maxRows then take (unat maxRows) rs else rs)"

lemma bg_feed:
  assumes "list_all (decodes L) xs" "0 < maxRows \<longrightarrow> length (rows_of cbs) < unat maxRows"
  shows "\<exists>cbs' n capped. feed (bg_data L maxRows) bg_keep xs (cbs, length (rows_of cbs), False) = ((cbs', n, capped), None)
     \<and> rows_of cbs' = up_to maxRows (rows_of cbs @ concat (map (event_rows L) xs))"
  using assms
proof (induction xs arbitrary: cbs)
  case Nil
  then have "rows_of cbs = up_to maxRows (rows_of cbs)" by (cases "0 < maxRows") (simp_all add: up_to_def)
  then show ?case by (intro exI [of _ cbs] exI [of _ "length (rows_of cbs)"] exI [of _ False]) simp
next
  case (Cons x xs)
  show ?case
  proof (cases x)
    case (Comment c)
    then show ?thesis using Cons by simp
  next
    case KeepAlive
    then show ?thesis using Cons.IH [of "cbs @ [CbKeepAlive]"] Cons.prems by (simp add: bg_keep_def)
  next
    case (Event ls)
    then obtain r where r: "il_envelope L (payload ls) = Inr r" using Cons.prems by (auto split: sum.splits)
    show ?thesis
    proof (cases "\<exists>rs. r = Some (Some rs)")
      case False
      then show ?thesis using Cons Event r by (cases r) (auto simp: bg_data_def split: option.splits)
    next
      case True
      then obtain rs where rs: "r = Some (Some rs)" by auto
      let ?item = "\<lambda>ws. \<lparr>it_Error = None, it_Result = Some ws, it_Warning = None, it_Errors = []\<rparr>"
      let ?ws = "wanted_rows maxRows (length (rows_of cbs)) rs"
      let ?cbs = "if ?ws \<noteq> [] then cbs @ [CbData (?item ?ws)] else cbs"
      have rows: "rows_of ?cbs = rows_of cbs @ ?ws" by simp
      show ?thesis
      proof (cases "0 < maxRows \<and> length (rows_of cbs) + length ?ws \<ge> unat maxRows")
        case True
        then have "up_to maxRows (rows_of cbs @ rs @ concat (map (event_rows L) xs)) = rows_of cbs @ ?ws"
          using Cons.prems(2) by (auto simp: up_to_def wanted_rows_def min_def split: if_splits)
        then show ?thesis
          using True Event r rs rows by (simp add: bg_data_def Let_def) metis
      next
        case False
        have ws: "?ws = rs" using False Cons.prems(2) by (cases "0 < maxRows") (simp_all add: wanted_rows_def)
        have "0 < maxRows \<longrightarrow> length (rows_of ?cbs) < unat maxRows"
          using False unfolding rows length_append by auto
        from Cons.IH [OF _ this] Cons.prems(1)
        obtain cbs' n capped where
          "feed (bg_data L maxRows) bg_keep xs (?cbs, length (rows_of ?cbs), False) = ((cbs', n, capped), None)"
          "rows_of cbs' = up_to maxRows (rows_of ?cbs @ concat (map (event_rows L) xs))" by auto
        moreover have "bg_data L maxRows (payload ls) (cbs, length (rows_of cbs), False)
            = ((?cbs, length (rows_of ?cbs), False), Inr True)"
          using False r rs rows by (simp add: bg_data_def Let_def)
        ultimately show ?thesis using Event r rs ws rows by simp
      qed
    qed
  qed
qed

text \<open>
  C12: A background result is cut at its cap and nowhere else: when the context is not done and the events decode, the
  rows delivered are the rows of the body in order, the first \<open>maxRows\<close> of them when there is a cap, and the stream is closed
  without an error.
\<close>

theorem background_rows_are_cut_at_the_cap:
  assumes "list_all sse_ok xs" "list_all (decodes L) xs" "\<not> isHTTPErr status"
  shows "rows_of (fst (FetchBackgroundData L (Response status (concat (map sse_text xs)) AtEOF) (\<lambda>k. False) None maxRows))
       = up_to maxRows (concat (map (event_rows L) xs))
     \<and> snd (FetchBackgroundData L (Response status (concat (map sse_text xs)) AtEOF) (\<lambda>k. False) None maxRows) = None"
proof -
  obtain cbs n capped where
    "feed (bg_data L maxRows) bg_keep xs ([], 0, False) = ((cbs, n, capped), None)"
    "rows_of cbs = up_to maxRows (concat (map (event_rows L) xs))"
    using bg_feed [OF assms(2), of maxRows "[]"] by (auto simp: word_less_nat_alt)
  then show ?thesis
    using assms(1,3) by (simp add: FetchBackgroundData_def doQueryRequest_def events_read)
qed

theorem background_rows_are_cut_at_the_cap_witness:
  "map dr_UserData (rows_of (fst (FetchBackgroundData demo_icl (Response 200 (concat (map sse_text demo_items)) AtEOF)
      (\<lambda>k. False) None 3))) = [Some [97], Some [98], Some [99]]"
proof -
  have "list_all sse_ok demo_items" "list_all (decodes demo_icl) demo_items" "\<not> isHTTPErr 200"
    by (simp_all add: demo_items_def demo_icl_def payload_def isHTTPErr_def)
  note background_rows_are_cut_at_the_cap [OF this, of 3]
  moreover have "map dr_UserData (up_to 3 (concat (map (event_rows demo_icl) demo_items))) = [Some [97], Some [98], Some [99]]"
    by code_simp
  ultimately show ?thesis by simp
qed

section \<open>What reaches the screen\<close>

definition printable :: "nat \<Rightarrow> bool" where
  "printable b \<longleftrightarrow> b = 9 \<or> b = 10 \<or> (32 \<le> b \<and> b \<noteq> 127)"

lemma clean_chunk_printable: "c \<in> set (rune_chunks b) \<Longrightarrow> list_all printable (clean_chunk c)"
proof (induction b rule: rune_chunks.induct)
  case (1 b)
  show ?case
  proof (cases "b = []")
    case True
    then show ?thesis using 1(2) by (simp add: rune_chunks.simps)
  next
    case False
    let ?c = "take (snd (DecodeRune b)) b"
    have "list_all printable (clean_chunk ?c)"
    proof (cases "hd b < 128")
      case True
      then obtain rest where b: "b = hd b # rest" "DecodeRune b = (hd b, 1)"
        using False DecodeRune_ascii by (cases b) auto
      then have "?c = [hd b]" by (metis One_nat_def snd_conv take_Suc_Cons take_0)
      then show ?thesis using True by (simp add: clean_chunk_def DecodeRune_ascii IsControl_def printable_def Let_def)
    next
      case False
      then have "list_all (\<lambda>c. 128 \<le> c) ?c" using \<open>b \<noteq> []\<close> chunk_high [of "hd b" "tl b" b] by (simp add: not_less)
      then have "list_all printable ?c" by (auto simp: list_all_iff printable_def)
      then show ?thesis by (simp add: clean_chunk_def printable_def Let_def)
    qed
    moreover have "c = ?c \<or> c \<in> set (rune_chunks (drop (snd (DecodeRune b)) b))"
      using 1(2) False by (simp add: rune_chunks.simps [of b])
    ultimately show ?thesis using 1(1) False by blast
  qed
qed

text \<open>
  No control byte of a server's reply reaches the screen in an error, but for line feeds and tabs: whatever the body
  of a rejected request holds, the reason built from it is free of escapes, carriage returns and deletes.
\<close>

theorem error_reason_is_printable: "list_all printable (errReasonFromBody L body)"
proof -
  have "list_all printable (sanitizeErrBody b)" for b
  proof -
    have "list_all printable (concat (map clean_chunk (rune_chunks b)))"
      using clean_chunk_printable [of _ b] by (auto simp: list_all_iff)
    then show ?thesis
      using set_TrimSpaceRunes [of "concat (map clean_chunk (rune_chunks b))"] by (auto simp: sanitizeErrBody_def list_all_iff)
  qed
  then show ?thesis by (simp add: errReasonFromBody_def split: sum.split prod.split)
qed

section \<open>A deadline between two lines\<close>

lemma sse_loop_cut:
  assumes "\<And>j. j < n \<Longrightarrow> \<not> dn (k + j)" "dn (k + n)" "n \<le> length ls"
  shows "sse_loop q dn f g e k ls buf s = sse_loop q (\<lambda>k. False) f g AtEOF k (take n ls) buf s"
  using assms
proof (induction ls arbitrary: n k buf s)
  case Nil
  then show ?case by simp
next
  case (Cons l ls)
  show ?case
  proof (cases n)
    case 0
    then show ?thesis using Cons.prems by simp
  next
    case (Suc n')
    have "sse_loop q dn f g e (k + 1) ls b t = sse_loop q (\<lambda>k. False) f g AtEOF (k + 1) (take n' ls) b t" for b t
      using Cons.prems(2,3) Suc Cons.prems(1) [of "Suc _"] by (intro Cons.IH) auto
    moreover have "\<not> dn k" using Cons.prems(1) [of 0] Suc by simp
    ultimately show ?thesis by (simp only: Suc take_Suc_Cons sse_loop.simps if_False)
  qed
qed

text \<open>
  C37: A deadline that passes between two lines of a synchronous query looks like the end of the body: the callbacks are
  those of the lines read so far as a whole response, the stream is closed and no error is returned, so a result that
  was cut off is reported as complete.
\<close>

theorem deadline_closes_a_query_cleanly:
  assumes "send \<lparr>qr_url = url @ str ''/v1/query'', qr_query = query, qr_start = now - hour, qr_end = now,
             qr_limit = SyncQueryRequestLimit maxRows\<rparr> = Response 200 body e"
    and "\<forall>j<n. \<not> dn j" "dn n" "n \<le> length (complete_lines body)"
  shows "Query L send dn url query maxRows now
       = (streamEvents L (\<lambda>k. False) (concat (take n (complete_lines body))) AtEOF @ [CbClose], None)"
proof -
  have "readSSEEvents L dn body e f g s = readSSEEvents L (\<lambda>k. False) (concat (take n (complete_lines body))) AtEOF f g s"
    for f :: "gostr \<Rightarrow> cb_event list \<Rightarrow> cb_event list \<times> (gostr + bool)" and g s
    using sse_loop_cut [of n dn 0 "complete_lines body"] assms(2-4) by (simp add: readSSEEvents_def complete_lines_take)
  then have "streamEvents L dn body e = streamEvents L (\<lambda>k. False) (concat (take n (complete_lines body))) AtEOF"
    by (simp add: streamEvents_def)
  then show ?thesis using assms(1) by (simp add: Query_def doQueryRequest_def isHTTPErr_def)
qed

theorem deadline_closes_a_query_cleanly_witness:
  "Query demo_icl (\<lambda>r. Response 200 [58, NL, 58, NL] AtEOF) (\<lambda>k. k = 1) [] [] 0 0
     = (streamEvents demo_icl (\<lambda>k. False) [58, NL] AtEOF @ [CbClose], None)"
proof -
  have "complete_lines [58, NL, 58, NL] = [[58, NL], [58, NL]]"
    using complete_lines_line [of "[58]" "[58, NL]"] complete_lines_line [of "[58]" "[]"] by simp
  then show ?thesis
    by (subst deadline_closes_a_query_cleanly [where n = 1 and body = "[58, NL, 58, NL]" and e = AtEOF]) simp_all
qed

end
