(* ===== verification/Auth.thy ===== *)
theory Auth
  imports Iclstream
begin

text \<open>
  How a bearer token is obtained, \<^verbatim>\<open>internal/icl/auth.go\<close>, and the name of an instance, \<^verbatim>\<open>internal/config/types.go\<close>.
  The world outside (the HTTP client, the JSON decoder, the URL parser, the clock, the \<^verbatim>\<open>op\<close> program) is the record
  \<open>auth_ext\<close>; an answer may depend on everything that was sent before it, so each of its fields that stands for an
  event outside takes the trace of the requests sent so far. A time is in nanoseconds. The log of checkpoints is left out. The
  lock of an environment makes an operation one step; \<open>SetPasscode\<close>, which releases it during its exchange, is one step too.
\<close>

section \<open>Names of instances\<close>

fun split_by :: "nat \<Rightarrow> gostr \<Rightarrow> gostr list" where
  "split_by c [] = [[]]"
| "split_by c (x # xs) = (if x = c then [] # split_by c xs else (x # hd (split_by c xs)) # tl (split_by c xs))"

record crn =
  crn_raw :: gostr
  crn_CName :: gostr
  crn_Location :: gostr
  crn_ScopeID :: gostr
  crn_InstanceID :: gostr

datatype crn_error = NotTenSegments | NotACRN | NotVersion1 | NoCName | NotLogs | NoScopePrefix | NotAnAccount

definition CRNFromString :: "gostr \<Rightarrow> crn_error + crn" where
  "CRNFromString s =
     (let segments = split_by 58 s
      in if length segments \<noteq> 10 then Inl NotTenSegments
         else if segments ! 0 \<noteq> str ''crn'' then Inl NotACRN
         else if segments ! 1 \<noteq> str ''v1'' then Inl NotVersion1
         else if segments ! 2 = [] then Inl NoCName
         else if segments ! 4 \<noteq> str ''logs'' then Inl NotLogs
         else let scope = segments ! 6; scopePrefix = takeWhile (\<lambda>c. c \<noteq> 47) scope
           in if 47 \<notin> set scope then Inl NoScopePrefix
              else if scopePrefix \<noteq> str ''a'' then Inl NotAnAccount
              else Inr \<lparr>crn_raw = s, crn_CName = segments ! 2, crn_Location = segments ! 5,
                     crn_ScopeID = drop (Suc (length scopePrefix)) scope, crn_InstanceID = segments ! 7\<rparr>)"

definition crn_String :: "crn \<Rightarrow> gostr" where "crn_String c = crn_raw c"

section \<open>Data\<close>

record oidcConfig =
  oc_TokenEndpoint :: gostr
  oc_PasscodeEndpoint :: gostr

record tokenResponse =
  tr_AccessToken :: gostr
  tr_RefreshToken :: gostr
  tr_ExpiresIn :: "64 word"

record tokenEntry =
  te_token :: gostr
  te_expiresAt :: int

record envAuth =
  ea_iamURL :: gostr
  ea_refreshToken :: gostr
  ea_accessTokens :: "gostr \<rightharpoonup> tokenEntry"
  ea_oidcConfig :: "oidcConfig option"
  ea_apiKey :: gostr
  ea_apiKeyEnvVar :: gostr
  ea_opRef :: gostr

type_synonym accounts = "gostr \<rightharpoonup> envAuth"

datatype auth_method =
    MethodCachedAccessToken | MethodRefreshToken | MethodEnvironmentAPIKey | MethodConfiguredAPIKey | MethodOnePassword | MethodPasscode

datatype cred_mode = ModeAuto | ModeRefresh | ModeEnv | ModeAPIKey | ModeOnePassword | ModePasscode

fun mode_text :: "cred_mode \<Rightarrow> gostr" where
  "mode_text ModeAuto = str ''auto''"
| "mode_text ModeRefresh = str ''refresh''"
| "mode_text ModeEnv = str ''env''"
| "mode_text ModeAPIKey = str ''api-key''"
| "mode_text ModeOnePassword = str ''1password''"
| "mode_text ModePasscode = str ''passcode''"

definition CredentialModes :: "cred_mode list" where
  "CredentialModes = [ModeAuto, ModeRefresh, ModeEnv, ModeAPIKey, ModeOnePassword, ModePasscode]"

definition ParseCredentialMode :: "gostr \<Rightarrow> cred_mode option" where
  "ParseCredentialMode s = find (\<lambda>m. mode_text m = s) CredentialModes"

record iam_error =
  ie_Code :: gostr
  ie_Message :: gostr
  ie_Details :: gostr

definition iam_Error :: "iam_error \<Rightarrow> gostr" where
  "iam_Error e = sanitizeErrBody (ie_Code e @ str '': '' @ ie_Message e)"

text \<open>Errors as chains, with the ones the code looks for along a chain; an error of the libraries is none of the code's own.\<close>

datatype refusal = NotConfigured | WasRejected | AuthenticationFailed

datatype outside_error = Canceled | DeadlineExceeded | OtherError gostr

datatype auth_error =
    Outside outside_error | IAMError iam_error | ErrText gostr | ErrWrap gostr auth_error | ErrHTTP gostr int gostr
  | UnsupportedEnv gostr | MissingCRN | CredentialModeError cred_mode refusal | HeadlessAuthRequired gostr | PasscodeRequired gostr gostr

fun is_context_error :: "auth_error \<Rightarrow> bool" where
  "is_context_error (Outside e) \<longleftrightarrow> e = Canceled \<or> e = DeadlineExceeded"
| "is_context_error (ErrWrap t e) = is_context_error e"
| "is_context_error _ = False"

fun as_IAMError :: "auth_error \<Rightarrow> iam_error option" where
  "as_IAMError (IAMError e) = Some e"
| "as_IAMError (ErrWrap t e) = as_IAMError e"
| "as_IAMError _ = None"

definition credentialModeAuthenticationError :: "cred_mode \<Rightarrow> auth_error \<Rightarrow> auth_error" where
  "credentialModeAuthenticationError mode e =
     (if is_context_error e then e
      else if as_IAMError e \<noteq> None then CredentialModeError mode WasRejected
      else CredentialModeError mode AuthenticationFailed)"

section \<open>The outside\<close>

datatype grant = GrantPasscode gostr | GrantRefresh gostr | GrantAPIKey gostr

datatype request = Discover gostr | TokenRequest gostr grant | OpRead gostr

type_synonym trace = "request list"

datatype http_reply = NoReply outside_error bool | Reply int "outside_error + gostr"

datatype op_reply = OpOutput gostr | OpExit gostr | OpFailed outside_error

record parsed_url =
  pu_Scheme :: gostr
  pu_Host :: gostr
  pu_User :: bool
  pu_RawQuery :: gostr
  pu_Fragment :: gostr
  pu_String :: gostr

record auth_ext =
  ax_bad_url :: "gostr \<Rightarrow> outside_error option"
  ax_http :: "trace \<Rightarrow> http_reply"
  ax_op :: "trace \<Rightarrow> op_reply"
  ax_done :: "trace \<Rightarrow> outside_error option"
  ax_now :: "trace \<Rightarrow> int"
  ax_oidc :: "gostr \<Rightarrow> outside_error + oidcConfig"
  ax_iam :: "gostr \<Rightarrow> iam_error option"
  ax_token :: "gostr \<Rightarrow> outside_error + tokenResponse"
  ax_url :: "gostr \<Rightarrow> parsed_url option"

section \<open>The cache\<close>

definition maxTokenLifetime :: "64 word" where "maxTokenLifetime = 86400 * 10 ^ 9"

definition refreshBuffer :: int where "refreshBuffer = 60 * 10 ^ 9"

text \<open>The lifetime of a token: seconds times \<^verbatim>\<open>time.Second\<close> at 64 bits, which wraps.\<close>

definition lifetime :: "64 word \<Rightarrow> 64 word" where
  "lifetime expiresIn =
     (let d = expiresIn * 10 ^ 9 in if sint d > sint maxTokenLifetime \<or> sint d < 0 then maxTokenLifetime else d)"

definition expiresAtFrom :: "int \<Rightarrow> 64 word \<Rightarrow> int option" where
  "expiresAtFrom now expiresIn = (if sint expiresIn \<le> 0 then None else Some (now + sint (lifetime expiresIn)))"

definition storeAccessToken :: "int \<Rightarrow> gostr \<Rightarrow> tokenResponse \<Rightarrow> envAuth \<Rightarrow> envAuth" where
  "storeAccessToken now accountID resp ea =
     (case expiresAtFrom now (tr_ExpiresIn resp) of
        None \<Rightarrow> ea
      | Some t \<Rightarrow> ea\<lparr>ea_accessTokens := (ea_accessTokens ea)(accountID \<mapsto> \<lparr>te_token = tr_AccessToken resp, te_expiresAt = t\<rparr>)\<rparr>)"

section \<open>Requests\<close>

definition wellKnown :: gostr where "wellKnown = str ''/.well-known/openid-configuration''"

definition oidcDiscoveryAttempts :: nat where "oidcDiscoveryAttempts = 2"

text \<open>The attempts of a discovery; \<open>retries\<close> is how many are left after the current one.\<close>

fun discover_attempts :: "auth_ext \<Rightarrow> gostr \<Rightarrow> nat \<Rightarrow> trace \<Rightarrow> (auth_error + int \<times> (outside_error + gostr)) \<times> trace" where
  "discover_attempts X ep retries tr =
     (case ax_bad_url X ep of
        Some e \<Rightarrow> (Inl (ErrWrap (str ''query OIDC config: build request'') (Outside e)), tr)
      | None \<Rightarrow>
          let tr' = tr @ [Discover ep]
          in case ax_http X tr' of
               Reply status body \<Rightarrow> (Inr (status, body), tr')
             | NoReply e timeout \<Rightarrow>
                 (case retries of
                    0 \<Rightarrow> (Inl (ErrWrap (str ''query OIDC config: transport'') (Outside e)), tr')
                  | Suc r \<Rightarrow>
                      if \<not> timeout then (Inl (ErrWrap (str ''query OIDC config: transport'') (Outside e)), tr')
                      else (case ax_done X tr' of
                              Some c \<Rightarrow> (Inl (ErrWrap (str ''query OIDC config: transport'') (Outside c)), tr')
                            | None \<Rightarrow> discover_attempts X ep r tr')))"

declare discover_attempts.simps [simp del]

definition queryOIDCConfig :: "auth_ext \<Rightarrow> gostr \<Rightarrow> trace \<Rightarrow> (auth_error + oidcConfig) \<times> trace" where
  "queryOIDCConfig X baseURL tr =
     (case discover_attempts X (baseURL @ wellKnown) (oidcDiscoveryAttempts - 1) tr of
        (Inl e, tr') \<Rightarrow> (Inl e, tr')
      | (Inr (status, Inl e), tr') \<Rightarrow> (Inl (ErrWrap (str ''query OIDC config: read body'') (Outside e)), tr')
      | (Inr (status, Inr body), tr') \<Rightarrow>
          if isHTTPErr status then (Inl (ErrHTTP (str ''query OIDC config: http'') status (sanitizeErrBody body)), tr')
          else case ax_oidc X body of
                 Inl e \<Rightarrow> (Inl (ErrWrap (str ''query OIDC config: parse response'') (Outside e)), tr')
               | Inr cfg \<Rightarrow> (Inr cfg, tr'))"

definition getOIDCConfig :: "auth_ext \<Rightarrow> envAuth \<Rightarrow> trace \<Rightarrow> (auth_error + oidcConfig) \<times> envAuth \<times> trace" where
  "getOIDCConfig X ea tr =
     (case ea_oidcConfig ea of
        Some c \<Rightarrow> (Inr c, ea, tr)
      | None \<Rightarrow>
          (case queryOIDCConfig X (ea_iamURL ea) tr of
             (Inl e, tr') \<Rightarrow> (Inl e, ea, tr')
           | (Inr c, tr') \<Rightarrow> (Inr c, ea\<lparr>ea_oidcConfig := Some c\<rparr>, tr')))"

definition doTokenFormRequest :: "auth_ext \<Rightarrow> gostr \<Rightarrow> grant \<Rightarrow> trace \<Rightarrow> (auth_error + tokenResponse) \<times> trace" where
  "doTokenFormRequest X ep g tr =
     (case ax_bad_url X ep of
        Some e \<Rightarrow> (Inl (Outside e), tr)
      | None \<Rightarrow>
          let tr' = tr @ [TokenRequest ep g]
          in case ax_http X tr' of
               NoReply e timeout \<Rightarrow> (Inl (Outside e), tr')
             | Reply status (Inl e) \<Rightarrow> (Inl (Outside e), tr')
             | Reply status (Inr body) \<Rightarrow>
                 if isHTTPErr status then
                   (case ax_iam X body of
                      None \<Rightarrow>
                        let reason = sanitizeErrBody body
                        in (Inl (if reason \<noteq> [] then ErrText reason else ErrHTTP (str ''token request: http'') status []), tr')
                    | Some e \<Rightarrow> (Inl (IAMError e), tr'))
                 else (map_sum Outside id (ax_token X body), tr'))"

text \<open>\<open>None\<close> for a refresh token that was rejected.\<close>

definition exchangeRefreshToken :: "auth_ext \<Rightarrow> gostr \<Rightarrow> envAuth \<Rightarrow> trace \<Rightarrow> (auth_error + gostr option) \<times> envAuth \<times> trace" where
  "exchangeRefreshToken X accountID ea tr =
     (case getOIDCConfig X ea tr of
        (Inl e, ea1, tr1) \<Rightarrow> (Inl e, ea1, tr1)
      | (Inr cfg, ea1, tr1) \<Rightarrow>
          (case doTokenFormRequest X (oc_TokenEndpoint cfg) (GrantRefresh (ea_refreshToken ea1)) tr1 of
             (Inl e, tr2) \<Rightarrow>
               if as_IAMError e \<noteq> None then (Inr None, ea1, tr2)
               else (Inl (ErrWrap (str ''refresh-grant exchange failed'') e), ea1, tr2)
           | (Inr resp, tr2) \<Rightarrow>
               let ea2 = storeAccessToken (ax_now X tr2) accountID resp ea1;
                   ea3 = (if tr_RefreshToken resp \<noteq> [] then ea2\<lparr>ea_refreshToken := tr_RefreshToken resp\<rparr> else ea2)
               in (Inr (Some (tr_AccessToken resp)), ea3, tr2)))"

definition exchangeAPIKey :: "auth_ext \<Rightarrow> gostr \<Rightarrow> gostr \<Rightarrow> envAuth \<Rightarrow> trace \<Rightarrow> (auth_error + gostr) \<times> envAuth \<times> trace" where
  "exchangeAPIKey X accountID apiKey ea tr =
     (case getOIDCConfig X ea tr of
        (Inl e, ea1, tr1) \<Rightarrow> (Inl e, ea1, tr1)
      | (Inr cfg, ea1, tr1) \<Rightarrow>
          (case doTokenFormRequest X (oc_TokenEndpoint cfg) (GrantAPIKey apiKey) tr1 of
             (Inl e, tr2) \<Rightarrow> (Inl e, ea1, tr2)
           | (Inr resp, tr2) \<Rightarrow>
               let ea2 = storeAccessToken (ax_now X tr2) accountID resp ea1;
                   ea3 = (if tr_RefreshToken resp \<noteq> [] then ea2\<lparr>ea_refreshToken := tr_RefreshToken resp\<rparr> else ea2)
               in (Inr (tr_AccessToken resp), ea3, tr2)))"

text \<open>What \<^verbatim>\<open>op\<close> wrote to its error output, without the prefix and the time.\<close>

definition has_prefix :: "gostr \<Rightarrow> gostr \<Rightarrow> bool" where "has_prefix p s \<longleftrightarrow> take (length p) s = p"

definition op_message :: "gostr \<Rightarrow> gostr" where
  "op_message stderr =
     (let msg = TrimSpaceRunes stderr
      in if has_prefix (str ''[ERROR]'') msg then
           let msg' = TrimSpaceRunes (drop 7 msg); idx = length (takeWhile (\<lambda>c. c \<noteq> SP) msg')
           in if idx < length msg' \<and> idx > 0 then TrimSpaceRunes (drop idx msg') else msg'
         else msg)"

definition readOnePasswordRef :: "auth_ext \<Rightarrow> gostr \<Rightarrow> trace \<Rightarrow> (auth_error + gostr) \<times> trace" where
  "readOnePasswordRef X opRef tr =
     (if \<not> has_prefix (str ''op://'') opRef then (Inl (ErrText (str ''invalid 1password reference'')), tr)
      else let tr' = tr @ [OpRead opRef]
        in case ax_op X tr' of
             OpOutput out \<Rightarrow> (Inr (TrimSpaceRunes out), tr')
           | OpExit err \<Rightarrow> (Inl (ErrText (str ''failed to read token from 1password: '' @ op_message err)), tr')
           | OpFailed e \<Rightarrow> (Inl (ErrWrap (str ''failed to read token from 1password'') (Outside e)), tr'))"

section \<open>The chain of credentials\<close>

type_synonym chain_result = "(auth_error + gostr \<times> auth_method) \<times> envAuth \<times> trace"

definition passcode_part :: "auth_ext \<Rightarrow> gostr \<Rightarrow> bool \<Rightarrow> cred_mode \<Rightarrow> envAuth \<Rightarrow> trace \<Rightarrow> chain_result" where
  "passcode_part X env allowPasscode mode ea tr =
     (if mode \<noteq> ModeAuto \<and> mode \<noteq> ModePasscode then (Inl (CredentialModeError mode NotConfigured), ea, tr)
      else if mode = ModeAuto \<and> \<not> allowPasscode then (Inl (HeadlessAuthRequired env), ea, tr)
      else case getOIDCConfig X ea tr of
             (Inl e, ea1, tr1) \<Rightarrow> (Inl (if mode = ModePasscode then credentialModeAuthenticationError mode e else e), ea1, tr1)
           | (Inr cfg, ea1, tr1) \<Rightarrow> (Inl (PasscodeRequired (oc_PasscodeEndpoint cfg) env), ea1, tr1))"

definition op_part :: "auth_ext \<Rightarrow> gostr \<Rightarrow> gostr \<Rightarrow> bool \<Rightarrow> cred_mode \<Rightarrow> envAuth \<Rightarrow> trace \<Rightarrow> chain_result" where
  "op_part X env accountID allowPasscode mode ea tr =
     (if mode = ModeAuto \<or> mode = ModeOnePassword then
        if ea_opRef ea = [] then
          if mode = ModeOnePassword then (Inl (CredentialModeError mode NotConfigured), ea, tr)
          else passcode_part X env allowPasscode mode ea tr
        else case readOnePasswordRef X (ea_opRef ea) tr of
               (Inl e, tr1) \<Rightarrow>
                 (Inl (if mode = ModeOnePassword then credentialModeAuthenticationError mode e
                       else ErrWrap (str ''1Password lookup failed'') e), ea, tr1)
             | (Inr apiKey, tr1) \<Rightarrow>
                 (case exchangeAPIKey X accountID apiKey ea tr1 of
                    (Inl e, ea2, tr2) \<Rightarrow>
                      (Inl (if mode = ModeOnePassword then credentialModeAuthenticationError mode e
                            else ErrWrap (str ''1Password API key token exchange failed'') e), ea2, tr2)
                  | (Inr token, ea2, tr2) \<Rightarrow>
                      (Inr (token, MethodOnePassword), ea2\<lparr>ea_apiKey := apiKey, ea_apiKeyEnvVar := []\<rparr>, tr2))
      else passcode_part X env allowPasscode mode ea tr)"

definition api_key_part :: "auth_ext \<Rightarrow> gostr \<Rightarrow> gostr \<Rightarrow> bool \<Rightarrow> cred_mode \<Rightarrow> envAuth \<Rightarrow> trace \<Rightarrow> chain_result" where
  "api_key_part X env accountID allowPasscode mode ea tr =
     (if mode = ModeAuto \<or> mode = ModeEnv \<or> mode = ModeAPIKey then
        let meth = (if ea_apiKeyEnvVar ea \<noteq> [] then MethodEnvironmentAPIKey else MethodConfiguredAPIKey);
            matchesMode = (mode = ModeAuto \<or> (mode = ModeEnv \<and> meth = MethodEnvironmentAPIKey)
              \<or> (mode = ModeAPIKey \<and> meth = MethodConfiguredAPIKey))
        in if ea_apiKey ea \<noteq> [] \<and> matchesMode then
             (case exchangeAPIKey X accountID (ea_apiKey ea) ea tr of
                (Inl e, ea1, tr1) \<Rightarrow>
                  (Inl (if mode \<noteq> ModeAuto then credentialModeAuthenticationError mode e
                        else ErrWrap (if ea_apiKeyEnvVar ea \<noteq> [] then str ''API key from environment variable'' else str ''API key'') e),
                   ea1, tr1)
              | (Inr token, ea1, tr1) \<Rightarrow> (Inr (token, meth), ea1, tr1))
           else if mode \<noteq> ModeAuto then (Inl (CredentialModeError mode NotConfigured), ea, tr)
           else op_part X env accountID allowPasscode mode ea tr
      else op_part X env accountID allowPasscode mode ea tr)"

definition refresh_part :: "auth_ext \<Rightarrow> gostr \<Rightarrow> gostr \<Rightarrow> bool \<Rightarrow> cred_mode \<Rightarrow> envAuth \<Rightarrow> trace \<Rightarrow> chain_result" where
  "refresh_part X env accountID allowPasscode mode ea tr =
     (if (mode = ModeAuto \<or> mode = ModeRefresh) \<and> ea_refreshToken ea \<noteq> [] then
        (case exchangeRefreshToken X accountID ea tr of
           (Inl e, ea1, tr1) \<Rightarrow> (Inl (if mode = ModeRefresh then credentialModeAuthenticationError mode e else e), ea1, tr1)
         | (Inr (Some token), ea1, tr1) \<Rightarrow> (Inr (token, MethodRefreshToken), ea1, tr1)
         | (Inr None, ea1, tr1) \<Rightarrow>
             let ea2 = ea1\<lparr>ea_refreshToken := []\<rparr>
             in if mode = ModeRefresh then (Inl (CredentialModeError mode WasRejected), ea2, tr1)
                else api_key_part X env accountID allowPasscode mode ea2 tr1)
      else if mode = ModeRefresh then (Inl (CredentialModeError mode NotConfigured), ea, tr)
      else api_key_part X env accountID allowPasscode mode ea tr)"

definition cached :: "auth_ext \<Rightarrow> gostr \<Rightarrow> envAuth \<Rightarrow> trace \<Rightarrow> gostr option" where
  "cached X accountID ea tr =
     (case ea_accessTokens ea accountID of
        Some te \<Rightarrow> if te_expiresAt te - ax_now X tr > refreshBuffer then Some (te_token te) else None
      | None \<Rightarrow> None)"

definition auth_chain :: "auth_ext \<Rightarrow> gostr \<Rightarrow> gostr \<Rightarrow> bool \<Rightarrow> cred_mode \<Rightarrow> envAuth \<Rightarrow> trace \<Rightarrow> chain_result" where
  "auth_chain X env accountID allowPasscode mode ea tr =
     (case (if mode = ModeAuto then cached X accountID ea tr else None) of
        Some token \<Rightarrow> (Inr (token, MethodCachedAccessToken), ea, tr)
      | None \<Rightarrow> refresh_part X env accountID allowPasscode mode ea tr)"

section \<open>The account manager\<close>

record environment_config =
  ec_IAMURL :: gostr
  ec_APIKey :: gostr
  ec_APIKeyOpRef :: gostr

definition NewAccountManager :: "(gostr \<rightharpoonup> environment_config) \<Rightarrow> accounts" where
  "NewAccountManager environments = (\<lambda>cname. map_option (\<lambda>c.
     \<lparr>ea_iamURL = ec_IAMURL c, ea_refreshToken = [], ea_accessTokens = Map.empty, ea_oidcConfig = None, ea_apiKey = ec_APIKey c,
      ea_apiKeyEnvVar = [], ea_opRef = ec_APIKeyOpRef c\<rparr>) (environments cname))"

definition getAuthTokenForAccount ::
  "auth_ext \<Rightarrow> gostr \<Rightarrow> gostr \<Rightarrow> bool \<Rightarrow> cred_mode \<Rightarrow> accounts \<times> trace \<Rightarrow> (auth_error + gostr \<times> auth_method) \<times> accounts \<times> trace" where
  "getAuthTokenForAccount X env accountID allowPasscode mode s =
     (case fst s env of
        None \<Rightarrow> (Inl (UnsupportedEnv env), s)
      | Some ea \<Rightarrow>
          (case auth_chain X env accountID allowPasscode mode ea (snd s) of
             (r, ea', tr') \<Rightarrow> (r, (fst s)(env \<mapsto> ea'), tr')))"

definition getAuthToken :: "auth_ext \<Rightarrow> crn option \<Rightarrow> bool \<Rightarrow> accounts \<times> trace \<Rightarrow> (auth_error + gostr) \<times> accounts \<times> trace" where
  "getAuthToken X c allowPasscode s =
     (case c of
        None \<Rightarrow> (Inl MissingCRN, s)
      | Some c' \<Rightarrow>
          (case getAuthTokenForAccount X (crn_CName c') (crn_ScopeID c') allowPasscode ModeAuto s of
             (r, s') \<Rightarrow> (map_sum id fst r, s')))"

definition GetAuthToken where "GetAuthToken X c s = getAuthToken X c True s"

definition GetAuthTokenNoPasscode where "GetAuthTokenNoPasscode X c s = getAuthToken X c False s"

definition AuthenticateEnvironmentWithCredentialMode ::
  "auth_ext \<Rightarrow> gostr \<Rightarrow> cred_mode \<Rightarrow> accounts \<times> trace \<Rightarrow> (auth_error + auth_method) \<times> accounts \<times> trace" where
  "AuthenticateEnvironmentWithCredentialMode X env mode s =
     (case getAuthTokenForAccount X env [] True mode s of (r, s') \<Rightarrow> (map_sum id snd r, s'))"

definition AuthenticateEnvironment where
  "AuthenticateEnvironment X env s = AuthenticateEnvironmentWithCredentialMode X env ModeAuto s"

definition ValidateIAMURL :: "auth_ext \<Rightarrow> gostr \<Rightarrow> auth_error + gostr" where
  "ValidateIAMURL X ep =
     (case ax_url X ep of
        None \<Rightarrow> Inl (ErrText (str ''invalid IAM endpoint''))
      | Some u \<Rightarrow>
          if pu_Scheme u = [] \<or> pu_Host u = [] \<or> pu_User u \<or> pu_RawQuery u \<noteq> [] \<or> pu_Fragment u \<noteq> []
             \<or> (pu_Scheme u \<noteq> str ''https'' \<and> pu_Scheme u \<noteq> str ''http'')
          then Inl (ErrText (str ''invalid IAM endpoint''))
          else Inr (pu_String u))"

definition DiscoverPasscodeURL :: "auth_ext \<Rightarrow> gostr \<Rightarrow> accounts \<times> trace \<Rightarrow> (auth_error + gostr) \<times> accounts \<times> trace" where
  "DiscoverPasscodeURL X env s =
     (case fst s env of
        None \<Rightarrow> (Inl (UnsupportedEnv env), s)
      | Some ea \<Rightarrow>
          (case getOIDCConfig X ea (snd s) of
             (Inl e, ea', tr') \<Rightarrow> (Inl e, (fst s)(env \<mapsto> ea'), tr')
           | (Inr cfg, ea', tr') \<Rightarrow> (ValidateIAMURL X (oc_PasscodeEndpoint cfg), (fst s)(env \<mapsto> ea'), tr')))"

definition SetPasscode :: "auth_ext \<Rightarrow> gostr \<Rightarrow> gostr \<Rightarrow> accounts \<times> trace \<Rightarrow> auth_error option \<times> accounts \<times> trace" where
  "SetPasscode X env passcode s =
     (case fst s env of
        None \<Rightarrow> (Some (UnsupportedEnv env), s)
      | Some ea \<Rightarrow>
          if passcode = [] then (Some (ErrText (str ''passcode is required'')), s)
          else case getOIDCConfig X ea (snd s) of
                 (Inl e, ea1, tr1) \<Rightarrow> (Some e, (fst s)(env \<mapsto> ea1), tr1)
               | (Inr cfg, ea1, tr1) \<Rightarrow>
                   (case ValidateIAMURL X (oc_TokenEndpoint cfg) of
                      Inl e \<Rightarrow> (Some e, (fst s)(env \<mapsto> ea1), tr1)
                    | Inr ep \<Rightarrow>
                        (case doTokenFormRequest X ep (GrantPasscode passcode) tr1 of
                           (Inl e, tr2) \<Rightarrow> (Some e, (fst s)(env \<mapsto> ea1), tr2)
                         | (Inr resp, tr2) \<Rightarrow>
                             if tr_RefreshToken resp = [] then
                               (Some (ErrText (str ''IAM passcode exchange returned no refresh token'')), (fst s)(env \<mapsto> ea1), tr2)
                             else (None, (fst s)(env \<mapsto> ea1\<lparr>ea_refreshToken := tr_RefreshToken resp\<rparr>), tr2))))"

definition SetAPIKey :: "gostr \<Rightarrow> gostr \<Rightarrow> gostr \<Rightarrow> accounts \<Rightarrow> accounts" where
  "SetAPIKey env key source am =
     (case am env of None \<Rightarrow> am | Some ea \<Rightarrow> am(env \<mapsto> ea\<lparr>ea_apiKey := key, ea_apiKeyEnvVar := source\<rparr>))"

definition GetRefreshTokens :: "accounts \<Rightarrow> (gostr \<rightharpoonup> gostr)" where
  "GetRefreshTokens am = (\<lambda>env. case am env of
     None \<Rightarrow> None | Some ea \<Rightarrow> if ea_refreshToken ea \<noteq> [] then Some (ea_refreshToken ea) else None)"

definition SetRefreshTokens :: "(gostr \<rightharpoonup> gostr) \<Rightarrow> accounts \<Rightarrow> accounts" where
  "SetRefreshTokens tokens am = (\<lambda>env. case am env of
     None \<Rightarrow> None | Some ea \<Rightarrow> Some (case tokens env of None \<Rightarrow> ea | Some t \<Rightarrow> ea\<lparr>ea_refreshToken := t\<rparr>))"

section \<open>The session file\<close>

text \<open>The files of the state directory with their permission bits, and how each system call of a save ends.\<close>

record disk =
  dk_files :: "gostr \<rightharpoonup> gostr \<times> nat"
  dk_mode :: "nat option"

record save_ext =
  sx_marshal :: "(gostr \<rightharpoonup> gostr) \<Rightarrow> gostr option"
  sx_mkdir :: bool
  sx_chmod_dir :: bool
  sx_create :: "gostr option"
  sx_chmod :: bool
  sx_write :: "nat \<times> bool"
  sx_sync :: bool
  sx_close :: bool
  sx_rename :: bool
  sx_remove :: bool

datatype save_error =
    MarshalSession | CreateSessionDir | SecureSessionDir | CreateTemp | SecureTemp | WriteSession | ShortWrite | SyncSession
  | CloseSession | FinalizeSession

definition drop_temp :: "save_ext \<Rightarrow> gostr \<Rightarrow> save_error \<Rightarrow> disk \<Rightarrow> save_error option \<times> disk" where
  "drop_temp S tmp e d = (Some e, if sx_remove S then d\<lparr>dk_files := (dk_files d)(tmp := None)\<rparr> else d)"

definition SaveSession :: "save_ext \<Rightarrow> gostr \<Rightarrow> (gostr \<rightharpoonup> gostr) \<Rightarrow> disk \<Rightarrow> save_error option \<times> disk" where
  "SaveSession S path tokens d =
     (case sx_marshal S tokens of
        None \<Rightarrow> (Some MarshalSession, d)
      | Some data \<Rightarrow>
          if \<not> sx_mkdir S then (Some CreateSessionDir, d)
          else let d1 = d\<lparr>dk_mode := (case dk_mode d of None \<Rightarrow> Some 448 | Some m \<Rightarrow> Some m)\<rparr>
            in if \<not> sx_chmod_dir S then (Some SecureSessionDir, d1)
               else let d2 = d1\<lparr>dk_mode := Some 448\<rparr>
                 in case sx_create S of
                      None \<Rightarrow> (Some CreateTemp, d2)
                    | Some tmp \<Rightarrow>
                        let d3 = d2\<lparr>dk_files := (dk_files d2)(tmp \<mapsto> ([], 384))\<rparr>;
                            d4 = d3\<lparr>dk_files := (dk_files d3)(tmp \<mapsto> (take (fst (sx_write S)) data, 384))\<rparr>
                        in if \<not> sx_chmod S then drop_temp S tmp SecureTemp d3
                           else if \<not> snd (sx_write S) then drop_temp S tmp WriteSession d4
                           else if fst (sx_write S) \<noteq> length data then drop_temp S tmp ShortWrite d4
                           else if \<not> sx_sync S then drop_temp S tmp SyncSession d4
                           else if \<not> sx_close S then drop_temp S tmp CloseSession d4
                           else if \<not> sx_rename S then drop_temp S tmp FinalizeSession d4
                           else (None, d4\<lparr>dk_files := (dk_files d4)(path := dk_files d4 tmp, tmp := None)\<rparr>))"

text \<open>\<open>unreadable\<close> is how reading a file that exists may fail.\<close>

definition LoadSession ::
  "(gostr \<Rightarrow> outside_error + (gostr \<rightharpoonup> gostr)) \<Rightarrow> outside_error option \<Rightarrow> gostr \<Rightarrow> disk \<Rightarrow> outside_error + (gostr \<rightharpoonup> gostr)" where
  "LoadSession unmarshal unreadable path d =
     (case dk_files d path of
        None \<Rightarrow> Inr Map.empty
      | Some (data, mode) \<Rightarrow> case unreadable of Some e \<Rightarrow> Inl e | None \<Rightarrow> unmarshal data)"

end
