(* ===== verification/Auth_Correct.thy ===== *)
theory Auth_Correct
  imports Auth
begin

text \<open>
  What leaves the program during an authentication, where the tokens it hands out come from, when a session is lost, and
  that a saved session is whole.
\<close>

section \<open>What is sent\<close>

definition sends :: "(request \<Rightarrow> bool) \<Rightarrow> trace \<Rightarrow> trace \<Rightarrow> bool" where
  "sends P tr tr' \<longleftrightarrow> (\<exists>rs. tr' = tr @ rs \<and> list_all P rs)"

lemma sends_refl [simp]: "sends P tr tr"
  by (simp add: sends_def)

lemma sends_one [simp]: "sends P tr (tr @ [r]) \<longleftrightarrow> P r"
  by (simp add: sends_def)

lemma sends_trans: "sends P a b \<Longrightarrow> sends P b c \<Longrightarrow> sends P a c"
  by (auto simp: sends_def)

lemma sends_mono: "sends P a b \<Longrightarrow> (\<And>r. P r \<Longrightarrow> Q r) \<Longrightarrow> sends Q a b"
  by (auto simp: sends_def list_all_iff)

lemma sends_length: "sends P a b \<Longrightarrow> length a \<le> length b \<and> take (length a) b = a"
  by (auto simp: sends_def)

fun is_discovery :: "request \<Rightarrow> bool" where
  "is_discovery (Discover u) = True"
| "is_discovery _ = False"

lemma discover_sends: "sends is_discovery tr (snd (discover_attempts X ep n tr))"
proof (induction n arbitrary: tr)
  case 0
  show ?case by (subst discover_attempts.simps) (auto simp: Let_def split: option.split http_reply.split)
next
  case (Suc n)
  have "sends is_discovery tr (snd (discover_attempts X ep n (tr @ [Discover ep])))"
    by (rule sends_trans [OF _ Suc.IH]) simp
  then show ?case by (subst discover_attempts.simps) (auto simp: Let_def split: option.split http_reply.split)
qed

lemma query_sends: "sends is_discovery tr (snd (queryOIDCConfig X u tr))"
  using discover_sends [of tr X "u @ wellKnown" "oidcDiscoveryAttempts - 1"]
  by (auto simp: queryOIDCConfig_def split: prod.splits sum.splits)

definition with_oidc :: "oidcConfig option \<Rightarrow> envAuth \<Rightarrow> envAuth" where
  "with_oidc c ea = ea\<lparr>ea_oidcConfig := c\<rparr>"

lemma with_oidc_simps [simp]:
  "ea_refreshToken (with_oidc c ea) = ea_refreshToken ea" "ea_accessTokens (with_oidc c ea) = ea_accessTokens ea"
  "ea_apiKey (with_oidc c ea) = ea_apiKey ea" "ea_apiKeyEnvVar (with_oidc c ea) = ea_apiKeyEnvVar ea" "ea_opRef (with_oidc c ea) = ea_opRef ea"
  by (simp_all add: with_oidc_def)

lemma getOIDC_frame:
  assumes "getOIDCConfig X ea tr = (r, ea', tr')"
  shows "sends is_discovery tr tr'" "ea' = with_oidc (ea_oidcConfig ea') ea"
  using assms query_sends [of tr X "ea_iamURL ea"]
  by (auto simp: getOIDCConfig_def with_oidc_def split: option.splits prod.splits sum.splits)

section \<open>Replies of the service\<close>

definition answered :: "auth_ext \<Rightarrow> trace \<Rightarrow> nat \<Rightarrow> grant \<Rightarrow> tokenResponse \<Rightarrow> bool" where
  "answered X tr n g resp \<longleftrightarrow> 0 < n \<and> n \<le> length tr \<and> (\<exists>ep status body. tr ! (n - 1) = TokenRequest ep g
     \<and> ax_http X (take n tr) = Reply status (Inr body) \<and> \<not> isHTTPErr status \<and> ax_token X body = Inr resp)"

definition rejected :: "auth_ext \<Rightarrow> trace \<Rightarrow> nat \<Rightarrow> grant \<Rightarrow> bool" where
  "rejected X tr n g \<longleftrightarrow> 0 < n \<and> n \<le> length tr \<and> (\<exists>ep status body. tr ! (n - 1) = TokenRequest ep g
     \<and> ax_http X (take n tr) = Reply status (Inr body) \<and> isHTTPErr status \<and> ax_iam X body \<noteq> None)"

lemma answered_mono: "answered X tr n g resp \<Longrightarrow> sends P tr tr' \<Longrightarrow> answered X tr' n g resp"
  by (auto simp: answered_def sends_def nth_append)

lemma rejected_mono: "rejected X tr n g \<Longrightarrow> sends P tr tr' \<Longrightarrow> rejected X tr' n g"
  by (auto simp: rejected_def sends_def nth_append)

lemma token_request_cases:
  assumes "doTokenFormRequest X ep g tr = (r, tr')"
  obtains (refused) e where "r = Inl e" "sends (\<lambda>q. q = TokenRequest ep g) tr tr'" "as_IAMError e = None"
  | (iam) e where "r = Inl (IAMError e)" "tr' = tr @ [TokenRequest ep g]" "rejected X tr' (length tr') g"
  | (ok) resp where "r = Inr resp" "tr' = tr @ [TokenRequest ep g]" "answered X tr' (length tr') g resp"
proof -
  show thesis
  proof (cases "ax_bad_url X ep")
    case (Some e)
    then show thesis using assms refused [of "Outside e"] by (auto simp: doTokenFormRequest_def)
  next
    case None
    let ?t = "tr @ [TokenRequest ep g]"
    show thesis
    proof (cases "ax_http X ?t")
      case (NoReply e b)
      then show thesis using assms None refused [of "Outside e"] by (auto simp: doTokenFormRequest_def)
    next
      case (Reply status body)
      have iam': thesis if "body = Inr b" "isHTTPErr status" for b
        using that assms None Reply refused iam
        by (auto simp: doTokenFormRequest_def rejected_def Let_def split: option.splits if_splits)
      have ok': thesis if "body = Inr b" "\<not> isHTTPErr status" for b
        using that assms None Reply refused ok
        by (cases "ax_token X b") (auto simp: doTokenFormRequest_def answered_def)
      show thesis
        using iam' ok' assms None Reply refused
        by (cases body) (auto simp: doTokenFormRequest_def)
    qed
  qed
qed

section \<open>Exchanges\<close>

definition day :: int where "day = 86400 * 10 ^ 9"

lemma lifetime_bounds: "0 \<le> sint (lifetime n)" "sint (lifetime n) \<le> day"
  by (auto simp: lifetime_def maxTokenLifetime_def day_def Let_def)

lemma lifetime_exact: "0 < sint n \<Longrightarrow> sint n \<le> 86400 \<Longrightarrow> sint (lifetime n) = sint n * 10 ^ 9"
proof -
  assume n: "0 < sint n" "sint n \<le> 86400"
  have "sint (n * 10 ^ 9) = sint n * 10 ^ 9"
    using n by (simp add: sint_word_ariths signed_take_bit_int_eq_self)
  then show ?thesis using n by (simp add: lifetime_def maxTokenLifetime_def Let_def)
qed

text \<open>A cached entry is the token of a reply, and expires within a day of it.\<close>

definition entry_ok :: "auth_ext \<Rightarrow> trace \<Rightarrow> tokenEntry \<Rightarrow> bool" where
  "entry_ok X tr te \<longleftrightarrow> (\<exists>n g resp. answered X tr n g resp \<and> te_token te = tr_AccessToken resp
     \<and> te_expiresAt te \<le> ax_now X (take n tr) + day)"

definition env_ok :: "auth_ext \<Rightarrow> trace \<Rightarrow> envAuth \<Rightarrow> bool" where
  "env_ok X tr ea \<longleftrightarrow> (\<forall>te \<in> ran (ea_accessTokens ea). entry_ok X tr te)"

lemma entry_mono: "entry_ok X tr te \<Longrightarrow> sends P tr tr' \<Longrightarrow> entry_ok X tr' te"
proof -
  assume "entry_ok X tr te" and s: "sends P tr tr'"
  then obtain n g resp where n: "answered X tr n g resp" "te_token te = tr_AccessToken resp" "te_expiresAt te \<le> ax_now X (take n tr) + day"
    by (auto simp: entry_ok_def)
  moreover have "take n tr' = take n tr" using n(1) s by (auto simp: answered_def sends_def)
  ultimately show ?thesis using answered_mono [OF _ s] unfolding entry_ok_def by metis
qed

lemma env_mono: "env_ok X tr ea \<Longrightarrow> sends P tr tr' \<Longrightarrow> env_ok X tr' ea"
  by (auto simp: env_ok_def intro: entry_mono)

lemma env_ok_simps [simp]:
  "env_ok X tr (with_oidc c ea) = env_ok X tr ea" "env_ok X tr (ea\<lparr>ea_refreshToken := t\<rparr>) = env_ok X tr ea"
  "env_ok X tr (ea\<lparr>ea_apiKey := k, ea_apiKeyEnvVar := v\<rparr>) = env_ok X tr ea"
  by (simp_all add: env_ok_def)

lemma store_frame [simp]:
  "ea_refreshToken (storeAccessToken now a resp ea) = ea_refreshToken ea" "ea_apiKey (storeAccessToken now a resp ea) = ea_apiKey ea"
  "ea_apiKeyEnvVar (storeAccessToken now a resp ea) = ea_apiKeyEnvVar ea" "ea_opRef (storeAccessToken now a resp ea) = ea_opRef ea"
  by (simp_all add: storeAccessToken_def split: option.split)

lemma store_ok:
  assumes "env_ok X tr ea" "answered X tr (length tr) g resp"
  shows "env_ok X tr (storeAccessToken (ax_now X tr) a resp ea)"
proof -
  have "entry_ok X tr \<lparr>te_token = tr_AccessToken resp, te_expiresAt = t\<rparr>"
    if "expiresAtFrom (ax_now X tr) (tr_ExpiresIn resp) = Some t" for t
    using that assms(2) lifetime_bounds(2) [of "tr_ExpiresIn resp"]
    unfolding entry_ok_def by (intro exI [of _ "length tr"] exI) (auto simp: expiresAtFrom_def split: if_splits)
  moreover have "ran (m(a \<mapsto> x)) \<subseteq> insert x (ran m)" for m :: "gostr \<rightharpoonup> tokenEntry" and x by (auto simp: ran_def)
  ultimately show ?thesis using assms(1) by (fastforce simp: storeAccessToken_def env_ok_def split: option.split)
qed

text \<open>
  What a step may do to an environment: send requests of which \<open>P\<close> holds, keep its cache authentic, and change its
  refresh token only as a reply says; the keys stay.
\<close>

definition renewed :: "auth_ext \<Rightarrow> trace \<Rightarrow> trace \<Rightarrow> gostr \<Rightarrow> bool" where
  "renewed X tr tr' t \<longleftrightarrow> (\<exists>n g resp. length tr < n \<and> answered X tr' n g resp \<and> t = tr_RefreshToken resp)"

definition keeps :: "auth_ext \<Rightarrow> (request \<Rightarrow> bool) \<Rightarrow> envAuth \<Rightarrow> trace \<Rightarrow> envAuth \<Rightarrow> trace \<Rightarrow> bool" where
  "keeps X P ea tr ea' tr' \<longleftrightarrow> sends P tr tr' \<and> (env_ok X tr ea \<longrightarrow> env_ok X tr' ea')
     \<and> (ea_refreshToken ea' = ea_refreshToken ea \<or> renewed X tr tr' (ea_refreshToken ea'))
     \<and> ea_apiKey ea' = ea_apiKey ea \<and> ea_apiKeyEnvVar ea' = ea_apiKeyEnvVar ea \<and> ea_opRef ea' = ea_opRef ea"

lemma renewed_mono: "renewed X tr tr1 t \<Longrightarrow> sends P tr1 tr2 \<Longrightarrow> renewed X tr tr2 t"
  by (auto simp: renewed_def intro: answered_mono)

lemma renewed_later: "renewed X tr1 tr2 t \<Longrightarrow> sends P tr tr1 \<Longrightarrow> renewed X tr tr2 t"
  unfolding renewed_def using sends_length by (metis le_less_trans)

lemma keeps_refl [simp]: "keeps X P ea tr ea tr"
  by (simp add: keeps_def)

lemma getOIDC_keeps: "getOIDCConfig X ea tr = (r, ea', tr') \<Longrightarrow> keeps X is_discovery ea tr ea' tr'"
  using getOIDC_frame [of X ea tr r ea' tr'] unfolding keeps_def by (metis env_mono env_ok_simps(1) with_oidc_simps)

lemma keeps_trans: "keeps X P ea tr ea1 tr1 \<Longrightarrow> keeps X P ea1 tr1 ea2 tr2 \<Longrightarrow> keeps X P ea tr ea2 tr2"
  unfolding keeps_def by (metis sends_trans renewed_mono renewed_later)

lemma keeps_mono: "keeps X P ea tr ea1 tr1 \<Longrightarrow> (\<And>r. P r \<Longrightarrow> Q r) \<Longrightarrow> keeps X Q ea tr ea1 tr1"
  unfolding keeps_def using sends_mono by blast

definition fresh :: "auth_ext \<Rightarrow> trace \<Rightarrow> trace \<Rightarrow> gostr \<Rightarrow> bool" where
  "fresh X tr tr' tok \<longleftrightarrow> (\<exists>n g resp. length tr < n \<and> answered X tr' n g resp \<and> tok = tr_AccessToken resp)"

lemma fresh_later: "fresh X tr1 tr2 t \<Longrightarrow> sends P tr tr1 \<Longrightarrow> fresh X tr tr2 t"
  unfolding fresh_def using sends_length by (metis le_less_trans)

lemma granted_keeps:
  assumes "tr' = tr @ [TokenRequest ep g]" "answered X tr' (length tr') g resp"
    and "ea' = (let ea2 = storeAccessToken (ax_now X tr') a resp ea
      in if tr_RefreshToken resp \<noteq> [] then ea2\<lparr>ea_refreshToken := tr_RefreshToken resp\<rparr> else ea2)"
  shows "keeps X (\<lambda>q. q = TokenRequest ep g) ea tr ea' tr'" "fresh X tr tr' (tr_AccessToken resp)"
proof -
  have s: "sends (\<lambda>q. q = TokenRequest ep g) tr tr'" by (simp add: assms(1))
  have "renewed X tr tr' (tr_RefreshToken resp)"
    unfolding renewed_def using assms(1,2) by (intro exI [of _ "length tr'"] exI [of _ g] exI [of _ resp]) simp
  then show "keeps X (\<lambda>q. q = TokenRequest ep g) ea tr ea' tr'"
    using s store_ok [OF env_mono [OF _ s] assms(2)] by (simp add: keeps_def assms(3) Let_def)
  show "fresh X tr tr' (tr_AccessToken resp)"
    unfolding fresh_def using assms(1,2) by (intro exI [of _ "length tr'"] exI [of _ g] exI [of _ resp]) simp
qed

lemma refused_keeps: "sends P tr tr' \<Longrightarrow> keeps X P ea tr ea tr'"
  by (simp add: keeps_def env_mono)

definition asks :: "grant \<Rightarrow> request \<Rightarrow> bool" where
  "asks g q \<longleftrightarrow> is_discovery q \<or> (\<exists>ep. q = TokenRequest ep g)"

lemma asks_intros: "is_discovery q \<Longrightarrow> asks g q" "q = TokenRequest ep g \<Longrightarrow> asks g q"
  by (auto simp: asks_def)

lemma exchangeAPIKey_keeps:
  assumes "exchangeAPIKey X a k ea tr = (r, ea', tr')"
  shows "keeps X (asks (GrantAPIKey k)) ea tr ea' tr'" "r = Inr tok \<Longrightarrow> fresh X tr tr' tok"
proof -
  obtain r1 ea1 tr1 where o: "getOIDCConfig X ea tr = (r1, ea1, tr1)" by (metis prod.exhaust)
  note k1 = keeps_mono [OF getOIDC_keeps [OF o] asks_intros(1)]
  have s1: "sends (asks (GrantAPIKey k)) tr tr1" using k1 by (simp add: keeps_def)
  have "keeps X (asks (GrantAPIKey k)) ea tr ea' tr' \<and> (r = Inr tok \<longrightarrow> fresh X tr tr' tok)"
  proof (cases r1)
    case (Inl e)
    then show ?thesis using assms o k1 by (auto simp: exchangeAPIKey_def)
  next
    case (Inr cfg)
    obtain r2 tr2 where d: "doTokenFormRequest X (oc_TokenEndpoint cfg) (GrantAPIKey k) tr1 = (r2, tr2)" by (metis prod.exhaust)
    from d show ?thesis
    proof (cases rule: token_request_cases)
      case (refused e)
      then show ?thesis using assms o Inr d keeps_trans [OF k1 refused_keeps [OF sends_mono [OF refused(2) asks_intros(2)]]]
        by (auto simp: exchangeAPIKey_def)
    next
      case (iam e)
      have "sends (asks (GrantAPIKey k)) tr1 tr2" using iam(2) asks_intros(2) by simp
      then show ?thesis using assms o Inr d iam(1) keeps_trans [OF k1 refused_keeps] by (auto simp: exchangeAPIKey_def)
    next
      case (ok resp)
      note g = granted_keeps [where ea = ea1 and a = a, OF ok(2,3) refl]
      show ?thesis
        using assms o Inr d ok(1) keeps_trans [OF k1 keeps_mono [OF g(1) asks_intros(2)]] fresh_later [OF g(2) s1]
        by (auto simp: exchangeAPIKey_def Let_def)
    qed
  qed
  then show "keeps X (asks (GrantAPIKey k)) ea tr ea' tr'" "r = Inr tok \<Longrightarrow> fresh X tr tr' tok" by simp_all
qed

lemma exchangeRefreshToken_keeps:
  assumes "exchangeRefreshToken X a ea tr = (r, ea', tr')"
  shows "keeps X (asks (GrantRefresh (ea_refreshToken ea))) ea tr ea' tr'" "r = Inr (Some tok) \<Longrightarrow> fresh X tr tr' tok"
    "r = Inr None \<Longrightarrow> length tr < length tr' \<and> rejected X tr' (length tr') (GrantRefresh (ea_refreshToken ea))"
proof -
  let ?g = "GrantRefresh (ea_refreshToken ea)"
  obtain r1 ea1 tr1 where o: "getOIDCConfig X ea tr = (r1, ea1, tr1)" by (metis prod.exhaust)
  note k1 = keeps_mono [OF getOIDC_keeps [OF o] asks_intros(1)]
  have s1: "sends (asks ?g) tr tr1" and r1: "ea_refreshToken ea1 = ea_refreshToken ea"
    using k1 getOIDC_frame(2) [OF o] by (simp add: keeps_def, metis with_oidc_simps(1))
  have "keeps X (asks ?g) ea tr ea' tr' \<and> (r = Inr (Some tok) \<longrightarrow> fresh X tr tr' tok)
     \<and> (r = Inr None \<longrightarrow> length tr < length tr' \<and> rejected X tr' (length tr') ?g)"
  proof (cases r1)
    case (Inl e)
    then show ?thesis using assms o k1 by (auto simp: exchangeRefreshToken_def)
  next
    case (Inr cfg)
    obtain r2 tr2 where d: "doTokenFormRequest X (oc_TokenEndpoint cfg) ?g tr1 = (r2, tr2)" by (metis prod.exhaust)
    from d show ?thesis
    proof (cases rule: token_request_cases)
      case (refused e)
      then show ?thesis using assms o Inr d r1 keeps_trans [OF k1 refused_keeps [OF sends_mono [OF refused(2) asks_intros(2)]]]
        by (auto simp: exchangeRefreshToken_def)
    next
      case (iam e)
      have "sends (asks ?g) tr1 tr2" "length tr < length tr2" using iam(2) asks_intros(2) sends_length [OF s1] by simp_all
      then show ?thesis using assms o Inr d r1 iam keeps_trans [OF k1 refused_keeps] by (auto simp: exchangeRefreshToken_def)
    next
      case (ok resp)
      note g = granted_keeps [where ea = ea1 and a = a, OF ok(2,3) refl]
      show ?thesis
        using assms o Inr d r1 ok(1) keeps_trans [OF k1 keeps_mono [OF g(1) asks_intros(2)]] fresh_later [OF g(2) s1]
        by (auto simp: exchangeRefreshToken_def Let_def)
    qed
  qed
  then show "keeps X (asks ?g) ea tr ea' tr'" "r = Inr (Some tok) \<Longrightarrow> fresh X tr tr' tok"
    "r = Inr None \<Longrightarrow> length tr < length tr' \<and> rejected X tr' (length tr') ?g" by simp_all
qed

section \<open>The chain\<close>

text \<open>The requests that an authentication may send: the credentials of the environment that the mode selects.\<close>

fun own_request :: "auth_ext \<Rightarrow> cred_mode \<Rightarrow> envAuth \<Rightarrow> request \<Rightarrow> bool" where
  "own_request X mode ea (Discover u) = True"
| "own_request X mode ea (OpRead r) \<longleftrightarrow> mode \<in> {ModeAuto, ModeOnePassword} \<and> r = ea_opRef ea"
| "own_request X mode ea (TokenRequest ep (GrantPasscode p)) = False"
| "own_request X mode ea (TokenRequest ep (GrantRefresh t)) \<longleftrightarrow> mode \<in> {ModeAuto, ModeRefresh} \<and> t = ea_refreshToken ea \<and> t \<noteq> []"
| "own_request X mode ea (TokenRequest ep (GrantAPIKey k)) \<longleftrightarrow>
     (mode \<in> {ModeAuto, ModeEnv, ModeAPIKey} \<and> k = ea_apiKey ea \<and> k \<noteq> []
        \<and> (mode = ModeEnv \<longrightarrow> ea_apiKeyEnvVar ea \<noteq> []) \<and> (mode = ModeAPIKey \<longrightarrow> ea_apiKeyEnvVar ea = []))
   \<or> (mode \<in> {ModeAuto, ModeOnePassword} \<and> (\<exists>t out. ax_op X t = OpOutput out \<and> k = TrimSpaceRunes out))"

lemma own_discovery: "is_discovery q \<Longrightarrow> own_request X mode ea q"
  by (cases q) auto

definition chain_ok :: "auth_ext \<Rightarrow> cred_mode \<Rightarrow> envAuth \<Rightarrow> trace \<Rightarrow> chain_result \<Rightarrow> bool" where
  "chain_ok X mode ea tr res = (case res of (r, ea', tr') \<Rightarrow>
     sends (own_request X mode ea) tr tr' \<and> (env_ok X tr ea \<longrightarrow> env_ok X tr' ea')
     \<and> (ea_refreshToken ea' = ea_refreshToken ea \<or> renewed X tr tr' (ea_refreshToken ea')
        \<or> (ea_refreshToken ea' = [] \<and> (\<exists>n > length tr. rejected X tr' n (GrantRefresh (ea_refreshToken ea)))))
     \<and> (\<forall>tok meth. r = Inr (tok, meth) \<longrightarrow> meth \<noteq> MethodCachedAccessToken \<and> fresh X tr tr' tok))"

lemma chain_okI:
  assumes "keeps X (own_request X mode ea) ea tr ea' tr'"
    and "\<And>tok meth. r = Inr (tok, meth) \<Longrightarrow> meth \<noteq> MethodCachedAccessToken \<and> fresh X tr tr' tok"
  shows "chain_ok X mode ea tr (r, ea', tr')"
  using assms by (auto simp: chain_ok_def keeps_def)

lemma passcode_ok: "chain_ok X mode ea tr (passcode_part X env allow mode ea tr)"
proof -
  obtain r1 ea1 tr1 where o: "getOIDCConfig X ea tr = (r1, ea1, tr1)" by (metis prod.exhaust)
  note k = keeps_mono [OF getOIDC_keeps [OF o] own_discovery]
  show ?thesis by (auto simp: passcode_part_def o split: sum.split intro!: chain_okI k)
qed

lemma op_read:
  assumes "readOnePasswordRef X ref tr = (r, tr1)"
  shows "sends (\<lambda>q. q = OpRead ref) tr tr1" "r = Inr k \<Longrightarrow> \<exists>t out. ax_op X t = OpOutput out \<and> k = TrimSpaceRunes out"
  using assms by (auto simp: readOnePasswordRef_def Let_def split: if_splits op_reply.splits)

lemma own_asks:
  "asks (GrantAPIKey k) q \<Longrightarrow> (\<And>ep. own_request X mode ea (TokenRequest ep (GrantAPIKey k))) \<Longrightarrow> own_request X mode ea q"
  "asks (GrantRefresh t) q \<Longrightarrow> (\<And>ep. own_request X mode ea (TokenRequest ep (GrantRefresh t))) \<Longrightarrow> own_request X mode ea q"
  by (auto simp only: asks_def own_discovery)

lemma op_ok: "chain_ok X mode ea tr (op_part X env a allow mode ea tr)"
proof (cases "(mode = ModeAuto \<or> mode = ModeOnePassword) \<and> ea_opRef ea \<noteq> []")
  case False
  then show ?thesis using passcode_ok [of X mode ea tr] by (auto simp: op_part_def intro!: chain_okI)
next
  case True
  obtain r1 tr1 where o: "readOnePasswordRef X (ea_opRef ea) tr = (r1, tr1)" by (metis prod.exhaust)
  have s1: "sends (own_request X mode ea) tr tr1" by (rule sends_mono [OF op_read(1) [OF o]]) (use True in auto)
  show ?thesis
  proof (cases r1)
    case (Inl e)
    then show ?thesis using True o refused_keeps [OF s1] by (auto simp: op_part_def intro!: chain_okI)
  next
    case (Inr k)
    obtain r2 ea2 tr2 where x: "exchangeAPIKey X a k ea tr1 = (r2, ea2, tr2)" by (metis prod.exhaust)
    have own: "own_request X mode ea (TokenRequest ep (GrantAPIKey k))" for ep
      using True op_read(2) [OF o Inr] by auto
    have k2: "keeps X (own_request X mode ea) ea tr ea2 tr2"
      by (rule keeps_trans [OF refused_keeps [OF s1] keeps_mono [OF exchangeAPIKey_keeps(1) [OF x]]]) (rule own_asks(1) [OF _ own])
    show ?thesis
    proof (cases r2)
      case Inl
      then show ?thesis using True o Inr x k2 by (auto simp: op_part_def intro!: chain_okI)
    next
      case (Inr tok)
      then have "op_part X env a allow mode ea tr = (Inr (tok, MethodOnePassword), ea2\<lparr>ea_apiKey := k, ea_apiKeyEnvVar := []\<rparr>, tr2)"
        using True o \<open>r1 = Inr k\<close> x by (auto simp: op_part_def)
      then show ?thesis using k2 fresh_later [OF exchangeAPIKey_keeps(2) [OF x Inr] s1] by (auto simp: chain_ok_def keeps_def)
    qed
  qed
qed

lemma api_key_ok: "chain_ok X mode ea tr (api_key_part X env a allow mode ea tr)"
proof -
  let ?m = "if ea_apiKeyEnvVar ea \<noteq> [] then MethodEnvironmentAPIKey else MethodConfiguredAPIKey"
  let ?on = "(mode = ModeAuto \<or> mode = ModeEnv \<and> ?m = MethodEnvironmentAPIKey \<or> mode = ModeAPIKey \<and> ?m = MethodConfiguredAPIKey)
    \<and> ea_apiKey ea \<noteq> []"
  show ?thesis
  proof (cases ?on)
    case False
    then have "api_key_part X env a allow mode ea tr \<in> {(Inl (CredentialModeError mode NotConfigured), ea, tr), op_part X env a allow mode ea tr}"
      by (auto simp: api_key_part_def Let_def)
    then show ?thesis using op_ok by (auto intro!: chain_okI)
  next
    case True
    obtain r1 ea1 tr1 where x: "exchangeAPIKey X a (ea_apiKey ea) ea tr = (r1, ea1, tr1)" by (metis prod.exhaust)
    have own: "own_request X mode ea (TokenRequest ep (GrantAPIKey (ea_apiKey ea)))" for ep using True by (auto split: if_splits)
    have k: "keeps X (own_request X mode ea) ea tr ea1 tr1"
      by (rule keeps_mono [OF exchangeAPIKey_keeps(1) [OF x]]) (rule own_asks(1) [OF _ own])
    have "api_key_part X env a allow mode ea tr =
      (case r1 of Inr tok \<Rightarrow> (Inr (tok, ?m), ea1, tr1)
       | Inl e \<Rightarrow> (Inl (if mode \<noteq> ModeAuto then credentialModeAuthenticationError mode e
           else ErrWrap (if ea_apiKeyEnvVar ea \<noteq> [] then str ''API key from environment variable'' else str ''API key'') e), ea1, tr1))"
      using True x by (auto simp: api_key_part_def Let_def split: sum.split)
    then show ?thesis using k exchangeAPIKey_keeps(2) [OF x] by (auto intro!: chain_okI split: sum.split)
  qed
qed

lemma rejected_then:
  assumes k: "keeps X (own_request X mode ea) ea tr ea1 tr1" and len: "length tr < length tr1"
    and rej: "rejected X tr1 (length tr1) (GrantRefresh (ea_refreshToken ea))"
    and c: "chain_ok X mode (ea1\<lparr>ea_refreshToken := []\<rparr>) tr1 res"
  shows "chain_ok X mode ea tr res"
proof -
  obtain r ea' tr' where res: "res = (r, ea', tr')" by (metis prod.exhaust)
  have s1: "sends (own_request X mode ea) tr tr1" using k by (simp add: keeps_def)
  have s2: "sends (own_request X mode (ea1\<lparr>ea_refreshToken := []\<rparr>)) tr1 tr'" using c by (simp add: chain_ok_def res)
  have "own_request X mode ea q" if "own_request X mode (ea1\<lparr>ea_refreshToken := []\<rparr>) q" for q
    using that k by (cases "(X, mode, ea, q)" rule: own_request.cases) (auto simp: keeps_def)
  then have s: "sends (own_request X mode ea) tr tr'" using sends_trans [OF s1 sends_mono [OF s2]] by blast
  have rej': "\<exists>n > length tr. rejected X tr' n (GrantRefresh (ea_refreshToken ea))"
    using rejected_mono [OF rej s2] len by blast
  show ?thesis
    using c k s rej' renewed_later [OF _ s1] fresh_later [OF _ s1] by (auto simp: chain_ok_def keeps_def res)
qed

lemma refresh_ok: "chain_ok X mode ea tr (refresh_part X env a allow mode ea tr)"
proof (cases "(mode = ModeAuto \<or> mode = ModeRefresh) \<and> ea_refreshToken ea \<noteq> []")
  case False
  then show ?thesis using api_key_ok by (auto simp: refresh_part_def intro!: chain_okI)
next
  case True
  obtain r1 ea1 tr1 where x: "exchangeRefreshToken X a ea tr = (r1, ea1, tr1)" by (metis prod.exhaust)
  have own: "own_request X mode ea (TokenRequest ep (GrantRefresh (ea_refreshToken ea)))" for ep using True by auto
  have k: "keeps X (own_request X mode ea) ea tr ea1 tr1"
    by (rule keeps_mono [OF exchangeRefreshToken_keeps(1) [OF x]]) (rule own_asks(2) [OF _ own])
  consider e where "r1 = Inl e" | "r1 = Inr None" | tok where "r1 = Inr (Some tok)" by (metis option.exhaust sum.exhaust)
  then show ?thesis
  proof cases
    case 1
    then show ?thesis using True x k by (auto simp: refresh_part_def intro!: chain_okI)
  next
    case 2
    note r = rejected_then [OF k conjunct1 [OF exchangeRefreshToken_keeps(3) [OF x 2]] conjunct2 [OF exchangeRefreshToken_keeps(3) [OF x 2]]]
    show ?thesis using True x 2 r [OF api_key_ok] r [OF chain_okI [OF keeps_refl]] by (auto simp: refresh_part_def Let_def)
  next
    case 3
    then show ?thesis using True x k exchangeRefreshToken_keeps(2) [OF x 3] by (auto simp: refresh_part_def intro!: chain_okI)
  qed
qed

section \<open>Runs of the account manager\<close>

datatype auth_event =
    AGet "crn option" bool | AEnvironment gostr cred_mode | APasscode gostr gostr | AKey gostr gostr gostr
  | ASession "gostr \<rightharpoonup> gostr" | ADiscover gostr

fun auth_step :: "auth_ext \<Rightarrow> auth_event \<Rightarrow> accounts \<times> trace \<Rightarrow> accounts \<times> trace" where
  "auth_step X (AGet c allow) s = snd (getAuthToken X c allow s)"
| "auth_step X (AEnvironment env mode) s = snd (AuthenticateEnvironmentWithCredentialMode X env mode s)"
| "auth_step X (APasscode env p) s = snd (SetPasscode X env p s)"
| "auth_step X (AKey env k src) s = (SetAPIKey env k src (fst s), snd s)"
| "auth_step X (ASession t) s = (SetRefreshTokens t (fst s), snd s)"
| "auth_step X (ADiscover env) s = snd (DiscoverPasscodeURL X env s)"

definition auth_inv :: "auth_ext \<Rightarrow> accounts \<times> trace \<Rightarrow> bool" where
  "auth_inv X s \<longleftrightarrow> (\<forall>ea \<in> ran (fst s). env_ok X (snd s) ea)"

lemma auth_inv_update:
  assumes "auth_inv X s" "fst s env = Some ea" "sends P (snd s) tr'" "env_ok X (snd s) ea \<longrightarrow> env_ok X tr' ea'"
  shows "auth_inv X ((fst s)(env \<mapsto> ea'), tr')"
  using assms env_mono [OF _ assms(3)] by (auto simp: auth_inv_def ran_def)

lemma auth_chain_ok:
  "cached X a ea tr = None \<or> mode \<noteq> ModeAuto \<Longrightarrow> chain_ok X mode ea tr (auth_chain X env a allow mode ea tr)"
  using refresh_ok by (auto simp: auth_chain_def)

lemma account_inv:
  assumes "auth_inv X s"
  shows "auth_inv X (snd (getAuthTokenForAccount X env a allow mode s))"
proof (cases "fst s env")
  case None
  then show ?thesis using assms by (simp add: getAuthTokenForAccount_def)
next
  case (Some ea)
  obtain r ea' tr' where c: "auth_chain X env a allow mode ea (snd s) = (r, ea', tr')" by (metis prod.exhaust)
  have k: "sends (\<lambda>_. True) (snd s) tr' \<and> (env_ok X (snd s) ea \<longrightarrow> env_ok X tr' ea')"
  proof (cases "cached X a ea (snd s) = None \<or> mode \<noteq> ModeAuto")
    case True
    then show ?thesis using auth_chain_ok [OF True, of env allow] by (auto simp: c chain_ok_def intro: sends_mono)
  next
    case False
    then show ?thesis using c by (auto simp: auth_chain_def)
  qed
  show ?thesis using Some c auth_inv_update [OF assms Some conjunct1 [OF k] conjunct2 [OF k]] by (simp add: getAuthTokenForAccount_def)
qed

lemma passcode_inv:
  assumes "auth_inv X s"
  shows "auth_inv X (snd (SetPasscode X env p s))"
proof (cases "fst s env = None \<or> p = []")
  case True
  then show ?thesis using assms by (auto simp: SetPasscode_def split: option.split)
next
  case False
  then obtain ea where ea: "fst s env = Some ea" by auto
  obtain r1 ea1 tr1 where o: "getOIDCConfig X ea (snd s) = (r1, ea1, tr1)" by (metis prod.exhaust)
  have k: "sends (\<lambda>_. True) (snd s) tr1" "env_ok X (snd s) ea \<longrightarrow> env_ok X tr1 ea1"
    using getOIDC_keeps [OF o] by (auto simp: keeps_def intro: sends_mono)
  note i1 = auth_inv_update [OF assms ea k]
  show ?thesis
  proof (cases r1)
    case (Inl e)
    then show ?thesis using False ea o i1 by (simp add: SetPasscode_def)
  next
    case (Inr cfg)
    have i2: "auth_inv X ((fst s)(env \<mapsto> ea1\<lparr>ea_refreshToken := t\<rparr>), tr2) \<and> auth_inv X ((fst s)(env \<mapsto> ea1), tr2)"
      if "doTokenFormRequest X ep (GrantPasscode p) tr1 = (r2, tr2)" for ep r2 tr2 t
    proof -
      have s2: "sends (\<lambda>_. True) tr1 tr2" using that by (cases rule: token_request_cases) (auto intro: sends_mono)
      then have "env_ok X (snd s) ea \<longrightarrow> env_ok X tr2 ea1" using k(2) env_mono by blast
      then show ?thesis using auth_inv_update [OF assms ea sends_trans [OF k(1) s2]] by simp
    qed
    show ?thesis
    proof (cases "ValidateIAMURL X (oc_TokenEndpoint cfg)")
      case (Inl e)
      then show ?thesis using False ea o Inr i1 by (simp add: SetPasscode_def)
    next
      case ep: (Inr ep)
      obtain r2 tr2 where d: "doTokenFormRequest X ep (GrantPasscode p) tr1 = (r2, tr2)" by (metis prod.exhaust)
      show ?thesis using False ea o Inr ep d i2 [OF d] by (simp add: SetPasscode_def split: sum.split)
    qed
  qed
qed

lemma snd_account:
  "snd (getAuthToken X c allow s) =
     (case c of None \<Rightarrow> s | Some c' \<Rightarrow> snd (getAuthTokenForAccount X (crn_CName c') (crn_ScopeID c') allow ModeAuto s))"
  "snd (AuthenticateEnvironmentWithCredentialMode X env mode s) = snd (getAuthTokenForAccount X env [] True mode s)"
  by (simp_all add: getAuthToken_def AuthenticateEnvironmentWithCredentialMode_def split: option.split prod.split)

lemma auth_step_inv: "auth_inv X s \<Longrightarrow> auth_inv X (auth_step X ev s)"
proof (cases ev)
  case (AGet c allow)
  then show "auth_inv X s \<Longrightarrow> ?thesis" using account_inv by (simp add: snd_account split: option.split)
next
  case (AEnvironment env mode)
  then show "auth_inv X s \<Longrightarrow> ?thesis" using account_inv by (simp add: snd_account)
next
  case (APasscode env p)
  then show "auth_inv X s \<Longrightarrow> ?thesis" using passcode_inv by simp
next
  case (AKey env k src)
  then show "auth_inv X s \<Longrightarrow> ?thesis" by (fastforce simp: SetAPIKey_def auth_inv_def ran_def env_ok_def split: option.splits if_splits)
next
  case (ASession t)
  then show "auth_inv X s \<Longrightarrow> ?thesis" by (fastforce simp: SetRefreshTokens_def auth_inv_def ran_def env_ok_def split: option.splits)
next
  case (ADiscover env)
  assume inv: "auth_inv X s"
  have "auth_inv X ((fst s)(env \<mapsto> ea1), tr1)" if "fst s env = Some ea" "getOIDCConfig X ea (snd s) = (r1, ea1, tr1)" for ea r1 ea1 tr1
    using auth_inv_update [OF inv that(1)] getOIDC_keeps [OF that(2)] by (auto simp: keeps_def)
  then show ?thesis using inv ADiscover by (auto simp: DiscoverPasscodeURL_def split: option.split prod.split sum.split)
qed

interpretation auth: event_machine "auth_inv X" "auth_step X" for X
  by unfold_locales (rule auth_step_inv)

lemma auth_New_inv: "auth_inv X (NewAccountManager conf, [])"
  by (auto simp: auth_inv_def NewAccountManager_def ran_def env_ok_def)

section \<open>Properties\<close>


text \<open>
  C13: In every run of the account manager, a token that is handed out is the access token of a successful reply of the
  service to a token request: of one sent by this very call, or, for a cached token, of an earlier one less than a day before
  the current time, with a minute to spare.
\<close>

theorem tokens_come_from_the_service:
  assumes "s = fold (auth_step X) es (NewAccountManager conf, [])" "getAuthTokenForAccount X env a allow mode s = (Inr (tok, meth), s')"
  shows "\<exists>n g resp. answered X (snd s') n g resp \<and> tok = tr_AccessToken resp \<and>
    (if meth = MethodCachedAccessToken
     then snd s' = snd s \<and> ax_now X (snd s) + refreshBuffer < ax_now X (take n (snd s)) + day else length (snd s) < n)"
proof -
  have inv: "auth_inv X s" unfolding assms(1) by (rule auth.run_inv) (rule auth_New_inv)
  obtain ea where ea: "fst s env = Some ea" using assms(2) by (auto simp: getAuthTokenForAccount_def split: option.splits)
  obtain r ea' tr' where c: "auth_chain X env a allow mode ea (snd s) = (r, ea', tr')" by (metis prod.exhaust)
  have r: "r = Inr (tok, meth)" "snd s' = tr'" using assms(2) ea c by (auto simp: getAuthTokenForAccount_def)
  show ?thesis
  proof (cases "cached X a ea (snd s) = None \<or> mode \<noteq> ModeAuto")
    case True
    then show ?thesis using auth_chain_ok [OF True, of env allow] r by (auto simp: c chain_ok_def fresh_def)
  next
    case False
    then obtain t where t: "cached X a ea (snd s) = Some t" "mode = ModeAuto" by auto
    then have "auth_chain X env a allow mode ea (snd s) = (Inr (t, MethodCachedAccessToken), ea, snd s)" by (simp add: auth_chain_def)
    then have m: "tok = t" "meth = MethodCachedAccessToken" "tr' = snd s" using c r by simp_all
    obtain te where te: "ea_accessTokens ea a = Some te" "te_expiresAt te - ax_now X (snd s) > refreshBuffer" "t = te_token te"
      using t(1) by (cases "ea_accessTokens ea a") (simp_all add: cached_def split: if_splits)
    have "te \<in> ran (ea_accessTokens ea)" "ea \<in> ran (fst s)" using te(1) ea by (auto simp: ran_def)
    then have "entry_ok X (snd s) te" using inv by (simp add: auth_inv_def env_ok_def)
    then obtain n g resp where n: "answered X (snd s) n g resp" "te_token te = tr_AccessToken resp"
      "te_expiresAt te \<le> ax_now X (take n (snd s)) + day" unfolding entry_ok_def by blast
    have "ax_now X (snd s) + refreshBuffer < ax_now X (take n (snd s)) + day" using te(2) n(3) by linarith
    then show ?thesis using n m r(2) te(3) by auto
  qed
qed


text \<open>
  An outage that the service, or a proxy before it, answers in JSON ends the session: whatever the status, a body that
  decodes to the structure of an error counts as a refusal of the refresh token, which is dropped.
\<close>

theorem outage_answered_in_json_ends_the_session:
  assumes "fst s env = Some ea" "ea_refreshToken ea \<noteq> []" "ea_oidcConfig ea = Some cfg" "ax_bad_url X (oc_TokenEndpoint cfg) = None"
    and "ax_http X (snd s @ [TokenRequest (oc_TokenEndpoint cfg) (GrantRefresh (ea_refreshToken ea))]) = Reply status (Inr body)"
    and "isHTTPErr status" "ax_iam X body \<noteq> None"
  shows "case getAuthTokenForAccount X env a allow ModeRefresh s of
    (r, s') \<Rightarrow> r = Inl (CredentialModeError ModeRefresh WasRejected) \<and> GetRefreshTokens (fst s') env = None"
  using assms
  by (auto simp: getAuthTokenForAccount_def auth_chain_def refresh_part_def exchangeRefreshToken_def getOIDCConfig_def
      doTokenFormRequest_def GetRefreshTokens_def Let_def)

text \<open>
  C25: A saved session is whole: a save that fails at any system call leaves the session file as it was, and one that
  succeeds replaces it, readable by its owner only, by what a load gives back; a new account manager that is given it has
  the same refresh tokens for the environments it knows. Hypotheses: the decoder reads what the encoder wrote, and a temporary
  file has a name of its own.
\<close>

theorem saved_session_survives_a_restart:
  assumes "sx_marshal S (GetRefreshTokens am) = Some data" "unmarshal data = Inr (GetRefreshTokens am)" "sx_create S \<noteq> Some path"
  shows "case SaveSession S path (GetRefreshTokens am) d of
      (Some e, d') \<Rightarrow> dk_files d' path = dk_files d path
    | (None, d') \<Rightarrow> dk_files d' path = Some (data, 384) \<and> dk_mode d' = Some 448
        \<and> LoadSession unmarshal None path d' = Inr (GetRefreshTokens am)
        \<and> GetRefreshTokens (SetRefreshTokens (GetRefreshTokens am) (NewAccountManager conf)) = GetRefreshTokens am |` dom conf"
proof -
  have "GetRefreshTokens (SetRefreshTokens (GetRefreshTokens am) (NewAccountManager conf)) = GetRefreshTokens am |` dom conf"
    by (rule ext) (auto simp: GetRefreshTokens_def SetRefreshTokens_def NewAccountManager_def restrict_map_def split: option.splits if_splits)
  then show ?thesis using assms
    by (auto simp: SaveSession_def drop_temp_def LoadSession_def Let_def split: option.split)
qed

section \<open>Concrete runs\<close>

text \<open>A service that grants every token request for an hour, and one that is out of order; the clock ticks with each request.\<close>

definition demo_auth :: auth_ext where
  "demo_auth = \<lparr>ax_bad_url = \<lambda>_. None, ax_http = \<lambda>tr. Reply 200 (Inr []), ax_op = \<lambda>_. OpOutput [], ax_done = \<lambda>_. None,
     ax_now = \<lambda>tr. int (length tr), ax_oidc = \<lambda>_. Inr \<lparr>oc_TokenEndpoint = [116], oc_PasscodeEndpoint = [112]\<rparr>,
     ax_iam = \<lambda>_. Some \<lparr>ie_Code = [], ie_Message = [], ie_Details = []\<rparr>,
     ax_token = \<lambda>_. Inr \<lparr>tr_AccessToken = [65], tr_RefreshToken = [66], tr_ExpiresIn = 3600\<rparr>, ax_url = \<lambda>_. None\<rparr>"

definition demo_outage :: auth_ext where
  "demo_outage = demo_auth\<lparr>ax_http := \<lambda>tr. Reply 503 (Inr [])\<rparr>"

definition demo_conf :: "gostr \<rightharpoonup> environment_config" where
  "demo_conf = [[98] \<mapsto> \<lparr>ec_IAMURL = [117], ec_APIKey = [107], ec_APIKeyOpRef = []\<rparr>]"

definition demo_ea :: envAuth where
  "demo_ea = \<lparr>ea_iamURL = [117], ea_refreshToken = [114], ea_accessTokens = Map.empty,
     ea_oidcConfig = Some \<lparr>oc_TokenEndpoint = [116], oc_PasscodeEndpoint = [112]\<rparr>, ea_apiKey = [107], ea_apiKeyEnvVar = [], ea_opRef = []\<rparr>"

lemma lifetime_hour [simp]: "sint (lifetime 3600) = 3600 * 10 ^ 9"
  using lifetime_exact [of 3600] by simp

lemmas chain_defs = getAuthTokenForAccount_def auth_chain_def cached_def refresh_part_def exchangeRefreshToken_def getOIDCConfig_def
  doTokenFormRequest_def storeAccessToken_def expiresAtFrom_def Let_def isHTTPErr_def

definition demo_ea' :: envAuth where
  "demo_ea' = demo_ea\<lparr>ea_accessTokens := [[] \<mapsto> \<lparr>te_token = [65], te_expiresAt = 1 + 3600 * 10 ^ 9\<rparr>], ea_refreshToken := [66]\<rparr>"

lemma demo_refreshed:
  "getAuthTokenForAccount demo_auth [98] [] True ModeAuto ([[98] \<mapsto> demo_ea], [])
   = (Inr ([65], MethodRefreshToken), [[98] \<mapsto> demo_ea'], [TokenRequest [116] (GrantRefresh [114])])"
  by (simp add: chain_defs demo_auth_def demo_ea'_def demo_ea_def)



theorem outage_answered_in_json_ends_the_session_witness:
  "fst (getAuthTokenForAccount demo_outage [98] [] True ModeRefresh ([[98] \<mapsto> demo_ea], [])) = Inl (CredentialModeError ModeRefresh WasRejected)"
  using outage_answered_in_json_ends_the_session [of "([[98] \<mapsto> demo_ea], [])" "[98]" demo_ea
      "\<lparr>oc_TokenEndpoint = [116], oc_PasscodeEndpoint = [112]\<rparr>" demo_outage 503 "[]" "[]" True]
  by (auto simp: demo_ea_def demo_outage_def demo_auth_def isHTTPErr_def split: prod.splits)

lemma demo_cached:
  "let s = fold (auth_step demo_auth) [ASession [[98] \<mapsto> [114]], AEnvironment [98] ModeAuto] (NewAccountManager demo_conf, [])
   in \<exists>s'. getAuthTokenForAccount demo_auth [98] [] True ModeAuto s = (Inr ([65], MethodCachedAccessToken), s')"
  by (simp add: chain_defs queryOIDCConfig_def oidcDiscoveryAttempts_def discover_attempts.simps AuthenticateEnvironmentWithCredentialMode_def
      NewAccountManager_def SetRefreshTokens_def demo_conf_def demo_auth_def refreshBuffer_def)

theorem tokens_come_from_the_service_witness:
  "let s = fold (auth_step demo_auth) [ASession [[98] \<mapsto> [114]], AEnvironment [98] ModeAuto] (NewAccountManager demo_conf, [])
   in \<exists>n g resp. answered demo_auth (snd s) n g resp \<and> tr_AccessToken resp = [65]"
proof -
  let ?s = "fold (auth_step demo_auth) [ASession [[98] \<mapsto> [114]], AEnvironment [98] ModeAuto] (NewAccountManager demo_conf, [])"
  obtain s' where s': "getAuthTokenForAccount demo_auth [98] [] True ModeAuto ?s = (Inr ([65], MethodCachedAccessToken), s')"
    using demo_cached unfolding Let_def by blast
  from tokens_come_from_the_service [OF refl this] obtain n g resp where
    "answered demo_auth (snd s') n g resp" "[65] = tr_AccessToken resp" "snd s' = snd ?s" by auto
  then show ?thesis unfolding Let_def by metis
qed

definition demo_save :: save_ext where
  "demo_save = \<lparr>sx_marshal = \<lambda>_. Some [1, 2], sx_mkdir = True, sx_chmod_dir = True, sx_create = Some [5], sx_chmod = True,
     sx_write = (2, True), sx_sync = True, sx_close = True, sx_rename = True, sx_remove = True\<rparr>"

theorem saved_session_survives_a_restart_witness:
  "dk_files (snd (SaveSession demo_save [9] (GetRefreshTokens [[98] \<mapsto> demo_ea]) \<lparr>dk_files = Map.empty, dk_mode = None\<rparr>)) [9] = Some ([1, 2], 384)"
  using saved_session_survives_a_restart [where S = demo_save and am = "[[98] \<mapsto> demo_ea]" and data = "[1, 2]" and path = "[9]"
      and unmarshal = "\<lambda>_. Inr (GetRefreshTokens [[98] \<mapsto> demo_ea])" and d = "\<lparr>dk_files = Map.empty, dk_mode = None\<rparr>" and conf = demo_conf]
  by (simp add: demo_save_def SaveSession_def)

end

