(* ===== verification/Instances.thy ===== *)
theory Instances
  imports Iclstream Logstore Snapfiles
begin

text \<open>
  One row of the instance picker, \<^verbatim>\<open>instancepicker/instances.go\<close> with \<^verbatim>\<open>ui/status/status.go\<close>: the phase of an instance,
  its store, its running query and its timer, and the slice of all instances. A time is in nanoseconds since the Unix
  epoch, the clock an argument. A query's context is named by the query id it was started with: \<open>in_aborted\<close> are the
  ids whose context is cancelled. A CRN is text; in a snapshot it is bytes.
\<close>

section \<open>Phases\<close>

datatype phase =
    PhDisabled | PhCancelled | PhEnabled | PhInProgress | PhError | PhWarning | PhSuccess
  | PhAuthInProgress | PhWatching | PhReadOnly | PhOther int

text \<open>The conversions between the integer type and its constants.\<close>

definition Phase :: "int \<Rightarrow> phase" where
  "Phase n =
     (if n = 0 then PhDisabled else if n = 1 then PhCancelled else if n = 2 then PhEnabled else if n = 3 then PhInProgress
      else if n = 4 then PhError else if n = 5 then PhWarning else if n = 6 then PhSuccess else if n = 7 then PhAuthInProgress
      else if n = 8 then PhWatching else if n = 9 then PhReadOnly else PhOther n)"

fun phase_int :: "phase \<Rightarrow> int" where
  "phase_int PhDisabled = 0"
| "phase_int PhCancelled = 1"
| "phase_int PhEnabled = 2"
| "phase_int PhInProgress = 3"
| "phase_int PhError = 4"
| "phase_int PhWarning = 5"
| "phase_int PhSuccess = 6"
| "phase_int PhAuthInProgress = 7"
| "phase_int PhWatching = 8"
| "phase_int PhReadOnly = 9"
| "phase_int (PhOther n) = n"

fun phase_String :: "phase \<Rightarrow> gostr" where
  "phase_String PhDisabled = str ''disabled''"
| "phase_String PhCancelled = str ''cancelled''"
| "phase_String PhEnabled = str ''enabled''"
| "phase_String PhInProgress = str ''in progress''"
| "phase_String PhError = str ''error''"
| "phase_String PhWarning = str ''warn''"
| "phase_String PhSuccess = str ''success''"
| "phase_String PhAuthInProgress = str ''authenticating''"
| "phase_String PhWatching = str ''watching''"
| "phase_String PhReadOnly = str ''read only''"
| "phase_String (PhOther n) = str ''unknown''"

text \<open>A phase in which something is still to come.\<close>

definition busy :: "phase \<Rightarrow> bool" where
  "busy ph \<longleftrightarrow> ph = PhInProgress \<or> ph = PhAuthInProgress \<or> ph = PhWatching"

section \<open>An instance\<close>

record cursor_state =
  cs_X :: int
  cs_Y :: int
  cs_Log :: int
  cs_LogLine :: int
  cs_XOffset :: int

definition no_cursor :: cursor_state where
  "no_cursor = \<lparr>cs_X = 0, cs_Y = 0, cs_Log = 0, cs_LogLine = 0, cs_XOffset = 0\<rparr>"

record ('q, 'c) inst =
  in_Name :: gostr
  in_Store :: "('q, 'c) store"
  in_url :: gostr
  in_CRN :: gostr
  in_env :: gostr
  in_state :: phase
  in_cancel :: "nat option"
  in_aborted :: "nat set"
  in_start :: int
  in_last :: int
  in_flushedCount :: int
  in_flushedSize :: "64 word"
  in_cursor :: cursor_state
  in_source :: gostr
  in_readOnly :: "inst_snap option"

text \<open>\<^verbatim>\<open>time.Time{}\<close>: the first instant of the year 1.\<close>

definition zero_time :: int where "zero_time = -62135596800 * 10 ^ 9"

definition UnixMicro :: "int \<Rightarrow> int" where "UnixMicro t = t div 1000"

definition from_UnixMicro :: "int \<Rightarrow> int" where "from_UnixMicro us = us * 1000"

definition to_bytes :: "gostr \<Rightarrow> bytes" where "to_bytes s = map of_nat s"

definition of_bytes :: "bytes \<Rightarrow> gostr" where "of_bytes b = map unat b"

definition NewInstance :: "nat \<Rightarrow> gostr \<Rightarrow> gostr \<Rightarrow> gostr \<Rightarrow> gostr \<Rightarrow> ('q, 'c) inst" where
  "NewInstance batch name url crn env =
     \<lparr>in_Name = name, in_Store = NewLogStore crn batch, in_url = url, in_CRN = crn, in_env = env, in_state = PhDisabled,
      in_cancel = None, in_aborted = {}, in_start = zero_time, in_last = zero_time, in_flushedCount = 0, in_flushedSize = 0,
      in_cursor = no_cursor, in_source = [], in_readOnly = None\<rparr>"

text \<open>What the package reads of a CRN and of the configuration: a parsed CRN gives its environment, its URL and its name.\<close>

record crn_info =
  ci_env :: gostr
  ci_url :: gostr
  ci_name :: gostr

definition NewReadOnlyInstance :: "nat \<Rightarrow> (gostr \<Rightarrow> gostr + crn_info) \<Rightarrow> inst_snap \<Rightarrow> gostr + ('q, 'c) inst" where
  "NewReadOnlyInstance batch parse sn =
     (case parse (of_bytes (is_crn sn)) of
        Inl e \<Rightarrow> Inl (str ''parse snapshot instance CRN: '' @ e)
      | Inr ci \<Rightarrow>
          let i = NewInstance batch (ci_name ci) (ci_url ci) (of_bytes (is_crn sn)) (ci_env ci)
          in Inr (i\<lparr>in_readOnly := Some sn, in_state := PhReadOnly, in_start := from_UnixMicro (is_startTime sn),
                    in_last := from_UnixMicro (is_lastUpdate sn), in_flushedCount := is_logCount sn, in_flushedSize := is_logsSize sn,
                    in_Store := SetMessage (of_bytes (is_message sn)) (in_Store i)\<rparr>))"

section \<open>The stream\<close>

definition inst_handleStream ::
  "('q, 'c) ext \<Rightarrow> manager \<Rightarrow> nat \<Rightarrow> log list \<Rightarrow> gostr list \<Rightarrow> gostr list \<Rightarrow> ('q, 'c) inst \<Rightarrow> ('q, 'c) inst" where
  "inst_handleStream X M mid logs warns errs i =
     (if in_state i = PhCancelled then i
      else i\<lparr>in_state := (if errs \<noteq> [] then PhError
                          else if warns \<noteq> [] \<and> in_state i \<noteq> PhError then PhWarning else in_state i),
             in_Store := fst (HandleLogStreamMsg X M \<lparr>sm_ID = mid, sm_Logs = logs, sm_Errs = errs\<rparr> (in_Store i))\<rparr>)"

definition inst_handleDone ::
  "('q, 'c) ext \<Rightarrow> manager \<Rightarrow> int \<Rightarrow> nat \<Rightarrow> gostr list \<Rightarrow> ('q, 'c) inst \<Rightarrow> ('q, 'c) inst" where
  "inst_handleDone X M now mid errs i =
     (if in_state i = PhCancelled then i
      else i\<lparr>in_last := now,
             in_state := (if errs \<noteq> [] then PhError else if in_state i = PhInProgress then PhSuccess else in_state i),
             in_Store := HandleLogStreamDoneMsg X M mid errs (in_Store i)\<rparr>)"

section \<open>Queries and timers\<close>

definition CancelQuery :: "int \<Rightarrow> ('q, 'c) inst \<Rightarrow> ('q, 'c) inst" where
  "CancelQuery now r =
     (case in_cancel r of
        None \<Rightarrow> r
      | Some q \<Rightarrow>
          let r1 = r\<lparr>in_aborted := insert q (in_aborted r), in_cancel := None\<rparr>
          in if in_state r = PhInProgress then r1\<lparr>in_last := now, in_state := PhCancelled\<rparr> else r1)"

definition Toggle :: "int \<Rightarrow> ('q, 'c) inst \<Rightarrow> ('q, 'c) inst" where
  "Toggle now r =
     (if in_readOnly r \<noteq> None then r
      else case in_state r of
          PhDisabled \<Rightarrow> r\<lparr>in_state := PhEnabled\<rparr>
        | PhCancelled \<Rightarrow> r\<lparr>in_state := PhEnabled\<rparr>
        | PhAuthInProgress \<Rightarrow> r\<lparr>in_last := now, in_state := PhCancelled\<rparr>
        | PhInProgress \<Rightarrow> CancelQuery now r
        | _ \<Rightarrow> r\<lparr>in_state := PhDisabled\<rparr>)"

text \<open>The worker that \<open>StartQuery\<close> hands to the poster, with what it captured.\<close>

record query_job =
  qj_crn :: gostr
  qj_id :: nat
  qj_source :: gostr
  qj_url :: gostr
  qj_token :: gostr
  qj_query :: gostr
  qj_limit :: "32 word"

definition StartQuery :: "gostr \<Rightarrow> gostr \<Rightarrow> 32 word \<Rightarrow> ('q, 'c) inst \<Rightarrow> ('q, 'c) inst \<times> query_job" where
  "StartQuery token query maxRows r =
     (let limit = SyncQueryRequestLimit maxRows;
          capacity = (if in_source r = [] \<and> limit < SyncQueryLimit then uint limit else uint SyncQueryLimit);
          st = StartStream capacity (in_Store r)
      in (r\<lparr>in_Store := st, in_cancel := Some (st_queryID st)\<rparr>,
          \<lparr>qj_crn = in_CRN r, qj_id = st_queryID st, qj_source = in_source r, qj_url = in_url r, qj_token = token,
           qj_query = query, qj_limit = limit\<rparr>))"

text \<open>What that worker posts, over the transport of each of the two requests.\<close>

definition query_worker ::
  "icl_lib \<Rightarrow> (go_error \<Rightarrow> gostr) \<Rightarrow> (query_request \<Rightarrow> transport) \<Rightarrow> (gostr \<Rightarrow> transport) \<Rightarrow> (nat \<Rightarrow> bool) \<Rightarrow> go_error option
     \<Rightarrow> int \<Rightarrow> query_job \<Rightarrow> stream_event list" where
  "query_worker L text_of send fetch dn ctxErr now j =
     query_messages L text_of (qj_crn j) (qj_id j)
       (if qj_source j = [] then Query L send dn (qj_url j) (qj_query j) (qj_limit j) now
        else FetchBackgroundData L (fetch (qj_source j)) dn ctxErr SyncQueryLimit)"

definition inst_Close :: "int \<Rightarrow> ('q, 'c) inst \<Rightarrow> ('q, 'c) inst" where
  "inst_Close now i = (let i1 = CancelQuery now i in i1\<lparr>in_Store := CancelAll (in_Store i1)\<rparr>)"

definition ResetTimer :: "('q, 'c) inst \<Rightarrow> ('q, 'c) inst" where
  "ResetTimer r = r\<lparr>in_start := zero_time, in_last := zero_time\<rparr>"

definition StartTimer :: "int \<Rightarrow> ('q, 'c) inst \<Rightarrow> ('q, 'c) inst" where
  "StartTimer now r = r\<lparr>in_start := now, in_last := now, in_state := PhInProgress\<rparr>"

definition StartAuthTimer :: "int \<Rightarrow> ('q, 'c) inst \<Rightarrow> ('q, 'c) inst" where
  "StartAuthTimer now r = r\<lparr>in_start := now, in_last := now, in_state := PhAuthInProgress\<rparr>"

definition FinishDispatch :: "int \<Rightarrow> bool \<Rightarrow> ('q, 'c) inst \<Rightarrow> ('q, 'c) inst" where
  "FinishDispatch now success r =
     (if in_state r = PhCancelled then r else r\<lparr>in_last := now, in_state := if success then PhSuccess else PhError\<rparr>)"

text \<open>The elapsed time \<open>RenderTimer\<close> formats.\<close>

definition RenderTimer :: "int \<Rightarrow> ('q, 'c) inst \<Rightarrow> int" where
  "RenderTimer now r =
     (if (in_state r = PhInProgress \<or> in_state r = PhAuthInProgress) \<and> in_start r \<noteq> zero_time then now - in_start r
      else in_last r - in_start r)"

section \<open>Display and snapshots\<close>

definition DisplayLogCount :: "('q, 'c) inst \<Rightarrow> int" where
  "DisplayLogCount i = (let c = int (st_logCount (in_Store i)) in if c > 0 then c else in_flushedCount i)"

definition ClearStore :: "('q, 'c) inst \<Rightarrow> ('q, 'c) inst" where
  "ClearStore i = i\<lparr>in_Store := Clear (in_Store i), in_cursor := no_cursor\<rparr>"

definition SaveCursor :: "int \<Rightarrow> int \<Rightarrow> int \<Rightarrow> int \<Rightarrow> int \<Rightarrow> ('q, 'c) inst \<Rightarrow> ('q, 'c) inst" where
  "SaveCursor x y lg ll xo i = i\<lparr>in_cursor := \<lparr>cs_X = x, cs_Y = y, cs_Log = lg, cs_LogLine = ll, cs_XOffset = xo\<rparr>\<rparr>"

definition SnapshotizeMeta :: "('q, 'c) inst \<Rightarrow> inst_snap" where
  "SnapshotizeMeta i =
     (case in_readOnly i of
        Some sn \<Rightarrow> sn
      | None \<Rightarrow>
          \<lparr>is_crn = to_bytes (in_CRN i), is_state = phase_int (in_state i), is_logCount = DisplayLogCount i,
           is_logsSize = in_flushedSize i, is_startTime = UnixMicro (in_start i), is_lastUpdate = UnixMicro (in_last i),
           is_message = to_bytes (st_message (in_Store i))\<rparr>)"

definition inst_Restore :: "inst_snap \<Rightarrow> ('q, 'c) inst \<Rightarrow> ('q, 'c) inst" where
  "inst_Restore s i =
     (let i1 = ClearStore i; ph = Phase (is_state s)
      in i1\<lparr>in_state := (if busy ph then PhEnabled else ph), in_start := from_UnixMicro (is_startTime s),
            in_last := from_UnixMicro (is_lastUpdate s), in_flushedCount := is_logCount s, in_flushedSize := is_logsSize s,
            in_Store := SetMessage (of_bytes (is_message s)) (in_Store i1)\<rparr>)"

definition IsReadOnly :: "('q, 'c) inst \<Rightarrow> bool" where "IsReadOnly r \<longleftrightarrow> in_readOnly r \<noteq> None"

definition IsEnabled :: "('q, 'c) inst \<Rightarrow> bool" where
  "IsEnabled r \<longleftrightarrow> in_readOnly r = None \<and> in_state r \<noteq> PhDisabled \<and> in_state r \<noteq> PhCancelled"

definition Disable :: "('q, 'c) inst \<Rightarrow> ('q, 'c) inst" where
  "Disable r = (if in_readOnly r = None then r\<lparr>in_state := PhDisabled\<rparr> else r)"

definition Enable :: "('q, 'c) inst \<Rightarrow> ('q, 'c) inst" where
  "Enable r = (if in_readOnly r = None then r\<lparr>in_state := PhEnabled\<rparr> else r)"

definition RestoreReadOnlyMessage :: "('q, 'c) inst \<Rightarrow> ('q, 'c) inst" where
  "RestoreReadOnlyMessage r =
     (case in_readOnly r of None \<Rightarrow> r | Some sn \<Rightarrow> r\<lparr>in_Store := SetMessage (of_bytes (is_message sn)) (in_Store r)\<rparr>)"

definition ResetSnapshotDisplay :: "int \<Rightarrow> ('q, 'c) inst \<Rightarrow> ('q, 'c) inst" where
  "ResetSnapshotDisplay now r =
     (ResetTimer ((ClearStore (CancelQuery now r))\<lparr>in_flushedCount := 0, in_flushedSize := 0\<rparr>))\<lparr>in_state := PhDisabled\<rparr>"

section \<open>The instances\<close>

text \<open>A pointer found by CRN is the first instance of that CRN; \<open>update_crn\<close> is a change through it.\<close>

definition FindByCRN :: "gostr \<Rightarrow> ('q, 'c) inst list \<Rightarrow> ('q, 'c) inst option" where
  "FindByCRN crn is = find (\<lambda>i. in_CRN i = crn) is"

definition FindByName :: "gostr \<Rightarrow> ('q, 'c) inst list \<Rightarrow> ('q, 'c) inst option" where
  "FindByName name is = find (\<lambda>i. in_Name i = name) is"

fun update_crn :: "gostr \<Rightarrow> (('q, 'c) inst \<Rightarrow> ('q, 'c) inst) \<Rightarrow> ('q, 'c) inst list \<Rightarrow> ('q, 'c) inst list" where
  "update_crn crn f [] = []"
| "update_crn crn f (i # is) = (if in_CRN i = crn then f i # is else i # update_crn crn f is)"

record configured =
  cf_Name :: gostr
  cf_CRN :: gostr
  cf_url :: gostr
  cf_env :: gostr

definition newInstances :: "nat \<Rightarrow> configured list \<Rightarrow> ('q, 'c) inst list" where
  "newInstances batch cs = map (\<lambda>c. NewInstance batch (cf_Name c) (cf_url c) (cf_CRN c) (cf_env c)) cs"

text \<open>A map literal built in a loop: the last snapshot of a CRN counts.\<close>

definition RestoreSnapshots :: "int \<Rightarrow> inst_snap list \<Rightarrow> ('q, 'c) inst list \<Rightarrow> ('q, 'c) inst list" where
  "RestoreSnapshots now snaps is =
     map (\<lambda>i. if IsReadOnly i then i
              else let r = ResetSnapshotDisplay now i
                   in case find (\<lambda>s. of_bytes (is_crn s) = in_CRN i) (rev snaps) of None \<Rightarrow> r | Some s \<Rightarrow> inst_Restore s r) is"

definition AreAllQueriesDone :: "('q, 'c) inst list \<Rightarrow> bool" where
  "AreAllQueriesDone is \<longleftrightarrow> \<not> list_ex (\<lambda>i. busy (in_state i)) is"

definition HasAnyLogs :: "('q, 'c) inst list \<Rightarrow> bool" where
  "HasAnyLogs is \<longleftrightarrow> list_ex (\<lambda>i. DisplayLogCount i > 0) is"

definition AreAllEnabled :: "('q, 'c) inst list \<Rightarrow> bool" where
  "AreAllEnabled is \<longleftrightarrow> list_all (\<lambda>i. IsReadOnly i \<or> IsEnabled i) is"

definition Configured :: "('q, 'c) inst list \<Rightarrow> ('q, 'c) inst list" where
  "Configured is = filter (\<lambda>i. \<not> IsReadOnly i) is"

definition EnableCRNs :: "gostr list \<Rightarrow> ('q, 'c) inst list \<Rightarrow> ('q, 'c) inst list" where
  "EnableCRNs crns is = map (\<lambda>i. if in_CRN i \<in> set crns then Enable i else Disable i) is"

definition EnabledCRNs :: "('q, 'c) inst list \<Rightarrow> gostr list" where
  "EnabledCRNs is = map in_CRN (filter IsEnabled is)"

definition SetSource :: "gostr \<Rightarrow> gostr \<Rightarrow> ('q, 'c) inst list \<Rightarrow> ('q, 'c) inst list" where
  "SetSource crn queryID is = update_crn crn (\<lambda>i. i\<lparr>in_source := queryID\<rparr>) is"

definition ClearSources :: "('q, 'c) inst list \<Rightarrow> ('q, 'c) inst list" where
  "ClearSources is = map (\<lambda>i. i\<lparr>in_source := []\<rparr>) is"

definition set_one :: "bool \<Rightarrow> ('q, 'c) inst \<Rightarrow> ('q, 'c) inst" where
  "set_one b i =
     (if IsReadOnly i then i
      else if \<not> b \<and> IsEnabled i then Disable i
      else if b \<and> \<not> IsEnabled i then Enable i else i)"

definition SetAll :: "bool \<Rightarrow> ('q, 'c) inst list \<Rightarrow> ('q, 'c) inst list" where
  "SetAll b is = map (set_one b) is"

definition transition_one :: "int \<Rightarrow> gostr \<Rightarrow> phase \<Rightarrow> gostr \<Rightarrow> ('q, 'c) inst \<Rightarrow> ('q, 'c) inst" where
  "transition_one now env to message i =
     (if in_state i \<noteq> PhAuthInProgress then i
      else if env \<noteq> [] \<and> in_env i \<noteq> env then i
      else
        let i1 = (if message \<noteq> [] then i\<lparr>in_Store := SetMessage message (in_Store i)\<rparr> else i);
            i2 = (if to = PhError \<or> to = PhCancelled then i1\<lparr>in_last := now\<rparr> else if to = PhEnabled then ResetTimer i1 else i1)
        in i2\<lparr>in_state := to\<rparr>)"

definition TransitionAuthing :: "int \<Rightarrow> gostr \<Rightarrow> phase \<Rightarrow> gostr \<Rightarrow> ('q, 'c) inst list \<Rightarrow> ('q, 'c) inst list" where
  "TransitionAuthing now env to message is = map (transition_one now env to message) is"

definition StartDispatchTimers :: "int \<Rightarrow> ('q, 'c) inst list \<Rightarrow> ('q, 'c) inst list" where
  "StartDispatchTimers now is = map (\<lambda>i. if IsEnabled i then StartAuthTimer now i else i) is"

definition CancelQueries :: "int \<Rightarrow> ('q, 'c) inst list \<Rightarrow> ('q, 'c) inst list" where
  "CancelQueries now is = map (CancelQuery now) is"

section \<open>Authentication\<close>

text \<open>
  What a worker of \<open>resolveEnvMembers\<close> posts, given what the account manager answers for each member: the generation
  it was started with is on every message.
\<close>

datatype token_result = TokenOk gostr | PasscodeNeeded gostr | AuthCancelled | AuthError gostr

datatype auth_msg =
    AuthResolved gostr gostr gostr nat
  | AuthFailed gostr gostr nat
  | EnvCredFailed gostr gostr nat
  | EnvCancelled gostr nat
  | PasscodeAsked gostr gostr nat

fun resolve_members :: "(gostr \<Rightarrow> token_result) \<Rightarrow> nat \<Rightarrow> gostr \<Rightarrow> gostr \<Rightarrow> bool \<Rightarrow> gostr list \<Rightarrow> auth_msg list" where
  "resolve_members get gen env query first [] = []"
| "resolve_members get gen env query first (crn # crns) =
     (case get crn of
        TokenOk token \<Rightarrow> AuthResolved crn token query gen # resolve_members get gen env query False crns
      | PasscodeNeeded url \<Rightarrow> [PasscodeAsked env url gen]
      | AuthCancelled \<Rightarrow> [EnvCancelled env gen]
      | AuthError e \<Rightarrow>
          if first then [EnvCredFailed env e gen]
          else AuthFailed crn e gen # resolve_members get gen env query False crns)"

definition resolveEnvMembers :: "(gostr \<Rightarrow> token_result) \<Rightarrow> nat \<Rightarrow> gostr \<Rightarrow> gostr \<Rightarrow> gostr list \<Rightarrow> auth_msg list" where
  "resolveEnvMembers get gen env query members = resolve_members get gen env query True members"

text \<open>The members of each environment; the order in which a map is iterated only orders the workers' start.\<close>

definition group_env :: "('q, 'c) inst list \<Rightarrow> (gostr \<times> gostr list) list" where
  "group_env is =
     map (\<lambda>env. (env, map in_CRN (filter (\<lambda>i. in_env i = env) is))) (remdups (map in_env is))"

definition resolve_one :: "int \<Rightarrow> ('q, 'c) inst \<Rightarrow> ('q, 'c) inst" where
  "resolve_one now i =
     (if IsReadOnly i then i
      else
        let i1 = ResetTimer ((ClearStore i)\<lparr>in_flushedCount := 0, in_flushedSize := 0\<rparr>)
        in if IsEnabled i1 then StartAuthTimer now i1
           else if in_state i1 = PhCancelled then i1\<lparr>in_state := PhDisabled\<rparr> else i1)"

text \<open>\<open>ResolveTokens\<close>: the instances, and the members of each environment whose worker is spawned.\<close>

definition ResolveTokens :: "int \<Rightarrow> ('q, 'c) inst list \<Rightarrow> ('q, 'c) inst list \<times> (gostr \<times> gostr list) list" where
  "ResolveTokens now is = (map (resolve_one now) is, group_env (filter IsEnabled is))"

end
