(* ===== verification/Picker.thy ===== *)
theory Picker
  imports Instances Listmodel
begin

text \<open>
  The life of a fetch, \<^verbatim>\<open>instancepicker/instancepicker.go\<close>: the working file and its container, what becomes of
  it when the queries are done, the handlers of what streams, workers, authentication and timers post, the race of a first
  fetch, the watch loop, collecting an archive, dispatching one, opening an instance. What a handler posts or spawns is appended
  to \<open>p_out\<close>; a worker is the value it was spawned with, and what it posts is a function below.

  \<open>penv\<close> is what a handler reads from outside: the clock, the configuration, the libraries, the outcome of each operation
  on a file. \<open>p_panicked\<close> is a dereference of a nil pointer or an index out of range.
\<close>

section \<open>State\<close>

datatype bpath = Managed bytes | External bytes

fun Base :: "bpath \<Rightarrow> bytes" where
  "Base (Managed n) = n"
| "Base (External n) = n"

fun isInSnapshotDir :: "bpath \<Rightarrow> bool" where
  "isInSnapshotDir (Managed n) = True"
| "isInSnapshotDir (External n) = False"

datatype load_error =
    ErrNoBackingFile | ErrInstanceFailed | ErrFetchAborted | OpenFailed c_error | LoadFailed s_error | FileGone | IdNotFound

datatype pout =
    PShowDialog gostr gostr
  | PSelect gostr bool
  | PLoadReady gostr "load_error + log list"
  | PLoadPending gostr
  | PSaveSnapshot | PManualSave | PNotify | PQuit
  | PSetEditorQuery gostr
  | PNotifyDirty
  | PRemoveReadOnly gostr
  | PSaveSession
  | PAuth nat nat gostr "gostr list" gostr
  | PQuery query_job
  | PFlush gostr "log list" nat
  | PLoad gostr gostr container bytes
  | PRecover gostr gostr
  | PTick nat int
  | PDispatch nat "gostr list" gostr int
  | PPasscode gostr gostr

record ('q, 'c) picker =
  p_instances :: "('q, 'c) inst list"
  p_list :: list_model
  p_M :: manager
  p_authCtx :: nat
  p_ctxCancelled :: "nat set"
  p_nextCtx :: nat
  p_authGeneration :: nat
  p_queryStart :: int
  p_container :: "wstate option"
  p_file :: "bytes option"
  p_path :: "bpath option"
  p_backingID :: "bytes option"
  p_dir :: dir
  p_fetching :: bool
  p_fetchCancelled :: bool
  p_candidates :: "gostr list option"
  p_winner :: gostr
  p_collecting :: bool
  p_pendingFlushes :: int
  p_fetchEpoch :: nat
  p_members :: "inst_snap list"
  p_hasMembers :: bool
  p_pendingLoads :: "gostr list"
  p_watching :: bool
  p_watchEpoch :: nat
  p_watchStart :: int
  p_roundCount :: int
  p_nextRoundAt :: "int option"
  p_nameWidth :: nat
  p_out :: "pout list"
  p_panicked :: bool

record pconf =
  pc_maxRows :: "32 word"
  pc_saveOnDone :: bool
  pc_notifyOnDone :: bool
  pc_maxAuto :: "8 word"
  pc_watchMaxFetches :: "16 word"
  pc_watchMaxDuration :: "16 word"
  pc_watchCooldown :: "16 word"
  pc_batch :: nat
  pc_effective :: "configured list"

record ('q, 'c) penv =
  pe_X :: "('q, 'c) ext"
  pe_u :: uiext
  pe_conf :: pconf
  pe_now :: int
  pe_J :: "log snapio"
  pe_L :: snaplib
  pe_outcomes :: outcomes
  pe_close :: "nat option"
  pe_sync_ok :: bool
  pe_fclose_ok :: bool
  pe_dir_ok :: bool
  pe_claim_ok :: "bytes \<Rightarrow> bool"
  pe_external :: "bytes \<Rightarrow> bytes option"
  pe_pid :: int
  pe_token :: bytes
  pe_crn :: "gostr \<Rightarrow> gostr + crn_info"
  pe_textwidth :: "gostr \<Rightarrow> nat"
  pe_labelWidth :: nat

definition second :: int where "second = 10 ^ 9"

definition p_emit :: "pout \<Rightarrow> ('q, 'c) picker \<Rightarrow> ('q, 'c) picker" where
  "p_emit ev m = m\<lparr>p_out := p_out m @ [ev]\<rparr>"

definition p_panic :: "('q, 'c) picker \<Rightarrow> ('q, 'c) picker" where
  "p_panic m = m\<lparr>p_panicked := True\<rparr>"

definition showNotice :: "gostr \<Rightarrow> gostr \<Rightarrow> ('q, 'c) picker \<Rightarrow> ('q, 'c) picker" where
  "showNotice title message m = p_emit (PShowDialog title message) m"

definition map_insts :: "(('q, 'c) inst list \<Rightarrow> ('q, 'c) inst list) \<Rightarrow> ('q, 'c) picker \<Rightarrow> ('q, 'c) picker" where
  "map_insts f m = m\<lparr>p_instances := f (p_instances m)\<rparr>"

text \<open>The instance under the list cursor.\<close>

definition at_cursor :: "('q, 'c) picker \<Rightarrow> nat option" where
  "at_cursor m =
     (case GetCursor (p_list m) of
        None \<Rightarrow> None
      | Some i \<Rightarrow> if 0 \<le> i \<and> i < int (length (p_instances m)) then Some (nat i) else None)"

definition select_first :: "bool \<Rightarrow> ('q, 'c) picker \<Rightarrow> ('q, 'c) picker" where
  "select_first open m =
     (case at_cursor m of None \<Rightarrow> p_panic m | Some i \<Rightarrow> p_emit (PSelect (in_CRN (p_instances m ! i)) open) m)"

text \<open>\<open>emitSelect\<close> and \<open>OpenInLogViewer\<close>.\<close>

definition emitSelect :: "('q, 'c) picker \<Rightarrow> ('q, 'c) picker" where "emitSelect m = select_first False m"

definition OpenInLogViewer :: "('q, 'c) picker \<Rightarrow> ('q, 'c) picker" where "OpenInLogViewer m = select_first True m"

definition syncInstanceState :: "('q, 'c) picker \<Rightarrow> ('q, 'c) picker" where
  "syncInstanceState m =
     m\<lparr>p_M := (p_M m)\<lparr>mgr_instances := map (\<lambda>i. \<lparr>ii_Name = in_Name i, ii_Enabled = IsEnabled i,
        ii_State = phase_String (in_state i), ii_LogCount = st_logCount (in_Store i)\<rparr>) (p_instances m)\<rparr>\<rparr>"

section \<open>The backing file\<close>

definition setBackingPath :: "('q, 'c) penv \<Rightarrow> bpath option \<Rightarrow> ('q, 'c) picker \<Rightarrow> ('q, 'c) picker" where
  "setBackingPath E path m =
     (let m1 = m\<lparr>p_path := path\<rparr>
      in case path of
           Some (External n) \<Rightarrow> m1
         | Some (Managed n) \<Rightarrow> if pe_claim_ok E n then m1\<lparr>p_dir := SetOwnInUse (pe_pid E) n (p_dir m1)\<rparr> else m1
         | None \<Rightarrow> if pe_claim_ok E [] then m1\<lparr>p_dir := SetOwnInUse (pe_pid E) [] (p_dir m1)\<rparr> else m1)"

definition setBacking :: "('q, 'c) penv \<Rightarrow> bpath option \<Rightarrow> bytes \<Rightarrow> ('q, 'c) picker \<Rightarrow> ('q, 'c) picker" where
  "setBacking E path i m =
     p_emit PNotifyDirty ((setBackingPath E path m)\<lparr>p_backingID := if path = None \<or> i = [] then None else Some i\<rparr>)"

definition backingUUID :: "('q, 'c) picker \<Rightarrow> bytes" where
  "backingUUID m = (case p_backingID m of Some i \<Rightarrow> i | None \<Rightarrow> [])"

definition HeldManagedBacking :: "('q, 'c) picker \<Rightarrow> bool" where
  "HeldManagedBacking m = (case p_path m of Some p \<Rightarrow> isInSnapshotDir p | None \<Rightarrow> False)"

text \<open>\<^verbatim>\<open>filepath.Base\<close> of no path is a dot.\<close>

definition backing_base :: "('q, 'c) picker \<Rightarrow> bytes" where
  "backing_base m = (case p_path m of Some p \<Rightarrow> Base p | None \<Rightarrow> bs ''.'')"

text \<open>What is written to the open file, also when its name is gone.\<close>

definition write_node :: "bytes \<Rightarrow> bytes \<Rightarrow> dir \<Rightarrow> dir" where
  "write_node name data d = map (\<lambda>e. if fst e = name then (name, (snd e)\<lparr>fn_data := data\<rparr>) else e) d"

definition put_container :: "wstate \<Rightarrow> ('q, 'c) picker \<Rightarrow> ('q, 'c) picker" where
  "put_container w m =
     m\<lparr>p_container := Some w, p_dir := (case p_file m of Some f \<Rightarrow> write_node f (snd w) (p_dir m) | None \<Rightarrow> p_dir m)\<rparr>"

definition closeBackingContainer :: "('q, 'c) penv \<Rightarrow> ('q, 'c) picker \<Rightarrow> ('q, 'c) picker \<times> bool" where
  "closeBackingContainer E m =
     (let r1 = (case p_container m of
                  None \<Rightarrow> (m, True)
                | Some w \<Rightarrow> let c = Close (pe_close E) w in ((put_container (snd c) m)\<lparr>p_container := None\<rparr>, fst c = None));
          r2 = (case p_file (fst r1) of
                  None \<Rightarrow> (fst r1, True)
                | Some f \<Rightarrow> ((fst r1)\<lparr>p_file := None\<rparr>, pe_sync_ok E \<and> pe_fclose_ok E))
      in ((setBackingPath E None ((fst r2)\<lparr>p_fetching := False\<rparr>))\<lparr>p_backingID := None\<rparr>, snd r1 \<and> snd r2))"

definition discardBackingContainer :: "('q, 'c) penv \<Rightarrow> ('q, 'c) picker \<Rightarrow> ('q, 'c) picker" where
  "discardBackingContainer E m =
     (let wipPath = (case p_file m of Some f \<Rightarrow> f | None \<Rightarrow> []); m1 = fst (closeBackingContainer E m)
      in if \<not> HasSuffix wipPath WipSuffix then m1
         else if sl_rm_fails (pe_L E) wipPath then m1
         else m1\<lparr>p_dir := remove_file wipPath (p_dir m1)\<rparr>)"

definition drainPendingLoads :: "load_error \<Rightarrow> ('q, 'c) picker \<Rightarrow> ('q, 'c) picker" where
  "drainPendingLoads cause m =
     m\<lparr>p_pendingLoads := [], p_out := p_out m @ map (\<lambda>crn. PLoadReady crn (Inl cause)) (p_pendingLoads m)\<rparr>"

section \<open>Rows of a snapshot\<close>

definition longestInstanceName :: "('q, 'c) penv \<Rightarrow> ('q, 'c) inst list \<Rightarrow> nat" where
  "longestInstanceName E is = fold (\<lambda>i n. max n (pe_textwidth E (in_Name i))) is 0"

definition relist :: "('q, 'c) penv \<Rightarrow> ('q, 'c) picker \<Rightarrow> ('q, 'c) picker" where
  "relist E m = m\<lparr>p_nameWidth := longestInstanceName E (p_instances m),
                   p_list := WithItems (pe_u E) (replicate (length (p_instances m)) []) (p_list m)\<rparr>"

definition removeReadOnly :: "('q, 'c) penv \<Rightarrow> ('q, 'c) picker \<Rightarrow> ('q, 'c) picker" where
  "removeReadOnly E m =
     (if length (Configured (p_instances m)) = length (p_instances m) then m
      else relist E (m\<lparr>p_instances := Configured (p_instances m),
                        p_out := p_out m @ map (\<lambda>i. PRemoveReadOnly (in_CRN i)) (filter IsReadOnly (p_instances m))\<rparr>))"

text \<open>The rows before the first CRN that does not parse stay, and the list is not told of them.\<close>

fun append_read_only :: "('q, 'c) penv \<Rightarrow> inst_snap list \<Rightarrow> ('q, 'c) inst list \<Rightarrow> ('q, 'c) inst list \<times> bool" where
  "append_read_only E [] is = (is, True)"
| "append_read_only E (s # ss) is =
     (if FindByCRN (of_bytes (is_crn s)) is \<noteq> None then append_read_only E ss is
      else case NewReadOnlyInstance (pc_batch (pe_conf E)) (pe_crn E) s of
             Inl e \<Rightarrow> (is, False)
           | Inr i \<Rightarrow> append_read_only E ss (is @ [i]))"

definition appendReadOnlyRows :: "('q, 'c) penv \<Rightarrow> inst_snap list \<Rightarrow> ('q, 'c) picker \<Rightarrow> ('q, 'c) picker" where
  "appendReadOnlyRows E snaps m =
     (let r = append_read_only E snaps (p_instances m); m1 = m\<lparr>p_instances := fst r\<rparr> in if snd r then relist E m1 else m1)"

definition setSnapshotMembers :: "inst_snap list \<Rightarrow> ('q, 'c) picker \<Rightarrow> ('q, 'c) picker" where
  "setSnapshotMembers members m = m\<lparr>p_members := members, p_hasMembers := True\<rparr>"

definition member_of :: "('q, 'c) inst list \<Rightarrow> gostr \<Rightarrow> inst_snap" where
  "member_of is crn =
     (case FindByCRN crn is of
        Some i \<Rightarrow> SnapshotizeMeta i
      | None \<Rightarrow> \<lparr>is_crn = to_bytes crn, is_state = 0, is_logCount = 0, is_logsSize = 0, is_startTime = 0, is_lastUpdate = 0, is_message = []\<rparr>)"

definition captureSnapshotMembers :: "gostr list \<Rightarrow> ('q, 'c) picker \<Rightarrow> ('q, 'c) picker" where
  "captureSnapshotMembers crns m = setSnapshotMembers (map (member_of (p_instances m)) crns) m"

fun type_byte :: "filter_type \<Rightarrow> nat" where
  "type_byte Unknown = 0"
| "type_byte Include = 1"
| "type_byte Exclude = 2"
| "type_byte HasField = 3"
| "type_byte LacksField = 4"
| "type_byte (OtherType n) = n"

definition byte_type :: "nat \<Rightarrow> filter_type" where
  "byte_type n = (if n = 0 then Unknown else if n = 1 then Include else if n = 2 then Exclude
                  else if n = 3 then HasField else if n = 4 then LacksField else OtherType n)"

definition snapshotMeta :: "('q, 'c) picker \<Rightarrow> snap" where
  "snapshotMeta m =
     (let members = (if p_hasMembers m then p_members m else map SnapshotizeMeta (p_instances m));
          refresh = (\<lambda>mb. case FindByCRN (of_bytes (is_crn mb)) (p_instances m) of Some i \<Rightarrow> SnapshotizeMeta i | None \<Rightarrow> mb)
      in \<lparr>sn_id = [], sn_query = to_bytes (mgr_lastFetchedQuery (p_M m)), sn_search = to_bytes (mgr_search (p_M m)),
          sn_jq = to_bytes (mgr_jq (p_M m)), sn_filters = map (\<lambda>r. (type_byte (r_type r), to_bytes (r_value r))) (mgr_filters (p_M m)),
          sn_instances = map refresh members\<rparr>)"

definition isSnapshotMember :: "('q, 'c) picker \<Rightarrow> gostr \<Rightarrow> bool" where
  "isSnapshotMember m crn \<longleftrightarrow> \<not> p_hasMembers m \<or> crn \<in> (\<lambda>mb. of_bytes (is_crn mb)) ` set (p_members m)"

section \<open>The end of a fetch\<close>

datatype fin = Saved | SavedDirty | NotSaved

definition preclaim :: "('q, 'c) penv \<Rightarrow> bytes \<Rightarrow> dir \<Rightarrow> dir option" where
  "preclaim E candidate d = (if pe_claim_ok E candidate then Some (SetOwnInUse (pe_pid E) candidate d) else None)"

definition publish_wip :: "('q, 'c) penv \<Rightarrow> bytes \<Rightarrow> bytes \<Rightarrow> ('q, 'c) picker \<Rightarrow> ('q, 'c) picker \<times> fin" where
  "publish_wip E wip i m =
     (let r = PublishAutoSnapshot (pe_L E) wip (p_queryStart m) (preclaim E) (p_dir m)
      in case fst r of
           Inl e \<Rightarrow> (m\<lparr>p_dir := if pe_claim_ok E [] then SetOwnInUse (pe_pid E) [] (snd r) else snd r\<rparr>, NotSaved)
         | Inr (final, dirty) \<Rightarrow>
             (setBacking E (Some (Managed final)) i
                (m\<lparr>p_dir := snd (snd (RetainAutoSnapshots (pe_L E) (pc_maxAuto (pe_conf E)) (snd r)))\<rparr>),
              if dirty then SavedDirty else Saved))"

definition finalizeBackingContainer :: "('q, 'c) penv \<Rightarrow> ('q, 'c) picker \<Rightarrow> ('q, 'c) picker \<times> fin" where
  "finalizeBackingContainer E m =
     (case (p_container m, p_file m) of
        (Some w, Some wip) \<Rightarrow>
          let meta = snapshotMeta m;
              r1 = EnsureInstanceFrames (pe_J E) (pe_outcomes E) (sn_instances meta) w;
              m1 = put_container (snd r1) m
          in if fst r1 \<noteq> None then (fst (closeBackingContainer E m1), NotSaved)
             else
               let r2 = SaveStateFrame (pe_J E) (pe_outcomes E) (meta\<lparr>sn_id := si_uuid (pe_J E)\<rparr>) (snd r1);
                   m2 = put_container (snd r2) m1
               in if fst r2 \<noteq> None then (fst (closeBackingContainer E m2), NotSaved)
                  else
                    let r3 = closeBackingContainer E m2
                    in if \<not> snd r3 then (fst r3, NotSaved) else publish_wip E wip (si_uuid (pe_J E)) (fst r3)
      | _ \<Rightarrow> (p_panic m, NotSaved))"

text \<open>The texts of the notices are shortened to their kind.\<close>

definition dirty_notice :: gostr where "dirty_notice = str ''published, WIP not cleaned up''"
definition lost_notice :: gostr where "lost_notice = str ''could not be saved, exists in memory only''"

definition finalizeOrNotify :: "('q, 'c) penv \<Rightarrow> ('q, 'c) picker \<Rightarrow> ('q, 'c) picker \<times> bool" where
  "finalizeOrNotify E m =
     (case finalizeBackingContainer E m of
        (m1, Saved) \<Rightarrow> (m1, True)
      | (m1, SavedDirty) \<Rightarrow> (showNotice (str ''Snapshot'') dirty_notice m1, True)
      | (m1, NotSaved) \<Rightarrow> (showNotice (str ''Snapshot'') lost_notice m1, False))"

definition emitFetchDoneEffects :: "('q, 'c) penv \<Rightarrow> bool \<Rightarrow> ('q, 'c) picker \<Rightarrow> ('q, 'c) picker" where
  "emitFetchDoneEffects E finalized m =
     (let m1 = (if pc_saveOnDone (pe_conf E) \<and> finalized then p_emit PSaveSnapshot m else m)
      in if pc_notifyOnDone (pe_conf E) \<and> \<not> p_fetchCancelled m1 then p_emit PNotify m1 else m1)"

definition lose :: "int \<Rightarrow> ('q, 'c) inst \<Rightarrow> ('q, 'c) inst" where
  "lose now i = i\<lparr>in_last := now, in_state := PhCancelled\<rparr>"

definition finishFirstFetch :: "('q, 'c) penv \<Rightarrow> ('q, 'c) picker \<Rightarrow> ('q, 'c) picker" where
  "finishFirstFetch E m =
     (case p_candidates m of
        None \<Rightarrow> m
      | Some cs \<Rightarrow>
          let m1 = map_insts (fold (\<lambda>crn is. if crn = p_winner m then is else update_crn crn (lose (pe_now E)) is) cs) m;
              m2 = m1\<lparr>p_candidates := None, p_winner := []\<rparr>
          in if p_winner m = [] then showNotice (str ''First fetch'') (str ''No logs were returned by the selected instances.'') m2
             else m2)"

definition maybeFinalizeFetch :: "('q, 'c) penv \<Rightarrow> ('q, 'c) picker \<Rightarrow> ('q, 'c) picker" where
  "maybeFinalizeFetch E m =
     (if \<not> AreAllQueriesDone (p_instances m) then m
      else if p_pendingFlushes m \<noteq> 0 then m
      else
        let r = (if p_container m \<noteq> None then
                   (if HasAnyLogs (p_instances m) \<or> p_collecting m then finalizeOrNotify E m
                    else (discardBackingContainer E m, False))
                 else (m, False))
        in finishFirstFetch E ((emitFetchDoneEffects E (snd r) (fst r))\<lparr>p_collecting := False\<rparr>))"

section \<open>The watch\<close>

definition watchCapHit :: "('q, 'c) penv \<Rightarrow> ('q, 'c) picker \<Rightarrow> bool" where
  "watchCapHit E m \<longleftrightarrow>
     (let maxF = uint (pc_watchMaxFetches (pe_conf E)); maxD = uint (pc_watchMaxDuration (pe_conf E)) * second
      in (0 < maxF \<and> p_roundCount m \<ge> maxF) \<or> (0 < maxD \<and> pe_now E - p_watchStart m \<ge> maxD))"

definition watch_empty :: "('q, 'c) picker \<Rightarrow> ('q, 'c) inst \<Rightarrow> bool" where
  "watch_empty m i \<longleftrightarrow> isSnapshotMember m (in_CRN i) \<and> IsEnabled i \<and> in_state i \<noteq> PhError \<and> DisplayLogCount i = 0"

definition watchEmpties :: "('q, 'c) picker \<Rightarrow> ('q, 'c) inst list" where
  "watchEmpties m = filter (watch_empty m) (p_instances m)"

definition endWatch :: "('q, 'c) penv \<Rightarrow> ('q, 'c) picker \<Rightarrow> ('q, 'c) picker" where
  "endWatch E m = maybeFinalizeFetch E (m\<lparr>p_watching := False, p_watchEpoch := p_watchEpoch m + 1, p_nextRoundAt := None\<rparr>)"

definition scheduleNextRound :: "('q, 'c) penv \<Rightarrow> ('q, 'c) picker \<Rightarrow> ('q, 'c) picker" where
  "scheduleNextRound E m =
     (let cooldown = uint (pc_watchCooldown (pe_conf E)) * second
      in p_emit (PTick (p_watchEpoch m) cooldown) (m\<lparr>p_nextRoundAt := Some (pe_now E + cooldown)\<rparr>))"

definition evaluateWatchRound :: "('q, 'c) penv \<Rightarrow> ('q, 'c) picker \<Rightarrow> ('q, 'c) picker" where
  "evaluateWatchRound E m =
     (let m1 = m\<lparr>p_roundCount := p_roundCount m + 1\<rparr>
      in if watchEmpties m1 = [] then endWatch E m1
         else if watchCapHit E m1 then endWatch E m1
         else scheduleNextRound E (map_insts (map (\<lambda>i. if watch_empty m1 i then i\<lparr>in_state := PhWatching\<rparr> else i)) m1))"

definition settle :: "('q, 'c) penv \<Rightarrow> ('q, 'c) picker \<Rightarrow> ('q, 'c) picker" where
  "settle E m =
     (if \<not> AreAllQueriesDone (p_instances m) then m
      else if p_watching m then (if p_pendingFlushes m \<noteq> 0 then m else evaluateWatchRound E m)
      else maybeFinalizeFetch E m)"

definition stopWatch :: "('q, 'c) penv \<Rightarrow> ('q, 'c) picker \<Rightarrow> ('q, 'c) picker" where
  "stopWatch E m =
     (if \<not> p_watching m then m
      else map_insts (map (\<lambda>i. if in_state i = PhWatching then lose (pe_now E) i else i))
             (m\<lparr>p_watching := False, p_watchEpoch := p_watchEpoch m + 1, p_nextRoundAt := None\<rparr>))"

end
