(* ===== verification/Picker_Fetch.thy ===== *)
theory Picker_Fetch
  imports Picker
begin

text \<open>
  Selecting rows, starting a fetch, and the handlers of \<^verbatim>\<open>instancepicker.go\<close>: streams, flushes, authentication, the race, the watch,
  collecting, dispatching, restoring, opening. The workers' functions stand beside the handlers of what they post.
\<close>

section \<open>Selecting\<close>

definition pk_New :: "('q, 'c) penv \<Rightarrow> dir \<Rightarrow> ('q, 'c) picker" where
  "pk_New E d =
     (let is = newInstances (pc_batch (pe_conf E)) (pc_effective (pe_conf E))
      in \<lparr>p_instances = is, p_list = (WithItems (pe_u E) (replicate (length is) []) list_New)\<lparr>l_onFuzzyConfirm := True\<rparr>, p_M = mgr_New,
          p_authCtx = 0, p_ctxCancelled = {}, p_nextCtx = 1, p_authGeneration = 0, p_queryStart = zero_time, p_container = None,
          p_file = None, p_path = None, p_backingID = None, p_dir = d, p_fetching = False, p_fetchCancelled = False,
          p_candidates = None, p_winner = [], p_collecting = False, p_pendingFlushes = 0, p_fetchEpoch = 0, p_members = [],
          p_hasMembers = False, p_pendingLoads = [], p_watching = False, p_watchEpoch = 0, p_watchStart = zero_time, p_roundCount = 0,
          p_nextRoundAt = None, p_nameWidth = longestInstanceName E is, p_out = [], p_panicked = False\<rparr>)"

definition pk_Init :: "('q, 'c) picker \<Rightarrow> ('q, 'c) picker" where
  "pk_Init m = syncInstanceState (case p_instances m of [] \<Rightarrow> m | i # is \<Rightarrow> p_emit (PSelect (in_CRN i) False) m)"

definition toggleSelected :: "('q, 'c) penv \<Rightarrow> ('q, 'c) picker \<Rightarrow> ('q, 'c) picker" where
  "toggleSelected E m =
     (case at_cursor m of
        None \<Rightarrow> p_panic m
      | Some k \<Rightarrow> m\<lparr>p_instances := (p_instances m)[k := Toggle (pe_now E) (p_instances m ! k)]\<rparr>)"

text \<open>The positions of \<open>visibleInstances\<close>; a read-only row is left alone by \<open>set_one\<close>.\<close>

definition visibleInstances :: "('q, 'c) picker \<Rightarrow> nat list" where
  "visibleInstances m = filter (\<lambda>i. i < length (p_instances m)) (VisibleIndices (p_list m))"

definition toggleAllVisible :: "('q, 'c) picker \<Rightarrow> ('q, 'c) picker" where
  "toggleAllVisible m =
     (let vis = visibleInstances m;
          b = (\<not> AreAllEnabled (Configured (map (\<lambda>i. p_instances m ! i) vis)))
      in map_insts (\<lambda>is. map (\<lambda>k. if k \<in> set vis then set_one b (is ! k) else is ! k) [0..<length is]) m)"

datatype region = RegionNone | RegionHeader | RegionStatus int | RegionBody int

definition regionAt :: "('q, 'c) penv \<Rightarrow> int \<Rightarrow> int \<Rightarrow> ('q, 'c) picker \<Rightarrow> region" where
  "regionAt E x y m =
     (if in_header y (p_list m) then RegionHeader
      else case RowAtY y (p_list m) of
             None \<Rightarrow> RegionNone
           | Some idx \<Rightarrow>
               if p_instances m = [] then RegionNone
               else let lx = rect_x (snd (Listmodel.subRects (p_list m)))
                    in if lx \<le> x \<and> x < lx + int (pe_labelWidth E) then RegionStatus idx else RegionBody idx)"

definition put_cursor :: "int \<Rightarrow> ('q, 'c) picker \<Rightarrow> ('q, 'c) picker" where
  "put_cursor idx m = m\<lparr>p_list := list_SetCursor idx (p_list m)\<rparr>"

definition p_OnMouseClick :: "('q, 'c) penv \<Rightarrow> int \<Rightarrow> int \<Rightarrow> ('q, 'c) picker \<Rightarrow> ('q, 'c) picker \<times> bool" where
  "p_OnMouseClick E x y m =
     (case regionAt E x y m of
        RegionHeader \<Rightarrow> let r = list_OnMouseClick (pe_u E) x y (p_list m) in (m\<lparr>p_list := fst r\<rparr>, snd r)
      | RegionStatus idx \<Rightarrow> (emitSelect (toggleSelected E (put_cursor idx m)), True)
      | RegionBody idx \<Rightarrow> (emitSelect (put_cursor idx m), True)
      | RegionNone \<Rightarrow> (m, False))"

definition p_OnMouseDoubleClick :: "('q, 'c) penv \<Rightarrow> int \<Rightarrow> int \<Rightarrow> ('q, 'c) picker \<Rightarrow> ('q, 'c) picker \<times> bool" where
  "p_OnMouseDoubleClick E x y m =
     (case regionAt E x y m of
        RegionHeader \<Rightarrow> p_OnMouseClick E x y m
      | RegionStatus idx \<Rightarrow> (m, True)
      | RegionBody idx \<Rightarrow> (OpenInLogViewer (put_cursor idx m), True)
      | RegionNone \<Rightarrow> (m, False))"

definition p_OnMousePaste :: "('q, 'c) penv \<Rightarrow> int \<Rightarrow> int \<Rightarrow> runes \<Rightarrow> ('q, 'c) picker \<Rightarrow> ('q, 'c) picker \<times> bool" where
  "p_OnMousePaste E x y content m =
     (if in_header y (p_list m)
      then let r = list_OnMousePaste (pe_u E) x y content (p_list m) in (m\<lparr>p_list := fst r\<rparr>, snd r)
      else (m, False))"

definition p_OnPaste :: "('q, 'c) penv \<Rightarrow> runes \<Rightarrow> ('q, 'c) picker \<Rightarrow> ('q, 'c) picker" where
  "p_OnPaste E content m =
     (if in_focused (l_input (p_list m)) then m\<lparr>p_list := list_OnPaste (pe_u E) content (p_list m)\<rparr> else m)"

definition p_OnMouseScroll :: "int \<Rightarrow> ('q, 'c) picker \<Rightarrow> ('q, 'c) picker" where
  "p_OnMouseScroll ls m =
     (let m1 = m\<lparr>p_list := list_ScrollViewport ls (p_list m)\<rparr>
      in if GetCursor (p_list m1) \<noteq> GetCursor (p_list m) then emitSelect m1 else m1)"

section \<open>Starting a fetch\<close>

definition spawn_auth :: "gostr \<Rightarrow> (gostr \<times> gostr list) list \<Rightarrow> ('q, 'c) picker \<Rightarrow> ('q, 'c) picker" where
  "spawn_auth query groups m =
     m\<lparr>p_out := p_out m @ map (\<lambda>g. PAuth (p_authCtx m) (p_authGeneration m) (fst g) (snd g) query) groups\<rparr>"

definition open_wip :: "('q, 'c) penv \<Rightarrow> bytes \<Rightarrow> dir \<Rightarrow> ('q, 'c) picker \<Rightarrow> ('q, 'c) picker" where
  "open_wip E f d m =
     (setBackingPath E (Some (Managed f)) (m\<lparr>p_dir := d, p_file := Some f\<rparr>))
       \<lparr>p_container := Some (NewWriter, []), p_fetching := True, p_fetchCancelled := False\<rparr>"

definition startFetchWithSources :: "('q, 'c) penv \<Rightarrow> ('q, 'c) picker \<Rightarrow> ('q, 'c) picker \<times> bool" where
  "startFetchWithSources E m =
     (let m1 = discardBackingContainer E (drainPendingLoads ErrFetchAborted m);
          m2 = m1\<lparr>p_fetchEpoch := p_fetchEpoch m1 + 1, p_pendingFlushes := 0, p_queryStart := pe_now E\<rparr>
      in if \<not> pe_dir_ok E then (m2, False)
         else case CreateWip (pe_token E) (pe_pid E) (p_dir m2) of
                None \<Rightarrow> (m2, False)
              | Some (f, d) \<Rightarrow>
                  let m3 = open_wip E f d m2;
                      m4 = m3\<lparr>p_authGeneration := p_authGeneration m3 + 1,
                              p_M := (p_M m3)\<lparr>mgr_lastFetchedQuery := mgr_query (p_M m3)\<rparr>\<rparr>;
                      r = ResolveTokens (pe_now E) (p_instances m4)
                  in (spawn_auth (mgr_lastFetchedQuery (p_M m4)) (snd r) (m4\<lparr>p_instances := fst r\<rparr>), True))"

definition startFetch :: "('q, 'c) penv \<Rightarrow> ('q, 'c) picker \<Rightarrow> ('q, 'c) picker \<times> bool" where
  "startFetch E m =
     (let m1 = map_insts ClearSources (removeReadOnly E m)
      in startFetchWithSources E (captureSnapshotMembers (EnabledCRNs (p_instances m1)) m1))"

definition startFirstFetch :: "('q, 'c) penv \<Rightarrow> ('q, 'c) picker \<Rightarrow> ('q, 'c) picker \<times> bool" where
  "startFirstFetch E m =
     (let m1 = (if EnabledCRNs (p_instances m) = [] then map_insts (SetAll True) m else m);
          crns = EnabledCRNs (p_instances m1)
      in if crns = [] then (showNotice (str ''First fetch'') (str ''No configured instances are available to fetch.'') m1, True)
         else
           let r = startFetch E (m1\<lparr>p_candidates := Some crns, p_winner := []\<rparr>)
           in if snd r then r else ((fst r)\<lparr>p_candidates := None\<rparr>, False))"

datatype collect_error = CollectBusy | CollectMissing "gostr list" | CollectFailed

definition missing_crns :: "('q, 'c) penv \<Rightarrow> (gostr \<times> gostr) list \<Rightarrow> gostr list" where
  "missing_crns E entries = filter (\<lambda>crn. crn \<notin> cf_CRN ` set (pc_effective (pe_conf E))) (map fst entries)"

text \<open>\<open>startCollect\<close> of an archive: its query, and its instances as CRNs with the ids of their background queries.\<close>

definition startCollect ::
  "('q, 'c) penv \<Rightarrow> gostr \<Rightarrow> (gostr \<times> gostr) list \<Rightarrow> ('q, 'c) picker \<Rightarrow> ('q, 'c) picker \<times> collect_error option" where
  "startCollect E query entries m =
     (if p_fetching m \<or> p_watching m then (m, Some CollectBusy)
      else if missing_crns E entries \<noteq> [] then (m, Some (CollectMissing (missing_crns E entries)))
      else
        let m1 = removeReadOnly E m;
            m2 = p_emit (PSetEditorQuery query) (m1\<lparr>p_M := (p_M m1)\<lparr>mgr_query := query\<rparr>\<rparr>);
            m3 = map_insts (EnableCRNs (map fst entries)) m2;
            m4 = map_insts (fold (\<lambda>e. SetSource (fst e) (snd e)) entries) m3;
            m5 = (captureSnapshotMembers (map fst entries) m4)\<lparr>p_collecting := True\<rparr>;
            r = startFetchWithSources E m5
        in if snd r then (fst r, None) else ((fst r)\<lparr>p_collecting := False\<rparr>, Some CollectFailed))"

section \<open>The stream of an instance\<close>

definition rearm_auth :: "('q, 'c) picker \<Rightarrow> ('q, 'c) picker" where
  "rearm_auth m =
     m\<lparr>p_ctxCancelled := insert (p_authCtx m) (p_ctxCancelled m), p_authGeneration := p_authGeneration m + 1,
       p_authCtx := p_nextCtx m, p_nextCtx := p_nextCtx m + 1\<rparr>"

definition lose_race :: "int \<Rightarrow> ('q, 'c) inst \<Rightarrow> ('q, 'c) inst" where
  "lose_race now i =
     (case in_state i of
        PhAuthInProgress \<Rightarrow> lose now i
      | PhInProgress \<Rightarrow> CancelQuery now i
      | PhWarning \<Rightarrow> lose now (CancelQuery now i)
      | PhError \<Rightarrow> CancelQuery now i
      | _ \<Rightarrow> i)"

definition electFirstFetchWinner :: "('q, 'c) penv \<Rightarrow> gostr \<Rightarrow> ('q, 'c) picker \<Rightarrow> ('q, 'c) picker" where
  "electFirstFetchWinner E w m =
     map_insts (fold (\<lambda>crn is. if crn = w then is else update_crn crn (lose_race (pe_now E)) is)
        (case p_candidates m of Some cs \<Rightarrow> cs | None \<Rightarrow> []))
       (rearm_auth (m\<lparr>p_winner := w\<rparr>))"

definition race_rejects :: "gostr \<Rightarrow> nat \<Rightarrow> ('q, 'c) picker \<Rightarrow> bool" where
  "race_rejects crn mid m \<longleftrightarrow>
     (case p_candidates m of
        None \<Rightarrow> False
      | Some cs \<Rightarrow>
          crn \<notin> set cs \<or>
          (case FindByCRN crn (p_instances m) of
             None \<Rightarrow> True
           | Some i \<Rightarrow> \<not> IsEnabled i \<or> mid \<noteq> st_queryID (in_Store i)) \<or>
          (p_winner m \<noteq> [] \<and> p_winner m \<noteq> crn))"

definition OnLogStream ::
  "('q, 'c) penv \<Rightarrow> gostr \<Rightarrow> nat \<Rightarrow> log list \<Rightarrow> gostr list \<Rightarrow> gostr list \<Rightarrow> ('q, 'c) picker \<Rightarrow> ('q, 'c) picker" where
  "OnLogStream E crn mid logs warns errs m =
     (if race_rejects crn mid m then m
      else
        let m1 = (if p_candidates m \<noteq> None \<and> p_winner m = [] \<and> logs \<noteq> [] then electFirstFetchWinner E crn m else m)
        in syncInstanceState (map_insts (update_crn crn (inst_handleStream (pe_X E) (p_M m1) mid logs warns errs)) m1))"

definition truncationWarning :: gostr where "truncationWarning = str ''collected results truncated at 50000 rows''"

definition setTruncationWarning :: "('q, 'c) inst \<Rightarrow> ('q, 'c) inst" where
  "setTruncationWarning i =
     (let existing = st_message (in_Store i)
      in i\<lparr>in_Store := SetMessage (if existing \<noteq> [] then existing @ SEP @ truncationWarning else truncationWarning) (in_Store i)\<rparr>)"

text \<open>What the stream's end does to the instance, and the logs to flush, if any.\<close>

definition done_inst ::
  "('q, 'c) penv \<Rightarrow> manager \<Rightarrow> bool \<Rightarrow> bool \<Rightarrow> nat \<Rightarrow> gostr list \<Rightarrow> ('q, 'c) inst \<Rightarrow> ('q, 'c) inst \<times> log list option" where
  "done_inst E M collecting backed mid errs i =
     (let i1 = inst_handleDone (pe_X E) M (pe_now E) mid errs i;
          logCount = st_logCount (in_Store i1);
          truncated = (collecting \<and> uint SyncQueryLimit \<le> int logCount);
          flush = (backed \<and> logCount > 0);
          logs = Snapshotize (in_Store i1);
          i2 = (if flush then i1\<lparr>in_flushedCount := int (length logs), in_Store := ClearData (in_Store i1)\<rparr> else i1)
      in (if truncated then setTruncationWarning i2 else i2, if flush then Some logs else None))"

definition OnLogStreamDone :: "('q, 'c) penv \<Rightarrow> gostr \<Rightarrow> nat \<Rightarrow> gostr list \<Rightarrow> ('q, 'c) picker \<Rightarrow> ('q, 'c) picker" where
  "OnLogStreamDone E crn mid errs m =
     syncInstanceState (settle E
       (case FindByCRN crn (p_instances m) of
          None \<Rightarrow> m
        | Some i \<Rightarrow>
            let r = done_inst E (p_M m) (p_collecting m) (p_container m \<noteq> None) mid errs i;
                m1 = map_insts (update_crn crn (\<lambda>_. fst r)) m
            in case snd r of
                 None \<Rightarrow> m1
               | Some logs \<Rightarrow>
                   p_emit (PFlush (in_CRN i) logs (p_fetchEpoch m1)) (m1\<lparr>p_pendingFlushes := p_pendingFlushes m1 + 1\<rparr>)))"

section \<open>Opening an instance\<close>

definition lookup_file :: "('q, 'c) penv \<Rightarrow> bpath \<Rightarrow> dir \<Rightarrow> bytes option" where
  "lookup_file E p d = (case p of Managed n \<Rightarrow> map_option fn_data (map_of d n) | External n \<Rightarrow> pe_external E n)"

definition openDurableFrame :: "('q, 'c) penv \<Rightarrow> gostr \<Rightarrow> bpath \<Rightarrow> ('q, 'c) picker \<Rightarrow> ('q, 'c) picker" where
  "openDurableFrame E crn path m =
     (case lookup_file E path (p_dir m) of
        None \<Rightarrow> p_emit (PRecover crn crn) m
      | Some data \<Rightarrow>
          (case OpenContainerReadOnlyWithOpts True data of
             Inl e \<Rightarrow> p_emit (PLoadReady crn (Inl (OpenFailed e))) m
           | Inr c \<Rightarrow> p_emit (PLoad crn crn c data) m))"

definition load_worker :: "('q, 'c) penv \<Rightarrow> gostr \<Rightarrow> container \<Rightarrow> bytes \<Rightarrow> load_error + log list" where
  "load_worker E name c data =
     (case LoadInstanceLogs (pe_J E) (c, data) (to_bytes name) of Inl e \<Rightarrow> Inl (LoadFailed e) | Inr logs \<Rightarrow> Inr logs)"

definition OpenInstance :: "('q, 'c) penv \<Rightarrow> gostr \<Rightarrow> ('q, 'c) picker \<Rightarrow> ('q, 'c) picker" where
  "OpenInstance E crn m =
     (case p_path m of
        None \<Rightarrow> p_emit (PLoadReady crn (Inl ErrNoBackingFile)) m
      | Some path \<Rightarrow>
          (case FindByCRN crn (p_instances m) of
             None \<Rightarrow> p_emit (PLoadReady crn (Inl ErrInstanceFailed)) m
           | Some i \<Rightarrow>
               if IsReadOnly i \<or> in_flushedCount i > 0 then openDurableFrame E crn path m
               else if in_state i = PhError \<or> in_state i = PhDisabled \<or> in_state i = PhCancelled
               then p_emit (PLoadReady crn (Inl ErrInstanceFailed)) m
               else if st_logCount (in_Store i) > 0 then p_emit (PLoadReady crn (Inr (Snapshotize (in_Store i)))) m
               else p_emit (PLoadPending crn)
                      (m\<lparr>p_pendingLoads := if crn \<in> set (p_pendingLoads m) then p_pendingLoads m else p_pendingLoads m @ [crn]\<rparr>)))"

text \<open>\<open>resolveBackingPath\<close> and \<open>recoverAndLoad\<close> run off the loop; as one step they change the backing and give the result.\<close>

definition resolveBackingPath :: "('q, 'c) penv \<Rightarrow> ('q, 'c) picker \<Rightarrow> ('q, 'c) picker \<times> (load_error + bpath)" where
  "resolveBackingPath E m =
     (case p_path m of
        None \<Rightarrow> (m, Inl ErrNoBackingFile)
      | Some p \<Rightarrow>
          if lookup_file E p (p_dir m) \<noteq> None then (m, Inr p)
          else if backingUUID m = [] then (m, Inl ErrNoBackingFile)
          else case FindByID (pe_J E) (pe_L E) (backingUUID m) (p_dir m) of
                 Inl e \<Rightarrow> (m, Inl IdNotFound)
               | Inr en \<Rightarrow> (setBacking E (Some (Managed (e_path en))) (backingUUID m) m, Inr (Managed (e_path en))))"

definition recoverAndLoad :: "('q, 'c) penv \<Rightarrow> gostr \<Rightarrow> gostr \<Rightarrow> ('q, 'c) picker \<Rightarrow> ('q, 'c) picker" where
  "recoverAndLoad E crn name m =
     (case resolveBackingPath E m of
        (m1, Inl e) \<Rightarrow> p_emit (PLoadReady crn (Inl e)) m1
      | (m1, Inr p) \<Rightarrow>
          (case lookup_file E p (p_dir m1) of
             None \<Rightarrow> p_emit (PLoadReady crn (Inl FileGone)) m1
           | Some data \<Rightarrow>
               (case OpenContainerReadOnlyWithOpts True data of
                  Inl e \<Rightarrow> p_emit (PLoadReady crn (Inl (OpenFailed e))) m1
                | Inr c \<Rightarrow> p_emit (PLoadReady crn (load_worker E name c data)) m1)))"

section \<open>A flush comes back\<close>

definition flush_worker :: "('q, 'c) penv \<Rightarrow> log list \<Rightarrow> s_error + bytes \<times> 64 word" where
  "flush_worker E logs = CompressInstanceLogs (pe_J E) logs"

text \<open>
  Writing the frame: whether it succeeded. A nil container would be a nil dereference.
\<close>

definition write_flush ::
  "('q, 'c) penv \<Rightarrow> gostr \<Rightarrow> s_error + bytes \<times> 64 word \<Rightarrow> ('q, 'c) picker \<Rightarrow> ('q, 'c) picker \<times> bool" where
  "write_flush E crn res m =
     (case res of
        Inl e \<Rightarrow> (m, False)
      | Inr (compressed, ndjson) \<Rightarrow>
          (case FindByCRN crn (p_instances m) of
             None \<Rightarrow> (m, False)
           | Some i \<Rightarrow>
               (case p_container m of
                  None \<Rightarrow> (p_panic m, False)
                | Some w \<Rightarrow>
                    let r = WriteCompressedInstanceFrame (pe_outcomes E) (to_bytes (in_CRN i)) compressed w;
                        m1 = put_container (snd r) m
                    in if fst r \<noteq> None then (m1, False)
                       else (map_insts (update_crn crn (\<lambda>i. i\<lparr>in_flushedSize := ndjson\<rparr>)) m1, True))))"

definition OnInstanceFlushed ::
  "('q, 'c) penv \<Rightarrow> gostr \<Rightarrow> s_error + bytes \<times> 64 word \<Rightarrow> nat \<Rightarrow> ('q, 'c) picker \<Rightarrow> ('q, 'c) picker" where
  "OnInstanceFlushed E crn res epoch m =
     (if epoch \<noteq> p_fetchEpoch m then m
      else
        let r = write_flush E crn res m;
            m1 = (fst r)\<lparr>p_pendingFlushes := p_pendingFlushes (fst r) - 1\<rparr>;
            m2 = (if crn \<in> set (p_pendingLoads m1) then
                    let m' = m1\<lparr>p_pendingLoads := filter (\<lambda>c. c \<noteq> crn) (p_pendingLoads m1)\<rparr>
                    in if snd r then OpenInstance E crn m' else p_emit (PLoadReady crn (Inl ErrFetchAborted)) m'
                  else m1)
        in syncInstanceState (settle E m2))"

section \<open>Authentication\<close>

definition OnMemberAuthResolved :: "('q, 'c) penv \<Rightarrow> gostr \<Rightarrow> gostr \<Rightarrow> gostr \<Rightarrow> nat \<Rightarrow> ('q, 'c) picker \<Rightarrow> ('q, 'c) picker" where
  "OnMemberAuthResolved E crn token query gen m =
     (if gen \<noteq> p_authGeneration m then m
      else case FindByCRN crn (p_instances m) of
             None \<Rightarrow> m
           | Some i \<Rightarrow>
               if \<not> IsEnabled i then m
               else
                 let r = StartQuery token query (pc_maxRows (pe_conf E)) i
                 in syncInstanceState (p_emit PSaveSession (p_emit (PQuery (snd r))
                      (map_insts (update_crn crn (\<lambda>_. StartTimer (pe_now E) (fst r))) m))))"

definition auth_failed :: "int \<Rightarrow> gostr \<Rightarrow> ('q, 'c) inst \<Rightarrow> ('q, 'c) inst" where
  "auth_failed now err i = i\<lparr>in_Store := SetMessage err (in_Store i), in_last := now, in_state := PhError\<rparr>"

definition OnMemberAuthFailed :: "('q, 'c) penv \<Rightarrow> gostr \<Rightarrow> gostr \<Rightarrow> nat \<Rightarrow> ('q, 'c) picker \<Rightarrow> ('q, 'c) picker" where
  "OnMemberAuthFailed E crn err gen m =
     (if gen \<noteq> p_authGeneration m then m
      else if (case p_candidates m of None \<Rightarrow> False | Some cs \<Rightarrow> p_winner m \<noteq> [] \<and> crn \<in> set cs \<and> crn \<noteq> p_winner m)
      then syncInstanceState (settle E m)
      else syncInstanceState (settle E (map_insts (update_crn crn (auth_failed (pe_now E) err)) m)))"

definition transition :: "('q, 'c) penv \<Rightarrow> gostr \<Rightarrow> phase \<Rightarrow> gostr \<Rightarrow> ('q, 'c) picker \<Rightarrow> ('q, 'c) picker" where
  "transition E env to message m = map_insts (TransitionAuthing (pe_now E) env to message) m"

definition OnEnvCredFailed :: "('q, 'c) penv \<Rightarrow> gostr \<Rightarrow> gostr \<Rightarrow> nat \<Rightarrow> ('q, 'c) picker \<Rightarrow> ('q, 'c) picker" where
  "OnEnvCredFailed E env err gen m =
     (if gen \<noteq> p_authGeneration m then m else syncInstanceState (settle E (transition E env PhError err m)))"

definition OnEnvAuthCancelled :: "('q, 'c) penv \<Rightarrow> gostr \<Rightarrow> nat \<Rightarrow> ('q, 'c) picker \<Rightarrow> ('q, 'c) picker" where
  "OnEnvAuthCancelled E env gen m =
     (if gen \<noteq> p_authGeneration m then m else syncInstanceState (settle E (transition E env PhCancelled [] m)))"

definition OnPasscodeRequired :: "gostr \<Rightarrow> gostr \<Rightarrow> nat \<Rightarrow> ('q, 'c) picker \<Rightarrow> ('q, 'c) picker" where
  "OnPasscodeRequired env url gen m =
     (if gen \<noteq> p_authGeneration m then m
      else if p_candidates m \<noteq> None \<and> p_winner m \<noteq> [] then m
      else p_emit (PPasscode env url) m)"

definition resumeEnvAuth :: "('q, 'c) penv \<Rightarrow> gostr \<Rightarrow> ('q, 'c) picker \<Rightarrow> ('q, 'c) picker" where
  "resumeEnvAuth E env m =
     (let members = map in_CRN (filter (\<lambda>i. in_env i = env \<and> in_state i = PhAuthInProgress) (p_instances m))
      in if members = [] then settle E m
         else spawn_auth (mgr_lastFetchedQuery (p_M m)) [(env, members)] m)"

definition OnPasscodeSuccess :: "('q, 'c) penv \<Rightarrow> gostr \<Rightarrow> ('q, 'c) picker \<Rightarrow> ('q, 'c) picker" where
  "OnPasscodeSuccess E env m = syncInstanceState (resumeEnvAuth E env (p_emit PSaveSession m))"

definition OnPasscodeError :: "('q, 'c) penv \<Rightarrow> gostr \<Rightarrow> gostr \<Rightarrow> ('q, 'c) picker \<Rightarrow> ('q, 'c) picker" where
  "OnPasscodeError E env err m =
     syncInstanceState (settle E (showNotice (str ''Authentication Failed'') err (transition E env PhError err m)))"

definition OnPasscodeCancelled :: "('q, 'c) penv \<Rightarrow> gostr \<Rightarrow> ('q, 'c) picker \<Rightarrow> ('q, 'c) picker" where
  "OnPasscodeCancelled E env m = syncInstanceState (settle E (transition E env PhEnabled [] m))"

section \<open>Cancelling, retrying, watching\<close>

definition cancelAllFetches :: "('q, 'c) penv \<Rightarrow> ('q, 'c) picker \<Rightarrow> ('q, 'c) picker" where
  "cancelAllFetches E m =
     (let m1 = rearm_auth (stopWatch E (m\<lparr>p_fetchCancelled := True\<rparr>));
          m2 = map_insts (CancelQueries (pe_now E)) (transition E [] PhCancelled [] m1)
      in (settle E m2)\<lparr>p_collecting := False, p_fetching := False\<rparr>)"

definition retryFailedFetch :: "('q, 'c) penv \<Rightarrow> ('q, 'c) picker \<Rightarrow> ('q, 'c) picker" where
  "retryFailedFetch E m =
     (case at_cursor m of
        None \<Rightarrow> p_panic m
      | Some k \<Rightarrow>
          let r = p_instances m ! k
          in if in_state r \<noteq> PhError then m
             else spawn_auth (mgr_query (p_M m)) [(in_env r, [in_CRN r])]
                    (m\<lparr>p_instances := (p_instances m)[k := StartAuthTimer (pe_now E) (ClearStore r)]\<rparr>))"

definition startWatch :: "('q, 'c) penv \<Rightarrow> ('q, 'c) picker \<Rightarrow> ('q, 'c) picker" where
  "startWatch E m =
     (let r = startFetch E (m\<lparr>p_watching := True, p_watchEpoch := p_watchEpoch m + 1, p_watchStart := pe_now E,
                              p_roundCount := 0, p_nextRoundAt := None\<rparr>)
      in if snd r then fst r else (fst r)\<lparr>p_watching := False\<rparr>)"

definition ToggleWatch :: "('q, 'c) penv \<Rightarrow> ('q, 'c) picker \<Rightarrow> ('q, 'c) picker" where
  "ToggleWatch E m =
     (if p_watching m then settle E (stopWatch E m)
      else if \<not> AreAllQueriesDone (p_instances m) then m
      else startWatch E m)"

definition in_round :: "('q, 'c) picker \<Rightarrow> ('q, 'c) inst \<Rightarrow> bool" where
  "in_round m i \<longleftrightarrow> isSnapshotMember m (in_CRN i) \<and> in_state i = PhWatching"

definition startWatchRound :: "('q, 'c) penv \<Rightarrow> ('q, 'c) picker \<Rightarrow> ('q, 'c) picker" where
  "startWatchRound E m =
     (let m1 = m\<lparr>p_nextRoundAt := None\<rparr>; groups = group_env (filter (in_round m) (p_instances m));
          m2 = map_insts (map (\<lambda>i. if in_round m i then StartAuthTimer (pe_now E) (ClearStore i) else i)) m1
      in if groups = [] then endWatch E m2 else spawn_auth (mgr_lastFetchedQuery (p_M m2)) groups m2)"

definition OnWatchTick :: "('q, 'c) penv \<Rightarrow> nat \<Rightarrow> ('q, 'c) picker \<Rightarrow> ('q, 'c) picker" where
  "OnWatchTick E epoch m =
     (if \<not> p_watching m \<or> epoch \<noteq> p_watchEpoch m then m
      else if watchCapHit E m then endWatch E m
      else syncInstanceState (startWatchRound E m))"

text \<open>The actions of the fetch keys.\<close>

definition fetch_key :: "('q, 'c) penv \<Rightarrow> ('q, 'c) picker \<Rightarrow> ('q, 'c) picker" where
  "fetch_key E m = (if \<not> AreAllQueriesDone (p_instances m) then m else fst (startFetch E m))"

definition first_fetch_key :: "('q, 'c) penv \<Rightarrow> ('q, 'c) picker \<Rightarrow> ('q, 'c) picker" where
  "first_fetch_key E m = (if \<not> AreAllQueriesDone (p_instances m) then m else fst (startFirstFetch E m))"

section \<open>Dispatching an archive\<close>

definition dispatchArchive :: "('q, 'c) penv \<Rightarrow> ('q, 'c) picker \<Rightarrow> ('q, 'c) picker" where
  "dispatchArchive E m =
     (if p_fetching m \<or> p_watching m then showNotice (str ''Archive'') (str ''cannot dispatch while a fetch or watch is running'') m
      else
        let enabled = EnabledCRNs (p_instances m)
        in if enabled = [] then showNotice (str ''Archive'') (str ''select instances first'') m
           else p_emit (PDispatch (p_authCtx m) enabled (mgr_query (p_M m)) (pe_now E))
                  (map_insts (StartDispatchTimers (pe_now E)) (m\<lparr>p_fetching := True\<rparr>)))"

datatype dispatch_msg = DispatchDone gostr bool | ArchiveDispatched bool nat nat

text \<open>
  The worker: \<open>dn k\<close> tells whether its context is cancelled when it is looked at for the \<open>k\<close>-th time, \<open>submit\<close> gives the id of
  the background query or nothing, \<open>wrote\<close> whether the archive file can be written. The flag is \<open>True\<close> when it was not cut short.
\<close>

fun submit_all :: "(nat \<Rightarrow> bool) \<Rightarrow> (gostr \<Rightarrow> gostr option) \<Rightarrow> nat \<Rightarrow> gostr list \<Rightarrow> dispatch_msg list \<times> (gostr \<times> gostr) list \<times> bool" where
  "submit_all dn submit k [] = ([], [], \<not> dn k)"
| "submit_all dn submit k (crn # crns) =
     (if dn k then ([], [], False)
      else
        let r = submit_all dn submit (k + 1) crns
        in case submit crn of
             None \<Rightarrow> (DispatchDone crn False # fst r, snd r)
           | Some i \<Rightarrow> (DispatchDone crn True # fst r, (crn, i) # fst (snd r), snd (snd r)))"

definition dispatch_worker :: "(nat \<Rightarrow> bool) \<Rightarrow> (gostr \<Rightarrow> gostr option) \<Rightarrow> bool \<Rightarrow> gostr list \<Rightarrow> dispatch_msg list" where
  "dispatch_worker dn submit wrote enabled =
     (let r = submit_all dn submit 0 enabled; n = length (fst (snd r))
      in fst r @ (if snd (snd r) then [ArchiveDispatched (0 < n \<and> wrote) n (length enabled)] else []))"

definition OnArchiveDispatched :: "bool \<Rightarrow> nat \<Rightarrow> ('q, 'c) picker \<Rightarrow> ('q, 'c) picker" where
  "OnArchiveDispatched wrote succeeded m =
     (if succeeded = 0 then showNotice (str ''Archive'') (str ''all submits failed, no archive written'') m
      else if \<not> wrote then showNotice (str ''Archive'') (str ''submitted but failed to write the archive file'') m
      else m)"

definition OnDispatchInstanceDone :: "('q, 'c) penv \<Rightarrow> gostr \<Rightarrow> bool \<Rightarrow> ('q, 'c) picker \<Rightarrow> ('q, 'c) picker" where
  "OnDispatchInstanceDone E crn success m =
     (if FindByCRN crn (p_instances m) = None then m
      else
        let m1 = syncInstanceState (map_insts (update_crn crn (FinishDispatch (pe_now E) success)) m)
        in if AreAllQueriesDone (p_instances m1) then m1\<lparr>p_fetching := False\<rparr> else m1)"

section \<open>Snapshots and the end of the session\<close>

definition OnSnapshotRestore :: "('q, 'c) penv \<Rightarrow> snap \<Rightarrow> bpath option \<Rightarrow> ('q, 'c) picker \<Rightarrow> ('q, 'c) picker" where
  "OnSnapshotRestore E s path m =
     (let m1 = stopWatch E m;
          m2 = m1\<lparr>p_M := Logstore.RestoreSnapshot (of_bytes (sn_query s)) (of_bytes (sn_search s)) (of_bytes (sn_jq s))
                  (map (\<lambda>f. \<lparr>r_type = byte_type (fst f), r_value = of_bytes (snd f)\<rparr>) (sn_filters s)) (p_M m1)\<rparr>;
          m3 = map_insts (RestoreSnapshots (pe_now E) (sn_instances s)) (removeReadOnly E m2);
          m4 = setSnapshotMembers (sn_instances s) (appendReadOnlyRows E (sn_instances s) m3);
          m5 = setBacking E path (sn_id s) m4;
          m6 = m5\<lparr>p_list := list_SetCursor 0 (p_list m5)\<rparr>
      in syncInstanceState (if p_instances m6 \<noteq> [] then emitSelect m6 else m6))"

definition OnViewInContext :: "gostr \<Rightarrow> ('q, 'c) picker \<Rightarrow> ('q, 'c) picker" where
  "OnViewInContext crn m = syncInstanceState (map_insts (map (\<lambda>r. if in_CRN r = crn then Enable r else Disable r)) m)"

definition reset_display :: "('q, 'c) inst \<Rightarrow> ('q, 'c) inst" where
  "reset_display i =
     (ResetTimer ((ClearStore i)\<lparr>in_flushedCount := 0, in_flushedSize := 0\<rparr>))
       \<lparr>in_state := if IsEnabled i then PhEnabled else PhDisabled\<rparr>"

definition EvictIfCurrentBacking :: "('q, 'c) penv \<Rightarrow> bytes \<Rightarrow> ('q, 'c) picker \<Rightarrow> ('q, 'c) picker" where
  "EvictIfCurrentBacking E basename m =
     (if backing_base m \<noteq> basename then m
      else
        let m1 = (removeReadOnly E m)\<lparr>p_members := [], p_hasMembers := False\<rparr>
        in syncInstanceState (map_insts (map reset_display) (setBacking E None [] m1)))"

definition OnSnapshotRenamed :: "('q, 'c) penv \<Rightarrow> bytes \<Rightarrow> bytes \<Rightarrow> ('q, 'c) picker \<Rightarrow> ('q, 'c) picker" where
  "OnSnapshotRenamed E old new m =
     (if backing_base m \<noteq> old then m
      else if \<not> pe_dir_ok E then m
      else setBacking E (Some (Managed new)) (backingUUID m) m)"

text \<open>\<open>CancelQueries\<close> and \<open>Close\<close>; the errors of \<open>Close\<close> are only logged by its caller.\<close>

definition p_CancelQueries :: "('q, 'c) penv \<Rightarrow> ('q, 'c) picker \<Rightarrow> ('q, 'c) picker" where
  "p_CancelQueries E m =
     map_insts (CancelQueries (pe_now E))
       (m\<lparr>p_watching := False, p_watchEpoch := p_watchEpoch m + 1, p_ctxCancelled := insert (p_authCtx m) (p_ctxCancelled m)\<rparr>)"

definition p_Close :: "('q, 'c) penv \<Rightarrow> ('q, 'c) picker \<Rightarrow> ('q, 'c) picker" where
  "p_Close E m =
     (let m1 = map_insts (map (inst_Close (pe_now E)))
            (m\<lparr>p_watching := False, p_watchEpoch := p_watchEpoch m + 1, p_ctxCancelled := insert (p_authCtx m) (p_ctxCancelled m)\<rparr>);
          m2 = fst (closeBackingContainer E m1)
      in if pe_claim_ok E [] then m2\<lparr>p_dir := SetOwnInUse (pe_pid E) [] (p_dir m2)\<rparr> else m2)"

end
