(* ===== verification/Picker_Correct.thy ===== *)
theory Picker_Correct
  imports Picker_Fetch
begin

text \<open>
  What holds of every run of the picker and of the flushes it has in flight, in whatever order messages and flushes arrive;
  what a cancelled fetch leaves behind; the race; and three behaviours that lose logs or block the picker.
\<close>

section \<open>Runs\<close>

datatype ('q, 'c) pevent =
    EStream gostr nat "log list" "gostr list" "gostr list" | EDone gostr nat "gostr list"
  | EAuthResolved gostr gostr gostr nat | EAuthFailed gostr gostr nat | EEnvCredFailed gostr gostr nat | EEnvCancelled gostr nat
  | EPasscode gostr gostr nat | EPasscodeOk gostr | EPasscodeError gostr gostr | EPasscodeCancelled gostr
  | ETick nat | EFetch | EFirst | ERetry | ECancelAll | EWatch | EToggle | EToggleAll | ECollect gostr "(gostr \<times> gostr) list"
  | EDispatch | EDispatchDone gostr bool | EArchived bool nat | ERestore snap "bpath option" | EContext gostr | EEvict bytes
  | ERenamed bytes bytes | EOpen gostr | ERecover gostr gostr | EClick int int | EDoubleClick int int | EScroll int | EPasteText runes

fun p_event :: "('q, 'c) penv \<Rightarrow> ('q, 'c) pevent \<Rightarrow> ('q, 'c) picker \<Rightarrow> ('q, 'c) picker" where
  "p_event E (EStream crn i logs warns errs) m = OnLogStream E crn i logs warns errs m"
| "p_event E (EDone crn i errs) m = OnLogStreamDone E crn i errs m"
| "p_event E (EAuthResolved crn token query gen) m = OnMemberAuthResolved E crn token query gen m"
| "p_event E (EAuthFailed crn e gen) m = OnMemberAuthFailed E crn e gen m"
| "p_event E (EEnvCredFailed env e gen) m = OnEnvCredFailed E env e gen m"
| "p_event E (EEnvCancelled env gen) m = OnEnvAuthCancelled E env gen m"
| "p_event E (EPasscode env url gen) m = OnPasscodeRequired env url gen m"
| "p_event E (EPasscodeOk env) m = OnPasscodeSuccess E env m"
| "p_event E (EPasscodeError env e) m = OnPasscodeError E env e m"
| "p_event E (EPasscodeCancelled env) m = OnPasscodeCancelled E env m"
| "p_event E (ETick ep) m = OnWatchTick E ep m"
| "p_event E EFetch m = fetch_key E m"
| "p_event E EFirst m = first_fetch_key E m"
| "p_event E ERetry m = retryFailedFetch E m"
| "p_event E ECancelAll m = cancelAllFetches E m"
| "p_event E EWatch m = ToggleWatch E m"
| "p_event E EToggle m = toggleSelected E m"
| "p_event E EToggleAll m = toggleAllVisible m"
| "p_event E (ECollect q entries) m = fst (startCollect E q entries m)"
| "p_event E EDispatch m = dispatchArchive E m"
| "p_event E (EDispatchDone crn b) m = OnDispatchInstanceDone E crn b m"
| "p_event E (EArchived b n) m = OnArchiveDispatched b n m"
| "p_event E (ERestore s path) m = OnSnapshotRestore E s path m"
| "p_event E (EContext crn) m = OnViewInContext crn m"
| "p_event E (EEvict b) m = EvictIfCurrentBacking E b m"
| "p_event E (ERenamed old new) m = OnSnapshotRenamed E old new m"
| "p_event E (EOpen crn) m = OpenInstance E crn m"
| "p_event E (ERecover crn name) m = recoverAndLoad E crn name m"
| "p_event E (EClick x y) m = fst (p_OnMouseClick E x y m)"
| "p_event E (EDoubleClick x y) m = fst (p_OnMouseDoubleClick E x y m)"
| "p_event E (EScroll n) m = p_OnMouseScroll n m"
| "p_event E (EPasteText t) m = p_OnPaste E t m"

text \<open>
  A system is a picker and the flushes in flight. A step is an event, whose spawned flushes join those in flight, or one of
  them coming back, whichever: the environment may differ from step to step.
\<close>

type_synonym flight = "gostr \<times> log list \<times> nat"

fun flights_of :: "pout list \<Rightarrow> flight list" where
  "flights_of [] = []"
| "flights_of (PFlush crn logs ep # os) = (crn, logs, ep) # flights_of os"
| "flights_of (x # os) = flights_of os"

lemma flights_append [simp]: "flights_of (xs @ ys) = flights_of xs @ flights_of ys"
  by (induction xs rule: flights_of.induct) auto

inductive sys_step :: "('q, 'c) picker \<times> flight list \<Rightarrow> ('q, 'c) picker \<times> flight list \<Rightarrow> bool" where
  event: "m' = p_event E ev (m\<lparr>p_out := []\<rparr>) \<Longrightarrow> sys_step (m, fl) (m', fl @ flights_of (p_out m'))"
| flushed: "m' = OnInstanceFlushed E crn (flush_worker E logs) ep (m\<lparr>p_out := []\<rparr>)
    \<Longrightarrow> sys_step (m, xs @ (crn, logs, ep) # ys) (m', (xs @ ys) @ flights_of (p_out m'))"

inductive_cases sys_stepE: "sys_step (m, fl) (m', fl')"

section \<open>The invariant\<close>

text \<open>Running queries have their cancel function.\<close>

definition live :: "('q, 'c) inst \<Rightarrow> bool" where
  "live i \<longleftrightarrow> (in_state i = PhInProgress \<longrightarrow> in_cancel i \<noteq> None)"

definition current :: "nat \<Rightarrow> flight list \<Rightarrow> flight list" where
  "current ep fl = filter (\<lambda>f. snd (snd f) = ep) fl"

definition sys_ok :: "flight list \<Rightarrow> ('q, 'c) picker \<Rightarrow> bool" where
  "sys_ok fl m \<longleftrightarrow>
     p_pendingFlushes m = int (length (current (p_fetchEpoch m) (fl @ flights_of (p_out m)))) \<and>
     list_all (\<lambda>f. snd (snd f) \<le> p_fetchEpoch m) (fl @ flights_of (p_out m)) \<and>
     (p_pendingFlushes m \<noteq> 0 \<longrightarrow> p_container m \<noteq> None) \<and>
     (p_container m \<noteq> None \<longrightarrow> p_file m \<noteq> None) \<and>
     list_all live (p_instances m)"

named_theorems sys_intros \<open>operations of the picker keep sys_ok\<close>

lemma current_append [simp]: "current ep (xs @ ys) = current ep xs @ current ep ys"
  by (simp add: current_def)

subsection \<open>Instances stay live\<close>

lemma live_ops [simp]:
  "live i \<Longrightarrow> live (inst_handleStream X M k logs warns errs i)"
  "live i \<Longrightarrow> live (inst_handleDone X M now k errs i)"
  "live i \<Longrightarrow> live (CancelQuery now i)"
  "live i \<Longrightarrow> live (Toggle now i)"
  "live (StartTimer now (fst (StartQuery token query n i)))"
  "live (StartAuthTimer now i)"
  "live i \<Longrightarrow> live (FinishDispatch now b i)"
  "live i \<Longrightarrow> live (ClearStore i)"
  "live i \<Longrightarrow> live (ResetTimer i)"
  "live (lose now i)"
  "live i \<Longrightarrow> live (lose_race now i)"
  "live i \<Longrightarrow> live (inst_Restore s i)"
  "live (ResetSnapshotDisplay now i)"
  "live i \<Longrightarrow> live (Enable i)" "live i \<Longrightarrow> live (Disable i)"
  "live i \<Longrightarrow> live (set_one b i)"
  "live i \<Longrightarrow> live (resolve_one now i)"
  "live (auth_failed now e i)"
  "live (reset_display i)"
  "live (NewInstance batch name url crn env)"
  by (auto simp: live_def inst_handleStream_def inst_handleDone_def CancelQuery_def Toggle_def StartTimer_def StartQuery_def
      StartAuthTimer_def FinishDispatch_def ClearStore_def ResetTimer_def lose_def lose_race_def inst_Restore_def busy_def Let_def
      ResetSnapshotDisplay_def Enable_def Disable_def set_one_def resolve_one_def auth_failed_def reset_display_def NewInstance_def
      split: option.splits phase.splits if_splits)

lemma live_transition [simp]: "live i \<Longrightarrow> to \<noteq> PhInProgress \<Longrightarrow> live (transition_one now env to msg i)"
  by (auto simp: live_def transition_one_def ResetTimer_def Let_def)

lemma live_done [simp]: "live i \<Longrightarrow> live (fst (done_inst E M c b k errs i))"
  using live_ops(2) [of i "pe_X E" M "pe_now E" k errs] by (simp add: live_def done_inst_def Let_def setTruncationWarning_def)

lemma live_readonly: "NewReadOnlyInstance batch parse s = Inr i \<Longrightarrow> live i"
  by (auto simp: NewReadOnlyInstance_def live_def Let_def split: sum.splits)

lemma live_update_crn [simp]: "list_all live is \<Longrightarrow> (\<And>i. live i \<Longrightarrow> live (f i)) \<Longrightarrow> list_all live (update_crn crn f is)"
  by (induction "is") auto

lemma live_fold [simp]:
  "list_all live is \<Longrightarrow> (\<And>x is. list_all live is \<Longrightarrow> list_all live (f x is)) \<Longrightarrow> list_all live (fold f xs is)"
  by (induction xs arbitrary: "is") auto

lemma live_map [simp]: "list_all live is \<Longrightarrow> (\<And>i. live i \<Longrightarrow> live (f i)) \<Longrightarrow> list_all live (map f is)"
  by (induction "is") auto

lemma live_nth: "list_all live is \<Longrightarrow> k < length is \<Longrightarrow> live (is ! k)"
  by (simp add: list_all_length)

lemma live_find: "FindByCRN crn is = Some i \<Longrightarrow> list_all live is \<Longrightarrow> live i"
  by (auto simp: FindByCRN_def find_Some_iff list_all_length)

lemma live_append_read_only: "list_all live is \<Longrightarrow> list_all live (fst (append_read_only E ss is))"
  by (induction E ss "is" rule: append_read_only.induct) (auto split: sum.splits dest: live_readonly)

lemma live_source [simp]: "live i \<Longrightarrow> live (i\<lparr>in_source := q\<rparr>)" "live i \<Longrightarrow> live (i\<lparr>in_flushedSize := n\<rparr>)"
  by (simp_all add: live_def)

lemma live_mapI: "(\<And>i. i \<in> set is \<Longrightarrow> live i \<Longrightarrow> live (f i)) \<Longrightarrow> list_all live is \<Longrightarrow> list_all live (map f is)"
  by (simp add: list_all_iff)

lemma live_lists [simp]:
  assumes "list_all live is"
  shows "list_all live (Configured is)" "list_all live (ClearSources is)" "list_all live (SetAll b is)"
    "list_all live (EnableCRNs crns is)" "list_all live (SetSource crn q is)" "list_all live (StartDispatchTimers now is)"
    "list_all live (CancelQueries now is)" "list_all live (RestoreSnapshots now ss is)"
    "list_all live (fst (ResolveTokens now is))"
    "to \<noteq> PhInProgress \<Longrightarrow> list_all live (TransitionAuthing now env to msg is)"
  using assms
  by (simp add: Configured_def list_all_iff, simp add: ClearSources_def, simp add: SetAll_def,
      simp_all add: EnableCRNs_def SetSource_def StartDispatchTimers_def CancelQueries_def ResolveTokens_def TransitionAuthing_def)
     (simp_all add: RestoreSnapshots_def Let_def split: option.split)

subsection \<open>What operations on the file leave alone\<close>

definition same_work :: "('q, 'c) picker \<Rightarrow> ('q, 'c) picker \<Rightarrow> bool" where
  "same_work m m' \<longleftrightarrow>
     p_fetchEpoch m' = p_fetchEpoch m \<and> p_pendingFlushes m' = p_pendingFlushes m \<and> p_instances m' = p_instances m \<and>
     flights_of (p_out m') = flights_of (p_out m) \<and> p_watching m' = p_watching m \<and> p_candidates m' = p_candidates m"

lemma same_work_trans [trans]: "same_work a b \<Longrightarrow> same_work b c \<Longrightarrow> same_work a c"
  by (simp add: same_work_def)

lemma same_work_refl [simp]: "same_work m m"
  by (simp add: same_work_def)

lemma setBackingPath_work: "same_work m (setBackingPath E path m)"
  "p_container (setBackingPath E path m) = p_container m" "p_file (setBackingPath E path m) = p_file m"
  by (auto simp: same_work_def setBackingPath_def Let_def split: option.splits bpath.splits)

lemma setBacking_work: "same_work m (setBacking E path i m)"
  "p_container (setBacking E path i m) = p_container m" "p_file (setBacking E path i m) = p_file m"
  using setBackingPath_work [where m = m and E = E and path = path] by (simp_all add: setBacking_def p_emit_def same_work_def)

lemma put_container_work: "same_work m (put_container w m)" "p_file (put_container w m) = p_file m"
  "p_container (put_container w m) = Some w"
  by (auto simp: same_work_def put_container_def)

lemma closeBackingContainer_work:
  "same_work m (fst (closeBackingContainer E m))" "p_container (fst (closeBackingContainer E m)) = None"
  "p_file (fst (closeBackingContainer E m)) = None"
  by (auto simp: same_work_def closeBackingContainer_def Let_def put_container_def setBackingPath_work
      setBackingPath_work(1) [unfolded same_work_def] split: option.splits)

lemma discardBackingContainer_work:
  "same_work m (discardBackingContainer E m)" "p_container (discardBackingContainer E m) = None" "p_file (discardBackingContainer E m) = None"
  using closeBackingContainer_work [where m = m and E = E] by (auto simp: discardBackingContainer_def Let_def same_work_def)

lemma publish_wip_work:
  "same_work m (fst (publish_wip E wip i m))" "p_container (fst (publish_wip E wip i m)) = p_container m"
  by (auto simp: publish_wip_def Let_def setBacking_work setBacking_work(1) [unfolded same_work_def] same_work_def split: sum.splits prod.splits)

lemma finalizeBackingContainer_work:
  assumes "p_container m \<noteq> None" "p_file m \<noteq> None"
  shows "same_work m (fst (finalizeBackingContainer E m))" "p_container (fst (finalizeBackingContainer E m)) = None"
  using assms
  by (auto simp: finalizeBackingContainer_def Let_def closeBackingContainer_work publish_wip_work
      intro: same_work_trans [OF put_container_work(1) closeBackingContainer_work(1)]
        same_work_trans [OF put_container_work(1) same_work_trans [OF put_container_work(1) closeBackingContainer_work(1)]]
        same_work_trans [OF put_container_work(1) same_work_trans [OF put_container_work(1)
          same_work_trans [OF closeBackingContainer_work(1) publish_wip_work(1)]]])

lemma finalizeOrNotify_work:
  assumes "p_container m \<noteq> None" "p_file m \<noteq> None"
  shows "same_work m (fst (finalizeOrNotify E m))" "p_container (fst (finalizeOrNotify E m)) = None"
  using finalizeBackingContainer_work [OF assms, of E]
  by (auto simp: finalizeOrNotify_def showNotice_def p_emit_def same_work_def split: prod.splits fin.splits)

subsection \<open>The operations\<close>

text \<open>What \<open>sys_ok\<close> reads; a change of anything else is free.\<close>

lemma sys_ok_same:
  assumes "sys_ok fl m" "same_work m m'" "p_container m' = p_container m" "p_file m' = p_file m"
  shows "sys_ok fl m'"
  using assms by (simp add: sys_ok_def same_work_def)

lemma sys_ok_closed:
  assumes "sys_ok fl m" "same_work m m'" "p_container m' = None" "p_pendingFlushes m = 0"
  shows "sys_ok fl m'"
  using assms by (simp add: sys_ok_def same_work_def)

lemma sys_ok_insts [sys_intros]:
  "sys_ok fl m \<Longrightarrow> list_all live is \<Longrightarrow> sys_ok fl (m\<lparr>p_instances := is\<rparr>)"
  by (simp add: sys_ok_def)

lemma sys_ok_live: "sys_ok fl m \<Longrightarrow> list_all live (p_instances m)"
  by (simp add: sys_ok_def)

lemma sys_ok_map_insts [sys_intros]: "sys_ok fl m \<Longrightarrow> (list_all live (p_instances m) \<Longrightarrow> list_all live (f (p_instances m))) \<Longrightarrow> sys_ok fl (map_insts f m)"
  by (simp add: sys_ok_def map_insts_def)

lemma sys_ok_fields [simp]:
  "sys_ok fl (m\<lparr>p_list := a1\<rparr>) = sys_ok fl m" "sys_ok fl (m\<lparr>p_M := a2\<rparr>) = sys_ok fl m"
  "sys_ok fl (m\<lparr>p_authGeneration := a3\<rparr>) = sys_ok fl m" "sys_ok fl (m\<lparr>p_fetching := a4\<rparr>) = sys_ok fl m"
  "sys_ok fl (m\<lparr>p_fetchCancelled := a5\<rparr>) = sys_ok fl m" "sys_ok fl (m\<lparr>p_candidates := a6\<rparr>) = sys_ok fl m"
  "sys_ok fl (m\<lparr>p_winner := a7\<rparr>) = sys_ok fl m" "sys_ok fl (m\<lparr>p_collecting := a8\<rparr>) = sys_ok fl m"
  "sys_ok fl (m\<lparr>p_members := a9\<rparr>) = sys_ok fl m" "sys_ok fl (m\<lparr>p_hasMembers := a10\<rparr>) = sys_ok fl m"
  "sys_ok fl (m\<lparr>p_pendingLoads := b1\<rparr>) = sys_ok fl m" "sys_ok fl (m\<lparr>p_watching := b2\<rparr>) = sys_ok fl m"
  "sys_ok fl (m\<lparr>p_watchEpoch := b3\<rparr>) = sys_ok fl m" "sys_ok fl (m\<lparr>p_watchStart := b4\<rparr>) = sys_ok fl m"
  "sys_ok fl (m\<lparr>p_roundCount := b5\<rparr>) = sys_ok fl m" "sys_ok fl (m\<lparr>p_nextRoundAt := b6\<rparr>) = sys_ok fl m"
  "sys_ok fl (m\<lparr>p_nameWidth := b7\<rparr>) = sys_ok fl m" "sys_ok fl (m\<lparr>p_panicked := b8\<rparr>) = sys_ok fl m"
  "sys_ok fl (m\<lparr>p_queryStart := b9\<rparr>) = sys_ok fl m" "sys_ok fl (m\<lparr>p_dir := c1\<rparr>) = sys_ok fl m"
  "sys_ok fl (m\<lparr>p_authCtx := c2\<rparr>) = sys_ok fl m" "sys_ok fl (m\<lparr>p_ctxCancelled := c3\<rparr>) = sys_ok fl m"
  "sys_ok fl (m\<lparr>p_nextCtx := c4\<rparr>) = sys_ok fl m" "sys_ok fl (m\<lparr>p_path := c5\<rparr>) = sys_ok fl m"
  "sys_ok fl (m\<lparr>p_backingID := c6\<rparr>) = sys_ok fl m"
  by (simp_all add: sys_ok_def)

lemma sys_ok_out [sys_intros]: "sys_ok fl m \<Longrightarrow> flights_of os = [] \<Longrightarrow> sys_ok fl (m\<lparr>p_out := p_out m @ os\<rparr>)"
  by (simp add: sys_ok_def)

lemma sys_ok_emit [sys_intros]: "sys_ok fl m \<Longrightarrow> flights_of [x] = [] \<Longrightarrow> sys_ok fl (p_emit x m)"
  by (simp add: sys_ok_def p_emit_def)

lemma sys_ok_p_panic [simp]: "sys_ok fl (p_panic m) = sys_ok fl m"
  by (simp add: p_panic_def)

lemma sys_ok_showNotice [sys_intros]: "sys_ok fl m \<Longrightarrow> sys_ok fl (showNotice a b m)"
  by (simp add: showNotice_def sys_intros)

lemma sys_ok_sync [simp]: "sys_ok fl (syncInstanceState m) = sys_ok fl m"
  by (simp add: syncInstanceState_def)

lemma sys_ok_select_first [sys_intros]: "sys_ok fl m \<Longrightarrow> sys_ok fl (select_first b m)"
  by (auto simp: select_first_def intro!: sys_intros split: option.splits)

lemma sys_ok_setBackingPath [sys_intros]: "sys_ok fl m \<Longrightarrow> sys_ok fl (setBackingPath E path m)"
  by (rule sys_ok_same) (auto simp: setBackingPath_work)

lemma sys_ok_setBacking [sys_intros]: "sys_ok fl m \<Longrightarrow> sys_ok fl (setBacking E path i m)"
  by (rule sys_ok_same) (auto simp: setBacking_work)

lemma sys_ok_put_container [sys_intros]: "sys_ok fl m \<Longrightarrow> p_container m \<noteq> None \<Longrightarrow> sys_ok fl (put_container w m)"
  using put_container_work [where m = m and w = w] by (simp add: sys_ok_def same_work_def)

lemma sys_ok_finishFirstFetch [sys_intros]: "sys_ok fl m \<Longrightarrow> sys_ok fl (finishFirstFetch E m)"
  by (auto simp: finishFirstFetch_def Let_def intro!: sys_intros split: option.splits)

lemma sys_ok_effects [sys_intros]: "sys_ok fl m \<Longrightarrow> sys_ok fl (emitFetchDoneEffects E b m)"
  by (auto simp: emitFetchDoneEffects_def Let_def intro!: sys_intros)

lemma sys_ok_maybeFinalizeFetch [sys_intros]:
  assumes "sys_ok fl m"
  shows "sys_ok fl (maybeFinalizeFetch E m)"
proof -
  have "sys_ok fl (fst (finalizeOrNotify E m))" if "p_container m \<noteq> None" "p_pendingFlushes m = 0"
    using assms that finalizeOrNotify_work [of m E] by (intro sys_ok_closed [OF assms]) (auto simp: sys_ok_def)
  moreover have "sys_ok fl (discardBackingContainer E m)" if "p_pendingFlushes m = 0"
    using assms that by (intro sys_ok_closed [OF assms]) (auto simp: discardBackingContainer_work)
  ultimately show ?thesis
    using assms by (auto simp: maybeFinalizeFetch_def Let_def intro!: sys_intros)
qed

lemma sys_ok_endWatch [sys_intros]: "sys_ok fl m \<Longrightarrow> sys_ok fl (endWatch E m)"
  by (simp add: endWatch_def sys_intros)

lemma live_watching: "live i \<Longrightarrow> live (i\<lparr>in_state := PhWatching\<rparr>)"
  by (simp add: live_def)

lemma sys_ok_evaluate [sys_intros]: "sys_ok fl m \<Longrightarrow> sys_ok fl (evaluateWatchRound E m)"
  by (auto simp: evaluateWatchRound_def Let_def scheduleNextRound_def live_watching intro!: sys_intros live_map)

lemma sys_ok_settle [sys_intros]: "sys_ok fl m \<Longrightarrow> sys_ok fl (settle E m)"
  by (auto simp: settle_def intro!: sys_intros)

lemma sys_ok_stopWatch [sys_intros]: "sys_ok fl m \<Longrightarrow> sys_ok fl (stopWatch E m)"
  by (auto simp: stopWatch_def intro!: sys_intros live_map)

lemma sys_ok_relist [sys_intros]: "sys_ok fl m \<Longrightarrow> sys_ok fl (relist E m)"
  by (simp add: relist_def)

lemma flights_removed [simp]: "flights_of (map (\<lambda>i. PRemoveReadOnly (f i)) is) = []"
  by (induction "is") auto

lemma flights_auth [simp]: "flights_of (map (\<lambda>g. PAuth a b (f g) (h g) q) gs) = []"
  by (induction gs) auto

lemma flights_loads [simp]: "flights_of (map (\<lambda>c. PLoadReady c r) cs) = []"
  by (induction cs) auto

lemma sys_ok_removeReadOnly [sys_intros]: "sys_ok fl m \<Longrightarrow> sys_ok fl (removeReadOnly E m)"
  by (auto simp: removeReadOnly_def sys_ok_def relist_def)

lemma sys_ok_appendReadOnlyRows [sys_intros]: "sys_ok fl m \<Longrightarrow> sys_ok fl (appendReadOnlyRows E ss m)"
  using live_append_read_only [of "p_instances m" E ss]
  by (auto simp: appendReadOnlyRows_def Let_def sys_ok_live intro!: sys_intros)

lemma sys_ok_members [sys_intros]: "sys_ok fl m \<Longrightarrow> sys_ok fl (setSnapshotMembers ms m)" "sys_ok fl m \<Longrightarrow> sys_ok fl (captureSnapshotMembers crns m)"
  by (simp_all add: setSnapshotMembers_def captureSnapshotMembers_def)

lemma sys_ok_spawn_auth [sys_intros]: "sys_ok fl m \<Longrightarrow> sys_ok fl (spawn_auth q gs m)"
  by (auto simp: spawn_auth_def intro!: sys_intros)

lemma sys_ok_drain: "same_work m (drainPendingLoads c m)"
  by (simp add: drainPendingLoads_def same_work_def)

text \<open>A new fetch leaves the flushes of the old one behind.\<close>

lemma current_new: "list_all (\<lambda>f. snd (snd f) \<le> n) fl \<Longrightarrow> current (Suc n) fl = []"
  by (auto simp: current_def list_all_iff filter_empty_conv)

lemma older: "list_all (\<lambda>f. snd (snd f) \<le> n) fl \<Longrightarrow> list_all (\<lambda>f. snd (snd f) \<le> Suc n) fl"
  by (auto simp: list_all_iff)

lemma sys_ok_open_wip: "sys_ok fl m \<Longrightarrow> sys_ok fl (open_wip E f d m)"
  using setBackingPath_work [where E = E and path = "Some (Managed f)" and m = "m\<lparr>p_dir := d, p_file := Some f\<rparr>"]
  by (simp add: open_wip_def sys_ok_def same_work_def)

lemma sys_ok_tokens: "sys_ok fl x \<Longrightarrow> list_all live (fst (ResolveTokens now (p_instances x)))"
  by (intro live_lists(9)) (rule sys_ok_live)

lemma sys_ok_startFetchWithSources [sys_intros]:
  assumes "sys_ok fl m"
  shows "sys_ok fl (fst (startFetchWithSources E m))"
proof -
  let ?m1 = "discardBackingContainer E (drainPendingLoads ErrFetchAborted m)"
  let ?m2 = "?m1\<lparr>p_fetchEpoch := p_fetchEpoch ?m1 + 1, p_pendingFlushes := 0, p_queryStart := pe_now E\<rparr>"
  have "same_work m ?m1" by (rule same_work_trans [OF sys_ok_drain discardBackingContainer_work(1)])
  then have "sys_ok fl ?m2"
    using assms by (simp add: sys_ok_def same_work_def discardBackingContainer_work current_new older)
  then show ?thesis
    unfolding startFetchWithSources_def Let_def
    by (auto intro!: sys_intros sys_ok_open_wip sys_ok_tokens split: option.split)
qed

lemma sys_ok_startFetch [sys_intros]: "sys_ok fl m \<Longrightarrow> sys_ok fl (fst (startFetch E m))"
  by (auto simp: startFetch_def Let_def intro!: sys_intros)

lemma sys_ok_startFirstFetch [sys_intros]: "sys_ok fl m \<Longrightarrow> sys_ok fl (fst (startFirstFetch E m))"
  by (auto simp: startFirstFetch_def Let_def intro!: sys_intros)

lemma sys_ok_startCollect [sys_intros]: "sys_ok fl m \<Longrightarrow> sys_ok fl (fst (startCollect E q es m))"
  by (auto simp: startCollect_def Let_def intro!: sys_intros)

lemma sys_ok_rearm [simp]: "sys_ok fl (rearm_auth m) = sys_ok fl m"
  by (simp add: rearm_auth_def)

lemma sys_ok_elect [sys_intros]: "sys_ok fl m \<Longrightarrow> sys_ok fl (electFirstFetchWinner E w m)"
  by (auto simp: electFirstFetchWinner_def intro!: sys_intros)

lemma sys_ok_OnLogStream [sys_intros]: "sys_ok fl m \<Longrightarrow> sys_ok fl (OnLogStream E crn k logs warns errs m)"
  by (auto simp: OnLogStream_def Let_def intro!: sys_intros)

lemma sys_ok_flush:
  "sys_ok fl m \<Longrightarrow> p_container m \<noteq> None \<Longrightarrow>
     sys_ok fl (p_emit (PFlush crn logs (p_fetchEpoch m)) (m\<lparr>p_pendingFlushes := p_pendingFlushes m + 1\<rparr>))"
  by (simp add: sys_ok_def p_emit_def current_def)

lemma sys_ok_OnLogStreamDone [sys_intros]:
  assumes "sys_ok fl m"
  shows "sys_ok fl (OnLogStreamDone E crn k errs m)"
proof (cases "FindByCRN crn (p_instances m)")
  case (Some i)
  let ?r = "done_inst E (p_M m) (p_collecting m) (p_container m \<noteq> None) k errs i"
  let ?m1 = "map_insts (update_crn crn (\<lambda>_. fst ?r)) m"
  have "live (fst ?r)" using live_find [OF Some] assms by (simp add: sys_ok_def)
  then have 1: "sys_ok fl ?m1" using assms by (intro sys_intros) simp_all
  have 2: "snd ?r = Some logs \<Longrightarrow> p_container ?m1 \<noteq> None" for logs
    by (auto simp: done_inst_def Let_def map_insts_def split: if_splits)
  show ?thesis
    using 1 sys_ok_flush [OF 1 2] Some
    by (cases "snd ?r") (simp_all add: OnLogStreamDone_def Let_def sys_ok_settle)
qed (simp add: OnLogStreamDone_def assms sys_intros)

lemma sys_ok_openDurableFrame [sys_intros]: "sys_ok fl m \<Longrightarrow> sys_ok fl (openDurableFrame E crn path m)"
  by (auto simp: openDurableFrame_def intro!: sys_intros split: option.splits sum.splits)

lemma sys_ok_OpenInstance [sys_intros]: "sys_ok fl m \<Longrightarrow> sys_ok fl (OpenInstance E crn m)"
  by (auto simp: OpenInstance_def intro!: sys_intros split: option.splits)

lemma sys_ok_resolve [sys_intros]: "sys_ok fl m \<Longrightarrow> sys_ok fl (fst (resolveBackingPath E m))"
  by (auto simp: resolveBackingPath_def intro!: sys_intros split: option.splits sum.splits)

lemma sys_ok_recover [sys_intros]: "sys_ok fl m \<Longrightarrow> sys_ok fl (recoverAndLoad E crn name m)"
  using sys_ok_resolve [of fl m E]
  by (auto simp: recoverAndLoad_def intro!: sys_intros split: prod.splits option.splits sum.splits)

lemma sys_ok_resolved [sys_intros]:
  assumes "sys_ok fl m"
  shows "sys_ok fl (OnMemberAuthResolved E crn token q gen m)"
  using assms by (auto simp: OnMemberAuthResolved_def Let_def intro!: sys_intros split: option.split)

lemma sys_ok_transition [sys_intros]: "sys_ok fl m \<Longrightarrow> to \<noteq> PhInProgress \<Longrightarrow> sys_ok fl (transition E env to msg m)"
  by (simp add: transition_def sys_intros)

lemma sys_ok_auth [sys_intros]:
  assumes "sys_ok fl m"
  shows "sys_ok fl (OnMemberAuthFailed E crn e gen m)" "sys_ok fl (OnEnvCredFailed E env e gen m)"
    "sys_ok fl (OnEnvAuthCancelled E env gen m)" "sys_ok fl (OnPasscodeRequired env url gen m)"
    "sys_ok fl (resumeEnvAuth E env m)" "sys_ok fl (OnPasscodeSuccess E env m)" "sys_ok fl (OnPasscodeError E env e m)"
    "sys_ok fl (OnPasscodeCancelled E env m)"
  using assms
  by (auto simp: OnMemberAuthFailed_def OnEnvCredFailed_def OnEnvAuthCancelled_def OnPasscodeRequired_def resumeEnvAuth_def
      OnPasscodeSuccess_def OnPasscodeError_def OnPasscodeCancelled_def Let_def intro!: sys_intros)

lemma live_list_update: "list_all live is \<Longrightarrow> live i \<Longrightarrow> list_all live (is[k := i])"
  by (auto simp: list_all_iff dest!: set_update_subset_insert [THEN subsetD])

lemma at_cursor_less: "at_cursor m = Some k \<Longrightarrow> k < length (p_instances m)"
  by (auto simp: at_cursor_def split: option.splits if_splits)

lemma sys_ok_keys [sys_intros]:
  assumes "sys_ok fl m"
  shows "sys_ok fl (cancelAllFetches E m)" "sys_ok fl (retryFailedFetch E m)" "sys_ok fl (startWatch E m)" "sys_ok fl (ToggleWatch E m)"
    "sys_ok fl (fetch_key E m)" "sys_ok fl (first_fetch_key E m)" "sys_ok fl (toggleSelected E m)" "sys_ok fl (toggleAllVisible m)"
    "sys_ok fl (dispatchArchive E m)"
proof -
  show W: "sys_ok fl (startWatch E m)" using assms by (auto simp: startWatch_def Let_def intro!: sys_intros)
  show "sys_ok fl (ToggleWatch E m)" using assms W by (auto simp: ToggleWatch_def intro!: sys_intros)
  show "sys_ok fl (cancelAllFetches E m)" using assms by (auto simp: cancelAllFetches_def Let_def intro!: sys_intros)
  show "sys_ok fl (retryFailedFetch E m)"
    using assms by (auto simp: retryFailedFetch_def Let_def sys_ok_live intro!: sys_intros live_list_update split: option.split)
  show "sys_ok fl (fetch_key E m)" "sys_ok fl (first_fetch_key E m)"
    using assms by (auto simp: fetch_key_def first_fetch_key_def intro!: sys_intros)
  show "sys_ok fl (toggleSelected E m)"
    using assms
    by (auto simp: toggleSelected_def sys_ok_live live_nth at_cursor_less intro!: sys_intros live_list_update split: option.split)
  show "sys_ok fl (toggleAllVisible m)"
    using assms by (auto simp: toggleAllVisible_def Let_def list_all_iff intro!: sys_intros)
  show "sys_ok fl (dispatchArchive E m)" using assms by (auto simp: dispatchArchive_def Let_def intro!: sys_intros)
qed

lemma sys_ok_ticks [sys_intros]:
  assumes "sys_ok fl m"
  shows "sys_ok fl (OnWatchTick E ep m)" "sys_ok fl (OnDispatchInstanceDone E crn b m)" "sys_ok fl (OnArchiveDispatched b n m)"
proof -
  have R: "sys_ok fl (startWatchRound E m)"
    using assms by (auto simp: startWatchRound_def Let_def intro!: sys_intros live_map)
  show "sys_ok fl (OnWatchTick E ep m)" using assms R by (auto simp: OnWatchTick_def intro!: sys_intros)
  show "sys_ok fl (OnDispatchInstanceDone E crn b m)" using assms by (auto simp: OnDispatchInstanceDone_def Let_def intro!: sys_intros)
  show "sys_ok fl (OnArchiveDispatched b n m)" using assms by (auto simp: OnArchiveDispatched_def intro!: sys_intros)
qed

lemma sys_ok_snapshots [sys_intros]:
  assumes "sys_ok fl m"
  shows "sys_ok fl (OnSnapshotRestore E s path m)" "sys_ok fl (OnViewInContext crn m)" "sys_ok fl (EvictIfCurrentBacking E b m)"
    "sys_ok fl (OnSnapshotRenamed E old new m)"
  using assms
  by (auto simp: OnSnapshotRestore_def OnViewInContext_def EvictIfCurrentBacking_def OnSnapshotRenamed_def emitSelect_def Let_def
      intro!: sys_intros live_map)

lemma sys_ok_mouse [sys_intros]:
  assumes "sys_ok fl m"
  shows "sys_ok fl (fst (p_OnMouseClick E x y m))" "sys_ok fl (fst (p_OnMouseDoubleClick E x y m))"
    "sys_ok fl (p_OnMouseScroll n m)" "sys_ok fl (p_OnPaste E t m)"
proof -
  have C: "sys_ok fl (put_cursor i m)" for i using assms by (simp add: put_cursor_def)
  show 1: "sys_ok fl (fst (p_OnMouseClick E x y m))"
    using assms C by (auto simp: p_OnMouseClick_def emitSelect_def Let_def intro!: sys_intros split: region.split)
  show "sys_ok fl (fst (p_OnMouseDoubleClick E x y m))"
    using assms C 1 by (auto simp: p_OnMouseDoubleClick_def OpenInLogViewer_def intro!: sys_intros split: region.split)
  show "sys_ok fl (p_OnMouseScroll n m)" "sys_ok fl (p_OnPaste E t m)"
    using assms by (auto simp: p_OnMouseScroll_def p_OnPaste_def emitSelect_def Let_def intro!: sys_intros)
qed

lemma sys_ok_event: "sys_ok fl m \<Longrightarrow> sys_ok fl (p_event E ev m)"
  by (cases ev) (simp_all add: sys_intros)

interpretation picker: event_machine "sys_ok fl" "\<lambda>(E, ev). p_event E ev" for fl
  by unfold_locales (auto intro: sys_ok_event)

subsection \<open>A flush comes back\<close>

lemma sys_ok_stale: "ep \<noteq> p_fetchEpoch m \<Longrightarrow> sys_ok (xs @ (crn, logs, ep) # ys) m \<Longrightarrow> sys_ok (xs @ ys) m"
  by (simp add: sys_ok_def current_def)

lemma write_flush_work:
  assumes "p_container m \<noteq> None" "list_all live (p_instances m)"
  shows "p_fetchEpoch (fst (write_flush E crn res m)) = p_fetchEpoch m" "p_pendingFlushes (fst (write_flush E crn res m)) = p_pendingFlushes m"
    "flights_of (p_out (fst (write_flush E crn res m))) = flights_of (p_out m)" "p_container (fst (write_flush E crn res m)) \<noteq> None"
    "p_file (fst (write_flush E crn res m)) = p_file m" "list_all live (p_instances (fst (write_flush E crn res m)))"
    "p_panicked (fst (write_flush E crn res m)) = p_panicked m"
  using assms
  by (auto simp: write_flush_def put_container_def map_insts_def Let_def split: sum.split option.split)

lemma sys_ok_flushed:
  assumes "sys_ok (xs @ (crn, logs, ep) # ys) m"
  shows "sys_ok (xs @ ys) (OnInstanceFlushed E crn res ep m)"
proof (cases "ep = p_fetchEpoch m")
  case True
  let ?r = "fst (write_flush E crn res m)"
  have "p_pendingFlushes m \<noteq> 0" using assms True by (simp add: sys_ok_def current_def)
  then have "p_container m \<noteq> None" "list_all live (p_instances m)" using assms by (auto simp: sys_ok_def)
  note w = write_flush_work [OF this, of E crn res]
  have "sys_ok (xs @ ys) (?r\<lparr>p_pendingFlushes := p_pendingFlushes ?r - 1\<rparr>)"
    using assms True w by (simp add: sys_ok_def current_def)
  then show ?thesis
    using True by (auto simp: OnInstanceFlushed_def Let_def intro!: sys_intros)
qed (use assms sys_ok_stale in \<open>auto simp: OnInstanceFlushed_def\<close>)

lemma sys_ok_taken: "sys_ok fl m \<Longrightarrow> sys_ok (fl @ flights_of (p_out m)) (m\<lparr>p_out := []\<rparr>)"
  by (simp add: sys_ok_def)

lemma sys_step_ok: "sys_step s s' \<Longrightarrow> sys_ok (snd s) ((fst s)\<lparr>p_out := []\<rparr>) \<Longrightarrow> sys_ok (snd s') ((fst s')\<lparr>p_out := []\<rparr>)"
  by (induction rule: sys_step.induct) (auto intro!: sys_ok_taken [of "xs @ ys" for xs ys, simplified] sys_ok_taken sys_ok_event sys_ok_flushed)

lemma sys_run_ok:
  assumes "sys_step\<^sup>*\<^sup>* (pk_New E d, []) (m, fl)"
  shows "sys_ok fl (m\<lparr>p_out := []\<rparr>)"
proof -
  have "sys_ok (snd s') ((fst s')\<lparr>p_out := []\<rparr>)" if "sys_step\<^sup>*\<^sup>* (pk_New E d, []) s'" for s'
    using that
  proof (induction rule: rtranclp_induct)
    case base
    then show ?case by (simp add: sys_ok_def pk_New_def Let_def current_def newInstances_def list_all_iff)
  qed (rule sys_step_ok)
  from this [OF assms] show ?thesis by simp
qed

text \<open>
  C16: The counter that holds back the end of a fetch is exact, in every run and whatever the order in which messages and
  flushes arrive: it is the number of flushes of the current fetch in flight, and as long as there is one the working file
  they are to be written to is open. A flush of an earlier fetch is not counted.
\<close>

theorem pending_flushes_are_in_flight:
  assumes "sys_step\<^sup>*\<^sup>* (pk_New E d, []) (m, fl)"
  shows "p_pendingFlushes m = int (length (current (p_fetchEpoch m) fl))
     \<and> (current (p_fetchEpoch m) fl \<noteq> [] \<longrightarrow> p_container m \<noteq> None \<and> p_file m \<noteq> None)"
  using sys_run_ok [OF assms] by (auto simp: sys_ok_def)

section \<open>Cancelling\<close>

definition at_rest :: "('q, 'c) inst \<Rightarrow> bool" where
  "at_rest i \<longleftrightarrow> in_state i \<noteq> PhInProgress \<and> in_state i \<noteq> PhAuthInProgress"

lemma at_rest_update: "list_all at_rest is \<Longrightarrow> (\<And>i. at_rest (f i)) \<Longrightarrow> list_all at_rest (update_crn crn f is)"
  by (induction "is") auto

lemma done_update: "AreAllQueriesDone is \<Longrightarrow> (\<And>i. \<not> busy (in_state (f i))) \<Longrightarrow> AreAllQueriesDone (update_crn crn f is)"
  by (induction "is") (auto simp: AreAllQueriesDone_def)

lemma fold_member_keeps: "P s \<Longrightarrow> (\<And>x s. P s \<Longrightarrow> P (f x s)) \<Longrightarrow> P (fold f xs s)"
  by (induction xs arbitrary: s) auto

lemma not_busy_lose: "\<not> busy (in_state (lose now i))"
  by (simp add: busy_def lose_def)

lemma maybeFinalizeFetch_done:
  assumes "p_container m \<noteq> None \<longrightarrow> p_file m \<noteq> None" and "AreAllQueriesDone (p_instances m)"
  shows "AreAllQueriesDone (p_instances (maybeFinalizeFetch E m))"
proof -
  have *: "AreAllQueriesDone (p_instances (finishFirstFetch E x))" if "AreAllQueriesDone (p_instances x)" for x :: "('a, 'b) picker"
    using that by (auto simp: finishFirstFetch_def Let_def map_insts_def showNotice_def p_emit_def
        intro!: fold_member_keeps [where P = AreAllQueriesDone] done_update not_busy_lose split: option.split)
  have 1: "p_instances (emitFetchDoneEffects E b x) = p_instances x" for b and x :: "('a, 'b) picker"
    by (simp add: emitFetchDoneEffects_def Let_def p_emit_def)
  show ?thesis
    using assms finalizeOrNotify_work(1) [of m E] discardBackingContainer_work(1) [of m E]
    by (auto simp: maybeFinalizeFetch_def Let_def 1 same_work_def intro!: *)
qed

lemma maybeFinalizeFetch_watching:
  assumes "p_container m \<noteq> None \<longrightarrow> p_file m \<noteq> None"
  shows "p_watching (maybeFinalizeFetch E m) = p_watching m"
proof -
  have 1: "p_watching (finishFirstFetch E x) = p_watching x" "p_watching (emitFetchDoneEffects E b x) = p_watching x"
    for b and x :: "('a, 'b) picker"
    by (auto simp: finishFirstFetch_def emitFetchDoneEffects_def Let_def p_emit_def map_insts_def showNotice_def split: option.split)
  show ?thesis
    using assms finalizeOrNotify_work(1) [of m E] discardBackingContainer_work(1) [of m E]
    by (auto simp: maybeFinalizeFetch_def Let_def 1 same_work_def)
qed

text \<open>The instances when \<open>cancelAllFetches\<close> settles.\<close>

definition cancel_one :: "('q, 'c) penv \<Rightarrow> bool \<Rightarrow> ('q, 'c) inst \<Rightarrow> ('q, 'c) inst" where
  "cancel_one E watching i =
     CancelQuery (pe_now E) (transition_one (pe_now E) [] PhCancelled []
       (if watching \<and> in_state i = PhWatching then lose (pe_now E) i else i))"

definition cancelled :: "('q, 'c) penv \<Rightarrow> ('q, 'c) picker \<Rightarrow> ('q, 'c) picker" where
  "cancelled E m =
     map_insts (CancelQueries (pe_now E)) (transition E [] PhCancelled [] (rearm_auth (stopWatch E (m\<lparr>p_fetchCancelled := True\<rparr>))))"

lemma cancelAllFetches_cancelled:
  "cancelAllFetches E m = (settle E (cancelled E m))\<lparr>p_collecting := False, p_fetching := False\<rparr>"
  by (simp add: cancelAllFetches_def cancelled_def Let_def)

lemma cancelled_fields [simp]:
  "p_instances (cancelled E m) = map (cancel_one E (p_watching m)) (p_instances m)"
  "\<not> p_watching (cancelled E m)" "p_container (cancelled E m) = p_container m" "p_file (cancelled E m) = p_file m"
  "p_pendingFlushes (cancelled E m) = p_pendingFlushes m" "p_dir (cancelled E m) = p_dir m"
  "p_members (cancelled E m) = p_members m" "p_hasMembers (cancelled E m) = p_hasMembers m" "p_out (cancelled E m) = p_out m"
  by (auto simp: cancelled_def map_insts_def transition_def rearm_auth_def stopWatch_def CancelQueries_def TransitionAuthing_def
      cancel_one_def comp_def)

lemma cancel_one_state:
  assumes "live i" "in_state i = PhWatching \<longrightarrow> w"
  shows "\<not> busy (in_state (cancel_one E w i))"
  using assms
  by (auto simp: cancel_one_def busy_def live_def lose_def transition_one_def CancelQuery_def Let_def split: option.splits if_splits)

lemma cancel_one_busy:
  assumes "live i" "busy (in_state (cancel_one E w i))"
  shows "in_state (cancel_one E w i) = PhWatching \<and> \<not> w"
  using assms
  by (auto simp: cancel_one_def busy_def live_def lose_def transition_one_def CancelQuery_def Let_def split: option.splits if_splits)

lemma settle_cancelled: "settle E (cancelled E m) =
   (if AreAllQueriesDone (p_instances (cancelled E m)) then maybeFinalizeFetch E (cancelled E m) else cancelled E m)"
  by (simp add: settle_def)

text \<open>
  C17: Cancelling all fetches leaves nothing running: in every reachable state the watch is over afterwards, fetches and
  collects are unlocked, and every row is at rest but those that were waiting for a round of a watch that was already over.
\<close>

theorem cancel_all_leaves_nothing_running:
  assumes "sys_step\<^sup>*\<^sup>* (pk_New E0 d, []) (m, fl)"
  shows "list_all (\<lambda>i. busy (in_state i) \<longrightarrow> in_state i = PhWatching \<and> \<not> p_watching m) (p_instances (cancelAllFetches E m))
     \<and> (p_watching m \<longrightarrow> AreAllQueriesDone (p_instances (cancelAllFetches E m)))
     \<and> \<not> p_fetching (cancelAllFetches E m) \<and> \<not> p_collecting (cancelAllFetches E m) \<and> \<not> p_watching (cancelAllFetches E m)"
proof -
  have inv: "list_all live (p_instances m)" "p_container m \<noteq> None \<longrightarrow> p_file m \<noteq> None"
    using sys_run_ok [OF assms(1)] by (auto simp: sys_ok_def)
  let ?ok = "\<lambda>is. list_all (\<lambda>i. busy (in_state i) \<longrightarrow> in_state i = PhWatching \<and> \<not> p_watching m) is"
  have ok: "?ok (p_instances (cancelled E m))"
    using inv(1) cancel_one_busy [of _ E "p_watching m"] by (auto simp: list_all_iff)
  have done_ok: "?ok is" if "AreAllQueriesDone is" for "is" :: "('a, 'b) inst list"
    using that by (auto simp: AreAllQueriesDone_def list_ex_iff list_all_iff)
  have fin: "AreAllQueriesDone (p_instances (maybeFinalizeFetch E (cancelled E m)))" if "AreAllQueriesDone (p_instances (cancelled E m))"
    using that inv(2) by (intro maybeFinalizeFetch_done) simp_all
  have "?ok (p_instances (cancelAllFetches E m))"
    using ok done_ok [OF fin] unfolding cancelAllFetches_cancelled settle_cancelled by (simp del: cancelled_fields(1))
  moreover from this have "p_watching m \<longrightarrow> AreAllQueriesDone (p_instances (cancelAllFetches E m))"
    by (auto simp: AreAllQueriesDone_def list_ex_iff list_all_iff)
  ultimately show ?thesis
    using inv(2) by (simp add: cancelAllFetches_cancelled settle_cancelled maybeFinalizeFetch_watching)
qed

section \<open>A watch that reaches its deadline between two rounds\<close>

lemma watching_not_done: "i \<in> set is \<Longrightarrow> in_state i = PhWatching \<Longrightarrow> \<not> AreAllQueriesDone is"
  by (auto simp: AreAllQueriesDone_def list_ex_iff busy_def)

lemma cancel_one_watching: "in_state i = PhWatching \<Longrightarrow> in_state (cancel_one E False i) = PhWatching"
  by (auto simp: cancel_one_def transition_one_def CancelQuery_def Let_def split: option.split)

text \<open>
  C38: When the duration of a watch runs out while rows wait for its next round, the tick ends the watch but leaves those rows
  waiting: the working file is neither published nor discarded, the picker stays locked against fetches, and cancelling all
  fetches does not release it.
\<close>

theorem deadline_strands_the_watch:
  assumes "p_watching m" "watchCapHit E m" "i \<in> set (p_instances m)" "in_state i = PhWatching"
  shows "let m' = OnWatchTick E (p_watchEpoch m) m
    in \<not> p_watching m' \<and> p_instances m' = p_instances m \<and> p_container m' = p_container m \<and> p_fetching m' = p_fetching m
     \<and> fetch_key E' m' = m' \<and> first_fetch_key E' m' = m' \<and> ToggleWatch E' m' = m' \<and> settle E' m' = m'
     \<and> \<not> AreAllQueriesDone (p_instances (cancelAllFetches E' m')) \<and> p_container (cancelAllFetches E' m') = p_container m"
proof -
  let ?m = "m\<lparr>p_watching := False, p_watchEpoch := p_watchEpoch m + 1, p_nextRoundAt := None\<rparr>"
  have nd: "\<not> AreAllQueriesDone (p_instances m)" by (rule watching_not_done [OF assms(3,4)])
  have eq: "OnWatchTick E (p_watchEpoch m) m = ?m"
    using assms(1,2) nd by (simp add: OnWatchTick_def endWatch_def maybeFinalizeFetch_def)
  have "cancel_one E' False i \<in> set (p_instances (cancelled E' ?m))" using assms(3) by simp
  then have "\<not> AreAllQueriesDone (p_instances (cancelled E' ?m))"
    using cancel_one_watching [OF assms(4)] by (rule watching_not_done)
  then show ?thesis
    using nd unfolding eq Let_def
    by (simp add: fetch_key_def first_fetch_key_def ToggleWatch_def settle_def cancelAllFetches_cancelled)
qed

section \<open>A fetch cancelled in the middle of a stream\<close>

lemma validate_bad: "x \<in> set is \<Longrightarrow> is_logCount x \<noteq> 0 \<Longrightarrow> is_logsSize x = 0 \<Longrightarrow> validateLogSizes is \<noteq> None"
  by (induction "is") auto

lemma SaveStateFrame_bad: "validateLogSizes (sn_instances s) \<noteq> None \<Longrightarrow> fst (SaveStateFrame J out s st) \<noteq> None"
  by (auto simp: SaveStateFrame_def)

lemma FindByCRN_map:
  assumes "\<And>i. in_CRN (f i) = in_CRN i"
  shows "FindByCRN crn (map f is) = map_option f (FindByCRN crn is)"
  by (induction "is") (auto simp: FindByCRN_def assms)

lemma cancel_one_keeps:
  "in_CRN (cancel_one E w i) = in_CRN i" "in_Store (cancel_one E w i) = in_Store i" "in_readOnly (cancel_one E w i) = in_readOnly i"
  "in_flushedSize (cancel_one E w i) = in_flushedSize i" "in_flushedCount (cancel_one E w i) = in_flushedCount i"
  by (auto simp: cancel_one_def CancelQuery_def transition_one_def ResetTimer_def lose_def Let_def split: option.split)

text \<open>A row with logs in its store of which no frame was written: its record in the state frame is refused.\<close>

definition file_names :: "('q, 'c) picker \<Rightarrow> bytes set" where
  "file_names m = fst ` set (p_dir m)"

lemma claim_None_names: "fst ` set (SetOwnInUse pid [] d) \<subseteq> fst ` set d"
  by (auto simp: SetOwnInUse_def remove_file_def)

lemma write_node_names: "fst ` set (write_node f data d) = fst ` set d"
  by (induction d) (auto simp: write_node_def)

lemma put_container_names [simp]: "file_names (put_container w m) = file_names m" "p_out (put_container w m) = p_out m"
  "p_fetchCancelled (put_container w m) = p_fetchCancelled m"
  by (auto simp: put_container_def file_names_def write_node_names split: option.splits)

lemma closeBackingContainer_names:
  "file_names (fst (closeBackingContainer E m)) \<subseteq> file_names m" "p_out (fst (closeBackingContainer E m)) = p_out m"
  "p_path (fst (closeBackingContainer E m)) = None" "p_fetchCancelled (fst (closeBackingContainer E m)) = p_fetchCancelled m"
proof -
  have 1: "p_dir (fst (closeBackingContainer E m)) = (if pe_claim_ok E [] then SetOwnInUse (pe_pid E) [] (p_dir x) else p_dir x)"
    if "x = (case p_container m of None \<Rightarrow> m | Some w \<Rightarrow> put_container (snd (Close (pe_close E) w)) m)" for x
    using that by (auto simp: closeBackingContainer_def Let_def setBackingPath_def split: option.splits)
  show "file_names (fst (closeBackingContainer E m)) \<subseteq> file_names m"
  proof -
    let ?x = "case p_container m of None \<Rightarrow> m | Some w \<Rightarrow> put_container (snd (Close (pe_close E) w)) m"
    have "file_names ?x = file_names m" by (simp split: option.split)
    then show ?thesis using claim_None_names [of "pe_pid E" "p_dir ?x"] by (simp add: file_names_def 1 [OF refl])
  qed
qed (auto simp: closeBackingContainer_def Let_def setBackingPath_def split: option.splits)

lemma finalize_refused:
  assumes "FindByCRN (of_bytes (is_crn mb)) (p_instances m) = Some i" "mb \<in> set (p_members m)" "p_hasMembers m"
    "in_readOnly i = None" "st_logCount (in_Store i) > 0" "in_flushedSize i = 0" "p_container m \<noteq> None" "p_file m \<noteq> None"
  shows "\<exists>x. finalizeBackingContainer E m = (fst (closeBackingContainer E x), NotSaved)
     \<and> file_names x = file_names m \<and> p_out x = p_out m \<and> p_fetchCancelled x = p_fetchCancelled m"
proof -
  obtain w wip where w: "p_container m = Some w" "p_file m = Some wip" using assms(7,8) by auto
  let ?meta = "snapshotMeta m"
  let ?r1 = "EnsureInstanceFrames (pe_J E) (pe_outcomes E) (sn_instances ?meta) w"
  let ?m1 = "put_container (snd ?r1) m"
  let ?r2 = "SaveStateFrame (pe_J E) (pe_outcomes E) (?meta\<lparr>sn_id := si_uuid (pe_J E)\<rparr>) (snd ?r1)"
  have "SnapshotizeMeta i \<in> set (sn_instances ?meta)"
    using assms(1-3) by (auto simp: snapshotMeta_def Let_def intro!: image_eqI [of _ _ mb])
  moreover have "is_logCount (SnapshotizeMeta i) \<noteq> 0" "is_logsSize (SnapshotizeMeta i) = 0"
    using assms(4-6) by (simp_all add: SnapshotizeMeta_def DisplayLogCount_def)
  ultimately have "fst ?r2 \<noteq> None"
    by (intro SaveStateFrame_bad) (use validate_bad in simp)
  then show ?thesis
    using w
    by (auto simp: finalizeBackingContainer_def Let_def intro!: exI [of _ "if fst ?r1 \<noteq> None then ?m1 else put_container (snd ?r2) ?m1"])
qed

lemma maybeFinalizeFetch_refused:
  assumes "finalizeBackingContainer E m = (fst (closeBackingContainer E x), NotSaved)" "file_names x = file_names m" "p_out x = p_out m"
    "p_fetchCancelled x" "AreAllQueriesDone (p_instances m)" "p_pendingFlushes m = 0" "p_container m \<noteq> None" "HasAnyLogs (p_instances m)"
    "p_candidates m = None" "p_file m \<noteq> None"
  shows "p_out (maybeFinalizeFetch E m) = p_out m @ [PShowDialog (str ''Snapshot'') lost_notice]"
    "file_names (maybeFinalizeFetch E m) \<subseteq> file_names m" "p_path (maybeFinalizeFetch E m) = None" "p_container (maybeFinalizeFetch E m) = None"
proof -
  let ?f = "fst (closeBackingContainer E x)"
  have "p_candidates ?f = None"
    using finalizeBackingContainer_work(1) [of m E] assms(1,7,9,10) by (simp add: same_work_def)
  then show "p_out (maybeFinalizeFetch E m) = p_out m @ [PShowDialog (str ''Snapshot'') lost_notice]"
    "file_names (maybeFinalizeFetch E m) \<subseteq> file_names m" "p_path (maybeFinalizeFetch E m) = None" "p_container (maybeFinalizeFetch E m) = None"
    using assms closeBackingContainer_names [where E = E and m = x] closeBackingContainer_work(2) [where E = E and m = x]
    by (auto simp: maybeFinalizeFetch_def finalizeOrNotify_def showNotice_def p_emit_def emitFetchDoneEffects_def
        finishFirstFetch_def Let_def file_names_def)
qed


section \<open>The end of an old stream\<close>

lemma FindByCRN_update:
  assumes "\<And>i. in_CRN i = crn \<Longrightarrow> in_CRN (f i) = crn"
  shows "FindByCRN crn (update_crn crn f is) = map_option f (FindByCRN crn is)"
  by (induction "is") (auto simp: FindByCRN_def assms)

lemma update_crn_other: "j \<in> set is \<Longrightarrow> in_CRN j \<noteq> crn \<Longrightarrow> j \<in> set (update_crn crn f is)"
  by (induction "is") auto

lemma stale_done:
  assumes "in_state i = PhInProgress" "mid \<noteq> st_queryID (in_Store i)" "st_logCount (in_Store i) > 0"
  shows "in_state (fst (done_inst E M False True mid [] i)) = PhSuccess"
    "in_Store (fst (done_inst E M False True mid [] i)) = ClearData (in_Store i)"
    "in_CRN (fst (done_inst E M False True mid [] i)) = in_CRN i"
    "snd (done_inst E M False True mid [] i) = Some (Snapshotize (in_Store i))"
  using assms by (simp_all add: done_inst_def inst_handleDone_def HandleLogStreamDoneMsg_def Let_def)

lemma ClearData_moves_on: "st_queryID (ClearData s) = st_queryID s + 1" "st_logCount (ClearData s) = 0"
  by (auto simp: ClearData_def CancelAll_def cancelAndNil_jq_def cancelAndNil_search_def cancelAndNil_filter_def cancel_ctx_def Let_def
      split: option.split)

lemma stale_stream:
  assumes "k \<noteq> st_queryID (in_Store i)"
  shows "inst_handleStream X M k logs [] [] i = i"
  using assms by (simp add: inst_handleStream_def HandleLogStreamMsg_def)


section \<open>Concrete runs\<close>

text \<open>A concrete session of two instances for the witnesses.\<close>

definition demo_log1 :: "nat \<Rightarrow> log" where
  "demo_log1 n = \<lparr>l_data = JStr [n], l_metadata = \<lparr>md_id = [n], md_ts = int n, md_severity = 3, md_priority = 0\<rparr>\<rparr>"

definition demo_env :: "(gostr, gostr) penv" where
  "demo_env = \<lparr>pe_X = demo_ext, pe_u = demo_ui,
     pe_conf = \<lparr>pc_maxRows = 10, pc_saveOnDone = True, pc_notifyOnDone = True, pc_maxAuto = 5, pc_watchMaxFetches = 0,
       pc_watchMaxDuration = 60, pc_watchCooldown = 15, pc_batch = 2,
       pc_effective = [\<lparr>cf_Name = [65], cf_CRN = [97], cf_url = [], cf_env = [101]\<rparr>, \<lparr>cf_Name = [66], cf_CRN = [98], cf_url = [], cf_env = [101]\<rparr>]\<rparr>,
     pe_now = 100,
     pe_J = \<lparr>si_marshal_data = \<lambda>l. Some [1], si_marshal_logs = \<lambda>ls. Some (replicate (length ls) 1),
       si_unmarshal_logs = \<lambda>b. Some (map (\<lambda>_. demo_log1 1) b), si_open_array = Some, si_next = \<lambda>b. Some None,
       si_marshal_state = \<lambda>s. Some [2], si_unmarshal_state = \<lambda>b. None, si_gzip = Some, si_gunzip = Some, si_uuid = [7], si_crn_ok = \<lambda>b. True\<rparr>,
     pe_L = \<lparr>sl_format = \<lambda>t. [48], sl_stamp_ok = \<lambda>b. True, sl_alive = \<lambda>p. True, sl_lower = id, sl_newest = id,
       sl_rm_fails = \<lambda>b. False, sl_link_fails = \<lambda>b. False\<rparr>,
     pe_outcomes = \<lambda>b. None, pe_close = None, pe_sync_ok = True, pe_fclose_ok = True, pe_dir_ok = True, pe_claim_ok = \<lambda>b. True,
     pe_external = \<lambda>b. None, pe_pid = 1, pe_token = [116], pe_crn = \<lambda>c. Inl [], pe_textwidth = length, pe_labelWidth = 4\<rparr>"

text \<open>Running a list of events in one environment.\<close>

fun run_events :: "('q, 'c) penv \<Rightarrow> ('q, 'c) pevent list \<Rightarrow> ('q, 'c) picker \<times> flight list \<Rightarrow> ('q, 'c) picker \<times> flight list" where
  "run_events E [] s = s"
| "run_events E (ev # evs) s =
     (let m' = p_event E ev ((fst s)\<lparr>p_out := []\<rparr>) in run_events E evs (m', snd s @ flights_of (p_out m')))"

lemma run_events_steps: "sys_step\<^sup>*\<^sup>* s (run_events E evs s)"
proof (induction evs arbitrary: s)
  case (Cons ev evs)
  have "sys_step s (p_event E ev ((fst s)\<lparr>p_out := []\<rparr>), snd s @ flights_of (p_out (p_event E ev ((fst s)\<lparr>p_out := []\<rparr>))))"
    by (cases s) (simp add: sys_step.event)
  then show ?case using Cons.IH by (simp add: Let_def converse_rtranclp_into_rtranclp)
qed simp

definition demo_s1 where "demo_s1 = run_events demo_env [EContext [97]] (pk_New demo_env [], [])"
definition demo_s2 where "demo_s2 = run_events demo_env [EFetch] demo_s1"
definition demo_s3 where "demo_s3 = run_events demo_env [EAuthResolved [97] [] [] 1] demo_s2"
definition demo_s4 where "demo_s4 = run_events demo_env [EStream [97] 2 [demo_log1 1] [] []] demo_s3"

lemma run_append: "sys_step\<^sup>*\<^sup>* a s \<Longrightarrow> sys_step\<^sup>*\<^sup>* a (run_events E evs s)"
  by (rule rtranclp_trans [OF _ run_events_steps])

lemma demo_reachable: "sys_step\<^sup>*\<^sup>* (pk_New demo_env [], []) demo_s4"
  unfolding demo_s1_def demo_s2_def demo_s3_def demo_s4_def by (intro run_append rtranclp.rtrancl_refl)

lemmas demo_defs = demo_env_def pk_New_def newInstances_def map_insts_def syncInstanceState_def Let_def

lemma demo_s1_simps [simp]:
  "p_instances (fst demo_s1) = [(NewInstance 2 [65] [] [97] [101])\<lparr>in_state := PhEnabled\<rparr>, NewInstance 2 [66] [] [98] [101]]"
  "p_dir (fst demo_s1) = []" "p_file (fst demo_s1) = None" "p_container (fst demo_s1) = None" "p_pendingLoads (fst demo_s1) = []"
  "p_authGeneration (fst demo_s1) = 0" "p_fetchEpoch (fst demo_s1) = 0" "p_candidates (fst demo_s1) = None" "p_watching (fst demo_s1) = False" "p_collecting (fst demo_s1) = False"
  "snd demo_s1 = []" "mgr_jq (p_M (fst demo_s1)) = []" "mgr_search (p_M (fst demo_s1)) = []" "mgr_filters (p_M (fst demo_s1)) = []"
  by (simp_all add: mgr_New_def demo_s1_def demo_defs OnViewInContext_def Enable_def Disable_def NewInstance_def)

lemma demo_wip: "CreateWip [116] 1 [] = Some (wip_name [116] 1, [(wip_name [116] 1, \<lparr>fn_data = [], fn_mtime = 0, fn_isDir = False\<rparr>)])"
  by (simp add: CreateWip_def)

lemma not_suffix_Nil: "\<not> HasSuffix [] WipSuffix"
  by (simp add: HasSuffix_def WipSuffix_def FileExt_def bs_def)

lemma AreAllQueriesDone_simps: "AreAllQueriesDone [] = True" "AreAllQueriesDone (i # is) \<longleftrightarrow> \<not> busy (in_state i) \<and> AreAllQueriesDone is"
  by (simp_all add: AreAllQueriesDone_def)

text \<open>The rows before and after the answer of the authentication, and the store of the first.\<close>

definition demo_b :: "(gostr, gostr) inst" where "demo_b = ResetTimer (ClearStore (NewInstance 2 [66] [] [98] [101]))"

definition demo_a2 :: "(gostr, gostr) inst" where
  "demo_a2 = StartAuthTimer 100 (ResetTimer (ClearStore (NewInstance 2 [65] [] [97] [101])))"

lemma demo_s2_simps [simp]:
  "p_instances (fst demo_s2) = [demo_a2, demo_b]"
  "p_container (fst demo_s2) = Some (NewWriter, [])" "p_authGeneration (fst demo_s2) = 1" "p_candidates (fst demo_s2) = None"
  "p_watching (fst demo_s2) = False" "p_collecting (fst demo_s2) = False" "p_hasMembers (fst demo_s2)" "map is_crn (p_members (fst demo_s2)) = [to_bytes [97]]"
  "mgr_jq (p_M (fst demo_s2)) = []" "mgr_search (p_M (fst demo_s2)) = []" "mgr_filters (p_M (fst demo_s2)) = []"
  "snd demo_s2 = []" "p_fetchEpoch (fst demo_s2) = 1"
  by (simp_all add: demo_s2_def demo_a2_def demo_b_def Let_def fetch_key_def AreAllQueriesDone_simps busy_def NewInstance_def startFetch_def
      startFetchWithSources_def removeReadOnly_def Configured_def IsReadOnly_def ClearSources_def map_insts_def captureSnapshotMembers_def
      setSnapshotMembers_def EnabledCRNs_def IsEnabled_def discardBackingContainer_def closeBackingContainer_def drainPendingLoads_def
      setBackingPath_def SetOwnInUse_def remove_file_def not_suffix_Nil open_wip_def ResolveTokens_def resolve_one_def spawn_auth_def
      demo_env_def demo_wip ClearStore_def ResetTimer_def StartAuthTimer_def member_of_def FindByCRN_def SnapshotizeMeta_def)

definition demo_a3 :: "(gostr, gostr) inst" where
  "demo_a3 = demo_a2\<lparr>in_Store := StartStream 10 (in_Store demo_a2), in_cancel := Some 2, in_state := PhInProgress\<rparr>"

lemma demo_a2_simps [simp]:
  "in_CRN demo_a2 = [97]" "in_state demo_a2 = PhAuthInProgress" "in_readOnly demo_a2 = None" "in_source demo_a2 = []"
  "in_Store demo_a2 = Clear (NewLogStore [97] 2)" "in_flushedSize demo_a2 = 0" "in_start demo_a2 = 100" "in_last demo_a2 = 100"
  "in_CRN demo_b = [98]" "in_state demo_b = PhDisabled" "in_readOnly demo_b = None" "in_env demo_a2 = [101]" "in_Name demo_a2 = [65]"
  by (simp_all add: demo_a2_def demo_b_def StartAuthTimer_def ResetTimer_def ClearStore_def NewInstance_def)

lemma demo_s3_simps [simp]:
  "p_instances (fst demo_s3) = [demo_a3, demo_b]"
  "p_container (fst demo_s3) = Some (NewWriter, [])" "p_authGeneration (fst demo_s3) = 1" "p_candidates (fst demo_s3) = None"
  "p_watching (fst demo_s3) = False" "p_collecting (fst demo_s3) = False" "p_hasMembers (fst demo_s3)" "map is_crn (p_members (fst demo_s3)) = [to_bytes [97]]"
  "mgr_jq (p_M (fst demo_s3)) = []" "mgr_search (p_M (fst demo_s3)) = []" "mgr_filters (p_M (fst demo_s3)) = []"
  "snd demo_s3 = []" "p_fetchEpoch (fst demo_s3) = 1"
  by (simp_all add: demo_s3_def demo_a3_def Let_def OnMemberAuthResolved_def FindByCRN_def IsEnabled_def StartQuery_def StartTimer_def
      map_insts_def p_emit_def syncInstanceState_def demo_env_def SyncQueryRequestLimit_def SyncQueryLimit_def
      StartStream_def sizeBacking_def Clear_def ClearData_def CancelAll_def NewLogStore_def cancelAndNil_jq_def cancelAndNil_search_def
      cancelAndNil_filter_def cancel_ctx_def)

definition demo_a4 :: "(gostr, gostr) inst" where
  "demo_a4 = inst_handleStream demo_ext (p_M (fst demo_s3)) 2 [demo_log1 1] [] [] demo_a3"

lemma demo_s4_simps [simp]:
  "p_instances (fst demo_s4) = [demo_a4, demo_b]"
  "p_container (fst demo_s4) = Some (NewWriter, [])" "p_candidates (fst demo_s4) = None"
  "p_watching (fst demo_s4) = False" "p_collecting (fst demo_s4) = False" "p_hasMembers (fst demo_s4)" "map is_crn (p_members (fst demo_s4)) = [to_bytes [97]]"
  "snd demo_s4 = []" "p_fetchEpoch (fst demo_s4) = 1"
  by (simp_all add: demo_s4_def demo_a4_def Let_def OnLogStream_def race_rejects_def map_insts_def syncInstanceState_def demo_a3_def)
     (simp_all add: demo_env_def)

lemma demo_run: "sys_step\<^sup>*\<^sup>* (pk_New demo_env [], []) (fst demo_s4, [])"
  proof -
  have "demo_s4 = (fst demo_s4, [])" by (simp add: prod_eq_iff)
  then show ?thesis using demo_reachable by simp
qed

lemma demo_a4_simps [simp]:
  "in_CRN demo_a4 = [97]" "in_state demo_a4 = PhInProgress" "in_readOnly demo_a4 = None" "in_flushedSize demo_a4 = 0"
  "st_logCount (in_Store demo_a4) = 1"
  by (simp_all add: demo_a4_def inst_handleStream_def demo_a3_def)
     (simp add: HandleLogStreamMsg_def StartStream_def sizeBacking_def Clear_def ClearData_def CancelAll_def NewLogStore_def
      cancelAndNil_jq_def cancelAndNil_search_def cancelAndNil_filter_def cancel_ctx_def Let_def add_errs_def put_row_def
      is_context_root_def dispatchPendingBatches_def prepareDispatchEpochs_def dispatch_loop.simps)
text \<open>A stream of the row ends, and one flush is in flight.\<close>

definition demo_s5 where "demo_s5 = run_events demo_env [EDone [97] 1 []] demo_s4"

lemma demo_a4_query: "st_queryID (in_Store demo_a4) = 2"
  by (simp add: demo_a4_def inst_handleStream_def demo_a3_def)
     (simp add: HandleLogStreamMsg_def StartStream_def sizeBacking_def Clear_def ClearData_def CancelAll_def NewLogStore_def
      cancelAndNil_jq_def cancelAndNil_search_def cancelAndNil_filter_def cancel_ctx_def Let_def add_errs_def put_row_def
      is_context_root_def dispatchPendingBatches_def prepareDispatchEpochs_def dispatch_loop.simps)

lemma demo_s5_flight: "snd demo_s5 = [([97], Snapshotize (in_Store demo_a4), 1)]" "p_fetchEpoch (fst demo_s5) = 1"
proof -
  have "p_pendingFlushes (fst demo_s4) = 0"
    using sys_run_ok [OF demo_run] by (simp add: sys_ok_def current_def)
  moreover have "FindByCRN [97] [demo_a4, demo_b] = Some demo_a4" by (simp add: FindByCRN_def)
  moreover have "AreAllQueriesDone [fst (done_inst demo_env M False True 1 [] demo_a4), demo_b]" for M
    using stale_done(1) [of demo_a4 1 demo_env M] by (simp add: AreAllQueriesDone_simps busy_def demo_a4_query)
  ultimately show "snd demo_s5 = [([97], Snapshotize (in_Store demo_a4), 1)]" "p_fetchEpoch (fst demo_s5) = 1"
    using stale_done(4) [of demo_a4 1 demo_env]
    by (simp_all add: demo_s5_def OnLogStreamDone_def Let_def map_insts_def settle_def maybeFinalizeFetch_def p_emit_def
        syncInstanceState_def demo_a4_query)
qed

theorem pending_flushes_are_in_flight_witness: "p_pendingFlushes (fst demo_s5) = 1"
proof -
  have "sys_step\<^sup>*\<^sup>* (pk_New demo_env [], []) (fst demo_s5, snd demo_s5)"
    using run_append [OF demo_reachable, of demo_env "[EDone [97] 1 []]"] by (simp add: demo_s5_def)
  from pending_flushes_are_in_flight [OF this] show ?thesis by (simp add: demo_s5_flight current_def)
qed

theorem cancel_all_leaves_nothing_running_witness:
  "map in_state (p_instances (fst demo_s4)) = [PhInProgress, PhDisabled]
   \<and> list_all (\<lambda>i. busy (in_state i) \<longrightarrow> in_state i = PhWatching) (p_instances (cancelAllFetches demo_env (fst demo_s4)))"
  using cancel_all_leaves_nothing_running [OF demo_run, of demo_env] by (auto simp: list_all_iff)

definition demo_watch :: "(gostr, gostr) picker" where
  "demo_watch = (pk_New demo_env [])\<lparr>p_instances := [demo_b\<lparr>in_state := PhWatching\<rparr>], p_watching := True, p_fetching := True,
     p_container := Some (NewWriter, []), p_watchStart := - 60 * second\<rparr>"

theorem deadline_strands_the_watch_witness:
  "let m' = OnWatchTick demo_env (p_watchEpoch demo_watch) demo_watch
   in \<not> p_watching m' \<and> p_fetching m' \<and> fetch_key demo_env m' = m' \<and> \<not> AreAllQueriesDone (p_instances (cancelAllFetches demo_env m'))"
proof -
  have "p_watching demo_watch" "watchCapHit demo_env demo_watch"
    "demo_b\<lparr>in_state := PhWatching\<rparr> \<in> set (p_instances demo_watch)" "in_state (demo_b\<lparr>in_state := PhWatching\<rparr>) = PhWatching" "p_fetching demo_watch"
    by (simp_all add: demo_watch_def watchCapHit_def demo_env_def second_def)
  with deadline_strands_the_watch [OF this(1-4), of demo_env] show ?thesis by (simp add: Let_def)
qed

definition demo_retry :: "(gostr, gostr) picker" where
  "demo_retry = (fst demo_s4)\<lparr>p_instances := [demo_a4, demo_b\<lparr>in_state := PhAuthInProgress\<rparr>]\<rparr>"


end
