(* ===== verification/Spec2Isabelle.thy ===== *)
theory Spec2Isabelle
  imports Uieditor_Correct Uiinput Logstore_Edge Container_Writer Filtermenu_Correct Contextmenu Tabs Snapfiles_Correct Snapio_Correct
    Timeline_Correct Jsonlex_Correct Logview_Edge Iclstream_Correct Auth_Correct Picker_Correct
begin

text \<open>
  A verification library for lognav, a terminal program that queries IBM Cloud Logs instances, streams their logs into
  stores, shows, filters, searches and transforms them, and saves a session as a snapshot file. Paths are under
  \<^verbatim>\<open>src/internal\<close>; \<^verbatim>\<open>logviewer\<close> is \<^verbatim>\<open>ui/components/logviewer\<close>.

  How the parts interact. A query (\<open>Iclstream\<close>) posts batches and one Done message. The instance picker (\<open>Picker_Fetch\<close>)
  routes them to the store of their instance (\<open>Logstore\<close>), which spawns jq, search and filter workers and takes back their
  chunks; at the end of a stream the logs are compressed off the loop and written as a frame of the working file (\<open>Container\<close>),
  which is published under a fresh name when the fetch is over (\<open>Snapfiles\<close>). The log viewer (\<open>Logview\<close>) is a cursor and a
  viewport over one store. Lists, fields and menus are shared by all views.

  \<^bold>\<open>Theories and sources.\<close> \<open>Prelude\<close> holds the text model, lemma collections and the locale \<open>event_machine\<close> (a step that keeps
  an invariant keeps it along every run), which each component interprets on its own step function; \<open>text_field\<close> in
  \<open>Uiinput\<close> and \<open>log_source\<close> in \<open>Timeline_Buckets\<close> are the contracts of a field with its owner and of a store with the timeline.
    \<^item> \<open>Uieditor\<close>, \<open>Editor_Wrap\<close>, \<open>Uieditor_Correct\<close>: \<^verbatim>\<open>ui/components/uieditor\<close>: the multi-line editor as lines, cursor and scroll offset, its edits, wrapping and viewport; the invariant of every run, insertion as insertion into the text, wrapping as a refinement of the text.
    \<^item> \<open>Uiinput\<close>: \<^verbatim>\<open>ui/components/uiinput\<close>: the one-line field, its horizontal view and caret; invariant, limits, clicks against drawing.
    \<^item> \<open>Keys\<close>, \<open>Listmodel\<close>, \<open>Listmodel_Correct\<close>, \<open>Canvas\<close>: \<^verbatim>\<open>ui/keys\<close>, \<^verbatim>\<open>ui/components/list\<close>, \<^verbatim>\<open>ui/canvas\<close>, \<^verbatim>\<open>ui/components/buttonstrip\<close>: key dispatch, the fuzzy list, hit tests against drawn rows, truncation.
    \<^item> \<open>Filtermenu\<close>, \<open>Filtermenu_Correct\<close>, \<open>Contextmenu\<close>, \<open>Tabs\<close>: \<^verbatim>\<open>ui/components/filtermenu\<close>, \<^verbatim>\<open>ui/components/contextmenu\<close> and \<^verbatim>\<open>ui/components/tabs\<close>: rules and placeholder rows, actions and the place of a menu, the tab bar.
    \<^item> \<open>Jqval\<close>, \<open>Log_Entry\<close>, \<open>Log_Filter\<close>, \<open>Log_Search\<close>, \<open>Jsonlex\<close>, \<open>Jsonlex_Correct\<close>: \<^verbatim>\<open>logviewer/jq.go\<close>, \<^verbatim>\<open>entry.go\<close>, \<^verbatim>\<open>wrap.go\<close>, \<^verbatim>\<open>filter.go\<close>, \<^verbatim>\<open>search.go\<close>, \<^verbatim>\<open>jsonlex.go\<close>, \<^verbatim>\<open>colorrule.go\<close> and package \<^verbatim>\<open>internal/filter\<close>: jq outputs, wrapped lines, filter rules, search hits, tokens.
    \<^item> \<open>Logstore\<close>, \<open>Logstore_Inv\<close>, \<open>Logstore_Run\<close>, \<open>Logstore_Cache\<close>, \<open>Logstore_Pass\<close>, \<open>Logstore_Edge\<close>: \<^verbatim>\<open>logviewer/logstore.go\<close>, \<^verbatim>\<open>epochcache.go\<close>, package \<^verbatim>\<open>internal/state\<close>: streaming in batches, workers, chunk handlers; the invariant of every interleaving, stale results are dropped, the asynchronous filter pass refines the synchronous one, the caches are transparent.
    \<^item> \<open>Logmenu\<close>, \<open>Logview\<close>, \<open>Logview_Ui\<close>, \<open>Logview_Correct\<close>, \<open>Logview_Edge\<close>: \<^verbatim>\<open>logviewer/logviewer.go\<close>, \<^verbatim>\<open>cursor.go\<close>, \<^verbatim>\<open>expand.go\<close>, \<^verbatim>\<open>menu.go\<close>, \<^verbatim>\<open>keybinds.go\<close>, \<^verbatim>\<open>render.go\<close>: cursor, viewport, mouse, menus; the cursor walks the drawn lines, the hit test inverts drawing.
    \<^item> \<open>Timeline\<close>, \<open>Timeline_Buckets\<close>, \<open>Timeline_Correct\<close>: \<^verbatim>\<open>ui/components/timeline\<close>: buckets, jumps, the bar; every log is counted once.
    \<^item> \<open>Container\<close>, \<open>Container_Writer\<close>, \<open>Snapio\<close>, \<open>Snapio_Correct\<close>, \<open>Snapfiles\<close>, \<open>Snapfiles_Correct\<close>: \<^verbatim>\<open>internal/snapshot\<close>: the frame format and its parser, what a file holds, the directory with publishing, holding, retention; written files read back, torn files keep their complete frames, nothing held is removed.
    \<^item> \<open>Auth\<close>, \<open>Auth_Correct\<close>: \<^verbatim>\<open>internal/icl/auth.go\<close>, CRNs of \<^verbatim>\<open>internal/config/types.go\<close>: the chain of credentials, the token cache, the session file; where tokens come from, what is sent, when a session is lost.
    \<^item> \<open>Iclstream\<close>, \<open>Iclstream_Correct\<close>: \<^verbatim>\<open>internal/icl\<close> without \<^verbatim>\<open>auth.go\<close>, \<^verbatim>\<open>ui/msgs/logstream.go\<close>: server-sent events, decoding, one Done message for every query.
    \<^item> \<open>Instances\<close>, \<open>Picker\<close>, \<open>Picker_Fetch\<close>, \<open>Picker_Correct\<close>: \<^verbatim>\<open>ui/components/instancepicker\<close>, \<^verbatim>\<open>ui/status\<close>: instances, the backing file, flushes, authentication messages, first-fetch race, watch, collect, dispatch, opening.

  A theory named after a component holds its record, data and operations in the order of the code; \<open>_Correct\<close>, \<open>_Inv\<close>, \<open>_Run\<close>,
  \<open>_Pass\<close> hold the lemmas, and \<open>_Edge\<close> the behaviours at the edges of what they assume. A Go method keeps its name, with a
  prefix where two components share it (\<open>ed_\<close>, \<open>in_\<close>, \<open>list_\<close>, \<open>fm_\<close>, \<open>tl_\<close>, \<open>v_\<close>, \<open>p_\<close>).

  \<^bold>\<open>Conventions.\<close> A handler is a function from state to state; what it posts or spawns is appended to a field of the state. The
  event loop runs one handler at a time, and a worker is one step that reads the state at the time it runs, so an interleaving
  is a list of events. A Go panic is a flag or \<open>None\<close>. Widths matter in frame lengths, log sizes, query limits and retention counts, which are words; other
  integers are unbounded. Third-party code is a parameter with its documented behaviour as named hypotheses (\<open>ext\<close>, \<open>uiext\<close>,
  \<open>snapio\<close>, \<open>snaplib\<close>, \<open>icl_lib\<close>, \<open>auth_ext\<close>, \<open>penv\<close>): JSON, gzip, jq, the Aho-Corasick automaton, display widths, fuzzy ranking, the clock, the file system's failures.

  \<^bold>\<open>Termination and fuel.\<close> Loops over data are structural or have a measure (batches left to dispatch, bytes left to
  parse, suffixes left below \<open>2 ^ 64\<close>, rows left to scan). \<open>stream_logs\<close> takes fuel, of which the length of the data is enough since
  an element takes at least a byte. The tokenizer runs as \<open>while_option\<close> and is shown to return.

  \<^bold>\<open>What the lemmas show of the code's faults.\<close> Some theorems state what the code does where it does not do what it means to, each
  for a class of states or on a concrete run: jq applied in the middle of a stream misplaces outputs, a filter
  pass after it is cancelled (\<open>Logstore_Edge\<close>); a list filtered after scrolling shows nothing and one reloaded under a filter
  panics (\<open>Listmodel_Correct\<close>); Enter in an empty context menu runs a hidden action (\<open>Contextmenu\<close>); an unknown severity
  panics the timeline; a resize leaves the cursor below its log (\<open>Logview_Edge\<close>), and a line is drawn on row 0 where the
  hit test finds none (\<open>Logview_Correct\<close>); a key with a closing bracket does not parse back (\<open>Logmenu\<close>); an outage answered
  in JSON ends a session (\<open>Auth_Correct\<close>); a deadline closes a query as if it had
  succeeded (\<open>Iclstream_Correct\<close>); a watch that reaches its deadline between two rounds is stuck, a fetch cancelled in the middle of a stream saves nothing, and the Done of an old stream ends its retry (\<open>Picker_Correct\<close>).

  \<^bold>\<open>Not modelled.\<close> The command line (\<^verbatim>\<open>cmd\<close>), the configuration and the session bus are
  input, output and third-party decoding; the runtime and the root model (\<^verbatim>\<open>ui/ui.go\<close>) are the loop that the conventions above
  describe; dialog, query editor, the file browsers and the status lines draw or wrap components that are
  modelled. Of the log viewer the cells of a rendered line, the clipboard and the export file are left out, and its
  render cache is recomputed; of the picker the cells of a row and the routing of keys.
\<close>

end
